(* ===== verification/Prelude.thy ===== *)
theory Prelude
  imports Main "HOL-Library.Word" "HOL-Library.Monad_Syntax"
begin

text \<open>
  Shared vocabulary of the development: the sizes of \<^verbatim>\<open>src/elastio-snap.h\<close> and the
  macros of \<^verbatim>\<open>src/main.c\<close> (rounding, segment counts), the error numbers the driver
  returns, 64-bit wrap-around, little-endian encoding of integers in memory buffers,
  and the lemma collections the other theories fill.

  Conventions used everywhere: an unsigned machine integer is a \<^typ>\<open>nat\<close> whose
  wrap-around is written out with \<open>wrap64\<close>; a flag word or a bit set is a word; a
  pointer to memory is a function from offsets to bytes; the C return code is an
  \<^typ>\<open>int\<close> (0 or a negative error number); a NULL dereference or an access outside
  an array is \<^term>\<open>None\<close>, so that a fault is never confused with a result.
\<close>

unbundle bit_operations_syntax

named_theorems frame_simps \<open>fields an operation leaves alone\<close>
named_theorems cow_defs \<open>definitions of the small cow manager operations\<close>

section \<open>Types and error numbers\<close>

type_synonym byte = "8 word"
type_synonym buf = "nat \<Rightarrow> byte"

abbreviation ENOENT :: int where "ENOENT \<equiv> 2"
abbreviation EIO :: int where "EIO \<equiv> 5"
abbreviation ENOMEM :: int where "ENOMEM \<equiv> 12"
abbreviation EFAULT :: int where "EFAULT \<equiv> 14"
abbreviation EBUSY :: int where "EBUSY \<equiv> 16"
abbreviation ENODEV :: int where "ENODEV \<equiv> 19"
abbreviation EINVAL :: int where "EINVAL \<equiv> 22"
abbreviation EFBIG :: int where "EFBIG \<equiv> 27"
abbreviation EOPNOTSUPP :: int where "EOPNOTSUPP \<equiv> 95"
abbreviation ENOTSUPP :: int where "ENOTSUPP \<equiv> 524"

section \<open>Sizes\<close>

definition PAGE_SIZE :: nat where [simp]: "PAGE_SIZE = 4096"
definition PAGE_SHIFT :: nat where [simp]: "PAGE_SHIFT = 12"
definition SECTOR_SIZE :: nat where [simp]: "SECTOR_SIZE = 512"
definition COW_BLOCK_LOG_SIZE :: nat where [simp]: "COW_BLOCK_LOG_SIZE = 12"
definition COW_BLOCK_SIZE :: nat where [simp]: "COW_BLOCK_SIZE = 4096"
definition COW_HEADER_SIZE :: nat where [simp]: "COW_HEADER_SIZE = 4096"
definition COW_SECTION_SIZE :: nat where [simp]: "COW_SECTION_SIZE = 4096"
definition SECTORS_PER_BLOCK :: nat where [simp]: "SECTORS_PER_BLOCK = 8"
definition SECTORS_PER_PAGE :: nat where [simp]: "SECTORS_PER_PAGE = 8"
definition COW_MAGIC :: nat where [simp]: "COW_MAGIC = 4776"
definition COW_UUID_SIZE :: nat where [simp]: "COW_UUID_SIZE = 16"
definition COW_CLEAN :: nat where [simp]: "COW_CLEAN = 0"
definition COW_INDEX_ONLY :: nat where [simp]: "COW_INDEX_ONLY = 1"
definition COW_VMALLOC_UPPER :: nat where [simp]: "COW_VMALLOC_UPPER = 2"
definition COW_VERSION_CHANGED_BLOCKS :: nat where [simp]: "COW_VERSION_CHANGED_BLOCKS = 1"

text \<open>Size of \<^verbatim>\<open>uint64_t\<close> and of \<^verbatim>\<open>struct cow_section\<close> (x86-64 layout: a byte
  padded to 8, a long, a pointer).\<close>

definition sizeof_u64 :: nat where [simp]: "sizeof_u64 = 8"
definition sizeof_cow_section :: nat where [simp]: "sizeof_cow_section = 24"

section \<open>Wrap-around arithmetic and the rounding macros\<close>

definition wrap64 :: "nat \<Rightarrow> nat" where
  "wrap64 n = n mod 2 ^ 64"

definition sub64 :: "nat \<Rightarrow> nat \<Rightarrow> nat" where
  "sub64 a b = wrap64 (a + 2 ^ 64 - b)"

definition NUM_SEGMENTS :: "nat \<Rightarrow> nat \<Rightarrow> nat" where
  "NUM_SEGMENTS x log_size = wrap64 (x + 2 ^ log_size - 1) div 2 ^ log_size"

definition ROUND_UP :: "nat \<Rightarrow> nat \<Rightarrow> nat" where
  "ROUND_UP x chunk = wrap64 (x + chunk - 1) div chunk * chunk"

definition ROUND_DOWN :: "nat \<Rightarrow> nat \<Rightarrow> nat" where
  "ROUND_DOWN x chunk = x div chunk * chunk"

definition ALIGN :: "nat \<Rightarrow> nat \<Rightarrow> nat" where
  "ALIGN x a = wrap64 (wrap64 (x + a - 1) div a * a)"

definition SECTOR_TO_BLOCK :: "nat \<Rightarrow> nat" where
  "SECTOR_TO_BLOCK sect = sect div SECTORS_PER_BLOCK"

lemma wrap64_id [simp]: "n < 2 ^ 64 \<Longrightarrow> wrap64 n = n"
  by (simp add: wrap64_def)

lemma wrap64_less [simp]: "wrap64 n < 2 ^ 64"
  by (simp add: wrap64_def)

lemma wrap64_less' [simp]: "wrap64 n < 18446744073709551616"
  using wrap64_less [of n] by simp

lemma wrap64_idem [simp]: "wrap64 (wrap64 n) = wrap64 n"
  by (simp add: wrap64_def)

lemma sub64_ge: "b \<le> a \<Longrightarrow> a < 2 ^ 64 \<Longrightarrow> sub64 a b = a - b"
proof -
  assume "b \<le> a" "a < 2 ^ 64"
  then have "a + 2 ^ 64 - b = (a - b) + 2 ^ 64" "a - b < 2 ^ 64"
    by (simp_all only: diff_add_assoc2 less_imp_diff_less)
  then show ?thesis by (simp only: sub64_def wrap64_def mod_add_self2 mod_less)
qed

lemma NUM_SEGMENTS_bounds:
  assumes "x + 2 ^ l - 1 < 2 ^ 64"
  shows "x \<le> NUM_SEGMENTS x l * 2 ^ l" and "NUM_SEGMENTS x l * 2 ^ l < x + 2 ^ l"
proof -
  let ?c = "2 ^ l :: nat"
  have c: "0 < ?c" by simp
  let ?q = "(x + ?c - 1) div ?c * ?c"
  have eq: "NUM_SEGMENTS x l * ?c = ?q" using assms by (simp add: NUM_SEGMENTS_def)
  have lo: "?q \<le> x + ?c - 1" by (rule div_times_less_eq_dividend)
  have hi: "x + ?c - 1 < ?q + ?c"
    using dividend_less_div_times [OF c, of "x + ?c - 1"] by (simp only: add.commute mult.commute)
  from hi c show "x \<le> NUM_SEGMENTS x l * ?c" unfolding eq by linarith
  from lo c show "NUM_SEGMENTS x l * ?c < x + ?c" unfolding eq by linarith
qed

section \<open>Integers in memory\<close>

definition u64_bytes :: "nat \<Rightarrow> buf" where
  "u64_bytes v k = word_of_nat (v div 256 ^ k)"

definition bytes_u64 :: "buf \<Rightarrow> nat" where
  "bytes_u64 b = foldr (\<lambda>k acc. unat (b k) + 256 * acc) [0..<8] 0"

definition bytes_u32 :: "buf \<Rightarrow> nat" where
  "bytes_u32 b = foldr (\<lambda>k acc. unat (b k) + 256 * acc) [0..<4] 0"

lemma unat_u64_bytes: "unat (u64_bytes v k) = v div 256 ^ k mod 256"
  by (simp add: u64_bytes_def unat_of_nat)

lemma digits_256: "foldr (\<lambda>k acc. v div 256 ^ k mod 256 + 256 * acc) [0..<n] 0 = v mod 256 ^ n"
  for v n :: nat
proof (induction n)
  case 0
  show ?case by simp
next
  case (Suc n)
  let ?d = "\<lambda>k acc. v div 256 ^ k mod 256 + 256 * acc"
  have gen: "foldr ?d [0..<n] a = foldr ?d [0..<n] 0 + 256 ^ n * a" for a
  proof (induction n arbitrary: a)
    case 0
    show ?case by simp
  next
    case (Suc m)
    show ?case
      using Suc.IH [of "?d m a"] Suc.IH [of "?d m 0"] by (simp add: distrib_left)
  qed
  have "v mod 256 ^ Suc n = v mod 256 ^ n + 256 ^ n * (v div 256 ^ n mod 256)"
    by (simp add: mod_mult2_eq mult.commute [of 256] add.commute)
  with Suc.IH show ?case by (simp add: gen [of "v div 256 ^ n mod 256"])
qed

lemma bytes_u64_u64_bytes: "v < 2 ^ 64 \<Longrightarrow> bytes_u64 (u64_bytes v) = v"
  using digits_256 [of v 8] by (simp add: bytes_u64_def unat_u64_bytes del: upt_rec_numeral foldr.simps)

lemma bytes_u32_u64_bytes: "v < 2 ^ 32 \<Longrightarrow> bytes_u32 (u64_bytes v) = v"
  using digits_256 [of v 4] by (simp add: bytes_u32_def unat_u64_bytes del: upt_rec_numeral foldr.simps)

lemma bytes_u64_cong: "(\<And>k. k < 8 \<Longrightarrow> b k = c k) \<Longrightarrow> bytes_u64 b = bytes_u64 c"
  unfolding bytes_u64_def by (rule foldr_cong) auto

lemma bytes_u32_cong: "(\<And>k. k < 4 \<Longrightarrow> b k = c k) \<Longrightarrow> bytes_u32 b = bytes_u32 c"
  unfolding bytes_u32_def by (rule foldr_cong) auto

lemma digits_less: "(\<And>k. f k < 256) \<Longrightarrow> foldr (\<lambda>k acc. f k + 256 * acc) ks 0 < (256 :: nat) ^ length ks"
proof (induction ks)
  case Nil
  show ?case by simp
next
  case (Cons k ks)
  let ?a = "foldr (\<lambda>k acc. f k + 256 * acc) ks 0"
  from Cons have "Suc ?a \<le> 256 ^ length ks" by simp
  then have "256 * Suc ?a \<le> 256 * 256 ^ length ks" by (rule mult_le_mono2)
  with Cons.prems [of k] show ?case by simp
qed

lemma bytes_u64_less: "bytes_u64 b < 2 ^ 64"
proof -
  have "unat (b k) < 256" for k using unsigned_less [of "b k"] by simp
  from digits_less [of "\<lambda>k. unat (b k)" "[0..<8]", OF this] show ?thesis
    unfolding bytes_u64_def by (simp only: length_upt) simp
qed

section \<open>Loops that stop at the first error\<close>

text \<open>The C loop \<^verbatim>\<open>for(...){ ret = step(x); if(ret) goto error; }\<close> over the elements \<open>xs\<close>.\<close>

fun for_each :: "('a \<Rightarrow> 's \<Rightarrow> (int \<times> 's) option) \<Rightarrow> 'a list \<Rightarrow> 's \<Rightarrow> (int \<times> 's) option" where
  "for_each step [] s = Some (0, s)"
| "for_each step (x # xs) s = do {
     (ret, s1) \<leftarrow> step x s;
     (if ret \<noteq> 0 then Some (ret, s1) else for_each step xs s1) }"

lemma for_each_append:
  "for_each step (xs @ ys) s = do {
     (ret, s1) \<leftarrow> for_each step xs s;
     (if ret \<noteq> 0 then Some (ret, s1) else for_each step ys s1) }"
  by (induction xs arbitrary: s) (auto split: bind_splits if_splits)

text \<open>An invariant of every step is an invariant of the loop.\<close>

lemma for_each_inv:
  assumes "\<And>x s. x \<in> set xs \<Longrightarrow> I s \<Longrightarrow> \<exists>r s'. step x s = Some (r, s') \<and> I s'"
  shows "I s \<Longrightarrow> \<exists>r s'. for_each step xs s = Some (r, s') \<and> I s'"
  using assms
proof (induction xs arbitrary: s)
  case (Cons x xs)
  from Cons.prems(2) [of x s] Cons.prems(1) obtain r s1 where st: "step x s = Some (r, s1)" "I s1" by auto
  show ?case
  proof (cases "r = 0")
    case True
    with st Cons.IH [OF st(2)] Cons.prems(2) show ?thesis by simp
  qed (use st in simp)
qed simp

text \<open>The C idiom \<^verbatim>\<open>ret = f(...); if(ret) goto error;\<close>.\<close>

definition and_then :: "(int \<times> 's) option \<Rightarrow> ('s \<Rightarrow> (int \<times> 's) option) \<Rightarrow> (int \<times> 's) option" where
  "and_then m k = do { (ret, s) \<leftarrow> m; (if ret \<noteq> 0 then Some (ret, s) else k s) }"

lemma and_then_Some [simp]: "and_then (Some (ret, s)) k = (if ret \<noteq> 0 then Some (ret, s) else k s)"
  by (simp add: and_then_def)

lemma and_then_None [simp]: "and_then None k = None"
  by (simp add: and_then_def)

lemma and_then_eq_Some:
  "and_then m k = Some (r, t) \<longleftrightarrow>
     (\<exists>ret s. m = Some (ret, s) \<and> (if ret \<noteq> 0 then r = ret \<and> t = s else k s = Some (r, t)))"
  by (auto simp: and_then_def split: bind_splits if_splits)

lemma and_then_0:
  "and_then m k = Some (0, t) \<longleftrightarrow> (\<exists>s. m = Some (0, s) \<and> k s = Some (0, t))"
  by (auto simp: and_then_eq_Some split: if_splits)

section \<open>Numbers as text\<close>

definition digit_char :: "nat \<Rightarrow> char" where
  "digit_char d = char_of (48 + d)"

fun dec :: "nat \<Rightarrow> string" where
  "dec n = (if n < 10 then [digit_char n] else dec (n div 10) @ [digit_char (n mod 10)])"

declare dec.simps [simp del]

definition dec_int :: "int \<Rightarrow> string" where
  "dec_int i = (if i < 0 then ''-'' @ dec (nat (- i)) else dec (nat i))"

definition hex_char :: "nat \<Rightarrow> char" where
  "hex_char d = (if d < 10 then char_of (48 + d) else char_of (87 + d))"

definition hex2 :: "byte \<Rightarrow> string" where
  "hex2 b = [hex_char (unat b div 16), hex_char (unat b mod 16)]"

end
