(* ===== verification/Kernel.thy ===== *)
theory Kernel
  imports Prelude
begin

text \<open>
  The kernel services the cow file layer calls. None of this code is under
  \<^verbatim>\<open>src/\<close>, so it is a parameter of the model: a record of functions over a state
  \<^typ>\<open>'w\<close> of the rest of the machine, passed to every definition that uses it. A memory
  request answers with the (uninitialised) contents of the new memory or \<^term>\<open>None\<close>;
  an input or output call answers with the C return value. What the driver relies on is
  the predicate \<open>file_laws\<close>: the documented behaviour of reads, writes and
  allocations on the bytes of the files. \<open>ram_kern\<close> is a machine that satisfies it; it
  only serves to show that the laws can hold.
\<close>

record fiemap_extent =
  fe_logical :: nat
  fe_physical :: nat
  fe_length :: nat

record 'w kern =
  kmalloc :: "nat \<Rightarrow> 'w \<Rightarrow> buf option \<times> 'w"
  kernel_read :: "nat \<Rightarrow> nat \<Rightarrow> nat \<Rightarrow> 'w \<Rightarrow> int \<times> buf \<times> 'w"
  kernel_write :: "nat \<Rightarrow> buf \<Rightarrow> nat \<Rightarrow> nat \<Rightarrow> 'w \<Rightarrow> int \<times> 'w"
  submit_read :: "nat \<Rightarrow> nat \<Rightarrow> nat \<Rightarrow> 'w \<Rightarrow> int \<times> buf \<times> 'w"
  submit_write :: "nat \<Rightarrow> nat \<Rightarrow> buf \<Rightarrow> nat \<Rightarrow> 'w \<Rightarrow> int \<times> 'w"
  bio_alloc :: "'w \<Rightarrow> bool \<times> 'w"
  bio_add_page :: "nat \<Rightarrow> 'w \<Rightarrow> nat"
  vfs_fallocate :: "nat \<Rightarrow> nat \<Rightarrow> nat \<Rightarrow> 'w \<Rightarrow> int \<times> 'w"
  verify_truncate :: "nat \<Rightarrow> nat \<Rightarrow> 'w \<Rightarrow> int \<times> 'w"
  notify_change :: "nat \<Rightarrow> nat \<Rightarrow> 'w \<Rightarrow> int \<times> 'w"
  filp_open :: "string \<Rightarrow> bool \<Rightarrow> 'w \<Rightarrow> (int + nat option) \<times> 'w"
  is_regular :: "nat \<Rightarrow> 'w \<Rightarrow> bool"
  filp_close :: "nat \<Rightarrow> 'w \<Rightarrow> 'w"
  d_unlinked :: "nat \<Rightarrow> 'w \<Rightarrow> bool"
  mnt_want_write :: "nat \<Rightarrow> 'w \<Rightarrow> int \<times> 'w"
  mnt_drop_write :: "nat \<Rightarrow> 'w \<Rightarrow> 'w"
  vfs_unlink :: "nat \<Rightarrow> 'w \<Rightarrow> int \<times> 'w"
  f_inode :: "nat \<Rightarrow> nat"
  generate_random_uuid :: "'w \<Rightarrow> byte list \<times> 'w"
  get_order :: "nat \<Rightarrow> nat"
  has_insert_vm_struct :: bool
  get_unmapped_area :: "nat \<Rightarrow> 'w \<Rightarrow> int \<times> 'w"
  vm_area_alloc :: "'w \<Rightarrow> bool \<times> 'w"
  insert_vm_struct :: "'w \<Rightarrow> int \<times> 'w"
  remap_pfn_range :: "'w \<Rightarrow> int \<times> 'w"
  fiemap :: "(nat \<Rightarrow> nat \<Rightarrow> 'w \<Rightarrow> int \<times> fiemap_extent list \<times> 'w) option"
  copy_from_user :: "'w \<Rightarrow> int"

text \<open>
  \<open>fd w f i\<close> is byte \<open>i\<close> of file \<open>f\<close>. A read of \<open>n\<close> bytes that answers \<open>n\<close> returns
  them and changes nothing; a write of \<open>n\<close> bytes changes nothing outside its range and,
  when it answers \<open>n\<close>, has stored the buffer; allocating memory, opening an existing file
  and generating a UUID do not touch any file.
\<close>

definition read_law :: "('w, 'k) kern_scheme \<Rightarrow> ('w \<Rightarrow> nat \<Rightarrow> buf) \<Rightarrow> bool" where
  "read_law K fd \<longleftrightarrow> (\<forall>f off n w r b w'. kernel_read K f off n w = (r, b, w') \<longrightarrow>
      fd w' = fd w \<and> (r = int n \<longrightarrow> (\<forall>i<n. b i = fd w f (off + i))))"

definition write_law :: "('w, 'k) kern_scheme \<Rightarrow> ('w \<Rightarrow> nat \<Rightarrow> buf) \<Rightarrow> bool" where
  "write_law K fd \<longleftrightarrow> (\<forall>f b off n w r w'. kernel_write K f b off n w = (r, w') \<longrightarrow>
      (\<forall>g i. g \<noteq> f \<or> i < off \<or> off + n \<le> i \<longrightarrow> fd w' g i = fd w g i) \<and>
      (r = int n \<longrightarrow> (\<forall>i<n. fd w' f (off + i) = b i)))"

definition alloc_law :: "('w, 'k) kern_scheme \<Rightarrow> ('w \<Rightarrow> nat \<Rightarrow> buf) \<Rightarrow> bool" where
  "alloc_law K fd \<longleftrightarrow> (\<forall>n w. fd (snd (kmalloc K n w)) = fd w)"

definition file_laws :: "('w, 'k) kern_scheme \<Rightarrow> ('w \<Rightarrow> nat \<Rightarrow> buf) \<Rightarrow> bool" where
  "file_laws K fd \<longleftrightarrow> read_law K fd \<and> write_law K fd \<and> alloc_law K fd"

lemma read_lawD:
  assumes "file_laws K fd" "kernel_read K f off n w = (r, b, w')"
  shows "fd w' = fd w" and "r = int n \<Longrightarrow> i < n \<Longrightarrow> b i = fd w f (off + i)"
  using assms unfolding file_laws_def read_law_def by blast+

lemma write_lawD:
  assumes "file_laws K fd" "kernel_write K f b off n w = (r, w')"
  shows "g \<noteq> f \<or> i < off \<or> off + n \<le> i \<Longrightarrow> fd w' g i = fd w g i"
    and "r = int n \<Longrightarrow> i < n \<Longrightarrow> fd w' f (off + i) = b i"
  using assms unfolding file_laws_def write_law_def by blast+

lemma alloc_lawD: "file_laws K fd \<Longrightarrow> kmalloc K n w = (r, w') \<Longrightarrow> fd w' = fd w"
  unfolding file_laws_def alloc_law_def by (metis snd_conv)

text \<open>A request for \<open>n\<close> bytes of memory can fail on this machine. Some callers do not check for it and
  follow a NULL pointer; their runs are \<^term>\<open>None\<close> then.\<close>

definition starved :: "('w, 'k) kern_scheme \<Rightarrow> nat \<Rightarrow> bool" where
  "starved K n \<longleftrightarrow> (\<exists>w. fst (kmalloc K n w) = None)"

lemma starvedI: "kmalloc K n w = (None, w') \<Longrightarrow> starved K n"
  unfolding starved_def by (metis fst_conv)

section \<open>A machine that satisfies the laws\<close>

type_synonym ram = "nat \<Rightarrow> buf"

definition ram_write :: "nat \<Rightarrow> buf \<Rightarrow> nat \<Rightarrow> nat \<Rightarrow> ram \<Rightarrow> ram" where
  "ram_write f b off n w = w(f := (\<lambda>i. if off \<le> i \<and> i < off + n then b (i - off) else w f i))"

definition ram_kern :: "ram kern" where
  "ram_kern = \<lparr>
     kmalloc = (\<lambda>n w. (Some (\<lambda>_. 0), w)),
     kernel_read = (\<lambda>f off n w. (int n, \<lambda>i. w f (off + i), w)),
     kernel_write = (\<lambda>f b off n w. (int n, ram_write f b off n w)),
     submit_read = (\<lambda>d s n w. (0, \<lambda>i. w d (512 * s + i), w)),
     submit_write = (\<lambda>d s b n w. (0, ram_write d b (512 * s) n w)),
     bio_alloc = (\<lambda>w. (True, w)),
     bio_add_page = (\<lambda>n w. n),
     vfs_fallocate = (\<lambda>f off n w. (0, w)),
     verify_truncate = (\<lambda>f n w. (0, w)),
     notify_change = (\<lambda>f n w. (0, w)),
     filp_open = (\<lambda>p c w. (Inr (Some 1), w)),
     is_regular = (\<lambda>f w. True),
     filp_close = (\<lambda>f w. w),
     d_unlinked = (\<lambda>f w. False),
     mnt_want_write = (\<lambda>f w. (0, w)),
     mnt_drop_write = (\<lambda>f w. w),
     vfs_unlink = (\<lambda>f w. (0, w)),
     f_inode = (\<lambda>f. f),
     generate_random_uuid = (\<lambda>w. (replicate 16 0, w)),
     get_order = (\<lambda>n. if n \<le> 4096 then 0 else if n \<le> 8192 then 1 else if n \<le> 16384 then 2 else 3),
     has_insert_vm_struct = True,
     get_unmapped_area = (\<lambda>n w. (4096, w)),
     vm_area_alloc = (\<lambda>w. (True, w)),
     insert_vm_struct = (\<lambda>w. (0, w)),
     remap_pfn_range = (\<lambda>w. (0, w)),
     fiemap = Some (\<lambda>f n w. (0, [\<lparr>fe_logical = 0, fe_physical = 0, fe_length = 2 ^ 40\<rparr>], w)),
     copy_from_user = (\<lambda>w. 0) \<rparr>"

lemma ram_kern_not_starved [simp]: "\<not> starved ram_kern n"
  by (simp add: starved_def ram_kern_def)

lemma ram_kern_file_laws: "file_laws ram_kern (\<lambda>w. w)"
  by (auto simp: file_laws_def read_law_def write_law_def alloc_law_def ram_kern_def ram_write_def)

end
