(* ===== verification/Cow_File.thy ===== *)
theory Cow_File
  imports Kernel
begin

text \<open>
  The file layer under the cow manager (\<^verbatim>\<open>src/main.c\<close>, FILE OPERATIONS): while the file is
  open all transfers go through the VFS; once it has been closed (dormant state) they go
  straight to the sectors of the base device recorded in the file's extents. The data
  structures of the cow manager are declared here because every operation of this layer
  takes the manager. A result \<^term>\<open>None\<close> is a fault: a NULL or uninitialised pointer is
  followed or an array bound is passed.
\<close>

section \<open>Structures\<close>

record cow_section =
  has_data :: bool
  usage :: nat
  mappings :: "(nat \<Rightarrow> nat) option"

record cow_manager =
  filp :: "nat option"
  flags :: "32 word"
  curr_pos :: nat
  data_offset :: nat
  file_max :: nat
  seqid :: nat
  version :: nat
  nr_changed_blocks :: nat
  uuid :: "byte list"
  log_sect_pages :: nat
  sect_size :: nat
  allocated_sects :: nat
  total_sects :: nat
  allowed_sects :: nat
  sects :: "cow_section list"
  cm_dev :: nat

text \<open>The fields of \<^verbatim>\<open>struct snap_device\<close> this layer reads through \<^verbatim>\<open>cm->dev\<close>.\<close>

record devio =
  sd_base_dev :: "nat option"
  sd_cow_inode :: "nat option"
  sd_cow_extents :: "fiemap_extent list option"
  sd_cow_ext_cnt :: nat

section \<open>Direct transfers through the extents\<close>

definition SECTOR_INVALID :: nat where
  "SECTOR_INVALID = 2 ^ 64 - 1"

fun sector_scan :: "fiemap_extent list \<Rightarrow> nat \<Rightarrow> nat \<Rightarrow> nat option" where
  "sector_scan es 0 offset = Some SECTOR_INVALID"
| "sector_scan [] (Suc n) offset = None"
| "sector_scan (e # es) (Suc n) offset =
     (if fe_logical e \<le> offset \<and> offset < wrap64 (fe_logical e + fe_length e)
      then Some (wrap64 (fe_physical e + (offset - fe_logical e)) div 512)
      else sector_scan es n offset)"

definition sector_by_offset :: "'d devio_scheme \<Rightarrow> nat \<Rightarrow> nat option" where
  "sector_by_offset dev offset =
     sector_scan (case sd_cow_extents dev of None \<Rightarrow> [] | Some es \<Rightarrow> es) (sd_cow_ext_cnt dev) offset"

text \<open>
  The inner loop of both transfers: the sectors from \<open>offset\<close> on that are contiguous on the
  device. It answers the sectors processed so far, the length of the run and the offset
  after it.
\<close>

function contig_run :: "'d devio_scheme \<Rightarrow> nat \<Rightarrow> nat \<Rightarrow> nat \<Rightarrow> nat \<Rightarrow> nat \<Rightarrow> (nat \<times> nat \<times> nat) option" where
  "contig_run dev len start_sect processed iters offset =
     (let offset' = wrap64 (offset + SECTOR_SIZE); p = Suc processed; it = Suc iters in
      if p < len then do {
        s \<leftarrow> sector_by_offset dev offset';
        (if s = wrap64 (start_sect + it) then contig_run dev len start_sect p it offset'
         else Some (p, it, offset')) }
      else Some (p, it, offset'))"
  by pat_completeness auto
termination
  by (relation "measure (\<lambda>(dev, len, s, p, it, off). len - p)") auto

declare contig_run.simps [simp del]

lemma contig_run_progress:
  "contig_run dev len s p it off = Some (p', it', off') \<Longrightarrow> p < p' \<and> it < it' \<and> p' - p = it' - it"
proof (induction dev len s p it off rule: contig_run.induct)
  case (1 dev len s p it off)
  show ?case
  proof (cases "Suc p < len \<and> sector_by_offset dev (wrap64 (off + SECTOR_SIZE)) = Some (wrap64 (s + Suc it))")
    case True
    with "1.prems" have "contig_run dev len s (Suc p) (Suc it) (wrap64 (off + SECTOR_SIZE)) = Some (p', it', off')"
      by (simp add: contig_run.simps [of dev len s p it off] Let_def del: SECTOR_SIZE_def)
    with True "1.IH" have "Suc p < p' \<and> Suc it < it' \<and> p' - Suc p = it' - Suc it"
      by (simp del: SECTOR_SIZE_def)
    then show ?thesis by auto
  next
    case False
    with "1.prems" show ?thesis
      by (auto simp: contig_run.simps [of dev len s p it off] Let_def split: if_splits bind_splits)
  qed
qed

text \<open>\<^verbatim>\<open>file_write_block\<close>: one bio per contiguous run. On the first pass \<^verbatim>\<open>new_bio\<close> is an
  uninitialised local, so leaving through \<^verbatim>\<open>out\<close> before it is set is a fault; so is
  leaving when the page could not be allocated, as \<^verbatim>\<open>out\<close> follows \<^verbatim>\<open>pg\<close>.\<close>

function file_write_loop :: "('w, 'k) kern_scheme \<Rightarrow> 'd devio_scheme \<Rightarrow> buf \<Rightarrow> nat \<Rightarrow> bool \<Rightarrow> nat \<Rightarrow> nat \<Rightarrow> 'w
    \<Rightarrow> (int \<times> 'w) option" where
  "file_write_loop K dev block len first processed offset w = do {
     bdev \<leftarrow> sd_base_dev dev;
     start \<leftarrow> sector_by_offset dev offset;
     (if start = SECTOR_INVALID then (if first then None else Some (- EFAULT, w))
      else case bio_alloc K w of (False, w1) \<Rightarrow> Some (- ENOMEM, w1) | (True, w1) \<Rightarrow>
       (case kmalloc K PAGE_SIZE w1 of (None, w2) \<Rightarrow> None | (Some _, w2) \<Rightarrow>
        do {
         (p, it, offset') \<leftarrow> contig_run dev len start processed 0 offset;
         (if SECTORS_PER_PAGE < it then None
          else if bio_add_page K (it * SECTOR_SIZE) w2 \<noteq> it * SECTOR_SIZE then Some (- EFAULT, w2)
          else (case submit_write K bdev start (\<lambda>i. block (processed * SECTOR_SIZE + i)) (it * SECTOR_SIZE) w2 of
           (ret, w3) \<Rightarrow>
             if ret \<noteq> 0 then Some (ret, w3)
             else if p = len then Some (0, w3)
             else if len < p then None
             else file_write_loop K dev block len False p offset' w3)) })) }"
  by pat_completeness auto
termination
  by (relation "measure (\<lambda>(K, dev, block, len, first, p, off, w). len - p)")
     (auto dest!: contig_run_progress)

declare file_write_loop.simps [simp del]

definition file_write_block :: "('w, 'k) kern_scheme \<Rightarrow> 'd devio_scheme \<Rightarrow> buf \<Rightarrow> nat \<Rightarrow> nat \<Rightarrow> 'w \<Rightarrow> (int \<times> 'w) option" where
  "file_write_block K dev block offset len w = file_write_loop K dev block len True 0 offset w"

definition splice :: "buf \<Rightarrow> nat \<Rightarrow> nat \<Rightarrow> buf \<Rightarrow> buf" where
  "splice b off n d = (\<lambda>i. if off \<le> i \<and> i < off + n then d (i - off) else b i)"

function file_read_loop :: "('w, 'k) kern_scheme \<Rightarrow> 'd devio_scheme \<Rightarrow> nat \<Rightarrow> bool \<Rightarrow> nat \<Rightarrow> nat \<Rightarrow> buf \<Rightarrow> 'w
    \<Rightarrow> (int \<times> buf \<times> 'w) option" where
  "file_read_loop K dev len first processed offset buf w = do {
     bdev \<leftarrow> sd_base_dev dev;
     start \<leftarrow> sector_by_offset dev offset;
     (if start = SECTOR_INVALID then (if first then None else Some (- EFAULT, buf, w))
      else case bio_alloc K w of (False, w1) \<Rightarrow> Some (- ENOMEM, buf, w1) | (True, w1) \<Rightarrow>
       (case kmalloc K PAGE_SIZE w1 of (None, w2) \<Rightarrow> None | (Some _, w2) \<Rightarrow>
        do {
         (p, it, offset') \<leftarrow> contig_run dev len start processed 0 offset;
         (if SECTORS_PER_PAGE < it then None
          else if bio_add_page K (it * SECTOR_SIZE) w2 \<noteq> it * SECTOR_SIZE then Some (- EFAULT, buf, w2)
          else (case submit_read K bdev start (it * SECTOR_SIZE) w2 of
           (ret, d, w3) \<Rightarrow>
             if ret \<noteq> 0 then Some (ret, buf, w3)
             else if p = len then Some (0, splice buf (processed * SECTOR_SIZE) (it * SECTOR_SIZE) d, w3)
             else if len < p then None
             else file_read_loop K dev len False p offset'
                    (splice buf (processed * SECTOR_SIZE) (it * SECTOR_SIZE) d) w3)) })) }"
  by pat_completeness auto
termination
  by (relation "measure (\<lambda>(K, dev, len, first, p, off, buf, w). len - p)")
     (auto dest!: contig_run_progress)

declare file_read_loop.simps [simp del]

definition file_read_block :: "('w, 'k) kern_scheme \<Rightarrow> 'd devio_scheme \<Rightarrow> buf \<Rightarrow> nat \<Rightarrow> nat \<Rightarrow> 'w
    \<Rightarrow> (int \<times> buf \<times> 'w) option" where
  "file_read_block K dev buf offset len w = file_read_loop K dev len True 0 offset buf w"

section \<open>Transfers of the cow manager\<close>

definition elastio_snap_kernel_read :: "('w, 'k) kern_scheme \<Rightarrow> 'd devio_scheme \<Rightarrow> cow_manager \<Rightarrow> buf \<Rightarrow> nat \<Rightarrow> nat \<Rightarrow> 'w
    \<Rightarrow> (int \<times> buf \<times> 'w) option" where
  "elastio_snap_kernel_read K dev cm buf count pos w =
     (case filp cm of
        Some f \<Rightarrow> Some (kernel_read K f pos count w)
      | None \<Rightarrow> do {
          (ret, buf', w') \<leftarrow> file_read_block K dev buf pos (count div SECTOR_SIZE) w;
          Some (if ret = 0 then int count else ret, buf', w') })"

definition elastio_snap_kernel_write :: "('w, 'k) kern_scheme \<Rightarrow> 'd devio_scheme \<Rightarrow> cow_manager \<Rightarrow> buf \<Rightarrow> nat \<Rightarrow> nat \<Rightarrow> 'w
    \<Rightarrow> (int \<times> 'w) option" where
  "elastio_snap_kernel_write K dev cm buf count pos w =
     (case filp cm of
        Some f \<Rightarrow> Some (kernel_write K f buf pos count w)
      | None \<Rightarrow> do {
          (ret, w') \<leftarrow> file_write_block K dev buf pos (count div SECTOR_SIZE) w;
          Some (if ret = 0 then int count else ret, w') })"

definition file_io :: "('w, 'k) kern_scheme \<Rightarrow> 'd devio_scheme \<Rightarrow> cow_manager \<Rightarrow> bool \<Rightarrow> buf \<Rightarrow> nat \<Rightarrow> nat \<Rightarrow> 'w
    \<Rightarrow> (int \<times> buf \<times> 'w) option" where
  "file_io K dev cm is_write buf offset len w = do {
     (ret, buf', w') \<leftarrow>
       (if is_write then do { (r, w1) \<leftarrow> elastio_snap_kernel_write K dev cm buf len offset w; Some (r, buf, w1) }
        else elastio_snap_kernel_read K dev cm buf len offset w);
     Some (if ret < 0 then ret else if ret \<noteq> int len then - EIO else 0, buf', w') }"

definition file_write :: "('w, 'k) kern_scheme \<Rightarrow> 'd devio_scheme \<Rightarrow> cow_manager \<Rightarrow> buf \<Rightarrow> nat \<Rightarrow> nat \<Rightarrow> 'w \<Rightarrow> (int \<times> 'w) option" where
  "file_write K dev cm buf offset len w = do {
     (ret, _, w') \<leftarrow> file_io K dev cm True buf offset len w; Some (ret, w') }"

definition file_read :: "('w, 'k) kern_scheme \<Rightarrow> 'd devio_scheme \<Rightarrow> cow_manager \<Rightarrow> buf \<Rightarrow> nat \<Rightarrow> nat \<Rightarrow> 'w
    \<Rightarrow> (int \<times> buf \<times> 'w) option" where
  "file_read K dev cm buf offset len w = file_io K dev cm False buf offset len w"

section \<open>File operations on an open file\<close>

definition file_open :: "('w, 'k) kern_scheme \<Rightarrow> string \<Rightarrow> bool \<Rightarrow> 'w \<Rightarrow> int \<times> nat option \<times> 'w" where
  "file_open K filename creat w =
     (case filp_open K filename creat w of
        (Inr None, w1) \<Rightarrow> (- EFAULT, None, w1)
      | (Inl err, w1) \<Rightarrow> (err, None, w1)
      | (Inr (Some f), w1) \<Rightarrow>
          if is_regular K f w1 then (0, Some f, w1) else (- EINVAL, None, filp_close K f w1))"

definition file_close :: "('w, 'k) kern_scheme \<Rightarrow> nat \<Rightarrow> 'w \<Rightarrow> 'w" where
  "file_close K f w = filp_close K f w"

definition elastio_snap_do_truncate :: "('w, 'k) kern_scheme \<Rightarrow> nat \<Rightarrow> nat \<Rightarrow> 'w \<Rightarrow> int \<times> 'w" where
  "elastio_snap_do_truncate K f len w =
     (if 2 ^ 63 \<le> len then (- EINVAL, w) else notify_change K f len w)"

definition file_truncate :: "('w, 'k) kern_scheme \<Rightarrow> nat \<Rightarrow> nat \<Rightarrow> 'w \<Rightarrow> int \<times> 'w" where
  "file_truncate K f len w =
     (case verify_truncate K f len w of (ret, w1) \<Rightarrow>
        if ret \<noteq> 0 then (ret, w1) else elastio_snap_do_truncate K f len w1)"

text \<open>The fall-back of \<^verbatim>\<open>file_allocate\<close> when the file system has no fallocate: pages of zeros.\<close>

fun write_zero_pages :: "('w, 'k) kern_scheme \<Rightarrow> 'd devio_scheme \<Rightarrow> cow_manager \<Rightarrow> nat \<Rightarrow> nat list \<Rightarrow> 'w
    \<Rightarrow> (int \<times> 'w) option" where
  "write_zero_pages K dev cm offset [] w = Some (0, w)"
| "write_zero_pages K dev cm offset (i # is) w = do {
     (ret, w1) \<leftarrow> file_write K dev cm (\<lambda>_. 0) (wrap64 (offset + PAGE_SIZE * i)) PAGE_SIZE w;
     (if ret \<noteq> 0 then Some (ret, w1) else write_zero_pages K dev cm offset is w1) }"

definition file_allocate :: "('w, 'k) kern_scheme \<Rightarrow> 'd devio_scheme \<Rightarrow> cow_manager \<Rightarrow> nat \<Rightarrow> nat \<Rightarrow> nat \<Rightarrow> 'w
    \<Rightarrow> (int \<times> 'w) option" where
  "file_allocate K dev cm f offset len w =
     (case vfs_fallocate K f offset len w of (ret, w1) \<Rightarrow>
        if ret \<noteq> 0 \<and> ret \<noteq> - EOPNOTSUPP then Some (ret, w1)
        else if ret = 0 then Some (0, w1)
        else (case kmalloc K PAGE_SIZE w1 of (None, w2) \<Rightarrow> Some (- ENOMEM, w2) | (Some _, w2) \<Rightarrow>
          let write_count = NUM_SEGMENTS len PAGE_SHIFT; pad = PAGE_SIZE - offset mod PAGE_SIZE in
          if offset mod PAGE_SIZE \<noteq> 0 then do {
            (ret, w3) \<leftarrow> file_write K dev cm (\<lambda>_. 0) offset pad w2;
            (if ret \<noteq> 0 then Some (ret, w3)
             else write_zero_pages K dev cm (wrap64 (offset + pad)) [0..<write_count] w3) }
          else write_zero_pages K dev cm offset [0..<write_count] w2))"

definition file_unlink_gen :: "('w, 'k) kern_scheme \<Rightarrow> nat \<Rightarrow> bool \<Rightarrow> bool \<Rightarrow> 'w \<Rightarrow> int \<times> 'w" where
  "file_unlink_gen K f close_it force w =
     (if d_unlinked K f w then (0, if close_it then file_close K f w else w)
      else (case mnt_want_write K f w of (ret, w1) \<Rightarrow>
        if ret \<noteq> 0 then (ret, w1)
        else (case vfs_unlink K f w1 of (ret, w2) \<Rightarrow>
          let w3 = mnt_drop_write K f w2 in
          (ret, if close_it \<and> (ret = 0 \<or> force) then file_close K f w3 else w3))))"

definition file_unlink_and_close :: "('w, 'k) kern_scheme \<Rightarrow> nat \<Rightarrow> 'w \<Rightarrow> 'w" where
  "file_unlink_and_close K f w = snd (file_unlink_gen K f True False w)"

definition file_unlink_and_close_force :: "('w, 'k) kern_scheme \<Rightarrow> nat \<Rightarrow> 'w \<Rightarrow> 'w" where
  "file_unlink_and_close_force K f w = snd (file_unlink_gen K f True True w)"

section \<open>Recording the extents of the cow file\<close>

text \<open>
  \<^verbatim>\<open>elastio_snap_get_cow_file_extents\<close> runs \<^verbatim>\<open>fiemap\<close> into a user buffer it maps itself. The
  third component of the answer says whether the memory map lock is still held on return.
  \<open>bytes\<close> is the page-aligned \<^verbatim>\<open>cow_ext_buf_size\<close>, 56 the size of a \<^verbatim>\<open>fiemap_extent\<close>.
\<close>

definition elastio_snap_get_cow_file_extents :: "('w, 'k) kern_scheme \<Rightarrow> 'd devio_scheme \<Rightarrow> nat option \<Rightarrow> nat \<Rightarrow> 'w
    \<Rightarrow> (int \<times> 'd devio_scheme \<times> bool \<times> 'w) option" where
  "elastio_snap_get_cow_file_extents K dev fp bytes w =
     (if \<not> has_insert_vm_struct K then Some (- ENOTSUPP, dev, False, w)
      else (case get_unmapped_area K bytes w of (addr, w1) \<Rightarrow>
       if addr < 0 then Some (addr, dev, True, w1)
       else (case vm_area_alloc K w1 of (okv, w2) \<Rightarrow>
        if \<not> okv then Some (- ENOMEM, dev, False, w2)
        else (case insert_vm_struct K w2 of (ret, w3) \<Rightarrow>
         if ret < 0 then Some (- EINVAL, dev, False, w3)
         else (case kmalloc K bytes w3 of (None, w4) \<Rightarrow> Some (- ENOMEM, dev, False, w4) | (Some _, w4) \<Rightarrow>
          (case remap_pfn_range K w4 of (ret, w5) \<Rightarrow>
           if ret < 0 then Some (ret, dev, False, w5)
           else do {
             f \<leftarrow> fp;
             (case fiemap K of
                None \<Rightarrow> Some (- ENOTSUPP, dev, False, w5)
              | Some fm \<Rightarrow> (case fm f (bytes div 56) w5 of (ret, es, w6) \<Rightarrow>
                 if ret = 0 \<and> es \<noteq> [] then
                   (case kmalloc K (56 * length es) w6 of
                      (None, w7) \<Rightarrow> Some (ret, dev\<lparr>sd_cow_extents := None\<rparr>, False, w7)
                    | (Some _, w7) \<Rightarrow>
                        let left = copy_from_user K w7 in
                        if left = 0 then Some (0, dev\<lparr>sd_cow_extents := Some es, sd_cow_ext_cnt := length es\<rparr>, False, w7)
                        else Some (left, dev\<lparr>sd_cow_extents := Some []\<rparr>, False, w7))
                 else Some (ret, dev, False, w6))) }))))))"

section \<open>What a transfer through the open file does\<close>

lemma file_read_open:
  "filp cm = Some f \<Longrightarrow> file_read K dev cm buf off n w =
     (case kernel_read K f off n w of (r, b, w') \<Rightarrow>
        Some (if r < 0 then r else if r \<noteq> int n then - EIO else 0, b, w'))"
  by (simp add: file_read_def file_io_def elastio_snap_kernel_read_def split: prod.splits)

lemma file_write_open:
  "filp cm = Some f \<Longrightarrow> file_write K dev cm buf off n w =
     (case kernel_write K f buf off n w of (r, w') \<Rightarrow>
        Some (if r < 0 then r else if r \<noteq> int n then - EIO else 0, w'))"
  by (simp add: file_write_def file_io_def elastio_snap_kernel_write_def split: prod.splits)

lemma file_read_total: "filp cm = Some f \<Longrightarrow> \<exists>r b w'. file_read K dev cm buf off n w = Some (r, b, w')"
  by (simp add: file_read_open split: prod.splits)

lemma file_write_total: "filp cm = Some f \<Longrightarrow> \<exists>r w'. file_write K dev cm buf off n w = Some (r, w')"
  by (simp add: file_write_open split: prod.splits)

lemma file_read_laws:
  assumes "file_laws K fd" "filp cm = Some f" "file_read K dev cm buf off n w = Some (r, b, w')"
  shows "fd w' = fd w" and "r = 0 \<Longrightarrow> i < n \<Longrightarrow> b i = fd w f (off + i)"
proof -
  obtain r0 b0 w0 where k: "kernel_read K f off n w = (r0, b0, w0)" by (metis prod_cases3)
  with assms(2,3) have "w0 = w'" "b0 = b" and r: "r = (if r0 < 0 then r0 else if r0 \<noteq> int n then - EIO else 0)"
    by (simp_all add: file_read_open)
  with read_lawD [OF assms(1) k] show "fd w' = fd w"
    and "r = 0 \<Longrightarrow> i < n \<Longrightarrow> b i = fd w f (off + i)" by (auto split: if_splits)
qed

lemma file_write_laws:
  assumes "file_laws K fd" "filp cm = Some f" "file_write K dev cm buf off n w = Some (r, w')"
  shows "g \<noteq> f \<or> i < off \<or> off + n \<le> i \<Longrightarrow> fd w' g i = fd w g i"
    and "r = 0 \<Longrightarrow> i < n \<Longrightarrow> fd w' f (off + i) = buf i"
proof -
  obtain r0 w0 where k: "kernel_write K f buf off n w = (r0, w0)" by (metis prod.exhaust)
  with assms(2,3) have "w0 = w'" and r: "r = (if r0 < 0 then r0 else if r0 \<noteq> int n then - EIO else 0)"
    by (simp_all add: file_write_open)
  with write_lawD [OF assms(1) k]
  show "g \<noteq> f \<or> i < off \<or> off + n \<le> i \<Longrightarrow> fd w' g i = fd w g i"
    and "r = 0 \<Longrightarrow> i < n \<Longrightarrow> fd w' f (off + i) = buf i" by (auto split: if_splits)
qed

end
