(* ===== verification/Cow_Manager.thy ===== *)
theory Cow_Manager
  imports Cow_File
begin

text \<open>
  The cow manager of \<^verbatim>\<open>src/main.c\<close> (COW MANAGER FUNCTIONS), operation by operation. The
  index of the cow file is cut into sections of 4096 mappings; a section is loaded into
  memory on first use, and when more sections are loaded than the cache allows the less
  used ones are written back and freed. Every operation takes the kernel services, the
  device the manager points to, the manager and the rest of the machine, and answers the C
  return code with the new manager and machine; \<^term>\<open>None\<close> is a fault, as in the file
  layer. A NULL \<^verbatim>\<open>sects\<close> array is the empty list.
\<close>

section \<open>Section array\<close>

definition sect_at :: "cow_manager \<Rightarrow> nat \<Rightarrow> cow_section option" where
  "sect_at cm i = (if i < length (sects cm) then Some (sects cm ! i) else None)"

definition set_sect :: "cow_manager \<Rightarrow> nat \<Rightarrow> cow_section \<Rightarrow> cow_manager" where
  "set_sect cm i s = cm\<lparr>sects := (sects cm)[i := s]\<rparr>"

text \<open>A page of memory seen as bytes and as \<^verbatim>\<open>uint64_t\<close> values.\<close>

definition words_of :: "buf \<Rightarrow> nat \<Rightarrow> nat" where
  "words_of b j = bytes_u64 (\<lambda>k. b (8 * j + k))"

definition bytes_of :: "(nat \<Rightarrow> nat) \<Rightarrow> buf" where
  "bytes_of m k = u64_bytes (m (k div 8)) (k mod 8)"

definition sect_size_bytes :: nat where
  "sect_size_bytes = COW_SECTION_SIZE * sizeof_u64"

definition chunk_words :: nat where
  "chunk_words = COW_BLOCK_SIZE div sizeof_u64"

definition cow_free_section :: "cow_manager \<Rightarrow> nat \<Rightarrow> cow_manager option" where
  "cow_free_section cm sect_idx = do {
     s \<leftarrow> sect_at cm sect_idx;
     Some ((set_sect cm sect_idx (s\<lparr>mappings := None\<rparr>))\<lparr>allocated_sects := sub64 (allocated_sects cm) 1\<rparr>) }"

definition cow_alloc_section :: "('w, 'k) kern_scheme \<Rightarrow> cow_manager \<Rightarrow> nat \<Rightarrow> bool \<Rightarrow> 'w \<Rightarrow> (int \<times> cow_manager \<times> 'w) option" where
  "cow_alloc_section K cm sect_idx zero w = do {
     s \<leftarrow> sect_at cm sect_idx;
     (case kmalloc K (PAGE_SIZE * 2 ^ log_sect_pages cm) w of
        (None, w1) \<Rightarrow> Some (- ENOMEM, set_sect cm sect_idx (s\<lparr>mappings := None\<rparr>), w1)
      | (Some g, w1) \<Rightarrow>
          Some (0, (set_sect cm sect_idx
                      (s\<lparr>has_data := True, mappings := Some (if zero then \<lambda>_. 0 else words_of g)\<rparr>))
                   \<lparr>allocated_sects := wrap64 (Suc (allocated_sects cm))\<rparr>, w1)) }"

definition sect_file_off :: "cow_manager \<Rightarrow> nat \<Rightarrow> nat \<Rightarrow> nat" where
  "sect_file_off cm sect_idx i =
     wrap64 (COW_HEADER_SIZE + sect_size cm * sect_idx * sizeof_u64 + COW_BLOCK_SIZE * i)"

text \<open>The loops over the blocks of a section; the memory of the section is the map \<open>m\<close>.\<close>

fun load_chunks :: "('w, 'k) kern_scheme \<Rightarrow> 'd devio_scheme \<Rightarrow> cow_manager \<Rightarrow> nat \<Rightarrow> nat list \<Rightarrow> (nat \<Rightarrow> nat) \<Rightarrow> 'w
    \<Rightarrow> (int \<times> (nat \<Rightarrow> nat) \<times> 'w) option" where
  "load_chunks K dev cm sect_idx [] m w = Some (0, m, w)"
| "load_chunks K dev cm sect_idx (i # is) m w = do {
     (ret, b, w1) \<leftarrow> file_read K dev cm (\<lambda>k. bytes_of m (COW_BLOCK_SIZE * i + k)) (sect_file_off cm sect_idx i) COW_BLOCK_SIZE w;
     (if ret \<noteq> 0 then Some (ret, m, w1)
      else load_chunks K dev cm sect_idx is
             (\<lambda>j. if chunk_words * i \<le> j \<and> j < chunk_words * i + chunk_words
                  then words_of b (j - chunk_words * i) else m j) w1) }"

definition cow_load_section :: "('w, 'k) kern_scheme \<Rightarrow> 'd devio_scheme \<Rightarrow> cow_manager \<Rightarrow> nat \<Rightarrow> 'w
    \<Rightarrow> (int \<times> cow_manager \<times> 'w) option" where
  "cow_load_section K dev cm sect_idx w = do {
     (ret, cm1, w1) \<leftarrow> cow_alloc_section K cm sect_idx False w;
     (if ret \<noteq> 0 then Some (ret, cm1, w1)
      else do {
        s \<leftarrow> sect_at cm1 sect_idx;
        m \<leftarrow> mappings s;
        (ret, m', w2) \<leftarrow> load_chunks K dev cm1 sect_idx [0..<sect_size_bytes div COW_BLOCK_SIZE] m w1;
        (let cm2 = set_sect cm1 sect_idx (s\<lparr>mappings := Some m'\<rparr>) in
         if ret \<noteq> 0 then do { cm3 \<leftarrow> cow_free_section cm2 sect_idx; Some (ret, cm3, w2) }
         else Some (0, cm2, w2)) }) }"

fun write_chunks :: "('w, 'k) kern_scheme \<Rightarrow> 'd devio_scheme \<Rightarrow> cow_manager \<Rightarrow> nat \<Rightarrow> nat list \<Rightarrow> (nat \<Rightarrow> nat) \<Rightarrow> 'w
    \<Rightarrow> (int \<times> 'w) option" where
  "write_chunks K dev cm sect_idx [] m w = Some (0, w)"
| "write_chunks K dev cm sect_idx (i # is) m w = do {
     (ret, w1) \<leftarrow> file_write K dev cm (\<lambda>k. bytes_of m (COW_BLOCK_SIZE * i + k)) (sect_file_off cm sect_idx i) COW_BLOCK_SIZE w;
     (if ret \<noteq> 0 then Some (ret, w1) else write_chunks K dev cm sect_idx is m w1) }"

definition cow_write_section :: "('w, 'k) kern_scheme \<Rightarrow> 'd devio_scheme \<Rightarrow> cow_manager \<Rightarrow> nat \<Rightarrow> 'w \<Rightarrow> (int \<times> 'w) option" where
  "cow_write_section K dev cm sect_idx w = do {
     s \<leftarrow> sect_at cm sect_idx;
     m \<leftarrow> mappings s;
     write_chunks K dev cm sect_idx [0..<sect_size_bytes div COW_BLOCK_SIZE] m w }"

section \<open>Write-back\<close>

text \<open>The buffer of \<^verbatim>\<open>__cow_file_extents_zero_fill_ahead\<close> comes from \<^verbatim>\<open>kmalloc\<close>.\<close>

definition cow_file_extents_zero_fill_ahead :: "('w, 'k) kern_scheme \<Rightarrow> 'd devio_scheme \<Rightarrow> cow_manager \<Rightarrow> 'w \<Rightarrow> (int \<times> 'w) option" where
  "cow_file_extents_zero_fill_ahead K dev cm w =
     (let write_max = COW_BLOCK_SIZE * 1024;
          curr_size = wrap64 (curr_pos cm * COW_BLOCK_SIZE);
          write_ahead = min (sub64 (file_max cm) curr_size) write_max in
      case kmalloc K write_ahead w of
        (None, w1) \<Rightarrow> Some (- ENOMEM, w1)
      | (Some b, w1) \<Rightarrow> file_write K dev cm b curr_size write_ahead w1)"

fun sync_sections :: "('w, 'k) kern_scheme \<Rightarrow> 'd devio_scheme \<Rightarrow> nat \<Rightarrow> nat list \<Rightarrow> cow_manager \<Rightarrow> 'w
    \<Rightarrow> (int \<times> cow_manager \<times> 'w) option" where
  "sync_sections K dev thresh [] cm w = Some (0, cm, w)"
| "sync_sections K dev thresh (i # is) cm w =
     (if thresh = 0 \<or> allowed_sects cm div 2 < allocated_sects cm then do {
        s \<leftarrow> sect_at cm i;
        (ret, cm1, w1) \<leftarrow>
          (if mappings s \<noteq> None \<and> (thresh = 0 \<or> usage s \<le> thresh) then do {
             (ret, w1) \<leftarrow> cow_write_section K dev cm i w;
             (if ret \<noteq> 0 then Some (ret, cm, w1)
              else do { cm1 \<leftarrow> cow_free_section cm i; Some (0, cm1, w1) }) }
           else Some (0, cm, w));
        (if ret \<noteq> 0 then Some (ret, cm1, w1)
         else do {
           s1 \<leftarrow> sect_at cm1 i;
           sync_sections K dev thresh is (set_sect cm1 i (s1\<lparr>usage := 0\<rparr>)) w1 }) }
      else Some (0, cm, w))"

definition cow_sync_and_free_sections :: "('w, 'k) kern_scheme \<Rightarrow> 'd devio_scheme \<Rightarrow> cow_manager \<Rightarrow> nat \<Rightarrow> bool \<Rightarrow> 'w
    \<Rightarrow> (int \<times> cow_manager \<times> 'w) option" where
  "cow_sync_and_free_sections K dev cm thresh fill_ahead w = do {
     (ret, cm1, w1) \<leftarrow> sync_sections K dev thresh [0..<total_sects cm] cm w;
     (if ret \<noteq> 0 then Some (ret, cm1, w1)
      else if fill_ahead then do {
        (ret, w2) \<leftarrow> cow_file_extents_zero_fill_ahead K dev cm1 w1;
        Some (if ret \<noteq> 0 then - EIO else 0, cm1, w2) }
      else Some (0, cm1, w1)) }"

text \<open>The approximate median usage: a binary search whose step is halved in each round.\<close>

function median_search :: "nat list \<Rightarrow> nat \<Rightarrow> nat \<Rightarrow> nat" where
  "median_search us thresh granularity =
     (if 0 < granularity then
        let g = granularity div 2;
            less = length (filter (\<lambda>u. u \<le> thresh) us);
            greater = length (filter (\<lambda>u. \<not> u \<le> thresh) us) in
        if less < greater then median_search us (wrap64 (thresh + g)) g
        else if greater < less then median_search us (sub64 thresh g) g
        else thresh
      else thresh)"
  by pat_completeness auto
termination
  by (relation "measure (\<lambda>(us, t, g). g)") auto

declare median_search.simps [simp del]

definition cleanup_thresh :: "nat list \<Rightarrow> nat" where
  "cleanup_thresh us =
     (let m = foldl (\<lambda>t u. if t < u then u else t) 0 us in median_search us (m div 2) (m div 2))"

definition cow_cleanup_mappings :: "('w, 'k) kern_scheme \<Rightarrow> 'd devio_scheme \<Rightarrow> cow_manager \<Rightarrow> 'w
    \<Rightarrow> (int \<times> cow_manager \<times> 'w) option" where
  "cow_cleanup_mappings K dev cm w =
     (if length (sects cm) < total_sects cm then None
      else cow_sync_and_free_sections K dev cm (cleanup_thresh (map usage (take (total_sects cm) (sects cm)))) False w)"

section \<open>The header of the cow file\<close>

record cow_header =
  ch_magic :: nat
  ch_flags :: "32 word"
  ch_fpos :: nat
  ch_fsize :: nat
  ch_seqid :: nat
  ch_uuid :: "byte list"
  ch_version :: nat
  ch_nr_changed_blocks :: nat

text \<open>The C layout of \<^verbatim>\<open>struct cow_header\<close>, zero-filled to \<^term>\<open>COW_HEADER_SIZE\<close>.\<close>

definition header_bytes :: "cow_header \<Rightarrow> buf" where
  "header_bytes h k =
     (if k < 4 then u64_bytes (ch_magic h) k
      else if k < 8 then u64_bytes (unat (ch_flags h)) (k - 4)
      else if k < 16 then u64_bytes (ch_fpos h) (k - 8)
      else if k < 24 then u64_bytes (ch_fsize h) (k - 16)
      else if k < 32 then u64_bytes (ch_seqid h) (k - 24)
      else if k < 48 then ch_uuid h ! (k - 32)
      else if k < 56 then u64_bytes (ch_version h) (k - 48)
      else if k < 64 then u64_bytes (ch_nr_changed_blocks h) (k - 56)
      else 0)"

definition parse_header :: "buf \<Rightarrow> cow_header" where
  "parse_header b = \<lparr>
     ch_magic = bytes_u32 b,
     ch_flags = word_of_nat (bytes_u32 (\<lambda>k. b (4 + k))),
     ch_fpos = bytes_u64 (\<lambda>k. b (8 + k)),
     ch_fsize = bytes_u64 (\<lambda>k. b (16 + k)),
     ch_seqid = bytes_u64 (\<lambda>k. b (24 + k)),
     ch_uuid = map (\<lambda>k. b (32 + k)) [0..<16],
     ch_version = bytes_u64 (\<lambda>k. b (48 + k)),
     ch_nr_changed_blocks = bytes_u64 (\<lambda>k. b (56 + k)) \<rparr>"

definition header_of :: "cow_manager \<Rightarrow> cow_header" where
  "header_of cm = \<lparr>ch_magic = COW_MAGIC, ch_flags = flags cm, ch_fpos = curr_pos cm, ch_fsize = file_max cm,
     ch_seqid = seqid cm, ch_uuid = uuid cm, ch_version = version cm, ch_nr_changed_blocks = nr_changed_blocks cm\<rparr>"

definition cow_write_header :: "('w, 'k) kern_scheme \<Rightarrow> 'd devio_scheme \<Rightarrow> cow_manager \<Rightarrow> bool \<Rightarrow> 'w
    \<Rightarrow> (int \<times> cow_manager \<times> 'w) option" where
  "cow_write_header K dev cm is_clean w =
     (case kmalloc K COW_HEADER_SIZE w of
        (None, w1) \<Rightarrow> Some (- ENOMEM, cm, w1)
      | (Some _, w1) \<Rightarrow>
          let cm1 = cm\<lparr>flags := (if is_clean then set_bit COW_CLEAN (flags cm) else unset_bit COW_CLEAN (flags cm))\<rparr> in
          do { (ret, w2) \<leftarrow> file_write K dev cm1 (header_bytes (header_of cm1)) 0 COW_HEADER_SIZE w1;
               Some (ret, cm1, w2) })"

definition cow_open_header :: "('w, 'k) kern_scheme \<Rightarrow> 'd devio_scheme \<Rightarrow> cow_manager \<Rightarrow> bool \<Rightarrow> bool \<Rightarrow> 'w
    \<Rightarrow> (int \<times> cow_manager \<times> 'w) option" where
  "cow_open_header K dev cm index_only reset_vmalloc w =
     (case kmalloc K COW_HEADER_SIZE w of
        (None, w1) \<Rightarrow> Some (- ENOMEM, cm, w1)
      | (Some _, w1) \<Rightarrow> do {
          (ret, b, w2) \<leftarrow> file_read K dev cm (\<lambda>_. 0) 0 COW_HEADER_SIZE w1;
          (let ch = parse_header b in
           if ret \<noteq> 0 then Some (ret, cm, w2)
           else if ch_magic ch \<noteq> COW_MAGIC then Some (- EINVAL, cm, w2)
           else if \<not> bit (ch_flags ch) COW_CLEAN then Some (- EINVAL, cm, w2)
           else if bit (ch_flags ch) COW_INDEX_ONLY \<noteq> index_only then Some (- EINVAL, cm, w2)
           else cow_write_header K dev
             (cm\<lparr>flags := (if reset_vmalloc then unset_bit COW_VMALLOC_UPPER (ch_flags ch) else ch_flags ch),
                 curr_pos := ch_fpos ch, file_max := ch_fsize ch, seqid := ch_seqid ch, uuid := ch_uuid ch,
                 version := ch_version ch, nr_changed_blocks := ch_nr_changed_blocks ch\<rparr>) False w2) })"

section \<open>Life cycle\<close>

definition cow_free_members :: "('w, 'k) kern_scheme \<Rightarrow> cow_manager \<Rightarrow> 'w \<Rightarrow> cow_manager \<times> 'w" where
  "cow_free_members K cm w =
     (case filp cm of
        None \<Rightarrow> (cm\<lparr>sects := []\<rparr>, w)
      | Some f \<Rightarrow> (cm\<lparr>sects := [], filp := None\<rparr>, file_unlink_and_close_force K f w))"

definition cow_free :: "('w, 'k) kern_scheme \<Rightarrow> cow_manager \<Rightarrow> 'w \<Rightarrow> 'w" where
  "cow_free K cm w = snd (cow_free_members K cm w)"

definition close_filp :: "('w, 'k) kern_scheme \<Rightarrow> nat option \<Rightarrow> 'w \<Rightarrow> 'w" where
  "close_filp K fp w = (case fp of None \<Rightarrow> w | Some f \<Rightarrow> file_close K f w)"

text \<open>The manager itself is freed on every path of \<^verbatim>\<open>cow_sync_and_free\<close>, so only the
  machine is left.\<close>

definition cow_sync_and_free :: "('w, 'k) kern_scheme \<Rightarrow> 'd devio_scheme \<Rightarrow> cow_manager \<Rightarrow> 'w \<Rightarrow> (int \<times> 'w) option" where
  "cow_sync_and_free K dev cm w = do {
     (ret, cm1, w1) \<leftarrow> cow_sync_and_free_sections K dev cm 0 False w;
     (if ret \<noteq> 0 then Some (ret, cow_free K cm1 w1)
      else do {
        (ret, cm2, w2) \<leftarrow> cow_write_header K dev cm1 True w1;
        Some (if ret \<noteq> 0 then (ret, cow_free K cm2 w2) else (0, close_filp K (filp cm2) w2)) }) }"

text \<open>The fifth component of the answer is the lock state of
  \<^verbatim>\<open>elastio_snap_get_cow_file_extents\<close>, which runs after the header has been written.\<close>

definition cow_sync_and_close :: "('w, 'k) kern_scheme \<Rightarrow> nat \<Rightarrow> 'd devio_scheme \<Rightarrow> cow_manager \<Rightarrow> 'w
    \<Rightarrow> (int \<times> cow_manager \<times> 'd devio_scheme \<times> bool \<times> 'w) option" where
  "cow_sync_and_close K ext_buf dev cm w = do {
     (ret, cm1, w1) \<leftarrow> cow_sync_and_free_sections K dev cm 0 True w;
     (if ret \<noteq> 0 then (case cow_free_members K cm1 w1 of (cm2, w2) \<Rightarrow> Some (ret, cm2, dev, False, w2))
      else do {
        (ret, cm2, w2) \<leftarrow> cow_write_header K dev cm1 True w1;
        (if ret \<noteq> 0 then (case cow_free_members K cm2 w2 of (cm3, w3) \<Rightarrow> Some (ret, cm3, dev, False, w3))
         else do {
           (ret, dev1, locked, w3) \<leftarrow> elastio_snap_get_cow_file_extents K dev (filp cm2) ext_buf w2;
           (if ret \<noteq> 0 then (case cow_free_members K cm2 w3 of (cm3, w4) \<Rightarrow> Some (ret, cm3, dev1, locked, w4))
            else Some (0, cm2\<lparr>filp := None\<rparr>, dev1, locked, close_filp K (filp cm2) w3)) }) }) }"

definition cow_reopen :: "('w, 'k) kern_scheme \<Rightarrow> 'd devio_scheme \<Rightarrow> cow_manager \<Rightarrow> string \<Rightarrow> 'w
    \<Rightarrow> (int \<times> cow_manager \<times> 'd devio_scheme \<times> 'w) option" where
  "cow_reopen K dev cm pathname w =
     (case file_open K pathname False w of
        (ret, fp, w1) \<Rightarrow>
          (case fp of
             None \<Rightarrow> Some (ret, cm\<lparr>filp := None\<rparr>, dev, w1)
           | Some f \<Rightarrow>
               let dev1 = dev\<lparr>sd_cow_inode := Some (f_inode K f)\<rparr> in
               do {
                 (ret, cm1, w2) \<leftarrow> cow_open_header K dev1 (cm\<lparr>filp := Some f\<rparr>) (bit (flags cm) COW_INDEX_ONLY) False w1;
                 Some (if ret \<noteq> 0 then (ret, cm1\<lparr>filp := None\<rparr>, dev1, file_close K f w2)
                       else (0, cm1, dev1, w2)) }))"

definition cow_calculate_allowed_sects :: "nat \<Rightarrow> nat \<Rightarrow> nat" where
  "cow_calculate_allowed_sects cache_size nsects =
     (if cache_size \<le> wrap64 (nsects * sizeof_cow_section) then 0
      else (cache_size - wrap64 (nsects * sizeof_cow_section)) div (COW_SECTION_SIZE * sizeof_u64))"

definition sizeof_cow_manager :: nat where
  "sizeof_cow_manager = 136"

text \<open>A manager fresh from \<^verbatim>\<open>kzalloc\<close>.\<close>

definition cow_zero :: cow_manager where
  "cow_zero = \<lparr>filp = None, flags = 0, curr_pos = 0, data_offset = 0, file_max = 0, seqid = 0, version = 0,
     nr_changed_blocks = 0, uuid = replicate 16 0, log_sect_pages = 0, sect_size = 0, allocated_sects = 0,
     total_sects = 0, allowed_sects = 0, sects = [], cm_dev = 0\<rparr>"

text \<open>The size fields both set-up paths compute.\<close>

definition cow_set_sizes :: "('w, 'k) kern_scheme \<Rightarrow> nat \<Rightarrow> nat \<Rightarrow> nat \<Rightarrow> cow_manager \<Rightarrow> cow_manager" where
  "cow_set_sizes K elements sectsz cache_size cm =
     (let lsp = get_order K (sectsz * sizeof_u64);
          nsects = NUM_SEGMENTS elements (lsp + PAGE_SHIFT - 3) in
      cm\<lparr>allocated_sects := 0, sect_size := sectsz, log_sect_pages := lsp, total_sects := nsects,
         allowed_sects := cow_calculate_allowed_sects cache_size nsects,
         data_offset := wrap64 (COW_HEADER_SIZE + nsects * (sectsz * sizeof_u64))\<rparr>)"

text \<open>\<^verbatim>\<open>kzalloc\<close> of the section array with the \<^verbatim>\<open>vzalloc\<close> fall-back.\<close>

definition cow_alloc_sects :: "('w, 'k) kern_scheme \<Rightarrow> cow_manager \<Rightarrow> 'w \<Rightarrow> int \<times> cow_manager \<times> 'w" where
  "cow_alloc_sects K cm w =
     (let zeros = replicate (total_sects cm) \<lparr>has_data = False, usage = 0, mappings = None\<rparr> in
      case kmalloc K (total_sects cm * sizeof_cow_section) w of
        (Some _, w1) \<Rightarrow> (0, cm\<lparr>sects := zeros\<rparr>, w1)
      | (None, w1) \<Rightarrow>
          let cm1 = cm\<lparr>flags := set_bit COW_VMALLOC_UPPER (flags cm)\<rparr> in
          (case kmalloc K (total_sects cm * sizeof_cow_section) w1 of
             (Some _, w2) \<Rightarrow> (0, cm1\<lparr>sects := zeros\<rparr>, w2)
           | (None, w2) \<Rightarrow> (- ENOMEM, cm1, w2)))"

definition cow_reload :: "('w, 'k) kern_scheme \<Rightarrow> nat \<Rightarrow> 'd devio_scheme \<Rightarrow> string \<Rightarrow> nat \<Rightarrow> nat \<Rightarrow> nat \<Rightarrow> bool \<Rightarrow> 'w
    \<Rightarrow> (int \<times> cow_manager option \<times> 'd devio_scheme \<times> 'w) option" where
  "cow_reload K addr dev path elements sectsz cache_size index_only w =
     (case kmalloc K sizeof_cow_manager w of
        (None, w1) \<Rightarrow> None
      | (Some _, w1) \<Rightarrow>
     (case file_open K path False w1 of
        (ret, None, w2) \<Rightarrow> Some (ret, None, dev, w2)
      | (ret, Some f, w2) \<Rightarrow>
          let cm = (cow_set_sizes K elements sectsz cache_size (cow_zero\<lparr>filp := Some f\<rparr>))\<lparr>cm_dev := addr\<rparr>;
              dev1 = dev\<lparr>sd_cow_inode := Some (f_inode K f)\<rparr> in
          do {
            (ret, cm1, w3) \<leftarrow> cow_open_header K dev1 cm index_only True w2;
            (if ret \<noteq> 0 then Some (ret, None, dev1, file_close K f w3)
             else (case cow_alloc_sects K cm1 w3 of (ret, cm2, w4) \<Rightarrow>
               Some (if ret \<noteq> 0 then (ret, None, dev1, file_close K f w4) else (0, Some cm2, dev1, w4)))) }))"

definition cow_init :: "('w, 'k) kern_scheme \<Rightarrow> nat \<Rightarrow> 'd devio_scheme \<Rightarrow> string \<Rightarrow> nat \<Rightarrow> nat \<Rightarrow> nat \<Rightarrow> nat \<Rightarrow> byte list option
    \<Rightarrow> nat \<Rightarrow> 'w \<Rightarrow> (int \<times> cow_manager option \<times> 'd devio_scheme \<times> 'w) option" where
  "cow_init K addr dev path elements sectsz cache_size max_size uuid_opt seq w =
     (case kmalloc K sizeof_cow_manager w of
        (None, w1) \<Rightarrow> None
      | (Some _, w1) \<Rightarrow>
     (case file_open K path True w1 of
        (ret, None, w2) \<Rightarrow> Some (ret, None, dev, w2)
      | (ret, Some f, w2) \<Rightarrow>
          let cm = cow_set_sizes K elements sectsz cache_size
                (cow_zero\<lparr>filp := Some f, version := COW_VERSION_CHANGED_BLOCKS, file_max := max_size, seqid := seq\<rparr>);
              cm = cm\<lparr>curr_pos := data_offset cm div COW_BLOCK_SIZE, cm_dev := addr\<rparr> in
          (case (case uuid_opt of Some u \<Rightarrow> (u, w2) | None \<Rightarrow> generate_random_uuid K w2) of (u, w3) \<Rightarrow>
          (case cow_alloc_sects K (cm\<lparr>uuid := u\<rparr>) w3 of (ret, cm1, w4) \<Rightarrow>
            if ret \<noteq> 0 then Some (ret, None, dev, file_unlink_and_close K f w4)
            else do {
              (ret, w5) \<leftarrow> file_allocate K dev cm1 f 0 max_size w4;
              (if ret \<noteq> 0 then Some (ret, None, dev, file_unlink_and_close K f w5)
               else
                let dev1 = dev\<lparr>sd_cow_inode := Some (f_inode K f)\<rparr> in do {
                  (ret, cm2, w6) \<leftarrow> cow_write_header K dev1 cm1 False w5;
                  Some (if ret \<noteq> 0 then (ret, None, dev1, file_unlink_and_close K f w6)
                        else (0, Some cm2, dev1, w6)) }) }))))"

definition cow_truncate_to_index :: "('w, 'k) kern_scheme \<Rightarrow> cow_manager \<Rightarrow> 'w \<Rightarrow> (int \<times> cow_manager \<times> 'w) option" where
  "cow_truncate_to_index K cm w =
     (let cm1 = cm\<lparr>flags := set_bit COW_INDEX_ONLY (flags cm)\<rparr> in
      do { f \<leftarrow> filp cm1;
           (case file_truncate K f (data_offset cm1) w of (ret, w1) \<Rightarrow> Some (ret, cm1, w1)) })"

definition cow_modify_cache_size :: "cow_manager \<Rightarrow> nat \<Rightarrow> cow_manager" where
  "cow_modify_cache_size cm cache_size =
     cm\<lparr>allowed_sects := cow_calculate_allowed_sects cache_size (total_sects cm)\<rparr>"

section \<open>A small manager\<close>

text \<open>One section of mappings, nothing stored yet; the concrete instance the properties of
  the cow manager are checked on, over \<open>ram_kern\<close> with empty files.\<close>

definition demo_cm :: cow_manager where
  "demo_cm = \<lparr>filp = Some 1, flags = 0, curr_pos = 9, data_offset = 36864, file_max = 1048576, seqid = 1, version = 1,
     nr_changed_blocks = 0, uuid = replicate 16 7, log_sect_pages = 3, sect_size = 4096, allocated_sects = 0,
     total_sects = 1, allowed_sects = 4, sects = [\<lparr>has_data = False, usage = 0, mappings = None\<rparr>], cm_dev = 0\<rparr>"

definition demo_dev :: devio where
  "demo_dev = \<lparr>sd_base_dev = Some 2, sd_cow_inode = Some 1, sd_cow_extents = None, sd_cow_ext_cnt = 0\<rparr>"

definition ram0 :: ram where
  "ram0 = (\<lambda>_ _. 0)"

end
