(* ===== verification/Cow_Mapping.thy ===== *)
theory Cow_Mapping
  imports Cow_Manager
begin

text \<open>
  Reading and writing the block mappings, and the proof that the section cache is
  transparent: whatever is loaded, evicted, written back or freed, the manager stands for
  one function from block numbers to mappings, \<open>mapping_view\<close>. The contract of the two
  operations is the locale \<open>block_map\<close>; the cow manager is shown to be an instance.
\<close>

section \<open>Operations\<close>

definition cow_read_mapping :: "('w, 'k) kern_scheme \<Rightarrow> 'd devio_scheme \<Rightarrow> cow_manager \<Rightarrow> nat \<Rightarrow> 'w
    \<Rightarrow> (int \<times> nat \<times> cow_manager \<times> 'w) option" where
  "cow_read_mapping K dev cm pos w =
     (if sect_size cm = 0 then None else
      let sect_idx = pos div sect_size cm; sect_pos = pos mod sect_size cm in
      do {
        s \<leftarrow> sect_at cm sect_idx;
        (let cm1 = set_sect cm sect_idx (s\<lparr>usage := wrap64 (Suc (usage s))\<rparr>) in
         if mappings s = None \<and> \<not> has_data s then Some (0, 0, cm1, w)
         else do {
           (ret, cm2, w2) \<leftarrow> (if mappings s = None then cow_load_section K dev cm1 sect_idx w else Some (0, cm1, w));
           (if ret \<noteq> 0 then Some (ret, 0, cm2, w2)
            else do {
              s2 \<leftarrow> sect_at cm2 sect_idx;
              m \<leftarrow> mappings s2;
              (if allowed_sects cm2 < allocated_sects cm2 then do {
                 (ret, cm3, w3) \<leftarrow> cow_cleanup_mappings K dev cm2 w2;
                 Some (ret, m sect_pos, cm3, w3) }
               else Some (0, m sect_pos, cm2, w2)) }) }) })"

definition cow_write_mapping :: "('w, 'k) kern_scheme \<Rightarrow> 'd devio_scheme \<Rightarrow> cow_manager \<Rightarrow> nat \<Rightarrow> nat \<Rightarrow> 'w
    \<Rightarrow> (int \<times> cow_manager \<times> 'w) option" where
  "cow_write_mapping K dev cm pos val w =
     (if sect_size cm = 0 then None else
      let sect_idx = pos div sect_size cm; sect_pos = pos mod sect_size cm in
      do {
        s \<leftarrow> sect_at cm sect_idx;
        (let cm1 = set_sect cm sect_idx (s\<lparr>usage := wrap64 (Suc (usage s))\<rparr>) in
         do {
           (ret, cm2, w2) \<leftarrow>
             (if mappings s \<noteq> None then Some (0, cm1, w)
              else if \<not> has_data s then cow_alloc_section K cm1 sect_idx True w
              else cow_load_section K dev cm1 sect_idx w);
           (if ret \<noteq> 0 then Some (ret, cm2, w2)
            else do {
              s2 \<leftarrow> sect_at cm2 sect_idx;
              m \<leftarrow> mappings s2;
              (let nr = (if COW_VERSION_CHANGED_BLOCKS \<le> version cm2 \<and> m sect_pos = 0
                         then wrap64 (Suc (nr_changed_blocks cm2)) else nr_changed_blocks cm2);
                   cm3 = (set_sect cm2 sect_idx (s2\<lparr>mappings := Some (m(sect_pos := val))\<rparr>))\<lparr>nr_changed_blocks := nr\<rparr> in
               if allowed_sects cm3 < allocated_sects cm3 then cow_cleanup_mappings K dev cm3 w2
               else Some (0, cm3, w2)) }) }) })"

definition cow_write_current_mapping :: "('w, 'k) kern_scheme \<Rightarrow> 'd devio_scheme \<Rightarrow> cow_manager \<Rightarrow> nat \<Rightarrow> 'w
    \<Rightarrow> (int \<times> cow_manager \<times> 'w) option" where
  "cow_write_current_mapping K dev cm pos w = cow_write_mapping K dev cm pos (curr_pos cm) w"

definition cow_write_filler_mapping :: "('w, 'k) kern_scheme \<Rightarrow> 'd devio_scheme \<Rightarrow> cow_manager \<Rightarrow> nat \<Rightarrow> 'w
    \<Rightarrow> (int \<times> cow_manager \<times> 'w) option" where
  "cow_write_filler_mapping K dev cm pos w = cow_write_mapping K dev cm pos 1 w"

section \<open>The mapping a manager stands for\<close>

definition disk_word :: "buf \<Rightarrow> nat \<Rightarrow> nat" where
  "disk_word d pos = bytes_u64 (\<lambda>k. d (4096 + 8 * pos + k))"

definition sect_word :: "buf \<Rightarrow> cow_section \<Rightarrow> nat \<Rightarrow> nat" where
  "sect_word d s pos =
     (case mappings s of Some m \<Rightarrow> m (pos mod 4096) | None \<Rightarrow> if has_data s then disk_word d pos else 0)"

definition cow_file :: "cow_manager \<Rightarrow> nat" where
  "cow_file cm = the (filp cm)"

definition cow_bytes :: "('w \<Rightarrow> nat \<Rightarrow> buf) \<Rightarrow> cow_manager \<Rightarrow> 'w \<Rightarrow> buf" where
  "cow_bytes fd cm w = fd w (cow_file cm)"

definition mapping_view :: "('w \<Rightarrow> nat \<Rightarrow> buf) \<Rightarrow> cow_manager \<Rightarrow> 'w \<Rightarrow> nat \<Rightarrow> nat" where
  "mapping_view fd cm w pos =
     (if pos < 4096 * total_sects cm then sect_word (cow_bytes fd cm w) (sects cm ! (pos div 4096)) pos else 0)"

definition sect_ok :: "cow_section \<Rightarrow> bool" where
  "sect_ok s \<longleftrightarrow> (case mappings s of None \<Rightarrow> True | Some m \<Rightarrow> has_data s \<and> (\<forall>j. m j < 2 ^ 64))"

definition cm_ok :: "cow_manager \<Rightarrow> bool" where
  "cm_ok cm \<longleftrightarrow> filp cm \<noteq> None \<and> sect_size cm = 4096 \<and> length (sects cm) = total_sects cm \<and>
     data_offset cm = 4096 + 32768 * total_sects cm \<and> data_offset cm < 2 ^ 63 \<and> list_all sect_ok (sects cm)"

text \<open>Two managers that differ in their sections only.\<close>

definition same_but_sects :: "cow_manager \<Rightarrow> cow_manager \<Rightarrow> bool" where
  "same_but_sects cm cm' \<longleftrightarrow> cm' = cm\<lparr>sects := sects cm', allocated_sects := allocated_sects cm'\<rparr>"

lemma same_but_sects_refl [simp]: "same_but_sects cm cm"
  by (simp add: same_but_sects_def)

lemma same_but_sects_trans: "same_but_sects a b \<Longrightarrow> same_but_sects b c \<Longrightarrow> same_but_sects a c"
proof -
  assume "same_but_sects a b" "same_but_sects b c"
  then obtain ss n ts m where "b = a\<lparr>sects := ss, allocated_sects := n\<rparr>" "c = b\<lparr>sects := ts, allocated_sects := m\<rparr>"
    unfolding same_but_sects_def by blast
  then have "c = a\<lparr>sects := ts, allocated_sects := m\<rparr>" by simp
  then show ?thesis by (simp add: same_but_sects_def)
qed

lemma same_but_sects_fields:
  assumes "same_but_sects a b"
  shows "filp b = filp a" "flags b = flags a" "curr_pos b = curr_pos a" "data_offset b = data_offset a"
    "file_max b = file_max a" "seqid b = seqid a" "version b = version a"
    "nr_changed_blocks b = nr_changed_blocks a" "uuid b = uuid a" "log_sect_pages b = log_sect_pages a"
    "sect_size b = sect_size a" "total_sects b = total_sects a" "allowed_sects b = allowed_sects a"
    "cow_file b = cow_file a" "cm_dev b = cm_dev a"
proof -
  obtain ss n where b: "b = a\<lparr>sects := ss, allocated_sects := n\<rparr>"
    using assms unfolding same_but_sects_def by blast
  show "filp b = filp a" "flags b = flags a" "curr_pos b = curr_pos a" "data_offset b = data_offset a"
    "file_max b = file_max a" "seqid b = seqid a" "version b = version a"
    "nr_changed_blocks b = nr_changed_blocks a" "uuid b = uuid a" "log_sect_pages b = log_sect_pages a"
    "sect_size b = sect_size a" "total_sects b = total_sects a" "allowed_sects b = allowed_sects a"
    "cow_file b = cow_file a" "cm_dev b = cm_dev a"
    by (simp_all add: b cow_file_def)
qed

lemma same_but_sects_updates [simp]:
  "same_but_sects cm (set_sect cm i s)"
  "same_but_sects cm ((set_sect cm i s)\<lparr>allocated_sects := n\<rparr>)"
  by (simp_all add: same_but_sects_def set_sect_def)

text \<open>The write-back area of a file is its index, bytes 4096 up to the data.\<close>

definition same_outside_index :: "('w \<Rightarrow> nat \<Rightarrow> buf) \<Rightarrow> cow_manager \<Rightarrow> 'w \<Rightarrow> 'w \<Rightarrow> bool" where
  "same_outside_index fd cm w w' \<longleftrightarrow>
     (\<forall>g i. g \<noteq> cow_file cm \<or> i < 4096 \<or> data_offset cm \<le> i \<longrightarrow> fd w' g i = fd w g i)"

lemma same_outside_index_refl [simp]: "same_outside_index fd cm w w"
  by (simp add: same_outside_index_def)

lemma same_outside_index_trans:
  "same_outside_index fd cm a b \<Longrightarrow> same_outside_index fd cm b c \<Longrightarrow> same_outside_index fd cm a c"
  by (simp add: same_outside_index_def)

lemma same_outside_index_eq: "fd w' = fd w \<Longrightarrow> same_outside_index fd cm w w'"
  by (simp add: same_outside_index_def)

section \<open>Sections between memory and file\<close>

lemma words_of_less [simp]: "words_of b j < 2 ^ 64" "words_of b j < 18446744073709551616"
  using bytes_u64_less [of "\<lambda>k. b (8 * j + k)"] by (simp_all add: words_of_def)

lemma words_of_cong:
  "(\<And>k. k < 4096 \<Longrightarrow> b k = d (off + k)) \<Longrightarrow> j < 512 \<Longrightarrow> off = 4096 + 8 * base \<Longrightarrow>
     words_of b j = disk_word d (base + j)"
  unfolding words_of_def disk_word_def by (rule bytes_u64_cong) (simp add: add_ac)

lemma disk_word_cong:
  "(\<And>k. k < 8 \<Longrightarrow> d (4096 + 8 * pos + k) = e (4096 + 8 * pos + k)) \<Longrightarrow> disk_word d pos = disk_word e pos"
  unfolding disk_word_def by (rule bytes_u64_cong)

lemma disk_word_bytes_of:
  assumes "\<And>k. k < 4096 \<Longrightarrow> d (4096 + 8 * base + k) = bytes_of m (8 * b + k)" "j < 512" "m (b + j) < 2 ^ 64"
  shows "disk_word d (base + j) = m (b + j)"
proof -
  have "disk_word d (base + j) = bytes_u64 (u64_bytes (m (b + j)))"
    unfolding disk_word_def
  proof (rule bytes_u64_cong)
    fix k :: nat assume k: "k < 8"
    have "d (4096 + 8 * (base + j) + k) = d (4096 + 8 * base + (8 * j + k))" by (simp add: algebra_simps)
    also have "\<dots> = bytes_of m (8 * b + (8 * j + k))" using k assms(2) by (intro assms(1)) simp
    also have "8 * b + (8 * j + k) = k + (b + j) * 8" by simp
    also have "bytes_of m (k + (b + j) * 8) = u64_bytes (m (b + j)) k"
      using k unfolding bytes_of_def by (subst div_mult_self1, simp, subst mod_mult_self1, simp)
    finally show "d (4096 + 8 * (base + j) + k) = u64_bytes (m (b + j)) k" .
  qed
  with assms(3) show ?thesis by (simp only: bytes_u64_u64_bytes)
qed

lemma sect_file_off_eq:
  assumes "cm_ok cm" "idx < total_sects cm" "i < 8"
  shows "sect_file_off cm idx i = 4096 + 8 * (4096 * idx + 512 * i)"
    and "4096 + 8 * (4096 * idx + 512 * i) + 4096 \<le> data_offset cm"
proof -
  have sz: "sect_size cm = 4096" "data_offset cm = 4096 + 32768 * total_sects cm" "data_offset cm < 2 ^ 63"
    using assms(1) by (auto simp: cm_ok_def)
  from assms(2) have t: "32768 * idx + 32768 \<le> 32768 * total_sects cm" by simp
  with sz(2) assms(3) show le: "4096 + 8 * (4096 * idx + 512 * i) + 4096 \<le> data_offset cm" by simp
  with sz(3) have "4096 + 8 * (4096 * idx + 512 * i) < 2 ^ 64" by simp
  then show "sect_file_off cm idx i = 4096 + 8 * (4096 * idx + 512 * i)"
    by (simp add: sect_file_off_def sz(1) algebra_simps)
qed

text \<open>Loading: the file is not changed and on success the loaded blocks hold the file's words.\<close>

lemma load_chunks_total:
  "filp cm = Some f \<Longrightarrow> \<exists>r m' w'. load_chunks K dev cm idx is m w = Some (r, m', w')"
proof (induction "is" arbitrary: m w)
  case (Cons i "is")
  obtain r b w1 where "file_read K dev cm (\<lambda>k. bytes_of m (COW_BLOCK_SIZE * i + k)) (sect_file_off cm idx i) COW_BLOCK_SIZE w
      = Some (r, b, w1)"
    using file_read_total [OF Cons.prems] by metis
  with Cons.IH [OF Cons.prems] show ?case by (auto simp del: COW_BLOCK_SIZE_def)
qed simp

lemma load_chunks_frame:
  assumes "file_laws K fd" "filp cm = Some f"
  shows "load_chunks K dev cm idx is m w = Some (r, m', w') \<Longrightarrow> (\<forall>j. m j < 2 ^ 64) \<Longrightarrow>
     fd w' = fd w \<and> (\<forall>j. m' j < 2 ^ 64)"
proof (induction "is" arbitrary: m w)
  case (Cons i "is")
  let ?b0 = "\<lambda>k. bytes_of m (COW_BLOCK_SIZE * i + k)"
  obtain r1 b w1 where rd: "file_read K dev cm ?b0 (sect_file_off cm idx i) COW_BLOCK_SIZE w = Some (r1, b, w1)"
    using file_read_total [OF assms(2)] by metis
  note fr = file_read_laws [OF assms rd]
  from Cons.prems rd show ?case
    using Cons.IH fr(1) by (auto simp del: COW_BLOCK_SIZE_def split: if_splits)
qed simp

lemma load_chunks_words:
  assumes laws: "file_laws K fd" and ok: "cm_ok cm" and idx: "idx < total_sects cm"
  shows "load_chunks K dev cm idx is m w = Some (0, m', w') \<Longrightarrow> set is \<subseteq> {..<8} \<Longrightarrow>
     j div 512 \<in> set is \<or> m j = disk_word (cow_bytes fd cm w) (4096 * idx + j) \<Longrightarrow>
     m' j = disk_word (cow_bytes fd cm w) (4096 * idx + j)"
proof (induction "is" arbitrary: m w)
  case (Cons i "is")
  obtain f where f: "filp cm = Some f" using ok by (auto simp: cm_ok_def)
  let ?b0 = "\<lambda>k. bytes_of m (COW_BLOCK_SIZE * i + k)"
  obtain r1 b w1 where rd: "file_read K dev cm ?b0 (sect_file_off cm idx i) COW_BLOCK_SIZE w = Some (r1, b, w1)"
    using file_read_total [OF f] by metis
  let ?m1 = "\<lambda>j. if chunk_words * i \<le> j \<and> j < chunk_words * i + chunk_words then words_of b (j - chunk_words * i) else m j"
  from Cons.prems(1) rd have r1: "r1 = 0" and rest: "load_chunks K dev cm idx is ?m1 w1 = Some (0, m', w')"
    by (auto simp del: COW_BLOCK_SIZE_def split: if_splits)
  from Cons.prems(2) have i8: "i < 8" by simp
  note off = sect_file_off_eq [OF ok idx i8]
  note fr = file_read_laws [OF laws f rd]
  have same: "cow_bytes fd cm w1 = cow_bytes fd cm w" using fr(1) by (simp add: cow_bytes_def)
  have chunk: "words_of b j' = disk_word (cow_bytes fd cm w) (4096 * idx + 512 * i + j')" if "j' < 512" for j'
  proof (rule words_of_cong [OF _ that])
    show "b k = cow_bytes fd cm w (sect_file_off cm idx i + k)" if "k < 4096" for k
      using fr(2) [of k] r1 f that by (simp add: cow_bytes_def cow_file_def)
    show "sect_file_off cm idx i = 4096 + 8 * (4096 * idx + 512 * i)" by (rule off(1))
  qed
  have m1: "?m1 j = disk_word (cow_bytes fd cm w1) (4096 * idx + j)" if "j div 512 \<notin> set is"
  proof (cases "j div 512 = i")
    case True
    then have "512 * i \<le> j \<and> j < 512 * i + 512" by (auto simp: div_nat_eqI)
    then have "words_of b (j - 512 * i) = disk_word (cow_bytes fd cm w) (4096 * idx + j)"
      using chunk [of "j - 512 * i"] less_diff_conv2 [of "512 * i" j 512] by (simp add: add.assoc add.commute)
    with \<open>512 * i \<le> j \<and> j < 512 * i + 512\<close> show ?thesis by (simp add: same chunk_words_def)
  next
    case False
    then have "\<not> (512 * i \<le> j \<and> j < 512 * i + 512)" by (auto simp: div_nat_eqI)
    with False that Cons.prems(3) show ?thesis by (auto simp: same chunk_words_def)
  qed
  have "m' j = disk_word (cow_bytes fd cm w1) (4096 * idx + j)"
    using Cons.IH [OF rest] Cons.prems(2) m1 by auto
  then show ?case by (simp add: same)
qed auto

text \<open>Writing back: nothing outside the section's part of the index changes, and on success
  the file holds the section.\<close>

lemma write_chunks_total:
  "filp cm = Some f \<Longrightarrow> \<exists>r w'. write_chunks K dev cm idx is m w = Some (r, w')"
proof (induction "is" arbitrary: w)
  case (Cons i "is")
  obtain r w1 where "file_write K dev cm (\<lambda>k. bytes_of m (COW_BLOCK_SIZE * i + k)) (sect_file_off cm idx i) COW_BLOCK_SIZE w
      = Some (r, w1)"
    using file_write_total [OF Cons.prems] by metis
  with Cons.IH [OF Cons.prems] show ?case by (auto simp del: COW_BLOCK_SIZE_def)
qed simp

lemma write_chunks_frame:
  assumes laws: "file_laws K fd" and ok: "cm_ok cm" and idx: "idx < total_sects cm"
  shows "write_chunks K dev cm idx is m w = Some (r, w') \<Longrightarrow> set is \<subseteq> {..<8} \<Longrightarrow>
     g \<noteq> cow_file cm \<or> (\<forall>i \<in> set is. x < 4096 + 8 * (4096 * idx + 512 * i) \<or> 4096 + 8 * (4096 * idx + 512 * i) + 4096 \<le> x) \<Longrightarrow>
     fd w' g x = fd w g x"
proof (induction "is" arbitrary: w)
  case (Cons i "is")
  obtain f where f: "filp cm = Some f" using ok by (auto simp: cm_ok_def)
  obtain r1 w1 where wr: "file_write K dev cm (\<lambda>k. bytes_of m (COW_BLOCK_SIZE * i + k)) (sect_file_off cm idx i) COW_BLOCK_SIZE w
      = Some (r1, w1)"
    using file_write_total [OF f] by metis
  from Cons.prems(2) have i8: "i < 8" by simp
  note off = sect_file_off_eq [OF ok idx i8]
  have "fd w1 g x = fd w g x"
    using file_write_laws(1) [OF laws f wr, of g x] Cons.prems(3) f by (auto simp: off(1) cow_file_def)
  with Cons.prems wr Cons.IH show ?case by (auto simp del: COW_BLOCK_SIZE_def split: if_splits)
qed simp

lemma write_chunks_words:
  assumes laws: "file_laws K fd" and ok: "cm_ok cm" and idx: "idx < total_sects cm" and m: "\<forall>j. m j < 2 ^ 64"
  shows "write_chunks K dev cm idx is m w = Some (0, w') \<Longrightarrow> set is \<subseteq> {..<8} \<Longrightarrow> distinct is \<Longrightarrow>
     j div 512 \<in> set is \<Longrightarrow> disk_word (cow_bytes fd cm w') (4096 * idx + j) = m j"
proof (induction "is" arbitrary: w)
  case (Cons i "is")
  obtain f where f: "filp cm = Some f" using ok by (auto simp: cm_ok_def)
  obtain r1 w1 where wr: "file_write K dev cm (\<lambda>k. bytes_of m (COW_BLOCK_SIZE * i + k)) (sect_file_off cm idx i) COW_BLOCK_SIZE w
      = Some (r1, w1)"
    using file_write_total [OF f] by metis
  from Cons.prems(1) wr have r1: "r1 = 0" and rest: "write_chunks K dev cm idx is m w1 = Some (0, w')"
    by (auto simp del: COW_BLOCK_SIZE_def split: if_splits)
  from Cons.prems(2) have i8: "i < 8" by simp
  note off = sect_file_off_eq [OF ok idx i8]
  show ?case
  proof (cases "j div 512 \<in> set is")
    case True
    then show ?thesis using Cons.IH [OF rest] Cons.prems(2,3) by simp
  next
    case False
    with Cons.prems(4) have ji: "j div 512 = i" by simp
    then have j: "512 * i \<le> j" "j < 512 * i + 512" by (auto simp: div_nat_eqI)
    have keep: "cow_bytes fd cm w' (4096 + 8 * (4096 * idx + 512 * i) + k) = bytes_of m (8 * (512 * i) + k)"
      if k: "k < 4096" for k
    proof -
      let ?x = "4096 + 8 * (4096 * idx + 512 * i) + k"
      have sep: "?x < 4096 + 8 * (4096 * idx + 512 * i') \<or> 4096 + 8 * (4096 * idx + 512 * i') + 4096 \<le> ?x"
        if "i' \<in> set is" for i'
      proof -
        from that Cons.prems(3) have "i' < i \<or> i < i'"
          by (metis distinct.simps(2) nat_neq_iff)
        with k show ?thesis by auto
      qed
      have "fd w' (cow_file cm) ?x = fd w1 (cow_file cm) ?x"
        by (rule write_chunks_frame [OF laws ok idx rest]) (use Cons.prems(2) sep in auto)
      also have "\<dots> = bytes_of m (8 * (512 * i) + k)"
        using file_write_laws(2) [OF laws f wr, of k] r1 k f off(1) by (simp add: cow_file_def mult.assoc)
      finally show ?thesis by (simp add: cow_bytes_def)
    qed
    have "disk_word (cow_bytes fd cm w') (4096 * idx + 512 * i + (j - 512 * i)) = m (512 * i + (j - 512 * i))"
      by (rule disk_word_bytes_of [OF keep]) (use j m in auto)
    with j show ?thesis by (simp add: add.assoc)
  qed
qed auto

lemma chunk_list: "[0..<sect_size_bytes div 4096] = [0..<8]" "set [0..<8] \<subseteq> {..<(8 :: nat)}"
  by (auto simp: sect_size_bytes_def)

section \<open>The sections one at a time\<close>

lemma sect_at_ok: "cm_ok cm \<Longrightarrow> i < total_sects cm \<Longrightarrow> sect_at cm i = Some (sects cm ! i)"
  by (simp add: sect_at_def cm_ok_def)

lemma cm_ok_sect: "cm_ok cm \<Longrightarrow> i < total_sects cm \<Longrightarrow> sect_ok (sects cm ! i)"
  by (simp add: cm_ok_def list_all_length)

lemma set_sect_simps [simp]:
  "filp (set_sect cm i s) = filp cm" "flags (set_sect cm i s) = flags cm"
  "curr_pos (set_sect cm i s) = curr_pos cm" "data_offset (set_sect cm i s) = data_offset cm"
  "file_max (set_sect cm i s) = file_max cm" "version (set_sect cm i s) = version cm"
  "nr_changed_blocks (set_sect cm i s) = nr_changed_blocks cm" "sect_size (set_sect cm i s) = sect_size cm"
  "total_sects (set_sect cm i s) = total_sects cm" "allowed_sects (set_sect cm i s) = allowed_sects cm"
  "allocated_sects (set_sect cm i s) = allocated_sects cm" "log_sect_pages (set_sect cm i s) = log_sect_pages cm"
  "sects (set_sect cm i s) = (sects cm)[i := s]" "cow_file (set_sect cm i s) = cow_file cm"
  by (simp_all add: set_sect_def cow_file_def)

lemma cow_file_allocated [simp]: "cow_file (cm\<lparr>allocated_sects := n\<rparr>) = cow_file cm"
  by (simp add: cow_file_def)

lemma cm_ok_set_sect: "cm_ok cm \<Longrightarrow> sect_ok s \<Longrightarrow> cm_ok (set_sect cm i s)"
  unfolding cm_ok_def by (auto simp: list_all_iff dest!: set_update_subset_insert [THEN subsetD])

lemma cm_ok_allocated [simp]: "cm_ok (cm\<lparr>allocated_sects := n\<rparr>) = cm_ok cm"
  by (simp add: cm_ok_def)

lemma mapping_view_allocated [simp]: "mapping_view fd (cm\<lparr>allocated_sects := n\<rparr>) w = mapping_view fd cm w"
  by (rule ext) (simp add: mapping_view_def cow_bytes_def cow_file_def)

text \<open>Replacing one section by another that stands for the same words.\<close>

lemma mapping_view_set_sect:
  assumes "cm_ok cm" "i < total_sects cm" "cow_bytes fd cm w' = cow_bytes fd cm w"
    and "\<And>pos. pos div 4096 = i \<Longrightarrow> sect_word (cow_bytes fd cm w) s pos = sect_word (cow_bytes fd cm w) (sects cm ! i) pos"
  shows "mapping_view fd (set_sect cm i s) w' = mapping_view fd cm w"
proof (rule ext)
  fix pos
  have len: "length (sects cm) = total_sects cm" using assms(1) by (simp add: cm_ok_def)
  have "cow_bytes fd (set_sect cm i s) w' = cow_bytes fd cm w" using assms(3) by (simp add: cow_bytes_def)
  with assms(2,4) len show "mapping_view fd (set_sect cm i s) w' pos = mapping_view fd cm w pos"
    by (cases "pos div 4096 = i") (auto simp: mapping_view_def)
qed

lemma sect_word_usage [simp]: "sect_word d (s\<lparr>usage := u\<rparr>) pos = sect_word d s pos"
  by (simp add: sect_word_def)

lemma sect_ok_usage [simp]: "sect_ok (s\<lparr>usage := u\<rparr>) = sect_ok s"
  by (simp add: sect_ok_def split: option.split)

lemma sect_ok_None [simp]: "sect_ok (s\<lparr>mappings := None\<rparr>)"
  by (simp add: sect_ok_def)

text \<open>What every operation on the cache keeps, whether it succeeds or not.\<close>

definition cache_step :: "('w \<Rightarrow> nat \<Rightarrow> buf) \<Rightarrow> cow_manager \<Rightarrow> 'w \<Rightarrow> cow_manager \<Rightarrow> 'w \<Rightarrow> bool" where
  "cache_step fd cm w cm' w' \<longleftrightarrow>
     same_but_sects cm cm' \<and> same_outside_index fd cm w w' \<and> cm_ok cm' \<and> mapping_view fd cm' w' = mapping_view fd cm w"

lemma cache_step_refl: "cm_ok cm \<Longrightarrow> cache_step fd cm w cm w"
  by (simp add: cache_step_def)

lemma cache_step_trans: "cache_step fd a u b v \<Longrightarrow> cache_step fd b v c x \<Longrightarrow> cache_step fd a u c x"
  unfolding cache_step_def
  by (auto intro: same_but_sects_trans simp: same_outside_index_def same_but_sects_fields)

lemma cache_step_set_usage:
  assumes "cm_ok cm" "i < total_sects cm"
  shows "cache_step fd cm w (set_sect cm i ((sects cm ! i)\<lparr>usage := u\<rparr>)) w"
  unfolding cache_step_def
  using assms by (auto intro!: cm_ok_set_sect mapping_view_set_sect simp: cm_ok_sect)

text \<open>Loading a section that is only in the file.\<close>

lemma cow_load_section_spec:
  assumes laws: "file_laws K fd" and ok: "cm_ok cm" and idx: "idx < total_sects cm"
    and s: "mappings (sects cm ! idx) = None" "has_data (sects cm ! idx)"
  shows "\<exists>r cm' w'. cow_load_section K dev cm idx w = Some (r, cm', w') \<and> cache_step fd cm w cm' w' \<and>
     (r = 0 \<longrightarrow> mappings (sects cm' ! idx) \<noteq> None)"
proof -
  let ?s = "sects cm ! idx"
  obtain f where f: "filp cm = Some f" using ok by (auto simp: cm_ok_def)
  have len: "length (sects cm) = total_sects cm" using ok by (simp add: cm_ok_def)
  obtain g w1 where al: "kmalloc K (PAGE_SIZE * 2 ^ log_sect_pages cm) w = (g, w1)" by fastforce
  note fd1 = alloc_lawD [OF laws al]
  have None_view: "mapping_view fd (set_sect cm idx (?s\<lparr>mappings := None\<rparr>)) w' = mapping_view fd cm w'" for w'
    by (rule mapping_view_set_sect [OF ok idx refl]) (simp add: sect_word_def s)
  have view_fd: "mapping_view fd cm w' = mapping_view fd cm w" if "fd w' = fd w" for w'
    using that by (auto simp: mapping_view_def cow_bytes_def)
  show ?thesis
  proof (cases g)
    case None
    have "cache_step fd cm w (set_sect cm idx (?s\<lparr>mappings := None\<rparr>)) w1"
      using ok view_fd [OF fd1] fd1 None_view
      by (auto simp: cache_step_def same_outside_index_eq intro: cm_ok_set_sect)
    with None al sect_at_ok [OF ok idx] show ?thesis
      by (simp add: cow_load_section_def cow_alloc_section_def del: PAGE_SIZE_def)
  next
    case (Some gb)
    let ?s1 = "?s\<lparr>has_data := True, mappings := Some (words_of gb)\<rparr>"
    let ?cm1 = "(set_sect cm idx ?s1)\<lparr>allocated_sects := wrap64 (Suc (allocated_sects cm))\<rparr>"
    have al1: "cow_alloc_section K cm idx False w = Some (0, ?cm1, w1)"
      using Some al sect_at_ok [OF ok idx] by (simp add: cow_alloc_section_def del: PAGE_SIZE_def)
    have ok1: "cm_ok ?cm1" using ok by (auto intro!: cm_ok_set_sect simp: sect_ok_def)
    have at1: "sect_at ?cm1 idx = Some ?s1" using len idx by (simp add: sect_at_def)
    obtain r m' w2 where ld: "load_chunks K dev ?cm1 idx [0..<8] (words_of gb) w1 = Some (r, m', w2)"
      using load_chunks_total [of ?cm1 f] f by fastforce
    have fr: "fd w2 = fd w1 \<and> (\<forall>j. m' j < 2 ^ 64)"
      using load_chunks_frame [OF laws _ ld] f by simp
    let ?cm2 = "set_sect ?cm1 idx (?s1\<lparr>mappings := Some m'\<rparr>)"
    have fd2: "fd w2 = fd w" using fr fd1 by simp
    show ?thesis
    proof (cases "r = 0")
      case True
      have words: "m' (pos mod 4096) = disk_word (cow_bytes fd cm w) pos" if "pos div 4096 = idx" for pos
      proof -
        have "m' (pos mod 4096) = disk_word (cow_bytes fd ?cm1 w1) (4096 * idx + pos mod 4096)"
        proof (rule load_chunks_words [OF laws ok1])
          show "load_chunks K dev ?cm1 idx [0..<8] (words_of gb) w1 = Some (0, m', w2)" using ld True by simp
          have "pos mod 4096 < 8 * 512" by simp
          then have "pos mod 4096 div 512 < 8" by (rule less_mult_imp_div_less)
          then show "pos mod 4096 div 512 \<in> set [0..<8] \<or>
              words_of gb (pos mod 4096) = disk_word (cow_bytes fd ?cm1 w1) (4096 * idx + pos mod 4096)" by simp
        qed (use idx in auto)
        moreover have "4096 * idx + pos mod 4096 = pos" using that mult_div_mod_eq [of 4096 pos] by simp
        moreover have "cow_bytes fd ?cm1 w1 = cow_bytes fd cm w" using fd1 by (simp add: cow_bytes_def)
        ultimately show ?thesis by simp
      qed
      have eq: "?cm2 = (set_sect cm idx (?s1\<lparr>mappings := Some m'\<rparr>))\<lparr>allocated_sects := wrap64 (Suc (allocated_sects cm))\<rparr>"
        by (simp add: set_sect_def)
      have "mapping_view fd (set_sect cm idx (?s1\<lparr>mappings := Some m'\<rparr>)) w2 = mapping_view fd cm w"
        by (rule mapping_view_set_sect [OF ok idx]) (auto simp: cow_bytes_def fd2 sect_word_def s words)
      then have "cache_step fd cm w ?cm2 w2"
        unfolding cache_step_def eq using ok fr fd2
        by (auto simp: same_outside_index_eq sect_ok_def intro!: cm_ok_set_sect)
      with al1 at1 ld True len idx show ?thesis
        by (simp add: cow_load_section_def chunk_list Let_def)
    next
      case False
      let ?cm3 = "(set_sect ?cm2 idx (?s1\<lparr>mappings := None\<rparr>))\<lparr>allocated_sects := sub64 (allocated_sects ?cm2) 1\<rparr>"
      have fs: "cow_free_section ?cm2 idx = Some ?cm3"
        using len idx by (simp add: cow_free_section_def sect_at_def)
      have eq: "?cm3 = (set_sect cm idx (?s1\<lparr>mappings := None\<rparr>))\<lparr>allocated_sects := sub64 (allocated_sects ?cm2) 1\<rparr>"
        by (simp add: set_sect_def)
      have "mapping_view fd (set_sect cm idx (?s1\<lparr>mappings := None\<rparr>)) w2 = mapping_view fd cm w"
        by (rule mapping_view_set_sect [OF ok idx]) (auto simp: cow_bytes_def fd2 sect_word_def s)
      then have "cache_step fd cm w ?cm3 w2"
        unfolding cache_step_def eq using ok fd2
        by (auto simp: same_outside_index_eq sect_ok_def intro!: cm_ok_set_sect)
      with al1 at1 ld False fs show ?thesis
        by (simp add: cow_load_section_def chunk_list Let_def)
    qed
  qed
qed

text \<open>A fresh section of zeros for one that has no data anywhere.\<close>

lemma cow_alloc_section_zero_spec:
  assumes laws: "file_laws K fd" and ok: "cm_ok cm" and idx: "idx < total_sects cm"
    and s: "mappings (sects cm ! idx) = None" "\<not> has_data (sects cm ! idx)"
  shows "\<exists>r cm' w'. cow_alloc_section K cm idx True w = Some (r, cm', w') \<and> cache_step fd cm w cm' w' \<and>
     (r = 0 \<longrightarrow> mappings (sects cm' ! idx) \<noteq> None)"
proof -
  have len: "length (sects cm) = total_sects cm" using ok by (simp add: cm_ok_def)
  obtain g w1 where al: "kmalloc K (PAGE_SIZE * 2 ^ log_sect_pages cm) w = (g, w1)" by fastforce
  note fd1 = alloc_lawD [OF laws al]
  show ?thesis
  proof (cases g)
    case None
    have "cache_step fd cm w (set_sect cm idx ((sects cm ! idx)\<lparr>mappings := None\<rparr>)) w1"
      unfolding cache_step_def using ok idx fd1 s
      by (auto simp: same_outside_index_eq sect_word_def cow_bytes_def intro!: cm_ok_set_sect mapping_view_set_sect)
    with None al sect_at_ok [OF ok idx] show ?thesis
      by (simp add: cow_alloc_section_def del: PAGE_SIZE_def)
  next
    case (Some gb)
    let ?s1 = "(sects cm ! idx)\<lparr>has_data := True, mappings := Some (\<lambda>_. 0)\<rparr>"
    have "cache_step fd cm w ((set_sect cm idx ?s1)\<lparr>allocated_sects := wrap64 (Suc (allocated_sects cm))\<rparr>) w1"
      unfolding cache_step_def using ok idx fd1 s
      by (auto simp: same_outside_index_eq sect_word_def cow_bytes_def sect_ok_def
            intro!: cm_ok_set_sect mapping_view_set_sect)
    with Some al sect_at_ok [OF ok idx] len idx show ?thesis
      by (simp add: cow_alloc_section_def del: PAGE_SIZE_def)
  qed
qed

text \<open>Writing a loaded section back: the file changes only in the section's own part of the
  index, which nobody reads while the section is loaded.\<close>

lemma cow_write_section_spec:
  assumes laws: "file_laws K fd" and ok: "cm_ok cm" and idx: "idx < total_sects cm"
    and m: "mappings (sects cm ! idx) = Some m"
  shows "\<exists>r w'. cow_write_section K dev cm idx w = Some (r, w') \<and> cache_step fd cm w cm w' \<and>
     (r = 0 \<longrightarrow> (\<forall>pos. pos div 4096 = idx \<longrightarrow> disk_word (cow_bytes fd cm w') pos = m (pos mod 4096)))"
proof -
  obtain f where f: "filp cm = Some f" using ok by (auto simp: cm_ok_def)
  have m64: "\<forall>j. m j < 2 ^ 64" using cm_ok_sect [OF ok idx] m by (simp add: sect_ok_def)
  obtain r w' where wr: "write_chunks K dev cm idx [0..<8] m w = Some (r, w')"
    using write_chunks_total [OF f] by metis
  note frame = write_chunks_frame [OF laws ok idx wr chunk_list(2)]
  have outside: "same_outside_index fd cm w w'"
    unfolding same_outside_index_def
  proof (intro allI impI)
    fix g x assume gx: "g \<noteq> cow_file cm \<or> x < 4096 \<or> data_offset cm \<le> x"
    show "fd w' g x = fd w g x"
    proof (rule frame)
      have "4096 + 8 * (4096 * idx + 512 * i) + 4096 \<le> data_offset cm" if "i < 8" for i
        using that by (rule sect_file_off_eq(2) [OF ok idx])
      with gx show "g \<noteq> cow_file cm \<or> (\<forall>i\<in>set [0..<8]. x < 4096 + 8 * (4096 * idx + 512 * i) \<or>
          4096 + 8 * (4096 * idx + 512 * i) + 4096 \<le> x)" by fastforce
    qed
  qed
  have other: "disk_word (cow_bytes fd cm w') pos = disk_word (cow_bytes fd cm w) pos" if "pos div 4096 \<noteq> idx" for pos
  proof (rule disk_word_cong)
    fix k :: nat assume k: "k < 8"
    have "4096 * Suc (pos div 4096) \<le> 4096 * idx \<or> 4096 * Suc idx \<le> 4096 * (pos div 4096)"
      using that by (cases "pos div 4096 < idx") auto
    then have sep: "pos < 4096 * idx \<or> 4096 * idx + 4096 \<le> pos"
      using mult_div_mod_eq [of 4096 pos] mod_less_divisor [of 4096 pos] by auto
    show "cow_bytes fd cm w' (4096 + 8 * pos + k) = cow_bytes fd cm w (4096 + 8 * pos + k)"
      unfolding cow_bytes_def by (rule frame) (use sep k in auto)
  qed
  have "mapping_view fd cm w' = mapping_view fd cm w"
  proof (rule ext)
    fix pos show "mapping_view fd cm w' pos = mapping_view fd cm w pos"
      using other [of pos] m by (cases "pos div 4096 = idx") (auto simp: mapping_view_def sect_word_def split: option.split)
  qed
  with outside ok have step: "cache_step fd cm w cm w'" by (simp add: cache_step_def)
  have "disk_word (cow_bytes fd cm w') pos = m (pos mod 4096)" if "r = 0" "pos div 4096 = idx" for pos
  proof -
    have "pos mod 4096 < 8 * 512" by simp
    then have "pos mod 4096 div 512 < 8" by (rule less_mult_imp_div_less)
    then have "disk_word (cow_bytes fd cm w') (4096 * idx + pos mod 4096) = m (pos mod 4096)"
      using that(1) by (intro write_chunks_words [OF laws ok idx m64 wr [unfolded that(1)] chunk_list(2)]) auto
    then show ?thesis using that(2) mult_div_mod_eq [of 4096 pos] by simp
  qed
  with wr step sect_at_ok [OF ok idx] m show ?thesis
    by (auto simp: cow_write_section_def chunk_list)
qed

section \<open>Write-back and eviction\<close>

text \<open>One round of the write-back loop that evicts section \<open>i\<close>.\<close>

lemma evict_section:
  assumes laws: "file_laws K fd" and ok: "cm_ok cm" and i: "i < total_sects cm"
    and m: "mappings (sects cm ! i) = Some m"
  shows "\<exists>r cm1 w1. do {
       (ret, w1) \<leftarrow> cow_write_section K dev cm i w;
       (if ret \<noteq> 0 then Some (ret, cm, w1) else do { cm1 \<leftarrow> cow_free_section cm i; Some (0, cm1, w1) }) }
       = Some (r, cm1, w1) \<and> cache_step fd cm w cm1 w1 \<and>
     (\<forall>j. j \<noteq> i \<longrightarrow> sects cm1 ! j = sects cm ! j) \<and> (r = 0 \<longrightarrow> mappings (sects cm1 ! i) = None)"
proof -
  obtain r w1 where wr: "cow_write_section K dev cm i w = Some (r, w1)" and st: "cache_step fd cm w cm w1"
    and disk: "r = 0 \<longrightarrow> (\<forall>pos. pos div 4096 = i \<longrightarrow> disk_word (cow_bytes fd cm w1) pos = m (pos mod 4096))"
    using cow_write_section_spec [OF laws ok i m] by blast
  show ?thesis
  proof (cases "r = 0")
    case False
    with wr st show ?thesis by simp
  next
    case True
    let ?s1 = "(sects cm ! i)\<lparr>mappings := None\<rparr>"
    let ?cm1 = "(set_sect cm i ?s1)\<lparr>allocated_sects := sub64 (allocated_sects cm) 1\<rparr>"
    have hd: "has_data (sects cm ! i)" using cm_ok_sect [OF ok i] m by (simp add: sect_ok_def)
    have "mapping_view fd (set_sect cm i ?s1) w1 = mapping_view fd cm w1"
      by (rule mapping_view_set_sect [OF ok i refl]) (use True disk m hd in \<open>simp add: sect_word_def\<close>)
    then have "cache_step fd cm w1 ?cm1 w1"
      using ok by (auto simp: cache_step_def intro!: cm_ok_set_sect)
    with st have "cache_step fd cm w ?cm1 w1" by (rule cache_step_trans)
    moreover have "length (sects cm) = total_sects cm" using ok by (simp add: cm_ok_def)
    ultimately show ?thesis
      using True wr i sect_at_ok [OF ok i] by (simp add: cow_free_section_def)
  qed
qed

lemma sync_sections_spec:
  assumes laws: "file_laws K fd"
  shows "cm_ok cm \<Longrightarrow> set is \<subseteq> {..<total_sects cm} \<Longrightarrow>
    \<exists>r cm' w'. sync_sections K dev thresh is cm w = Some (r, cm', w') \<and> cache_step fd cm w cm' w' \<and>
      (\<forall>j. j \<notin> set is \<longrightarrow> mappings (sects cm' ! j) = mappings (sects cm ! j)) \<and>
      (\<forall>j. mappings (sects cm ! j) = None \<longrightarrow> mappings (sects cm' ! j) = None) \<and>
      (r = 0 \<and> thresh = 0 \<longrightarrow> (\<forall>j \<in> set is. mappings (sects cm' ! j) = None))"
proof (induction "is" arbitrary: cm w)
  case Nil
  then show ?case by (simp add: cache_step_refl)
next
  case (Cons i "is")
  note ok = Cons.prems(1)
  from Cons.prems(2) have i: "i < total_sects cm" and rest: "set is \<subseteq> {..<total_sects cm}" by auto
  have len: "length (sects cm) = total_sects cm" using ok by (simp add: cm_ok_def)
  show ?case
  proof (cases "thresh = 0 \<or> allowed_sects cm div 2 < allocated_sects cm")
    case False
    then show ?thesis by (simp add: cache_step_refl [OF ok])
  next
    case True
    let ?s = "sects cm ! i"
    let ?round = "if mappings ?s \<noteq> None \<and> (thresh = 0 \<or> usage ?s \<le> thresh) then do {
             (ret, w1) \<leftarrow> cow_write_section K dev cm i w;
             (if ret \<noteq> 0 then Some (ret, cm, w1)
              else do { cm1 \<leftarrow> cow_free_section cm i; Some (0, cm1, w1) }) }
           else Some (0, cm, w)"
    obtain r cm1 w1 where rd: "?round = Some (r, cm1, w1)" and st: "cache_step fd cm w cm1 w1"
      and oth: "\<forall>j. j \<noteq> i \<longrightarrow> sects cm1 ! j = sects cm ! j"
      and none: "mappings ?s = None \<longrightarrow> mappings (sects cm1 ! i) = None"
      and gone: "r = 0 \<and> thresh = 0 \<longrightarrow> mappings (sects cm1 ! i) = None"
    proof (cases "mappings ?s \<noteq> None \<and> (thresh = 0 \<or> usage ?s \<le> thresh)")
      case True
      then obtain m where "mappings ?s = Some m" by auto
      from evict_section [OF laws ok i this, of dev w] True show ?thesis by (auto intro: that)
    next
      case False
      then show ?thesis by (intro that [of 0 cm w]) (auto simp: cache_step_refl [OF ok])
    qed
    from st have ok1: "cm_ok cm1" and tot: "total_sects cm1 = total_sects cm"
      by (auto simp: cache_step_def dest: same_but_sects_fields)
    have len1: "length (sects cm1) = total_sects cm1" using ok1 by (simp add: cm_ok_def)
    show ?thesis
    proof (cases "r = 0")
      case False
      with True rd sect_at_ok [OF ok i] st oth none show ?thesis by (simp del: not_None_eq) metis
    next
      case r0: True
      let ?cm2 = "set_sect cm1 i ((sects cm1 ! i)\<lparr>usage := 0\<rparr>)"
      have st2: "cache_step fd cm1 w1 ?cm2 w1" using cache_step_set_usage [OF ok1] i tot by simp
      have ok2: "cm_ok ?cm2" using st2 by (simp add: cache_step_def)
      have maps: "mappings (sects ?cm2 ! j) = mappings (sects cm1 ! j)" for j
        by (cases "j = i") (use i tot len1 in auto)
      have rest2: "set is \<subseteq> {..<total_sects ?cm2}" using rest tot by simp
      obtain r3 cm3 w3 where ih: "sync_sections K dev thresh is ?cm2 w1 = Some (r3, cm3, w3)"
        "cache_step fd ?cm2 w1 cm3 w3"
        "\<forall>j. j \<notin> set is \<longrightarrow> mappings (sects cm3 ! j) = mappings (sects ?cm2 ! j)"
        "\<forall>j. mappings (sects ?cm2 ! j) = None \<longrightarrow> mappings (sects cm3 ! j) = None"
        "r3 = 0 \<and> thresh = 0 \<longrightarrow> (\<forall>j \<in> set is. mappings (sects cm3 ! j) = None)"
        using Cons.IH [OF ok2 rest2, of w1] by blast
      have eq: "sync_sections K dev thresh (i # is) cm w = Some (r3, cm3, w3)"
        using True rd r0 sect_at_ok [OF ok i] sect_at_ok [OF ok1] i tot ih(1) by (simp del: not_None_eq)
      have "cache_step fd cm w cm3 w3"
        using st st2 ih(2) by (blast intro: cache_step_trans)
      with eq ih maps oth none gone r0 show ?thesis
        by (intro exI [of _ r3] exI [of _ cm3] exI [of _ w3]) (simp, metis)
    qed
  qed
qed

lemma cow_sync_and_free_sections_spec:
  assumes laws: "file_laws K fd" and ok: "cm_ok cm"
  shows "\<exists>r cm' w'. cow_sync_and_free_sections K dev cm thresh False w = Some (r, cm', w') \<and> cache_step fd cm w cm' w' \<and>
      (r = 0 \<and> thresh = 0 \<longrightarrow> (\<forall>j < total_sects cm. mappings (sects cm' ! j) = None))"
proof -
  have "set [0..<total_sects cm] \<subseteq> {..<total_sects cm}" by auto
  from sync_sections_spec [OF laws ok this, of dev thresh w]
  obtain r cm' w' where sy: "sync_sections K dev thresh [0..<total_sects cm] cm w = Some (r, cm', w')"
    and st: "cache_step fd cm w cm' w'"
    and free: "r = 0 \<and> thresh = 0 \<longrightarrow> (\<forall>j \<in> set [0..<total_sects cm]. mappings (sects cm' ! j) = None)"
    by blast
  have "cow_sync_and_free_sections K dev cm thresh False w = Some (r, cm', w')"
    using sy by (simp add: cow_sync_and_free_sections_def)
  with st free show ?thesis by (metis atLeastLessThan_iff le0 set_upt)
qed

lemma cow_cleanup_mappings_spec:
  assumes laws: "file_laws K fd" and ok: "cm_ok cm"
  shows "\<exists>r cm' w'. cow_cleanup_mappings K dev cm w = Some (r, cm', w') \<and> cache_step fd cm w cm' w'"
  using cow_sync_and_free_sections_spec [OF laws ok] ok
  by (fastforce simp: cow_cleanup_mappings_def cm_ok_def)

section \<open>Reading and writing a mapping\<close>

lemma sect_word_loaded: "mappings s = Some m \<Longrightarrow> sect_word d s pos = m (pos mod 4096)"
  by (simp add: sect_word_def)

lemma mapping_view_in:
  "pos < 4096 * total_sects cm \<Longrightarrow>
     mapping_view fd cm w pos = sect_word (cow_bytes fd cm w) (sects cm ! (pos div 4096)) pos"
  by (simp add: mapping_view_def)

lemma pos_div_less: "pos < 4096 * n \<Longrightarrow> pos div 4096 < n" for pos n :: nat
  by (simp add: less_mult_imp_div_less mult.commute)

theorem cow_read_mapping_spec:
  assumes laws: "file_laws K fd" and ok: "cm_ok cm" and pos: "pos < 4096 * total_sects cm"
  shows "\<exists>r v cm' w'. cow_read_mapping K dev cm pos w = Some (r, v, cm', w') \<and> cache_step fd cm w cm' w' \<and>
     (r = 0 \<longrightarrow> v = mapping_view fd cm w pos)"
proof -
  let ?i = "pos div 4096" and ?s = "sects cm ! (pos div 4096)"
  have i: "?i < total_sects cm" using pos by (rule pos_div_less)
  have sz: "sect_size cm = 4096" and len: "length (sects cm) = total_sects cm" using ok by (simp_all add: cm_ok_def)
  let ?cm1 = "set_sect cm ?i (?s\<lparr>usage := wrap64 (Suc (usage ?s))\<rparr>)"
  have st1: "cache_step fd cm w ?cm1 w" by (rule cache_step_set_usage [OF ok i])
  then have ok1: "cm_ok ?cm1" by (simp add: cache_step_def)
  have s1: "sects ?cm1 ! ?i = ?s\<lparr>usage := wrap64 (Suc (usage ?s))\<rparr>" using i len by simp
  have i1: "?i < total_sects ?cm1" using i by simp
  show ?thesis
  proof (cases "mappings ?s = None \<and> \<not> has_data ?s")
    case True
    then have "mapping_view fd cm w pos = 0" using pos by (simp add: mapping_view_in sect_word_def)
    with True st1 sect_at_ok [OF ok i] sz show ?thesis by (simp add: cow_read_mapping_def Let_def)
  next
    case False
    let ?ld = "if mappings ?s = None then cow_load_section K dev ?cm1 ?i w else Some (0, ?cm1, w)"
    obtain r cm2 w2 where ld: "?ld = Some (r, cm2, w2)" and st2: "cache_step fd ?cm1 w cm2 w2"
      and loaded: "r = 0 \<longrightarrow> mappings (sects cm2 ! ?i) \<noteq> None"
    proof (cases "mappings ?s")
      case None
      with False s1 have "mappings (sects ?cm1 ! ?i) = None" "has_data (sects ?cm1 ! ?i)" by simp_all
      from cow_load_section_spec [OF laws ok1 i1 this, of dev w] None show ?thesis by (auto intro: that)
    next
      case (Some m)
      with s1 show ?thesis by (intro that [of 0 ?cm1 w]) (auto simp: cache_step_refl [OF ok1])
    qed
    have st12: "cache_step fd cm w cm2 w2" using st1 st2 by (rule cache_step_trans)
    then have ok2: "cm_ok cm2" and tot2: "total_sects cm2 = total_sects cm"
      by (auto simp: cache_step_def dest: same_but_sects_fields)
    show ?thesis
    proof (cases "r = 0")
      case False
      with ld st12 sect_at_ok [OF ok i] sz \<open>\<not> (mappings ?s = None \<and> \<not> has_data ?s)\<close> show ?thesis
        by (cases "mappings ?s") (simp_all add: cow_read_mapping_def Let_def)
    next
      case True
      then obtain m where m: "mappings (sects cm2 ! ?i) = Some m" using loaded by auto
      have "mapping_view fd cm w pos = mapping_view fd cm2 w2 pos" using st12 by (simp add: cache_step_def)
      also have "\<dots> = m (pos mod 4096)" using pos tot2 m by (simp add: mapping_view_in sect_word_loaded)
      finally have v: "mapping_view fd cm w pos = m (pos mod 4096)" .
      have at2: "sect_at cm2 ?i = Some (sects cm2 ! ?i)" using sect_at_ok [OF ok2] i tot2 by simp
      obtain r3 cm3 w3 where cl: "cow_cleanup_mappings K dev cm2 w2 = Some (r3, cm3, w3)" "cache_step fd cm2 w2 cm3 w3"
        using cow_cleanup_mappings_spec [OF laws ok2] by blast
      have "cache_step fd cm w cm3 w3" using st12 cl(2) by (rule cache_step_trans)
      with ld st12 sect_at_ok [OF ok i] sz \<open>\<not> (mappings ?s = None \<and> \<not> has_data ?s)\<close> True at2 m v cl(1)
      show ?thesis by (cases "mappings ?s") (simp_all add: cow_read_mapping_def Let_def)
    qed
  qed
qed

lemma cm_ok_nr [simp]: "cm_ok (cm\<lparr>nr_changed_blocks := n\<rparr>) = cm_ok cm"
  by (simp add: cm_ok_def)

lemma cow_file_nr [simp]: "cow_file (cm\<lparr>nr_changed_blocks := n\<rparr>) = cow_file cm"
  by (simp add: cow_file_def)

lemma mapping_view_nr [simp]: "mapping_view fd (cm\<lparr>nr_changed_blocks := n\<rparr>) w = mapping_view fd cm w"
  by (rule ext) (simp add: mapping_view_def cow_bytes_def)

text \<open>The changed-block counter after a mapping is written.\<close>

definition count_change :: "cow_manager \<Rightarrow> nat \<Rightarrow> nat" where
  "count_change cm old = (if 1 \<le> version cm \<and> old = 0 then wrap64 (Suc (nr_changed_blocks cm)) else nr_changed_blocks cm)"

lemma mapping_view_store:
  assumes ok: "cm_ok cm" and pos: "pos < 4096 * total_sects cm" and m: "mappings (sects cm ! (pos div 4096)) = Some m"
  shows "mapping_view fd (set_sect cm (pos div 4096) ((sects cm ! (pos div 4096))\<lparr>mappings := Some (m(pos mod 4096 := val))\<rparr>)) w
     = (mapping_view fd cm w)(pos := val)"
proof (rule ext)
  fix q
  have i: "pos div 4096 < total_sects cm" using pos by (rule pos_div_less)
  have len: "length (sects cm) = total_sects cm" using ok by (simp add: cm_ok_def)
  have eq: "q = pos" if "q div 4096 = pos div 4096" "q mod 4096 = pos mod 4096"
    using that by (metis mult_div_mod_eq)
  show "mapping_view fd (set_sect cm (pos div 4096) ((sects cm ! (pos div 4096))\<lparr>mappings := Some (m(pos mod 4096 := val))\<rparr>)) w q
     = ((mapping_view fd cm w)(pos := val)) q"
  proof (cases "q div 4096 = pos div 4096")
    case True
    then have "q < 4096 * total_sects cm" using i less_mult_imp_div_less [of q "total_sects cm" 4096]
      by (metis div_less_iff_less_mult mult.commute zero_less_numeral)
    with True i len m eq show ?thesis
      by (cases "q = pos") (auto simp: mapping_view_in sect_word_loaded)
  next
    case False
    then have "q \<noteq> pos" by auto
    with False show ?thesis by (simp add: mapping_view_def cow_bytes_def)
  qed
qed

theorem cow_write_mapping_spec:
  assumes laws: "file_laws K fd" and ok: "cm_ok cm" and pos: "pos < 4096 * total_sects cm" and val: "val < 2 ^ 64"
  shows "\<exists>r cm' w'. cow_write_mapping K dev cm pos val w = Some (r, cm', w') \<and>
     (cache_step fd cm w cm' w' \<and> r \<noteq> 0 \<or>
      (\<exists>cm1 w1. cache_step fd cm w cm1 w1 \<and>
         same_but_sects (cm1\<lparr>nr_changed_blocks := count_change cm (mapping_view fd cm w pos)\<rparr>) cm' \<and>
         same_outside_index fd cm w w' \<and> cm_ok cm' \<and>
         mapping_view fd cm' w' = (mapping_view fd cm w)(pos := val)))"
proof -
  let ?i = "pos div 4096" and ?s = "sects cm ! (pos div 4096)"
  have i: "?i < total_sects cm" using pos by (rule pos_div_less)
  have sz: "sect_size cm = 4096" and len: "length (sects cm) = total_sects cm" using ok by (simp_all add: cm_ok_def)
  let ?cm1 = "set_sect cm ?i (?s\<lparr>usage := wrap64 (Suc (usage ?s))\<rparr>)"
  have st1: "cache_step fd cm w ?cm1 w" by (rule cache_step_set_usage [OF ok i])
  then have ok1: "cm_ok ?cm1" by (simp add: cache_step_def)
  have s1: "sects ?cm1 ! ?i = ?s\<lparr>usage := wrap64 (Suc (usage ?s))\<rparr>" using i len by simp
  have i1: "?i < total_sects ?cm1" using i by simp
  let ?ld = "if mappings ?s \<noteq> None then Some (0, ?cm1, w)
             else if \<not> has_data ?s then cow_alloc_section K ?cm1 ?i True w
             else cow_load_section K dev ?cm1 ?i w"
  obtain r cm2 w2 where ld: "?ld = Some (r, cm2, w2)" and st2: "cache_step fd ?cm1 w cm2 w2"
    and loaded: "r = 0 \<longrightarrow> mappings (sects cm2 ! ?i) \<noteq> None"
  proof (cases "mappings ?s")
    case None
    with s1 have n: "mappings (sects ?cm1 ! ?i) = None" by simp
    show ?thesis
    proof (cases "has_data ?s")
      case True
      with s1 have "has_data (sects ?cm1 ! ?i)" by simp
      from cow_load_section_spec [OF laws ok1 i1 n this, of dev w] None True show ?thesis by (auto intro: that)
    next
      case False
      with s1 have "\<not> has_data (sects ?cm1 ! ?i)" by simp
      from cow_alloc_section_zero_spec [OF laws ok1 i1 n this, of w] None False show ?thesis by (auto intro: that)
    qed
  next
    case (Some m)
    with s1 show ?thesis by (intro that [of 0 ?cm1 w]) (auto simp: cache_step_refl [OF ok1])
  qed
  have st12: "cache_step fd cm w cm2 w2" using st1 st2 by (rule cache_step_trans)
  then have ok2: "cm_ok cm2" and same2: "same_but_sects cm cm2" and out2: "same_outside_index fd cm w w2"
    by (auto simp: cache_step_def)
  note f2 = same_but_sects_fields [OF same2]
  show ?thesis
  proof (cases "r = 0")
    case False
    with ld st12 sect_at_ok [OF ok i] sz show ?thesis
      by (simp add: cow_write_mapping_def Let_def del: not_None_eq)
  next
    case True
    then obtain m where m: "mappings (sects cm2 ! ?i) = Some m" using loaded by auto
    have view2: "mapping_view fd cm w = mapping_view fd cm2 w2" using st12 by (simp add: cache_step_def)
    have old: "mapping_view fd cm w pos = m (pos mod 4096)"
      using pos f2 m by (simp add: view2 mapping_view_in sect_word_loaded)
    have at2: "sect_at cm2 ?i = Some (sects cm2 ! ?i)" using sect_at_ok [OF ok2] i f2 by simp
    let ?s3 = "(sects cm2 ! ?i)\<lparr>mappings := Some (m(pos mod 4096 := val))\<rparr>"
    let ?nr = "count_change cm (mapping_view fd cm w pos)"
    let ?cm3 = "(set_sect cm2 ?i ?s3)\<lparr>nr_changed_blocks := ?nr\<rparr>"
    have nr: "(if COW_VERSION_CHANGED_BLOCKS \<le> version cm2 \<and> m (pos mod 4096) = 0
        then wrap64 (Suc (nr_changed_blocks cm2)) else nr_changed_blocks cm2) = ?nr"
      using f2 old by (simp add: count_change_def)
    have "sect_ok ?s3" using cm_ok_sect [OF ok2, of ?i] i f2(12) m val by (simp add: sect_ok_def)
    with ok2 have ok3: "cm_ok ?cm3" by (simp add: cm_ok_set_sect)
    have "mapping_view fd ?cm3 w2 = (mapping_view fd cm2 w2)(pos := val)"
      using mapping_view_store [OF ok2 _ m] pos f2 by simp
    then have view3: "mapping_view fd ?cm3 w2 = (mapping_view fd cm w)(pos := val)" by (simp add: view2)
    have same3: "same_but_sects (cm2\<lparr>nr_changed_blocks := ?nr\<rparr>) ?cm3" by (simp add: same_but_sects_def set_sect_def)
    obtain r4 cm4 w4 where cl: "cow_cleanup_mappings K dev ?cm3 w2 = Some (r4, cm4, w4)" "cache_step fd ?cm3 w2 cm4 w4"
      using cow_cleanup_mappings_spec [OF laws ok3] by blast
    have same4: "same_but_sects (cm2\<lparr>nr_changed_blocks := ?nr\<rparr>) cm4"
      using same3 cl(2) by (auto simp: cache_step_def intro: same_but_sects_trans)
    have out4: "same_outside_index fd cm w w4"
      using out2 cl(2) f2 by (auto simp: cache_step_def same_outside_index_def)
    have res: "cow_write_mapping K dev cm pos val w =
        (if allowed_sects ?cm3 < allocated_sects ?cm3 then Some (r4, cm4, w4) else Some (0, ?cm3, w2))"
      using ld sect_at_ok [OF ok i] sz True at2 m cl(1) nr
      by (simp add: cow_write_mapping_def Let_def del: not_None_eq COW_VERSION_CHANGED_BLOCKS_def)
    show ?thesis
    proof (cases "allowed_sects ?cm3 < allocated_sects ?cm3")
      case True
      with res st12 same4 out4 cl(2) view3 show ?thesis
        by (auto simp: cache_step_def intro!: exI [of _ cm2] exI [of _ w2])
    next
      case False
      with res st12 same3 out2 ok3 view3 show ?thesis
        by (auto intro!: exI [of _ cm2] exI [of _ w2])
    qed
  qed
qed

section \<open>The contract of the block mappings\<close>

locale block_map =
  fixes inv :: "'s \<Rightarrow> bool" and key :: "'s \<Rightarrow> 'k" and bound :: "'s \<Rightarrow> nat" and view :: "'s \<Rightarrow> nat \<Rightarrow> nat"
    and lookup :: "nat \<Rightarrow> 's \<Rightarrow> (int \<times> nat \<times> 's) option"
    and store :: "nat \<Rightarrow> nat \<Rightarrow> 's \<Rightarrow> (int \<times> 's) option"
  assumes lookup_law: "inv s \<Longrightarrow> p < bound s \<Longrightarrow>
      \<exists>r v s'. lookup p s = Some (r, v, s') \<and> inv s' \<and> key s' = key s \<and> bound s' = bound s \<and> view s' = view s \<and> (r = 0 \<longrightarrow> v = view s p)"
    and store_law: "inv s \<Longrightarrow> p < bound s \<Longrightarrow> v < 2 ^ 64 \<Longrightarrow>
      \<exists>r s'. store p v s = Some (r, s') \<and> inv s' \<and> key s' = key s \<and> bound s' = bound s \<and>
        (view s' = view s \<and> r \<noteq> 0 \<or> view s' = (view s)(p := v))"
begin

lemma lookup_after_store:
  assumes "inv s" "p < bound s" "q < bound s" "v < 2 ^ 64"
    and st: "store p v s = Some (0, s1)" and lk: "lookup q s1 = Some (0, x, s2)"
  shows "x = (if q = p then v else view s q)"
proof -
  from store_law [OF assms(1,2,4)] st have s1: "inv s1" "bound s1 = bound s" "view s1 = (view s)(p := v)" by auto
  from lookup_law [OF s1(1), of q] s1(2) assms(3) lk have "x = view s1 q" by auto
  with s1(3) show ?thesis by auto
qed

text \<open>Storing the same value at several blocks.\<close>

lemma store_each:
  assumes "v < 2 ^ 64"
  shows "inv s \<Longrightarrow> set ps \<subseteq> {..<bound s} \<Longrightarrow>
    \<exists>r s'. for_each (\<lambda>p. store p v) ps s = Some (r, s') \<and> inv s' \<and> key s' = key s \<and> bound s' = bound s \<and>
      (r = 0 \<longrightarrow> view s' = (\<lambda>q. if q \<in> set ps then v else view s q)) \<and>
      (\<forall>q. view s' q = view s q \<or> q \<in> set ps \<and> view s' q = v)"
proof (induction ps arbitrary: s)
  case (Cons p ps)
  from Cons.prems(2) have p: "p < bound s" by simp
  from store_law [OF Cons.prems(1) p assms] obtain r s1 where
    st: "store p v s = Some (r, s1)" "inv s1" "bound s1 = bound s" "key s1 = key s"
      "view s1 = view s \<and> r \<noteq> 0 \<or> view s1 = (view s)(p := v)" by auto
  show ?case
  proof (cases "r = 0")
    case False
    with st show ?thesis by (auto simp: fun_eq_iff split: if_splits)
  next
    case True
    with st have v1: "view s1 = (view s)(p := v)" by simp
    from Cons.prems(2) st(3) have "set ps \<subseteq> {..<bound s1}" by simp
    from Cons.IH [OF st(2) this] obtain r2 s2 where
      ih: "for_each (\<lambda>p. store p v) ps s1 = Some (r2, s2)" "inv s2" "bound s2 = bound s1" "key s2 = key s1"
      and full: "r2 = 0 \<longrightarrow> view s2 = (\<lambda>q. if q \<in> set ps then v else view s1 q)"
      and part: "\<forall>q. view s2 q = view s1 q \<or> q \<in> set ps \<and> view s2 q = v" by auto
    have "view s2 q = view s q \<or> q \<in> set (p # ps) \<and> view s2 q = v" for q
      using part [rule_format, of q] v1 by (cases "q = p") auto
    moreover have "r2 = 0 \<Longrightarrow> view s2 = (\<lambda>q. if q \<in> set (p # ps) then v else view s q)"
      using full v1 by auto
    ultimately show ?thesis using True st ih by simp
  qed
qed simp

end

text \<open>The cow manager with the machine around it, as one state.\<close>

definition cow_inv :: "('w, 'k) kern_scheme \<Rightarrow> ('w \<Rightarrow> nat \<Rightarrow> buf) \<Rightarrow> cow_manager \<times> 'w \<Rightarrow> bool" where
  "cow_inv K fd s \<longleftrightarrow> file_laws K fd \<and> cm_ok (fst s)"

definition cow_bound :: "cow_manager \<times> 'w \<Rightarrow> nat" where
  "cow_bound s = 4096 * total_sects (fst s)"

definition cow_key :: "cow_manager \<times> 'w \<Rightarrow> nat" where
  "cow_key s = cm_dev (fst s)"

definition cow_view :: "('w \<Rightarrow> nat \<Rightarrow> buf) \<Rightarrow> cow_manager \<times> 'w \<Rightarrow> nat \<Rightarrow> nat" where
  "cow_view fd s = mapping_view fd (fst s) (snd s)"

definition cow_lookup :: "('w, 'k) kern_scheme \<Rightarrow> 'd devio_scheme \<Rightarrow> nat \<Rightarrow> cow_manager \<times> 'w
    \<Rightarrow> (int \<times> nat \<times> cow_manager \<times> 'w) option" where
  "cow_lookup K dev p s = cow_read_mapping K dev (fst s) p (snd s)"

definition cow_store :: "('w, 'k) kern_scheme \<Rightarrow> 'd devio_scheme \<Rightarrow> nat \<Rightarrow> nat \<Rightarrow> cow_manager \<times> 'w
    \<Rightarrow> (int \<times> cow_manager \<times> 'w) option" where
  "cow_store K dev p v s = cow_write_mapping K dev (fst s) p v (snd s)"

lemma cache_step_bound:
  "cache_step fd cm w cm' w' \<Longrightarrow> total_sects cm' = total_sects cm \<and> cm_dev cm' = cm_dev cm"
  by (auto simp: cache_step_def dest: same_but_sects_fields)

interpretation cow: block_map "cow_inv K fd" cow_key cow_bound "cow_view fd" "cow_lookup K dev" "cow_store K dev"
  for K :: "('w, 'k) kern_scheme" and fd and dev :: "'d devio_scheme"
proof (unfold_locales, goal_cases)
  case (1 s p)
  obtain cm w where s: "s = (cm, w)" by fastforce
  from 1 s cow_read_mapping_spec [of K fd cm p dev w] show ?case
    by (auto simp: cow_inv_def cow_bound_def cow_key_def cow_view_def cow_lookup_def cache_step_def dest: same_but_sects_fields)
next
  case (2 s p v)
  obtain cm w where s: "s = (cm, w)" by fastforce
  from 2 s have prem: "file_laws K fd" "cm_ok cm" "p < 4096 * total_sects cm" "v < 2 ^ 64"
    by (auto simp: cow_inv_def cow_bound_def)
  obtain r cm' w' where wr: "cow_write_mapping K dev cm p v w = Some (r, cm', w')"
    and res: "cache_step fd cm w cm' w' \<and> r \<noteq> 0 \<or>
      (\<exists>cm1 w1. cache_step fd cm w cm1 w1 \<and>
         same_but_sects (cm1\<lparr>nr_changed_blocks := count_change cm (mapping_view fd cm w p)\<rparr>) cm' \<and>
         same_outside_index fd cm w w' \<and> cm_ok cm' \<and>
         mapping_view fd cm' w' = (mapping_view fd cm w)(p := v))"
    using cow_write_mapping_spec [OF prem, of dev w] by blast
  have "total_sects cm' = total_sects cm \<and> cm_dev cm' = cm_dev cm"
    using res by (auto dest!: cache_step_bound dest: same_but_sects_fields)
  with 2 s wr res show ?case
    by (auto simp: cow_inv_def cow_bound_def cow_key_def cow_view_def cow_store_def cache_step_def)
qed

text \<open>The pass of \<^verbatim>\<open>inc_handle_sset\<close>, from the contract.\<close>

lemma filler_run:
  assumes "file_laws K fd" and "cm_ok cm" and "set ps \<subseteq> {..<4096 * total_sects cm}"
  shows "\<exists>r cm' w'. for_each (\<lambda>p (cm, w). cow_write_filler_mapping K dev cm p w) ps (cm, w) = Some (r, cm', w') \<and>
     cm_ok cm' \<and> total_sects cm' = total_sects cm \<and> cm_dev cm' = cm_dev cm \<and>
     (r = 0 \<longrightarrow> mapping_view fd cm' w' = (\<lambda>q. if q \<in> set ps then 1 else mapping_view fd cm w q)) \<and>
     (\<forall>q. mapping_view fd cm' w' q = mapping_view fd cm w q \<or> q \<in> set ps \<and> mapping_view fd cm' w' q = 1)"
proof -
  have eq: "cow_store K dev p 1 = (\<lambda>(cm, w). cow_write_filler_mapping K dev cm p w)" for p
    by (auto simp: cow_store_def cow_write_filler_mapping_def)
  have "cow_inv K fd (cm, w)" "set ps \<subseteq> {..<cow_bound (cm, w)}"
    using assms by (auto simp: cow_inv_def cow_bound_def)
  from cow.store_each [OF _ this, of 1 dev, unfolded eq]
  obtain r s' where "for_each (\<lambda>p (cm, w). cow_write_filler_mapping K dev cm p w) ps (cm, w) = Some (r, s')"
    "cow_inv K fd s'" "cow_bound s' = cow_bound (cm, w)" "cow_key s' = cow_key (cm, w)"
    "r = 0 \<longrightarrow> cow_view fd s' = (\<lambda>q. if q \<in> set ps then 1 else cow_view fd (cm, w) q)"
    "\<forall>q. cow_view fd s' q = cow_view fd (cm, w) q \<or> q \<in> set ps \<and> cow_view fd s' q = 1" by auto
  then show ?thesis
    by (intro exI [of _ r] exI [of _ "fst s'"] exI [of _ "snd s'"])
       (auto simp: cow_inv_def cow_bound_def cow_key_def cow_view_def simp del: One_nat_def)
qed

section \<open>Properties\<close>

lemma demo_cm_ok: "cm_ok demo_cm"
  by (simp add: cm_ok_def demo_cm_def sect_ok_def)

lemma demo_view: "mapping_view (\<lambda>w. w) demo_cm ram0 = (\<lambda>_. 0)"
  by (rule ext) (simp add: mapping_view_def demo_cm_def sect_word_def)

lemma demo_bound: "p < 4096 \<Longrightarrow> p < 4096 * total_sects demo_cm"
  by (simp add: demo_cm_def)

lemma demo_read: "cow_read_mapping ram_kern demo_dev demo_cm p ram0 =
    Some (0, 0, set_sect demo_cm 0 \<lparr>has_data = False, usage = 1, mappings = None\<rparr>, ram0)" if "p < 4096"
  using that by (simp add: cow_read_mapping_def demo_cm_def sect_at_def set_sect_def)

definition demo_cm1 :: "nat \<Rightarrow> nat \<Rightarrow> cow_manager" where
  "demo_cm1 p v = demo_cm\<lparr>sects := [\<lparr>has_data = True, usage = 1, mappings = Some ((\<lambda>_. 0)(p := v))\<rparr>],
     allocated_sects := 1, nr_changed_blocks := 1\<rparr>"

lemma demo_write: "cow_write_mapping ram_kern demo_dev demo_cm p v ram0 = Some (0, demo_cm1 p v, ram0)" if "p < 4096"
  using that by (simp add: cow_write_mapping_def cow_alloc_section_def demo_cm1_def demo_cm_def sect_at_def set_sect_def
    ram_kern_def fun_eq_iff)

text \<open>C14: Reading a block mapping always returns, whatever the cache has to load or evict on the
  way: the answer, when the code reports success, is the mapping the manager stands for, and
  neither success nor an error (no memory, failed transfer of the index) changes any mapping,
  the header or the data area of the cow file.\<close>

theorem read_mapping_transparent:
  assumes "file_laws K fd" and "cm_ok cm" and "pos < 4096 * total_sects cm"
  shows "\<exists>r v cm' w'. cow_read_mapping K dev cm pos w = Some (r, v, cm', w') \<and>
     (r = 0 \<longrightarrow> v = mapping_view fd cm w pos) \<and> cm_ok cm' \<and>
     mapping_view fd cm' w' = mapping_view fd cm w \<and> same_outside_index fd cm w w'"
  using cow_read_mapping_spec [OF assms, of dev w] by (auto simp: cache_step_def)

theorem read_mapping_transparent_witness:
  "\<exists>cm'. cow_read_mapping ram_kern demo_dev demo_cm 5 ram0 = Some (0, 0, cm', ram0) \<and> cm_ok cm' \<and>
     mapping_view (\<lambda>w. w) cm' ram0 = mapping_view (\<lambda>w. w) demo_cm ram0"
  using read_mapping_transparent [OF ram_kern_file_laws demo_cm_ok demo_bound [of 5], of demo_dev ram0] demo_read [of 5]
  by auto

text \<open>C15: Writing a block mapping changes that mapping to the given value and no other one, whatever
  is loaded, evicted or written back, counts the block as changed exactly when it had no
  mapping before, and when it reports an error either nothing or just this mapping has
  changed; header and data area of the cow file are untouched.\<close>

theorem write_mapping_updates:
  assumes "file_laws K fd" and "cm_ok cm" and "pos < 4096 * total_sects cm" and "val < 2 ^ 64"
  shows "\<exists>r cm' w'. cow_write_mapping K dev cm pos val w = Some (r, cm', w') \<and> cm_ok cm' \<and> same_outside_index fd cm w w' \<and>
     (mapping_view fd cm' w' = (mapping_view fd cm w)(pos := val) \<and>
        nr_changed_blocks cm' = count_change cm (mapping_view fd cm w pos) \<or>
      r \<noteq> 0 \<and> mapping_view fd cm' w' = mapping_view fd cm w \<and> nr_changed_blocks cm' = nr_changed_blocks cm)"
proof -
  obtain r cm' w' where wr: "cow_write_mapping K dev cm pos val w = Some (r, cm', w')"
    and res: "cache_step fd cm w cm' w' \<and> r \<noteq> 0 \<or>
      (\<exists>cm1 w1. cache_step fd cm w cm1 w1 \<and>
         same_but_sects (cm1\<lparr>nr_changed_blocks := count_change cm (mapping_view fd cm w pos)\<rparr>) cm' \<and>
         same_outside_index fd cm w w' \<and> cm_ok cm' \<and>
         mapping_view fd cm' w' = (mapping_view fd cm w)(pos := val))"
    using cow_write_mapping_spec [OF assms, of dev w] by blast
  from res show ?thesis
  proof (elim disjE conjE exE)
    assume st: "cache_step fd cm w cm' w'" and "r \<noteq> 0"
    then have "nr_changed_blocks cm' = nr_changed_blocks cm"
      by (auto simp: cache_step_def dest: same_but_sects_fields(8))
    with st \<open>r \<noteq> 0\<close> wr show ?thesis by (auto simp: cache_step_def)
  next
    fix cm1 w1
    assume "same_but_sects (cm1\<lparr>nr_changed_blocks := count_change cm (mapping_view fd cm w pos)\<rparr>) cm'"
    from same_but_sects_fields(8) [OF this]
    have "nr_changed_blocks cm' = count_change cm (mapping_view fd cm w pos)" by simp
    moreover assume "same_outside_index fd cm w w'" "cm_ok cm'" "mapping_view fd cm' w' = (mapping_view fd cm w)(pos := val)"
    ultimately show ?thesis using wr by simp
  qed
qed

theorem write_mapping_updates_witness:
  "\<exists>cm'. cow_write_mapping ram_kern demo_dev demo_cm 5 9 ram0 = Some (0, cm', ram0) \<and> cm_ok cm' \<and>
     mapping_view (\<lambda>w. w) cm' ram0 5 = 9 \<and> mapping_view (\<lambda>w. w) cm' ram0 6 = 0 \<and> nr_changed_blocks cm' = 1"
proof -
  have "count_change demo_cm 0 = 1" by (simp add: count_change_def demo_cm_def)
  with write_mapping_updates [OF ram_kern_file_laws demo_cm_ok demo_bound [of 5], of 9 demo_dev ram0] demo_write [of 5 9]
  show ?thesis by (auto simp: demo_view)
qed

text \<open>Filler mappings, one per block of a list, as \<^verbatim>\<open>inc_handle_sset\<close> writes them: after a
  successful pass exactly the listed blocks are marked 1; if a write fails part of the way,
  still no block outside the list has changed and none of the list holds anything but its
  old mapping or 1.\<close>

theorem filler_mappings:
  assumes "file_laws K fd" and "cm_ok cm" and "set ps \<subseteq> {..<4096 * total_sects cm}"
  shows "\<exists>r cm' w'. for_each (\<lambda>p (cm, w). cow_write_filler_mapping K dev cm p w) ps (cm, w) = Some (r, cm', w') \<and>
     cm_ok cm' \<and> total_sects cm' = total_sects cm \<and>
     (r = 0 \<longrightarrow> mapping_view fd cm' w' = (\<lambda>q. if q \<in> set ps then 1 else mapping_view fd cm w q)) \<and>
     (\<forall>q. mapping_view fd cm' w' q = mapping_view fd cm w q \<or> q \<in> set ps \<and> mapping_view fd cm' w' q = 1)"
  using filler_run [OF assms, of dev w] by blast

theorem filler_mappings_witness:
  "\<exists>cm' w'. for_each (\<lambda>p (cm, w). cow_write_filler_mapping ram_kern demo_dev cm p w) [3] (demo_cm, ram0) = Some (0, cm', w') \<and>
     mapping_view (\<lambda>w. w) cm' w' 3 = 1 \<and> mapping_view (\<lambda>w. w) cm' w' 4 = 0"
proof -
  have "set [3] \<subseteq> {..<4096 * total_sects demo_cm}" by (simp add: demo_cm_def)
  from filler_mappings [OF ram_kern_file_laws demo_cm_ok this, of demo_dev ram0] demo_write [of 3 1] show ?thesis
    by (auto simp: demo_view cow_write_filler_mapping_def)
qed

end
