(* ===== verification/Cow_Data.thy ===== *)
theory Cow_Data
  imports Cow_Mapping
begin

text \<open>
  The data area of the cow file. In snapshot mode the manager is a store that keeps, for
  each block, the first contents it was given: \<open>saved\<close> reads that store off the mappings
  and the file, and \<open>cow_write_current\<close>, \<open>cow_read_data\<close> are proved against it. The
  freshness of the write head (\<open>data_ok\<close>) is what keeps saved blocks from being
  overwritten.
\<close>

section \<open>Operations\<close>

definition cow_write_data :: "('w, 'k) kern_scheme \<Rightarrow> 'd devio_scheme \<Rightarrow> cow_manager \<Rightarrow> buf \<Rightarrow> 'w
    \<Rightarrow> (int \<times> cow_manager \<times> 'w) option" where
  "cow_write_data K dev cm b w =
     (let curr_size = wrap64 (curr_pos cm * COW_BLOCK_SIZE) in
      if file_max cm \<le> curr_size then Some (- EFBIG, cm, w)
      else do {
        (ret, w1) \<leftarrow> file_write K dev cm b curr_size COW_BLOCK_SIZE w;
        Some (if ret \<noteq> 0 then (ret, cm, w1) else (0, cm\<lparr>curr_pos := wrap64 (Suc (curr_pos cm))\<rparr>, w1)) })"

definition cow_write_current :: "('w, 'k) kern_scheme \<Rightarrow> 'd devio_scheme \<Rightarrow> cow_manager \<Rightarrow> nat \<Rightarrow> buf \<Rightarrow> 'w
    \<Rightarrow> (int \<times> cow_manager \<times> 'w) option" where
  "cow_write_current K dev cm block b w = do {
     (ret, block_mapping, cm1, w1) \<leftarrow> cow_read_mapping K dev cm block w;
     (if ret \<noteq> 0 then Some (ret, cm1, w1)
      else if block_mapping \<noteq> 0 then Some (0, cm1, w1)
      else do {
        (ret, cm2, w2) \<leftarrow> cow_write_current_mapping K dev cm1 block w1;
        (if ret \<noteq> 0 then Some (ret, cm2, w2) else cow_write_data K dev cm2 b w2) }) }"

text \<open>The path name that a full cow file is logged with changes nothing and is left out above.
  \<open>out_off\<close> is the position in \<^verbatim>\<open>out_buf\<close>; the result of the \<^verbatim>\<open>kzalloc\<close> is not checked by the
  code, and reading the file to the NULL buffer is taken to fault.\<close>

definition cow_read_data :: "('w, 'k) kern_scheme \<Rightarrow> 'd devio_scheme \<Rightarrow> cow_manager \<Rightarrow> buf \<Rightarrow> nat \<Rightarrow> nat \<Rightarrow> nat \<Rightarrow> nat \<Rightarrow> 'w
    \<Rightarrow> (int \<times> buf \<times> 'w) option" where
  "cow_read_data K dev cm out_buf out_off block_pos block_off len w =
     (case kmalloc K COW_BLOCK_SIZE w of (m, w1) \<Rightarrow>
      if COW_BLOCK_SIZE \<le> block_off then Some (- EINVAL, out_buf, w1)
      else do {
        _ \<leftarrow> m;
        (ret, b, w2) \<leftarrow> file_read K dev cm (\<lambda>_. 0) (wrap64 (block_pos * COW_BLOCK_SIZE)) COW_BLOCK_SIZE w1;
        (if ret \<noteq> 0 then Some (ret, out_buf, w2)
         else if COW_BLOCK_SIZE < block_off + len then None
         else Some (0, splice out_buf out_off len (\<lambda>i. b (block_off + i)), w2)) })"

section \<open>The store a manager stands for\<close>

definition block_of :: "buf \<Rightarrow> byte list" where
  "block_of b = map b [0..<4096]"

definition saved :: "('w \<Rightarrow> nat \<Rightarrow> buf) \<Rightarrow> cow_manager \<Rightarrow> 'w \<Rightarrow> nat \<Rightarrow> byte list option" where
  "saved fd cm w pos =
     (let v = mapping_view fd cm w pos in
      if v = 0 then None else Some (block_of (\<lambda>i. cow_bytes fd cm w (4096 * v + i))))"

definition data_ok :: "('w \<Rightarrow> nat \<Rightarrow> buf) \<Rightarrow> cow_manager \<Rightarrow> 'w \<Rightarrow> bool" where
  "data_ok fd cm w \<longleftrightarrow> cm_ok cm \<and> data_offset cm \<le> 4096 * curr_pos cm \<and> 4096 * curr_pos cm < 2 ^ 63 + 4096 \<and>
     file_max cm < 2 ^ 63 \<and>
     (\<forall>pos. mapping_view fd cm w pos \<noteq> 0 \<longrightarrow>
        data_offset cm \<le> 4096 * mapping_view fd cm w pos \<and> mapping_view fd cm w pos < curr_pos cm)"

lemma block_of_eq: "block_of b = block_of c \<longleftrightarrow> (\<forall>i<4096. b i = c i)"
  by (auto simp: block_of_def)

lemma data_okD:
  assumes "data_ok fd cm w"
  shows "cm_ok cm" "data_offset cm \<le> 4096 * curr_pos cm" "4096 * curr_pos cm < 2 ^ 63 + 4096" "file_max cm < 2 ^ 63"
  using assms by (auto simp: data_ok_def)

lemma data_ok_mapping:
  "data_ok fd cm w \<Longrightarrow> mapping_view fd cm w pos \<noteq> 0 \<Longrightarrow>
     data_offset cm \<le> 4096 * mapping_view fd cm w pos \<and> mapping_view fd cm w pos < curr_pos cm"
  by (auto simp: data_ok_def)

text \<open>A change of the cache changes neither the store nor its invariant.\<close>

lemma saved_cache_step:
  assumes "data_ok fd cm w" "cache_step fd cm w cm' w'"
  shows "saved fd cm' w' = saved fd cm w" and "data_ok fd cm' w'"
proof -
  from assms(2) have same: "same_but_sects cm cm'" and out: "same_outside_index fd cm w w'"
    and ok: "cm_ok cm'" and view: "mapping_view fd cm' w' = mapping_view fd cm w" by (auto simp: cache_step_def)
  note f = same_but_sects_fields [OF same]
  show "data_ok fd cm' w'" using assms(1) ok by (simp add: data_ok_def view f)
  show "saved fd cm' w' = saved fd cm w"
  proof (rule ext)
    fix pos
    show "saved fd cm' w' pos = saved fd cm w pos"
      using data_ok_mapping [OF assms(1), of pos] out
      by (auto simp: saved_def Let_def view block_of_eq cow_bytes_def f same_outside_index_def)
  qed
qed

text \<open>Saved blocks lie between the index and the write head.\<close>

lemma saved_cong:
  assumes ok: "data_ok fd cm w" and view: "mapping_view fd cm' w' pos = mapping_view fd cm w pos"
    and fl: "cow_file cm' = cow_file cm"
    and bytes: "\<And>i. data_offset cm \<le> i \<Longrightarrow> i < 4096 * curr_pos cm \<Longrightarrow> fd w' (cow_file cm) i = fd w (cow_file cm) i"
  shows "saved fd cm' w' pos = saved fd cm w pos"
proof (cases "mapping_view fd cm w pos = 0")
  case False
  let ?v = "mapping_view fd cm w pos"
  have v: "data_offset cm \<le> 4096 * ?v" "?v < curr_pos cm" using data_ok_mapping [OF ok False] by auto
  then have "4096 * Suc ?v \<le> 4096 * curr_pos cm" by (intro mult_le_mono2) simp
  with v False view fl show ?thesis
    by (auto simp: saved_def Let_def block_of_eq cow_bytes_def intro!: bytes)
qed (simp add: saved_def view)

section \<open>Writing a block\<close>

text \<open>A write into the data area at or after the write head.\<close>

lemma mapping_view_data_write:
  assumes ok: "cm_ok cm" and same: "\<And>x. x < data_offset cm \<Longrightarrow> fd w' (cow_file cm) x = fd w (cow_file cm) x"
  shows "mapping_view fd cm w' = mapping_view fd cm w"
proof (rule ext)
  fix pos
  have d: "data_offset cm = 4096 + 32768 * total_sects cm" using ok by (simp add: cm_ok_def)
  have "disk_word (cow_bytes fd cm w') pos = disk_word (cow_bytes fd cm w) pos" if "pos < 4096 * total_sects cm"
    by (rule disk_word_cong) (use that d in \<open>auto simp: cow_bytes_def intro!: same\<close>)
  then show "mapping_view fd cm w' pos = mapping_view fd cm w pos"
    by (auto simp: mapping_view_def sect_word_def split: option.split)
qed

lemma mapping_view_fields:
  "mapping_view fd (cm\<lparr>curr_pos := p\<rparr>) w = mapping_view fd cm w"
  "cm_ok (cm\<lparr>curr_pos := p\<rparr>) = cm_ok cm" "cow_file (cm\<lparr>curr_pos := p\<rparr>) = cow_file cm"
  "cow_bytes fd (cm\<lparr>curr_pos := p\<rparr>) w = cow_bytes fd cm w"
  by (auto simp: mapping_view_def cow_bytes_def cow_file_def cm_ok_def)

lemma same_but_sects_nr:
  "same_but_sects a b \<Longrightarrow> same_but_sects (a\<lparr>nr_changed_blocks := n\<rparr>) (b\<lparr>nr_changed_blocks := n\<rparr>)"
proof -
  assume "same_but_sects a b"
  then obtain ss k where "b = a\<lparr>sects := ss, allocated_sects := k\<rparr>" by (auto simp: same_but_sects_def)
  then show ?thesis by (simp add: same_but_sects_def)
qed

text \<open>The last step of \<^verbatim>\<open>cow_write_current\<close>: the mapping of \<open>block\<close> already holds the write
  head, everything else is as in a good state \<open>(cm, w)\<close>.\<close>

lemma cow_write_data_spec:
  assumes laws: "file_laws K fd" and good: "data_ok fd cm w" and ok2: "cm_ok cm2"
    and same: "same_but_sects (cm\<lparr>nr_changed_blocks := n\<rparr>) cm2" and out: "same_outside_index fd cm w w2"
    and view: "mapping_view fd cm2 w2 = (mapping_view fd cm w)(block := curr_pos cm)"
  shows "\<exists>r cm' w'. cow_write_data K dev cm2 b w2 = Some (r, cm', w') \<and> cm_ok cm' \<and> total_sects cm' = total_sects cm \<and> cm_dev cm' = cm_dev cm \<and>
    (\<forall>q. q \<noteq> block \<longrightarrow> saved fd cm' w' q = saved fd cm w q) \<and>
    (r = 0 \<longrightarrow> data_ok fd cm' w' \<and> saved fd cm' w' block = Some (block_of b))"
proof -
  obtain f where f: "filp cm2 = Some f" using ok2 by (auto simp: cm_ok_def)
  have fields: "curr_pos cm2 = curr_pos cm" "file_max cm2 = file_max cm" "data_offset cm2 = data_offset cm"
    "total_sects cm2 = total_sects cm" "cow_file cm2 = cow_file cm" "cm_dev cm2 = cm_dev cm"
    using same_but_sects_fields [OF same] by (simp_all add: cow_file_def)
  have ff: "cow_file cm = f" using f fields(5) by (simp add: cow_file_def)
  note d = data_okD [OF good]
  have pos: "0 < curr_pos cm" using d(1,2) by (cases "curr_pos cm") (auto simp: cm_ok_def)
  have cs: "wrap64 (curr_pos cm * 4096) = 4096 * curr_pos cm" using d(3) by simp
  have others2: "saved fd cm2 w2 q = saved fd cm w q" if "q \<noteq> block" for q
    by (rule saved_cong [OF good]) (use that view fields out in \<open>auto simp: same_outside_index_def\<close>)
  show ?thesis
  proof (cases "file_max cm \<le> 4096 * curr_pos cm")
    case True
    with cs fields ok2 others2 show ?thesis by (simp add: cow_write_data_def)
  next
    case False
    obtain r w3 where wr: "file_write K dev cm2 b (4096 * curr_pos cm) 4096 w2 = Some (r, w3)"
      using file_write_total [OF f] by metis
    note fw = file_write_laws [OF laws f wr]
    have low: "fd w3 f x = fd w2 f x" if "x < 4096 * curr_pos cm" for x using fw(1) [of f x] that by simp
    have view3: "mapping_view fd cm2 w3 = mapping_view fd cm2 w2"
      by (rule mapping_view_data_write [OF ok2]) (use low d(2) fields ff in auto)
    have others3: "saved fd cm2 w3 q = saved fd cm w q" if "q \<noteq> block" for q
    proof (rule saved_cong [OF good])
      show "mapping_view fd cm2 w3 q = mapping_view fd cm w q" using that view view3 by simp
      show "fd w3 (cow_file cm) i = fd w (cow_file cm) i" if "data_offset cm \<le> i" "i < 4096 * curr_pos cm" for i
        using low [OF that(2)] out that(1) ff by (simp add: same_outside_index_def)
    qed (rule fields(5))
    show ?thesis
    proof (cases "r = 0")
      case rne: False
      with False wr cs fields ok2 others3 show ?thesis by (simp add: cow_write_data_def)
    next
      case True
      let ?cm3 = "cm2\<lparr>curr_pos := Suc (curr_pos cm)\<rparr>"
      have suc: "wrap64 (Suc (curr_pos cm)) = Suc (curr_pos cm)" using d(3) by simp
      have view4: "mapping_view fd ?cm3 w3 = (mapping_view fd cm w)(block := curr_pos cm)"
        by (simp add: mapping_view_fields view3 view)
      have sv: "saved fd ?cm3 w3 q = saved fd cm2 w3 q" for q
        by (simp add: saved_def Let_def mapping_view_fields)
      have blk: "saved fd ?cm3 w3 block = Some (block_of b)"
        using pos fw(2) True f ff fields view4
        by (auto simp: saved_def Let_def block_of_eq cow_bytes_def mapping_view_fields)
      have "4096 * Suc (curr_pos cm) < 2 ^ 63 + 4096" using False d(4) by simp
      moreover have "data_offset cm \<le> 4096 * mapping_view fd ?cm3 w3 q \<and> mapping_view fd ?cm3 w3 q < Suc (curr_pos cm)"
        if "mapping_view fd ?cm3 w3 q \<noteq> 0" for q
        using that data_ok_mapping [OF good, of q] d(2) by (cases "q = block") (auto simp: view4)
      ultimately have "data_ok fd ?cm3 w3"
        using d ok2 fields by (auto simp: data_ok_def mapping_view_fields)
      with True False wr cs suc fields ok2 others3 sv blk show ?thesis
        by (simp add: cow_write_data_def mapping_view_fields)
    qed
  qed
qed

theorem cow_write_current_spec:
  assumes laws: "file_laws K fd" and good: "data_ok fd cm w" and block: "block < 4096 * total_sects cm"
  shows "\<exists>r cm' w'. cow_write_current K dev cm block b w = Some (r, cm', w') \<and> cm_ok cm' \<and> total_sects cm' = total_sects cm \<and> cm_dev cm' = cm_dev cm \<and>
    (\<forall>q. q \<noteq> block \<longrightarrow> saved fd cm' w' q = saved fd cm w q) \<and>
    (saved fd cm w block \<noteq> None \<longrightarrow> saved fd cm' w' block = saved fd cm w block) \<and>
    (r = 0 \<longrightarrow> data_ok fd cm' w' \<and>
       saved fd cm' w' block = (case saved fd cm w block of Some d \<Rightarrow> Some d | None \<Rightarrow> Some (block_of b)))"
proof -
  note ok = data_okD(1) [OF good]
  obtain r v cm1 w1 where rd: "cow_read_mapping K dev cm block w = Some (r, v, cm1, w1)"
    and st: "cache_step fd cm w cm1 w1" and v: "r = 0 \<longrightarrow> v = mapping_view fd cm w block"
    using cow_read_mapping_spec [OF laws ok block] by blast
  note sv1 = saved_cache_step(1) [OF good st] and good1 = saved_cache_step(2) [OF good st]
  have ok1: "cm_ok cm1" and same1: "same_but_sects cm cm1" and view1: "mapping_view fd cm1 w1 = mapping_view fd cm w"
    using st by (auto simp: cache_step_def)
  note f1 = same_but_sects_fields [OF same1]
  consider "r \<noteq> 0" | "r = 0" "v \<noteq> 0" | "r = 0" "v = 0" by blast
  then show ?thesis
  proof cases
    case 1
    with rd ok1 f1 sv1 show ?thesis by (simp add: cow_write_current_def)
  next
    case 2
    then have "saved fd cm w block \<noteq> None" using v by (simp add: saved_def Let_def)
    with 2 rd ok1 f1 sv1 good1 show ?thesis by (auto simp: cow_write_current_def)
  next
    case 3
    then have none: "saved fd cm w block = None" using v by (simp add: saved_def)
    have v64: "curr_pos cm1 < 2 ^ 64" using data_okD(3) [OF good1] by simp
    have block1: "block < 4096 * total_sects cm1" using block f1 by simp
    obtain r2 cm2 w2 where wm: "cow_write_mapping K dev cm1 block (curr_pos cm1) w1 = Some (r2, cm2, w2)"
      and res: "cache_step fd cm1 w1 cm2 w2 \<and> r2 \<noteq> 0 \<or>
      (\<exists>cm' w'. cache_step fd cm1 w1 cm' w' \<and>
         same_but_sects (cm'\<lparr>nr_changed_blocks := count_change cm1 (mapping_view fd cm1 w1 block)\<rparr>) cm2 \<and>
         same_outside_index fd cm1 w1 w2 \<and> cm_ok cm2 \<and>
         mapping_view fd cm2 w2 = (mapping_view fd cm1 w1)(block := curr_pos cm1))"
      using cow_write_mapping_spec [OF laws ok1 block1 v64] by blast
    have wc: "cow_write_current K dev cm block b w =
        (if r2 \<noteq> 0 then Some (r2, cm2, w2) else cow_write_data K dev cm2 b w2)"
      using rd 3 wm by (simp add: cow_write_current_def cow_write_current_mapping_def)
    from res show ?thesis
    proof (elim disjE conjE exE)
      assume "cache_step fd cm1 w1 cm2 w2" "r2 \<noteq> 0"
      with wc sv1 saved_cache_step(1) [OF good1] f1 show ?thesis
        by (auto simp: cache_step_def dest: same_but_sects_fields)
    next
      fix cm' w'
      assume a: "cache_step fd cm1 w1 cm' w'"
        "same_but_sects (cm'\<lparr>nr_changed_blocks := count_change cm1 (mapping_view fd cm1 w1 block)\<rparr>) cm2"
        "same_outside_index fd cm1 w1 w2" "cm_ok cm2"
        "mapping_view fd cm2 w2 = (mapping_view fd cm1 w1)(block := curr_pos cm1)"
      have "same_but_sects (cm1\<lparr>nr_changed_blocks := n\<rparr>) (cm'\<lparr>nr_changed_blocks := n\<rparr>)" for n
        using a(1) by (auto simp: cache_step_def intro: same_but_sects_nr)
      with a(2) have same2: "same_but_sects (cm1\<lparr>nr_changed_blocks := count_change cm1 (mapping_view fd cm1 w1 block)\<rparr>) cm2"
        by (blast intro: same_but_sects_trans)
      note wd = cow_write_data_spec [OF laws good1 a(4) same2 a(3,5)]
      have tot2: "total_sects cm2 = total_sects cm1" "cm_dev cm2 = cm_dev cm1"
        using same_but_sects_fields(12,15) [OF same2] by simp_all
      have oth2: "saved fd cm2 w2 q = saved fd cm1 w1 q" if "q \<noteq> block" for q
        by (rule saved_cong [OF good1])
           (use that a(3,5) same_but_sects_fields(14) [OF same2] in \<open>auto simp: same_outside_index_def cow_file_def\<close>)
      show ?thesis
      proof (cases "r2 = 0")
        case True
        with wd [of dev b] wc none sv1 f1 show ?thesis by auto
      next
        case False
        with wc a(4) tot2 f1 oth2 sv1 none show ?thesis by auto
      qed
    qed
  qed
qed

section \<open>Reading a saved block\<close>

theorem cow_read_data_spec:
  assumes laws: "file_laws K fd" and good: "data_ok fd cm w"
    and d: "saved fd cm w block = Some d" and len: "block_off + len \<le> 4096" "0 < len"
  shows "cow_read_data K dev cm out off (mapping_view fd cm w block) block_off len w = None \<and> fst (kmalloc K 4096 w) = None \<or>
    (\<exists>r b w'. cow_read_data K dev cm out off (mapping_view fd cm w block) block_off len w = Some (r, b, w') \<and>
       fst (kmalloc K 4096 w) \<noteq> None \<and> fd w' = fd w \<and> b = (if r = 0 then splice out off len (\<lambda>i. d ! (block_off + i)) else out))"
proof -
  let ?v = "mapping_view fd cm w block"
  note ok = data_okD(1) [OF good]
  obtain f where f: "filp cm = Some f" using ok by (auto simp: cm_ok_def)
  have v0: "?v \<noteq> 0" using d by (auto simp: saved_def Let_def split: if_splits)
  have v: "?v < curr_pos cm" using data_ok_mapping [OF good v0] by simp
  then have "4096 * ?v < 2 ^ 64" using data_okD(3) [OF good] by simp
  then have pos: "wrap64 (?v * COW_BLOCK_SIZE) = 4096 * ?v" by (simp add: mult.commute)
  obtain m w1 where mem: "kmalloc K 4096 w = (m, w1)" by fastforce
  obtain r b w2 where rd: "file_read K dev cm (\<lambda>_. 0) (4096 * ?v) 4096 w1 = Some (r, b, w2)"
    using file_read_total [OF f] by metis
  note fr = file_read_laws [OF laws f rd]
  note fd1 = alloc_lawD [OF laws mem]
  have bytes: "b (block_off + i) = d ! (block_off + i)" if "r = 0" "i < len" for i
    using fr(2) [OF that(1), of "block_off + i"] that(2) len d v0 f fd1
    by (auto simp: saved_def Let_def block_of_def cow_bytes_def cow_file_def)
  have "splice out off len (\<lambda>i. b (block_off + i)) = splice out off len (\<lambda>i. d ! (block_off + i))" if "r = 0"
  proof (rule ext)
    fix i
    show "splice out off len (\<lambda>i. b (block_off + i)) i = splice out off len (\<lambda>i. d ! (block_off + i)) i"
      using bytes [OF that, of "i - off"] by (auto simp: splice_def)
  qed
  moreover have "block_off < 4096" using len by simp
  ultimately show ?thesis
    using mem rd pos len fr(1) fd1 by (cases m; cases "r = 0") (simp_all add: cow_read_data_def)
qed

section \<open>The contract of the data store\<close>

locale snap_store =
  fixes inv :: "'s \<Rightarrow> bool" and key :: "'s \<Rightarrow> 'k" and bound :: "'s \<Rightarrow> nat" and stored :: "'s \<Rightarrow> nat \<Rightarrow> byte list option"
    and save :: "nat \<Rightarrow> buf \<Rightarrow> 's \<Rightarrow> (int \<times> 's) option"
  assumes save_law: "inv s \<Longrightarrow> p < bound s \<Longrightarrow>
      \<exists>r s'. save p b s = Some (r, s') \<and> key s' = key s \<and> bound s' = bound s \<and> (\<forall>q. q \<noteq> p \<longrightarrow> stored s' q = stored s q) \<and>
        (stored s p \<noteq> None \<longrightarrow> stored s' p = stored s p) \<and>
        (r = 0 \<longrightarrow> inv s' \<and> stored s' p = (case stored s p of Some d \<Rightarrow> Some d | None \<Rightarrow> Some (block_of b)))"
begin

lemma save_keeps:
  assumes "inv s" "p < bound s" "save p b s = Some (r, s')" "stored s q = Some d"
  shows "stored s' q = Some d"
  using save_law [OF assms(1,2), of b] assms(3,4) by (cases "q = p") auto

text \<open>A batch of writes keeps, per block, what was stored before or else the first write; an error
  ends it, and what was stored before is still there.\<close>

lemma save_batch:
  "inv s \<Longrightarrow> fst ` set pbs \<subseteq> {..<bound s} \<Longrightarrow>
    \<exists>r s'. for_each (\<lambda>(p, b). save p b) pbs s = Some (r, s') \<and> key s' = key s \<and> bound s' = bound s \<and>
      (\<forall>q. stored s q \<noteq> None \<or> q \<notin> fst ` set pbs \<longrightarrow> stored s' q = stored s q) \<and>
      (r = 0 \<longrightarrow> inv s' \<and>
        (\<forall>q. stored s' q = (case stored s q of Some d \<Rightarrow> Some d | None \<Rightarrow> map_option block_of (map_of pbs q))))"
proof (induction pbs arbitrary: s)
  case Nil
  then show ?case by (simp split: option.split)
next
  case (Cons pb pbs)
  obtain p b where pb: "pb = (p, b)" by fastforce
  with Cons.prems(2) have p: "p < bound s" by simp
  obtain r s1 where st: "save p b s = Some (r, s1)" "bound s1 = bound s" "\<forall>q. q \<noteq> p \<longrightarrow> stored s1 q = stored s q"
    and key1: "key s1 = key s" and old: "stored s p \<noteq> None \<longrightarrow> stored s1 p = stored s p"
    and ok: "r = 0 \<longrightarrow> inv s1 \<and> stored s1 p = (case stored s p of Some d \<Rightarrow> Some d | None \<Rightarrow> Some (block_of b))"
    using save_law [OF Cons.prems(1) p] by metis
  have keep1: "stored s1 q = stored s q" if "stored s q \<noteq> None \<or> q \<noteq> p" for q
    using st(3) old that by (cases "q = p") auto
  show ?case
  proof (cases "r = 0")
    case False
    with st key1 pb keep1 show ?thesis by auto
  next
    case True
    with ok have inv1: "inv s1" by simp
    have bnd: "fst ` set pbs \<subseteq> {..<bound s1}" using Cons.prems(2) st(2) by simp
    obtain r2 s2 where ih: "for_each (\<lambda>(p, b). save p b) pbs s1 = Some (r2, s2)" "bound s2 = bound s1" "key s2 = key s1"
      and keep: "\<forall>q. stored s1 q \<noteq> None \<or> q \<notin> fst ` set pbs \<longrightarrow> stored s2 q = stored s1 q"
      and fin: "r2 = 0 \<longrightarrow> inv s2 \<and>
        (\<forall>q. stored s2 q = (case stored s1 q of Some d \<Rightarrow> Some d | None \<Rightarrow> map_option block_of (map_of pbs q)))"
      using Cons.IH [OF inv1 bnd] by auto
    have "stored s2 q = (case stored s q of Some d \<Rightarrow> Some d | None \<Rightarrow> map_option block_of (map_of (pb # pbs) q))" if "r2 = 0" for q
      using fin that st(3) ok True pb by (cases "q = p") (auto split: option.split)
    moreover have "stored s2 q = stored s q" if "stored s q \<noteq> None \<or> q \<notin> fst ` set (pb # pbs)" for q
      using keep1 [of q] keep [rule_format, of q] that pb by auto
    ultimately show ?thesis using True st key1 ih fin pb by simp
  qed
qed

end

definition store_inv :: "('w, 'k) kern_scheme \<Rightarrow> ('w \<Rightarrow> nat \<Rightarrow> buf) \<Rightarrow> cow_manager \<times> 'w \<Rightarrow> bool" where
  "store_inv K fd s \<longleftrightarrow> file_laws K fd \<and> data_ok fd (fst s) (snd s)"

definition cow_stored :: "('w \<Rightarrow> nat \<Rightarrow> buf) \<Rightarrow> cow_manager \<times> 'w \<Rightarrow> nat \<Rightarrow> byte list option" where
  "cow_stored fd s = saved fd (fst s) (snd s)"

definition cow_save :: "('w, 'k) kern_scheme \<Rightarrow> 'd devio_scheme \<Rightarrow> nat \<Rightarrow> buf \<Rightarrow> cow_manager \<times> 'w
    \<Rightarrow> (int \<times> cow_manager \<times> 'w) option" where
  "cow_save K dev p b s = cow_write_current K dev (fst s) p b (snd s)"

interpretation data: snap_store "store_inv K fd" cow_key cow_bound "cow_stored fd" "cow_save K dev"
  for K :: "('w, 'k) kern_scheme" and fd and dev :: "'d devio_scheme"
proof (unfold_locales, goal_cases)
  case (1 s p b)
  obtain cm w where s: "s = (cm, w)" by fastforce
  with 1 have "file_laws K fd" "data_ok fd cm w" "p < 4096 * total_sects cm"
    by (auto simp: store_inv_def cow_bound_def)
  from cow_write_current_spec [OF this, of dev b] s \<open>file_laws K fd\<close> show ?case
    by (auto simp: store_inv_def cow_bound_def cow_key_def cow_stored_def cow_save_def)
qed

lemma save_run:
  assumes "file_laws K fd" and "data_ok fd cm w" and "fst ` set pbs \<subseteq> {..<4096 * total_sects cm}"
  shows "\<exists>r cm' w'. for_each (\<lambda>(p, b) (cm, w). cow_write_current K dev cm p b w) pbs (cm, w) = Some (r, cm', w') \<and>
    total_sects cm' = total_sects cm \<and> cm_dev cm' = cm_dev cm \<and>
    (\<forall>q. saved fd cm w q \<noteq> None \<or> q \<notin> fst ` set pbs \<longrightarrow> saved fd cm' w' q = saved fd cm w q) \<and>
    (r = 0 \<longrightarrow> data_ok fd cm' w' \<and> (\<forall>q. saved fd cm' w' q =
       (case saved fd cm w q of Some d \<Rightarrow> Some d | None \<Rightarrow> map_option block_of (map_of pbs q))))"
proof -
  have eq: "(\<lambda>(p, b). cow_save K dev p b) = (\<lambda>(p, b) (cm, w). cow_write_current K dev cm p b w)"
    by (simp add: cow_save_def fun_eq_iff)
  have "store_inv K fd (cm, w)" "fst ` set pbs \<subseteq> {..<cow_bound (cm, w)}"
    using assms by (auto simp: store_inv_def cow_bound_def)
  from data.save_batch [OF this, of dev, unfolded eq] show ?thesis
    by (auto simp: store_inv_def cow_stored_def cow_bound_def cow_key_def)
qed

section \<open>Properties\<close>

lemma demo_data_ok: "data_ok (\<lambda>w. w) demo_cm ram0"
  using demo_cm_ok by (simp add: data_ok_def demo_view) (simp add: demo_cm_def)

lemma demo_saved: "saved (\<lambda>w. w) demo_cm ram0 = (\<lambda>_. None)"
  by (rule ext) (simp add: saved_def demo_view)

lemma ram_file_write: "filp cm = Some f \<Longrightarrow> file_write ram_kern dev cm b off n w = Some (0, ram_write f b off n w)"
  by (simp add: file_write_open ram_kern_def)

lemma demo_save:
  assumes "p < 4096"
  shows "cow_write_current ram_kern demo_dev demo_cm p b ram0 =
     Some (0, (demo_cm1 p 9)\<lparr>sects := [\<lparr>has_data = True, usage = 2, mappings = Some ((\<lambda>_. 0)(p := 9))\<rparr>], curr_pos := 10\<rparr>,
           ram_write 1 b 36864 4096 ram0)"
proof -
  let ?s = "set_sect demo_cm 0 \<lparr>has_data = False, usage = 1, mappings = None\<rparr>"
  have wm: "cow_write_mapping ram_kern demo_dev ?s p 9 ram0 =
      Some (0, (demo_cm1 p 9)\<lparr>sects := [\<lparr>has_data = True, usage = 2, mappings = Some ((\<lambda>_. 0)(p := 9))\<rparr>]\<rparr>, ram0)"
    using assms by (simp add: cow_write_mapping_def cow_alloc_section_def demo_cm1_def demo_cm_def sect_at_def set_sect_def
      ram_kern_def fun_eq_iff)
  have "cow_write_data ram_kern demo_dev
      ((demo_cm1 p 9)\<lparr>sects := [\<lparr>has_data = True, usage = 2, mappings = Some ((\<lambda>_. 0)(p := 9))\<rparr>]\<rparr>) b ram0 =
      Some (0, (demo_cm1 p 9)\<lparr>sects := [\<lparr>has_data = True, usage = 2, mappings = Some ((\<lambda>_. 0)(p := 9))\<rparr>], curr_pos := 10\<rparr>,
           ram_write 1 b 36864 4096 ram0)"
    by (simp add: cow_write_data_def demo_cm1_def demo_cm_def ram_file_write [where f = 1])
  moreover have "curr_pos ?s = 9" by (simp add: demo_cm_def)
  ultimately show ?thesis
    using demo_read [OF assms] wm by (simp add: cow_write_current_def cow_write_current_mapping_def)
qed

text \<open>C4: A snapshot keeps the first version of every block: a run of writes \<^verbatim>\<open>cow_write_current\<close>
  always returns and, whether it ends well or with an error, every block that was saved
  before is still saved with the same contents and no block outside the run gets saved; when
  all writes succeed, the blocks that were new are saved with the first contents the run
  wrote to them.\<close>

theorem snapshot_keeps_first_versions:
  assumes "file_laws K fd" and "data_ok fd cm w" and "fst ` set pbs \<subseteq> {..<4096 * total_sects cm}"
  shows "\<exists>r cm' w'. for_each (\<lambda>(p, b) (cm, w). cow_write_current K dev cm p b w) pbs (cm, w) = Some (r, cm', w') \<and>
    (\<forall>q. saved fd cm w q \<noteq> None \<or> q \<notin> fst ` set pbs \<longrightarrow> saved fd cm' w' q = saved fd cm w q) \<and>
    (r = 0 \<longrightarrow> data_ok fd cm' w' \<and> (\<forall>q. saved fd cm' w' q =
       (case saved fd cm w q of Some d \<Rightarrow> Some d | None \<Rightarrow> map_option block_of (map_of pbs q))))"
  using save_run [OF assms] by blast

theorem snapshot_keeps_first_versions_witness:
  "\<exists>cm' w'. for_each (\<lambda>(p, b) (cm, w). cow_write_current ram_kern demo_dev cm p b w) [(5, \<lambda>_. 3)] (demo_cm, ram0) =
     Some (0, cm', w') \<and> saved (\<lambda>w. w) cm' w' 5 = Some (block_of (\<lambda>_. 3)) \<and> saved (\<lambda>w. w) cm' w' 6 = None"
proof -
  have "fst ` set [(5, (\<lambda>_. 3) :: buf)] \<subseteq> {..<4096 * total_sects demo_cm}" by (simp add: demo_cm_def)
  note keep = snapshot_keeps_first_versions [OF ram_kern_file_laws demo_data_ok this, of demo_dev]
  have "for_each (\<lambda>(p, b) (cm, w). cow_write_current ram_kern demo_dev cm p b w) [(5, \<lambda>_. 3)] (demo_cm, ram0) =
     Some (0, (demo_cm1 5 9)\<lparr>sects := [\<lparr>has_data = True, usage = 2, mappings = Some ((\<lambda>_. 0)(5 := 9))\<rparr>], curr_pos := 10\<rparr>,
           ram_write 1 (\<lambda>_. 3) 36864 4096 ram0)"
    using demo_save [of 5 "\<lambda>_. 3"] by simp
  with keep show ?thesis by (auto simp: demo_saved)
qed

text \<open>C18: Reading back a saved block: \<^verbatim>\<open>cow_read_data\<close> at the block's mapping copies exactly the
  requested bytes of the saved contents into the caller's buffer at its offset, or reports an
  error and leaves the buffer as it was; no file changes. It does not return exactly when it
  gets no memory for the block, which the code does not check before it reads to the buffer.\<close>

theorem read_data_returns_saved:
  assumes "file_laws K fd" and "data_ok fd cm w" and "saved fd cm w block = Some d"
    and "block_off + len \<le> 4096" and "0 < len"
  shows "case cow_read_data K dev cm out off (mapping_view fd cm w block) block_off len w of
       None \<Rightarrow> fst (kmalloc K 4096 w) = None
     | Some (r, b, w') \<Rightarrow> fst (kmalloc K 4096 w) \<noteq> None \<and>
         fd w' = fd w \<and> b = (if r = 0 then splice out off len (\<lambda>i. d ! (block_off + i)) else out)"
  using cow_read_data_spec [OF assms, of dev out off] by auto

definition demo_saved_cm :: cow_manager where
  "demo_saved_cm = demo_cm\<lparr>sects := [\<lparr>has_data = True, usage = 0, mappings = Some ((\<lambda>_. 0)(5 := 9))\<rparr>],
     allocated_sects := 1, curr_pos := 10\<rparr>"

lemma demo_saved_view: "mapping_view (\<lambda>w. w) demo_saved_cm w = (\<lambda>_. 0)(5 := 9)"
proof (rule ext)
  fix q show "mapping_view (\<lambda>w. w) demo_saved_cm w q = ((\<lambda>_. 0)(5 := 9)) q"
    by (auto simp: mapping_view_def demo_saved_cm_def demo_cm_def sect_word_def less_mult_imp_div_less)
qed

lemma demo_saved_ok: "data_ok (\<lambda>w. w) demo_saved_cm w"
proof -
  have "cm_ok demo_saved_cm" by (simp add: cm_ok_def demo_saved_cm_def demo_cm_def sect_ok_def)
  then show ?thesis
    by (simp add: data_ok_def demo_saved_view) (simp add: demo_saved_cm_def demo_cm_def)
qed

theorem read_data_returns_saved_witness:
  "\<exists>b. cow_read_data ram_kern demo_dev demo_saved_cm (\<lambda>_. 1) 100 9 512 512 ram0 = Some (0, b, ram0) \<and>
     b 99 = 1 \<and> b 100 = 0 \<and> b 611 = 0 \<and> b 612 = 1"
proof -
  have sv: "saved (\<lambda>w. w) demo_saved_cm ram0 5 = Some (block_of (\<lambda>_. 0))"
    by (simp add: saved_def demo_saved_view cow_bytes_def ram0_def)
  have mem: "kmalloc ram_kern 4096 ram0 = (Some (\<lambda>_. 0), ram0)" by (simp add: ram_kern_def)
  from read_data_returns_saved [OF ram_kern_file_laws demo_saved_ok sv, where block_off = 512 and len = 512 and dev = demo_dev and
    out = "\<lambda>_. 1" and off = 100] mem
  obtain r b w' where rd: "cow_read_data ram_kern demo_dev demo_saved_cm (\<lambda>_. 1) 100 9 512 512 ram0 = Some (r, b, w')"
    and b: "b = (if r = 0 then splice (\<lambda>_. 1) 100 512 (\<lambda>i. block_of (\<lambda>_. 0) ! (512 + i)) else (\<lambda>_. 1))"
    and w: "w' = ram0" by (auto simp: demo_saved_view split: option.splits)
  have "r = 0" using rd mem
    by (auto simp: cow_read_data_def file_read_open [where f = 1] demo_saved_cm_def demo_cm_def ram_kern_def split: if_splits)
  with rd b w show ?thesis by (simp add: splice_def block_of_def)
qed

end
