(* ===== verification/Queues.thy ===== *)
theory Queues
  imports Prelude "HOL-Library.Multiset"
begin

text \<open>
  The intrusive singly linked lists of the driver: the \<^verbatim>\<open>bio_list\<close> of the bio queues and the
  \<^verbatim>\<open>sset_list\<close> of the sector-set queue. Both are a head and a tail pointer with the links in
  the elements; here the links are one map from addresses to addresses. \<open>chain\<close> and \<open>holds\<close>
  read a list of addresses off such a state; the operations are proved against lists, the
  common contract is the locale \<open>fifo\<close>. The queues' spin locks make each operation atomic.
  The \<^verbatim>\<open>bio_list\<close> operations are translated from the definitions the driver brings for kernels
  that lack them (\<^verbatim>\<open>#ifndef HAVE_BIO_LIST\<close>); on the kernels modelled elsewhere in the
  development the kernel provides operations of the same names, documented to do the same.
\<close>

section \<open>Structures\<close>

record links =
  head :: "nat option"
  tail :: "nat option"
  next_of :: "nat \<Rightarrow> nat option"

definition bio_list_init :: "links \<Rightarrow> links" where
  "bio_list_init l = l\<lparr>head := None, tail := None\<rparr>"

definition bio_list_empty :: "links \<Rightarrow> bool" where
  "bio_list_empty l \<longleftrightarrow> head l = None"

definition bio_list_add :: "links \<Rightarrow> nat \<Rightarrow> links" where
  "bio_list_add l bio =
     (let l1 = l\<lparr>next_of := (next_of l)(bio := None)\<rparr>;
          l2 = (case tail l1 of Some t \<Rightarrow> l1\<lparr>next_of := (next_of l1)(t := Some bio)\<rparr> | None \<Rightarrow> l1\<lparr>head := Some bio\<rparr>) in
      l2\<lparr>tail := Some bio\<rparr>)"

definition bio_list_pop :: "links \<Rightarrow> nat option \<times> links" where
  "bio_list_pop l =
     (case head l of
        None \<Rightarrow> (None, l)
      | Some bio \<Rightarrow>
          let l1 = l\<lparr>head := next_of l bio\<rparr>;
              l2 = (if head l1 = None then l1\<lparr>tail := None\<rparr> else l1) in
          (Some bio, l2\<lparr>next_of := (next_of l2)(bio := None)\<rparr>))"

definition sset_list_init :: "links \<Rightarrow> links" where
  "sset_list_init l = l\<lparr>head := None, tail := None\<rparr>"

definition sset_list_empty :: "links \<Rightarrow> bool" where
  "sset_list_empty l \<longleftrightarrow> head l = None"

definition sset_list_add :: "links \<Rightarrow> nat \<Rightarrow> links" where
  "sset_list_add l sset =
     (let l1 = l\<lparr>next_of := (next_of l)(sset := None)\<rparr>;
          l2 = (case tail l1 of Some t \<Rightarrow> l1\<lparr>next_of := (next_of l1)(t := Some sset)\<rparr> | None \<Rightarrow> l1\<lparr>head := Some sset\<rparr>) in
      l2\<lparr>tail := Some sset\<rparr>)"

definition sset_list_pop :: "links \<Rightarrow> nat option \<times> links" where
  "sset_list_pop l =
     (case head l of
        None \<Rightarrow> (None, l)
      | Some sset \<Rightarrow>
          let l1 = l\<lparr>head := next_of l sset\<rparr>;
              l2 = (if head l1 = None then l1\<lparr>tail := None\<rparr> else l1) in
          (Some sset, l2\<lparr>next_of := (next_of l2)(sset := None)\<rparr>))"

text \<open>The queues add a lock and a wait queue around the lists.\<close>

definition bio_queue_init :: "links \<Rightarrow> links" where "bio_queue_init = bio_list_init"
definition bio_queue_empty :: "links \<Rightarrow> bool" where "bio_queue_empty = bio_list_empty"
definition bio_queue_add :: "links \<Rightarrow> nat \<Rightarrow> links" where "bio_queue_add = bio_list_add"
definition bio_queue_dequeue :: "links \<Rightarrow> nat option \<times> links" where "bio_queue_dequeue = bio_list_pop"
definition sset_queue_init :: "links \<Rightarrow> links" where "sset_queue_init = sset_list_init"
definition sset_queue_empty :: "links \<Rightarrow> bool" where "sset_queue_empty = sset_list_empty"
definition sset_queue_add :: "links \<Rightarrow> nat \<Rightarrow> links" where "sset_queue_add = sset_list_add"
definition sset_queue_dequeue :: "links \<Rightarrow> nat option \<times> links" where "sset_queue_dequeue = sset_list_pop"

section \<open>Taking a request while delaying reads\<close>

text \<open>What the dequeue function looks at in a bio: its direction, first sector and bytes.\<close>

record bio_range =
  is_write :: bool
  r_sector :: nat
  r_size :: nat

definition bio_overlap :: "'a bio_range_scheme \<Rightarrow> 'b bio_range_scheme \<Rightarrow> bool" where
  "bio_overlap b1 b2 \<longleftrightarrow>
     max (r_sector b1) (r_sector b2) \<le>
     min (wrap64 (r_sector b1 + r_size b1 div SECTOR_SIZE)) (wrap64 (r_sector b2 + r_size b2 div SECTOR_SIZE))"

text \<open>\<^verbatim>\<open>bio_list_for_each\<close> over the rest of the queue with the trailing pointer \<open>prev\<close>: the first
  write that overlaps \<open>bio\<close>. On a cyclic list the loop does not end.\<close>

partial_function (option) delay_scan :: "(nat \<Rightarrow> bio_range) \<Rightarrow> (nat \<Rightarrow> nat option) \<Rightarrow> nat \<Rightarrow> nat option \<Rightarrow> nat option
    \<Rightarrow> (nat option \<times> nat) option option" where
  "delay_scan B nx bio prev tmp =
     (case tmp of
        None \<Rightarrow> Some None
      | Some t \<Rightarrow>
          if is_write (B t) \<and> bio_overlap (B bio) (B t) then Some (Some (prev, t))
          else delay_scan B nx bio (Some t) (nx t))"

text \<open>\<^term>\<open>None\<close> is a NULL dereference (an empty queue) or a scan that does not end.\<close>

definition bio_queue_dequeue_delay_read :: "(nat \<Rightarrow> bio_range) \<Rightarrow> links \<Rightarrow> (nat \<times> links) option" where
  "bio_queue_dequeue_delay_read B l =
     (case bio_list_pop l of
        (None, l1) \<Rightarrow> None
      | (Some bio, l1) \<Rightarrow>
          if is_write (B bio) then Some (bio, l1)
          else do {
            found \<leftarrow> delay_scan B (next_of l1) bio None (head l1);
            (case found of
               None \<Rightarrow> Some (bio, l1)
             | Some (prev, t) \<Rightarrow>
                 let l2 = (case prev of Some p \<Rightarrow> l1\<lparr>next_of := (next_of l1)(p := Some bio)\<rparr> | None \<Rightarrow> l1\<lparr>head := Some bio\<rparr>);
                     l3 = (if tail l2 = Some t then l2\<lparr>tail := Some bio\<rparr> else l2);
                     l4 = l3\<lparr>next_of := (next_of l3)(bio := next_of l3 t)\<rparr>;
                     l5 = l4\<lparr>next_of := (next_of l4)(t := None)\<rparr> in
                 Some (t, l5)) })"

section \<open>The list a pair of pointers stands for\<close>

fun chain :: "(nat \<Rightarrow> nat option) \<Rightarrow> nat option \<Rightarrow> nat list \<Rightarrow> bool" where
  "chain nx p [] \<longleftrightarrow> p = None"
| "chain nx p (x # xs) \<longleftrightarrow> p = Some x \<and> chain nx (nx x) xs"

definition holds :: "links \<Rightarrow> nat list \<Rightarrow> bool" where
  "holds l xs \<longleftrightarrow> distinct xs \<and> chain (next_of l) (head l) xs \<and> tail l = (if xs = [] then None else Some (last xs))"

lemma chain_cong: "(\<And>x. x \<in> set xs \<Longrightarrow> nx x = nx' x) \<Longrightarrow> chain nx p xs = chain nx' p xs"
  by (induction xs arbitrary: p) auto

lemma chain_upd [simp]: "y \<notin> set xs \<Longrightarrow> chain (nx(y := q)) p xs = chain nx p xs"
  by (rule chain_cong) auto

text \<open>Appending after the last element.\<close>

lemma chain_append_last:
  "distinct xs \<Longrightarrow> xs \<noteq> [] \<Longrightarrow> b \<notin> set xs \<Longrightarrow> chain nx p xs \<Longrightarrow> nx b = None \<Longrightarrow>
     chain (nx(last xs := Some b)) p (xs @ [b])"
proof (induction xs arbitrary: p)
  case (Cons x xs)
  show ?case
  proof (cases "xs = []")
    case True
    with Cons.prems show ?thesis by simp
  next
    case False
    with Cons.prems(1) have "x \<noteq> last xs" by (auto simp: last_in_set)
    with False Cons show ?thesis by auto
  qed
qed simp

lemma holds_add: "holds l xs \<Longrightarrow> b \<notin> set xs \<Longrightarrow> holds (bio_list_add l b) (xs @ [b])"
  using chain_append_last [of xs b "(next_of l)(b := None)" "head l"]
  by (cases "xs = []") (auto simp: holds_def bio_list_add_def Let_def)

lemma holds_pop_Nil: "holds l [] \<Longrightarrow> bio_list_pop l = (None, l)"
  by (simp add: holds_def bio_list_pop_def)

lemma chain_head_None: "chain nx None xs \<Longrightarrow> xs = []"
  by (cases xs) auto

lemma holds_pop_Cons: "holds l (x # xs) \<Longrightarrow> \<exists>l'. bio_list_pop l = (Some x, l') \<and> holds l' xs"
  by (auto simp: holds_def bio_list_pop_def Let_def dest: chain_head_None)

lemma sset_list_same: "sset_list_add = bio_list_add" "sset_list_pop = bio_list_pop"
  by (simp_all add: fun_eq_iff sset_list_add_def bio_list_add_def sset_list_pop_def bio_list_pop_def)

section \<open>The contract of a queue\<close>

locale fifo =
  fixes repr :: "'s \<Rightarrow> nat list \<Rightarrow> bool" and push :: "'s \<Rightarrow> nat \<Rightarrow> 's" and pop :: "'s \<Rightarrow> nat option \<times> 's"
  assumes push_law: "repr s xs \<Longrightarrow> b \<notin> set xs \<Longrightarrow> repr (push s b) (xs @ [b])"
    and pop_nil: "repr s [] \<Longrightarrow> pop s = (None, s)"
    and pop_cons: "repr s (x # xs) \<Longrightarrow> \<exists>s'. pop s = (Some x, s') \<and> repr s' xs"
begin

primrec push_all :: "'s \<Rightarrow> nat list \<Rightarrow> 's" where
  "push_all s [] = s"
| "push_all s (b # bs) = push_all (push s b) bs"

primrec pop_n :: "nat \<Rightarrow> 's \<Rightarrow> nat list \<times> 's" where
  "pop_n 0 s = ([], s)"
| "pop_n (Suc n) s =
     (case pop s of (None, s1) \<Rightarrow> ([], s1) | (Some x, s1) \<Rightarrow> (case pop_n n s1 of (xs, s2) \<Rightarrow> (x # xs, s2)))"

lemma push_all_repr: "repr s xs \<Longrightarrow> distinct (xs @ bs) \<Longrightarrow> repr (push_all s bs) (xs @ bs)"
proof (induction bs arbitrary: s xs)
  case (Cons b bs)
  from Cons.prems push_law [of s xs b] have "repr (push s b) (xs @ [b])" by simp
  from Cons.IH [OF this] Cons.prems show ?case by simp
qed simp

lemma pop_n_repr: "repr s (xs @ ys) \<Longrightarrow> \<exists>s'. pop_n (length xs) s = (xs, s') \<and> repr s' ys"
proof (induction xs arbitrary: s)
  case (Cons x xs)
  from pop_cons [of s x "xs @ ys"] Cons.prems obtain s1 where s1: "pop s = (Some x, s1)" "repr s1 (xs @ ys)" by auto
  from Cons.IH [OF s1(2)] obtain s2 where "pop_n (length xs) s1 = (xs, s2)" "repr s2 ys" by auto
  with s1 show ?case by auto
qed simp

text \<open>First in, first out.\<close>

lemma pops_in_order:
  assumes "repr s xs" "distinct (xs @ bs)"
  shows "\<exists>s'. pop_n (length (xs @ bs)) (push_all s bs) = (xs @ bs, s') \<and> repr s' []"
  using pop_n_repr [of "push_all s bs" "xs @ bs" "[]"] push_all_repr [OF assms] by simp

end

interpretation bios: fifo holds bio_queue_add bio_queue_dequeue
  by unfold_locales (simp_all add: bio_queue_add_def bio_queue_dequeue_def holds_add holds_pop_Nil holds_pop_Cons)

interpretation ssets: fifo holds sset_queue_add sset_queue_dequeue
  by unfold_locales
     (simp_all add: sset_queue_add_def sset_queue_dequeue_def sset_list_same holds_add holds_pop_Nil holds_pop_Cons)

section \<open>Delaying reads, on lists\<close>

fun take_overlapping :: "('a \<Rightarrow> bio_range) \<Rightarrow> 'a \<Rightarrow> 'a list \<Rightarrow> ('a list \<times> 'a \<times> 'a list) option" where
  "take_overlapping B b [] = None"
| "take_overlapping B b (t # ts) =
     (if is_write (B t) \<and> bio_overlap (B b) (B t) then Some ([], t, ts)
      else map_option (\<lambda>(ys, u, zs). (t # ys, u, zs)) (take_overlapping B b ts))"

definition delay_read :: "('a \<Rightarrow> bio_range) \<Rightarrow> 'a \<Rightarrow> 'a list \<Rightarrow> 'a \<times> 'a list" where
  "delay_read B b xs =
     (if is_write (B b) then (b, xs)
      else case take_overlapping B b xs of
        None \<Rightarrow> (b, xs)
      | Some (ys, t, zs) \<Rightarrow> (t, ys @ b # zs))"

lemma take_overlapping_Some:
  "take_overlapping B b xs = Some (ys, t, zs) \<Longrightarrow>
     xs = ys @ t # zs \<and> is_write (B t) \<and> bio_overlap (B b) (B t) \<and>
     (\<forall>y \<in> set ys. \<not> (is_write (B y) \<and> bio_overlap (B b) (B y)))"
  by (induction xs arbitrary: ys) (auto split: if_splits)

lemma take_overlapping_None:
  "take_overlapping B b xs = None \<longleftrightarrow> (\<forall>y \<in> set xs. \<not> (is_write (B y) \<and> bio_overlap (B b) (B y)))"
  by (induction xs) auto

lemma delay_scan_chain:
  "chain nx p xs \<Longrightarrow>
     delay_scan B nx b prev p =
       Some (map_option (\<lambda>(ys, t, zs). (if ys = [] then prev else Some (last ys), t)) (take_overlapping B b xs))"
proof (induction xs arbitrary: p prev)
  case Nil
  then show ?case by (simp add: delay_scan.simps)
next
  case (Cons x xs)
  then have p: "p = Some x" and rest: "chain nx (nx x) xs" by auto
  show ?case
  proof (cases "is_write (B x) \<and> bio_overlap (B b) (B x)")
    case True
    then show ?thesis by (simp add: delay_scan.simps p)
  next
    case False
    have "delay_scan B nx b prev p = delay_scan B nx b (Some x) (nx x)"
      using False by (subst delay_scan.simps) (auto simp: p)
    also have "\<dots> = Some (map_option (\<lambda>(ys, t, zs). (if ys = [] then Some x else Some (last ys), t)) (take_overlapping B b xs))"
      by (rule Cons.IH [OF rest])
    also have "\<dots> = Some (map_option (\<lambda>(ys, t, zs). (if ys = [] then prev else Some (last ys), t)) (take_overlapping B b (x # xs)))"
      using False by (cases "take_overlapping B b xs") auto
    finally show ?thesis .
  qed
qed

text \<open>Putting \<open>b\<close> in the place of \<open>t\<close>.\<close>

lemma chain_split: "chain nx p (ys @ t # zs) \<Longrightarrow> chain nx (nx t) zs"
  by (induction ys arbitrary: p) auto

lemma chain_replace:
  "distinct (ys @ t # zs) \<Longrightarrow> b \<notin> set (ys @ t # zs) \<Longrightarrow> chain nx p (ys @ t # zs) \<Longrightarrow> ys \<noteq> [] \<Longrightarrow>
     chain (nx(last ys := Some b, b := nx t, t := None)) p (ys @ b # zs)"
proof (induction ys arbitrary: p)
  case (Cons y ys)
  show ?case
  proof (cases "ys = []")
    case True
    let ?f = "nx(last (y # ys) := Some b, b := nx t, t := None)"
    from True Cons.prems have z: "y \<notin> set zs" "b \<notin> set zs" "t \<notin> set zs" "p = Some y" "chain nx (nx t) zs" "y \<noteq> b" "y \<noteq> t" "b \<noteq> t"
      by auto
    have "chain ?f (nx t) zs = chain nx (nx t) zs" by (rule chain_cong) (use z True in auto)
    with z have rest: "chain ?f (nx t) zs" by blast
    have "?f y = Some b" "?f b = nx t" using z True by simp_all
    with rest z True show ?thesis by (simp only: append_Cons append_Nil chain.simps simp_thms)
  next
    case False
    with Cons.prems(1,2) have "y \<noteq> last ys" "y \<noteq> b" "y \<noteq> t" by (auto simp: last_in_set)
    with False Cons show ?thesis by auto
  qed
qed simp

lemma last_replace: "last (ys @ b # zs) = (if zs = [] then b else last (ys @ t # zs))"
  by simp

lemma dequeue_delay_read_refines:
  assumes "holds l (b # xs)"
  shows "\<exists>l'. bio_queue_dequeue_delay_read B l = Some (fst (delay_read B b xs), l') \<and> holds l' (snd (delay_read B b xs))"
proof -
  from holds_pop_Cons [OF assms] obtain l1 where pop: "bio_list_pop l = (Some b, l1)" and l1: "holds l1 xs" by auto
  from assms have b: "b \<notin> set xs" "distinct xs" by (auto simp: holds_def)
  from l1 have ch: "chain (next_of l1) (head l1) xs" and tl: "tail l1 = (if xs = [] then None else Some (last xs))"
    by (auto simp: holds_def)
  note scan = delay_scan_chain [OF ch, of B b None]
  show ?thesis
  proof (cases "is_write (B b)")
    case True
    with pop l1 show ?thesis by (simp add: bio_queue_dequeue_delay_read_def delay_read_def)
  next
    case wr: False
    show ?thesis
    proof (cases "take_overlapping B b xs")
      case None
      with wr pop l1 scan show ?thesis by (simp add: bio_queue_dequeue_delay_read_def delay_read_def)
    next
      case (Some found)
      then obtain ys t zs where tk: "take_overlapping B b xs = Some (ys, t, zs)" by (metis prod_cases3)
      from take_overlapping_Some [OF tk] have xs: "xs = ys @ t # zs" by blast
      let ?nx = "(if ys = [] then next_of l1 else (next_of l1)(last ys := Some b))"
      let ?l5 = "l1\<lparr>head := (if ys = [] then Some b else head l1),
                    tail := (if tail l1 = Some t then Some b else tail l1),
                    next_of := ?nx(b := next_of l1 t, t := None)\<rparr>"
      have t_ys: "ys \<noteq> [] \<Longrightarrow> last ys \<noteq> t" using b xs by (auto simp: last_in_set)
      have "bio_queue_dequeue_delay_read B l = Some (t, ?l5)"
        using wr pop scan tk t_ys
        by (cases "ys = []") (auto simp: bio_queue_dequeue_delay_read_def Let_def)
      moreover have "holds ?l5 (ys @ b # zs)"
      proof -
        have d: "distinct (ys @ b # zs)" using b xs by auto
        have "chain (?nx(b := next_of l1 t, t := None)) (if ys = [] then Some b else head l1) (ys @ b # zs)"
        proof (cases "ys = []")
          case True
          with ch xs b show ?thesis by auto
        next
          case False
          with chain_replace [of ys t zs b "next_of l1" "head l1"] ch xs b show ?thesis by auto
        qed
        moreover have "(if tail l1 = Some t then Some b else tail l1) = Some (last (ys @ b # zs))"
        proof (cases "zs = []")
          case True
          with tl xs show ?thesis by simp
        next
          case False
          then have "last xs \<noteq> t" using b xs by (auto simp: last_in_set)
          with False tl xs show ?thesis by simp
        qed
        ultimately show ?thesis using d by (simp add: holds_def)
      qed
      ultimately show ?thesis using wr tk by (simp add: delay_read_def)
    qed
  qed
qed

section \<open>Properties\<close>

lemma delay_read_writes:
  "filter (\<lambda>x. is_write (B x) \<and> bio_overlap (B b) (B x)) (fst (delay_read B b xs) # snd (delay_read B b xs)) =
   filter (\<lambda>x. is_write (B x) \<and> bio_overlap (B b) (B x)) (b # xs)"
  by (auto simp: delay_read_def dest!: take_overlapping_Some split: option.split)

lemma delay_read_mset: "mset (fst (delay_read B b xs) # snd (delay_read B b xs)) = mset (b # xs)"
  by (auto simp: delay_read_def dest!: take_overlapping_Some split: option.split)

lemma delay_read_read:
  "\<not> is_write (B (fst (delay_read B b xs))) \<Longrightarrow>
     \<forall>y \<in> set (snd (delay_read B b xs)). \<not> (is_write (B y) \<and> bio_overlap (B (fst (delay_read B b xs))) (B y))"
  by (auto simp: delay_read_def take_overlapping_None dest!: take_overlapping_Some split: option.splits if_splits)

text \<open>C21: Taking a request off the bio queue of the cow thread: on every well-formed non-empty queue
  it returns, hands out one of the queued requests and leaves a well-formed queue of all the
  others; a read is only handed out when no write that overlaps it is left in the queue, and
  the writes that overlap the request at the head keep their order.\<close>

theorem dequeue_delay_read_correct:
  assumes "holds l (b # xs)"
  shows "\<exists>t l' ys. bio_queue_dequeue_delay_read B l = Some (t, l') \<and> holds l' ys \<and> mset (t # ys) = mset (b # xs) \<and>
    (\<not> is_write (B t) \<longrightarrow> (\<forall>y \<in> set ys. \<not> (is_write (B y) \<and> bio_overlap (B t) (B y)))) \<and>
    filter (\<lambda>x. is_write (B x) \<and> bio_overlap (B b) (B x)) (t # ys) = filter (\<lambda>x. is_write (B x) \<and> bio_overlap (B b) (B x)) (b # xs)"
  using dequeue_delay_read_refines [OF assms, of B] delay_read_mset [of B b xs] delay_read_writes [of B b xs] delay_read_read [of B b xs]
  by (metis (no_types, lifting))

definition demo_bios :: "nat \<Rightarrow> bio_range" where
  "demo_bios i = (if i = 0 then \<lparr>is_write = False, r_sector = 0, r_size = 4096\<rparr>
     else if i = 1 then \<lparr>is_write = True, r_sector = 16, r_size = 8192\<rparr>
     else \<lparr>is_write = True, r_sector = 0, r_size = 12288\<rparr>)"

definition demo_links :: links where
  "demo_links = \<lparr>head = Some 0, tail = Some 2, next_of = (\<lambda>i. if i = 0 then Some 1 else if i = 1 then Some 2 else None)\<rparr>"

lemma demo_links_holds: "holds demo_links [0, 1, 2]"
  by (simp add: holds_def demo_links_def)

lemma demo_delay_read: "delay_read demo_bios 0 [1, 2] = (2, [1, 0])"
  by (simp add: delay_read_def demo_bios_def bio_overlap_def)

theorem dequeue_delay_read_correct_witness:
  "\<exists>l' ys. bio_queue_dequeue_delay_read demo_bios demo_links = Some (2, l') \<and> holds l' ys \<and> mset (2 # ys) = {#0, 1, 2#}"
  using dequeue_delay_read_correct [OF demo_links_holds, of demo_bios]
    dequeue_delay_read_refines [OF demo_links_holds, of demo_bios] demo_delay_read by auto

end
