(* ===== verification/Device.thy ===== *)
theory Device
  imports Cow_Data Queues
begin

text \<open>
  The state of the driver: bios, \<^verbatim>\<open>struct snap_device\<close>, the tables of the module and the
  block layer services it calls. Objects that the C code shares by pointer (devices, cow
  managers, tracing parameters and tracing operations) live in maps from addresses, so that
  sharing and dangling pointers are visible. Threads, bios and file handles of the kernel are
  values. As before \<^term>\<open>None\<close> is a fault.
\<close>

section \<open>Bios\<close>

text \<open>The operation codes of \<^verbatim>\<open>blk_types.h\<close> the driver distinguishes; odd codes are writes.\<close>

datatype req_op = REQ_OP_READ | REQ_OP_WRITE | REQ_OP_FLUSH | REQ_OP_DISCARD | REQ_OP_SECURE_ERASE | REQ_OP_WRITE_ZEROES

fun op_code :: "req_op \<Rightarrow> nat" where
  "op_code REQ_OP_READ = 0"
| "op_code REQ_OP_WRITE = 1"
| "op_code REQ_OP_FLUSH = 2"
| "op_code REQ_OP_DISCARD = 3"
| "op_code REQ_OP_SECURE_ERASE = 5"
| "op_code REQ_OP_WRITE_ZEROES = 9"

instantiation req_op :: linorder
begin

definition less_eq_req_op :: "req_op \<Rightarrow> req_op \<Rightarrow> bool" where
  "less_eq_req_op a b \<longleftrightarrow> op_code a \<le> op_code b"

definition less_req_op :: "req_op \<Rightarrow> req_op \<Rightarrow> bool" where
  "less_req_op a b \<longleftrightarrow> op_code a < op_code b"

lemma op_code_inj: "op_code a = op_code b \<longleftrightarrow> a = b"
  by (cases a; cases b) simp_all

instance
  by standard (auto simp: less_eq_req_op_def less_req_op_def op_code_inj [symmetric])

end

text \<open>A page as \<^verbatim>\<open>page_get_inode\<close> sees it (already its compound head), and a segment of a bio.\<close>

record page =
  pg_anon :: bool
  pg_mapping :: "nat option"
  pg_mapping_valid :: bool
  pg_host :: "nat option"
  pg_data :: buf

record bio_vec =
  bv_page :: "page option"
  bv_len :: nat
  bv_offset :: nat

record bio =
  bi_id :: nat
  bi_op :: req_op
  bi_passthrough :: bool
  bi_bdev :: nat
  bi_sector :: nat
  bi_size :: nat
  bi_idx :: nat
  bi_bvec_done :: nat
  bi_io_vec :: "bio_vec list"
  bi_private :: nat
  bi_end_io :: nat

definition bio_data_dir :: "bio \<Rightarrow> bool" where
  "bio_data_dir b \<longleftrightarrow> odd (op_code (bi_op b))"

definition bio_is_discard :: "bio \<Rightarrow> bool" where
  "bio_is_discard b \<longleftrightarrow> bi_op b = REQ_OP_DISCARD \<or> bi_op b = REQ_OP_SECURE_ERASE"

definition bio_sectors :: "bio \<Rightarrow> nat" where
  "bio_sectors b = bi_size b div 512"

definition range_of :: "bio \<Rightarrow> bio_range" where
  "range_of b = \<lparr>is_write = bio_data_dir b, r_sector = bi_sector b, r_size = bi_size b\<rparr>"

text \<open>The segments \<^verbatim>\<open>bio_for_each_segment\<close> visits: from the iterator on, as many bytes as the
  bio still has. \<^verbatim>\<open>bio_for_each_segment_all\<close> visits the whole vector.\<close>

fun take_segs :: "nat \<Rightarrow> bio_vec list \<Rightarrow> bio_vec list" where
  "take_segs n [] = []"
| "take_segs n (v # vs) =
     (if n = 0 then [] else if bv_len v \<le> n then v # take_segs (n - bv_len v) vs else [v\<lparr>bv_len := n\<rparr>])"

definition bio_segments :: "bio \<Rightarrow> bio_vec list" where
  "bio_segments b =
     take_segs (bi_size b)
       (case drop (bi_idx b) (bi_io_vec b) of
          [] \<Rightarrow> []
        | v # vs \<Rightarrow> v\<lparr>bv_offset := bv_offset v + bi_bvec_done b, bv_len := bv_len v - bi_bvec_done b\<rparr> # vs)"

definition page_get_inode :: "page option \<Rightarrow> nat option" where
  "page_get_inode pg =
     (case pg of
        None \<Rightarrow> None
      | Some p \<Rightarrow>
          if pg_anon p then None
          else if pg_mapping p = None then None
          else if \<not> pg_mapping_valid p then None
          else pg_host p)"

section \<open>Structures of the driver\<close>

record sector_set =
  ss_sect :: nat
  ss_len :: nat

record bio_sector_map =
  map_bio :: nat
  map_sect :: nat
  map_size :: nat

record tracing_params =
  tp_orig_bio :: bio
  tp_dev :: nat
  tp_refs :: int
  tp_sects :: "bio_sector_map list"

text \<open>A block device operations structure: one of the kernel's, or the copy inside a tracing
  operations structure. A make-request function is the kernel's, the \<^verbatim>\<open>blk-mq\<close> default
  (\<^verbatim>\<open>elastio_snap_null_mrf\<close>) or the driver's own \<^verbatim>\<open>tracing_mrf\<close>.\<close>

datatype fops = KernelOps nat | TracingOps nat
datatype mrf = OrigMrf nat | NullMrf | TracingMrf

record tracing_ops =
  to_bd_ops :: fops
  to_has_submit_bio :: bool
  to_refs :: int

definition SNAPSHOT :: nat where [simp]: "SNAPSHOT = 0"
definition ACTIVE :: nat where [simp]: "ACTIVE = 1"
definition UNVERIFIED :: nat where [simp]: "UNVERIFIED = 2"
definition COW_ON_BDEV :: nat where [simp]: "COW_ON_BDEV = 1"
definition READ_MODE_COW_FILE :: nat where [simp]: "READ_MODE_COW_FILE = 1"
definition READ_MODE_BASE_DEVICE :: nat where [simp]: "READ_MODE_BASE_DEVICE = 2"
definition READ_MODE_MIXED :: nat where [simp]: "READ_MODE_MIXED = 3"

text \<open>A kernel thread is created by \<^verbatim>\<open>kthread_create\<close> and runs once it has been woken. The first
  flag of the cow thread says which function it runs (\<^verbatim>\<open>snap_cow_thread\<close> or
  \<^verbatim>\<open>inc_sset_thread\<close>), the second is its local \<^verbatim>\<open>is_failed\<close>.\<close>

datatype thread = Created bool | Running bool bool

record snap_device = devio +
  sd_minor :: nat
  sd_state :: "64 word"
  sd_ignore_snap_errors :: bool
  sd_cow_state :: "64 word"
  sd_falloc_size :: nat
  sd_cache_size :: nat
  sd_bio_stats_total :: "req_op \<Rightarrow> nat"
  sd_bio_stats_traced :: "req_op \<Rightarrow> nat"
  sd_refs :: int
  sd_fail_code :: int
  sd_ignore_requests :: int
  sd_sect_off :: nat
  sd_size :: nat
  sd_queue :: bool
  sd_gd :: "(nat \<times> nat) option"
  sd_bdev_path :: "string option"
  sd_cow :: "nat option"
  sd_cow_path :: "string option"
  sd_orig_ops :: "fops option"
  sd_tracing_ops :: "nat option"
  sd_orig_mrf :: "mrf option"
  sd_cow_thread :: "thread option"
  sd_cow_bios :: "bio list"
  sd_mrf_thread :: bool
  sd_orig_bios :: "bio list"
  sd_pending_ssets :: "sector_set list"
  sd_bioset :: bool
  sd_submitted_cnt :: nat
  sd_received_cnt :: nat
  sd_processed_cnt :: nat
  sd_discard_dropped_cnt :: nat
  sd_discard_ignored_size :: nat

text \<open>The module: its device table (NULL before \<^verbatim>\<open>agent_init\<close>), the minor range, the objects on
  the heap, the operations each disk currently has, the module parameters and the rest of the
  machine.\<close>

record 'w drv =
  max_snap_devices :: nat
  snap_devices :: "nat option list option"
  lowest_minor :: nat
  highest_minor :: nat
  devs :: "nat \<Rightarrow> snap_device option"
  cows :: "nat \<Rightarrow> cow_manager option"
  tps :: "nat \<Rightarrow> tracing_params option"
  trops :: "nat \<Rightarrow> tracing_ops option"
  disk_fops :: "nat \<Rightarrow> fops"
  bd_has_submit_bio :: "nat \<Rightarrow> bool"
  cow_max_memory_default :: nat
  cow_fallocate_percentage_default :: nat
  cow_ext_buf_size :: nat
  fresh :: nat
  world :: 'w

section \<open>Kernel services of the upper layers\<close>

record 'w blk_kern = "'w kern" +
  submit_bio_wait :: "bio \<Rightarrow> 'w \<Rightarrow> int \<times> bio \<times> 'w"
  call_mrf :: "mrf \<Rightarrow> bio \<Rightarrow> 'w \<Rightarrow> int \<times> 'w"
  submit_bio_noacct :: "bio \<Rightarrow> 'w \<Rightarrow> int \<times> 'w"
  bio_endio :: "bio \<Rightarrow> int \<Rightarrow> 'w \<Rightarrow> 'w"
  bio_split_chain :: "bio \<Rightarrow> nat \<Rightarrow> 'w \<Rightarrow> bio \<times> bio \<times> 'w"
  queue_max_sectors :: "nat \<Rightarrow> nat"
  si_mem_available :: "'w \<Rightarrow> nat"
  totalram :: nat
  disk_of :: "nat \<Rightarrow> nat option"
  fops_submit_bio :: "nat \<Rightarrow> nat option"
  has_blk_mq_submit_bio :: bool

text \<open>Paths and files are numbers; a user space pointer is one too.\<close>

record 'w drv_kern = "'w blk_kern" +
  kern_path :: "string \<Rightarrow> 'w \<Rightarrow> int + nat"
  d_path :: "nat \<Rightarrow> 'w \<Rightarrow> int + string"
  dentry_path_raw :: "nat \<Rightarrow> 'w \<Rightarrow> int + string"
  f_path :: "nat \<Rightarrow> nat"
  strndup_user :: "nat \<Rightarrow> 'w \<Rightarrow> int + string"
  blkdev_get_by_path :: "string \<Rightarrow> 'w \<Rightarrow> (int + nat) \<times> 'w"
  blkdev_put :: "nat \<Rightarrow> 'w \<Rightarrow> 'w"
  bdev_is_partition :: "nat \<Rightarrow> bool"
  get_start_sect :: "nat \<Rightarrow> nat"
  bdev_size :: "nat \<Rightarrow> nat"
  get_capacity :: "nat \<Rightarrow> nat"
  get_super :: "nat \<Rightarrow> 'w \<Rightarrow> (nat \<times> bool) option"
  freeze_bdev :: "nat \<Rightarrow> 'w \<Rightarrow> int \<times> 'w"
  thaw_bdev :: "nat \<Rightarrow> 'w \<Rightarrow> 'w"
  mnt_sb :: "nat \<Rightarrow> nat"
  bioset_init :: "'w \<Rightarrow> int \<times> 'w"
  blk_alloc_disk :: "'w \<Rightarrow> bool \<times> 'w"
  add_disk :: "'w \<Rightarrow> int \<times> 'w"
  del_disk :: "'w \<Rightarrow> 'w"
  kthread_create :: "'w \<Rightarrow> int \<times> 'w"
  task_work_flush :: "'w \<Rightarrow> 'w"

section \<open>Access to devices\<close>

text \<open>A device fresh from \<^verbatim>\<open>kzalloc\<close>.\<close>

definition zero_dev :: snap_device where
  "zero_dev = \<lparr>sd_base_dev = None, sd_cow_inode = None, sd_cow_extents = None, sd_cow_ext_cnt = 0,
     sd_minor = 0, sd_state = 0, sd_ignore_snap_errors = False, sd_cow_state = 0, sd_falloc_size = 0, sd_cache_size = 0,
     sd_bio_stats_total = (\<lambda>_. 0), sd_bio_stats_traced = (\<lambda>_. 0), sd_refs = 0, sd_fail_code = 0, sd_ignore_requests = 0,
     sd_sect_off = 0, sd_size = 0, sd_queue = False, sd_gd = None, sd_bdev_path = None, sd_cow = None, sd_cow_path = None,
     sd_orig_ops = None, sd_tracing_ops = None, sd_orig_mrf = None, sd_cow_thread = None, sd_cow_bios = [],
     sd_mrf_thread = False, sd_orig_bios = [], sd_pending_ssets = [], sd_bioset = False, sd_submitted_cnt = 0,
     sd_received_cnt = 0, sd_processed_cnt = 0, sd_discard_dropped_cnt = 0, sd_discard_ignored_size = 0\<rparr>"

definition test_flag :: "nat \<Rightarrow> snap_device \<Rightarrow> bool" where
  "test_flag n dev \<longleftrightarrow> bit (sd_state dev) n"

definition on_bdev :: "snap_device \<Rightarrow> bool" where
  "on_bdev dev \<longleftrightarrow> bit (sd_cow_state dev) COW_ON_BDEV"

definition put_dev :: "nat \<Rightarrow> snap_device \<Rightarrow> 'w drv \<Rightarrow> 'w drv" where
  "put_dev a dev s = s\<lparr>devs := (devs s)(a \<mapsto> dev)\<rparr>"

definition put_cow :: "nat \<Rightarrow> cow_manager \<Rightarrow> 'w drv \<Rightarrow> 'w drv" where
  "put_cow c cm s = s\<lparr>cows := (cows s)(c \<mapsto> cm)\<rparr>"

text \<open>\<^verbatim>\<open>snap_devices[i]\<close>: reading a table that is not there or beyond its end is a fault.\<close>

definition table :: "'w drv \<Rightarrow> nat \<Rightarrow> nat option option" where
  "table s i = do { t \<leftarrow> snap_devices s; (if i < length t then Some (t ! i) else None) }"

definition set_table :: "nat \<Rightarrow> nat option \<Rightarrow> 'w drv \<Rightarrow> 'w drv option" where
  "set_table i p s = do { t \<leftarrow> snap_devices s; (if i < length t then Some (s\<lparr>snap_devices := Some (t[i := p])\<rparr>) else None) }"

text \<open>The minors \<^verbatim>\<open>tracer_for_each\<close> and \<^verbatim>\<open>tracer_for_each_full\<close> visit. Both macros also read
  the entry after the last one they visit, whose value is not used.\<close>

definition tracer_for_each :: "'w drv \<Rightarrow> nat list" where
  "tracer_for_each s = [lowest_minor s ..< Suc (highest_minor s)]"

definition tracer_for_each_full :: "'w drv \<Rightarrow> nat list" where
  "tracer_for_each_full s = [0 ..< max_snap_devices s]"

section \<open>The fail state\<close>

definition tracer_read_fail_state :: "snap_device \<Rightarrow> int" where
  "tracer_read_fail_state dev = sd_fail_code dev"

definition tracer_set_fail_state :: "snap_device \<Rightarrow> int \<Rightarrow> snap_device" where
  "tracer_set_fail_state dev error = (if sd_fail_code dev = 0 then dev\<lparr>sd_fail_code := error\<rparr> else dev)"

definition wrap_err_io :: "snap_device \<Rightarrow> int" where
  "wrap_err_io dev = (if \<not> sd_ignore_snap_errors dev then - EIO else 0)"

lemma fail_state_sticky: "sd_fail_code dev \<noteq> 0 \<Longrightarrow> tracer_set_fail_state dev e = dev"
  by (simp add: tracer_set_fail_state_def)

lemma fail_state_first: "e \<noteq> 0 \<Longrightarrow> sd_fail_code (tracer_set_fail_state dev e) \<noteq> 0"
  by (simp add: tracer_set_fail_state_def)

lemma op_write_simps [simp]:
  "bio_data_dir b = (bi_op b \<noteq> REQ_OP_READ \<and> bi_op b \<noteq> REQ_OP_FLUSH)"
  by (cases "bi_op b") (simp_all add: bio_data_dir_def)

end
