(* ===== verification/Snap_IO.thy ===== *)
theory Snap_IO
  imports Device
begin

text \<open>
  What the kernel threads of a device do with the requests queued for it (\<^verbatim>\<open>BIO / SECTOR_SET
  PROCESSING LOGIC\<close> of \<^verbatim>\<open>src/main.c\<close>): reads of the snapshot device are put together from
  the cow file and the base device, read clones of intercepted writes are stored in the cow
  file, and changed sector ranges are marked in the index. \<open>cdev\<close> is the device the cow
  manager points to, through which its file operations go.
\<close>

section \<open>Reading the snapshot\<close>

text \<open>The loop of \<^verbatim>\<open>snap_read_bio_get_mode\<close> over one segment. The answer is the return code, whether
  the mode is decided (mixed), the mode so far and the byte position reached.\<close>

function mode_of_segment :: "('w, 'k) kern_scheme \<Rightarrow> 'd devio_scheme \<Rightarrow> nat \<Rightarrow> nat \<Rightarrow> nat \<Rightarrow> nat \<Rightarrow> cow_manager \<Rightarrow> 'w
    \<Rightarrow> (int \<times> bool \<times> nat \<times> nat \<times> cow_manager \<times> 'w) option" where
  "mode_of_segment K cdev len bytes here mode cm w =
     (if bytes < len then
        let step = min (COW_BLOCK_SIZE - here mod COW_BLOCK_SIZE) (len - bytes) in do {
        (ret, m, cm1, w1) \<leftarrow> cow_read_mapping K cdev cm (here div COW_BLOCK_SIZE) w;
        (if ret \<noteq> 0 then Some (ret, False, mode, here, cm1, w1)
         else if mode = 0 then
           mode_of_segment K cdev len (bytes + step) (wrap64 (here + step))
             (if m \<noteq> 0 then READ_MODE_COW_FILE else READ_MODE_BASE_DEVICE) cm1 w1
         else if mode = READ_MODE_COW_FILE \<and> m = 0 \<or> mode = READ_MODE_BASE_DEVICE \<and> m \<noteq> 0 then
           Some (0, True, READ_MODE_MIXED, here, cm1, w1)
         else mode_of_segment K cdev len (bytes + step) (wrap64 (here + step)) mode cm1 w1) }
      else Some (0, False, mode, here, cm, w))"
  by pat_completeness auto
termination
  by (relation "measure (\<lambda>(K, cdev, len, bytes, here, mode, cm, w). len - bytes)") auto

declare mode_of_segment.simps [simp del]

fun mode_of_segments :: "('w, 'k) kern_scheme \<Rightarrow> 'd devio_scheme \<Rightarrow> bio_vec list \<Rightarrow> nat \<Rightarrow> nat \<Rightarrow> cow_manager \<Rightarrow> 'w
    \<Rightarrow> (int \<times> nat \<times> cow_manager \<times> 'w) option" where
  "mode_of_segments K cdev [] here mode cm w = Some (0, mode, cm, w)"
| "mode_of_segments K cdev (v # vs) here mode cm w = do {
     (ret, decided, mode1, here1, cm1, w1) \<leftarrow> mode_of_segment K cdev (bv_len v) 0 here mode cm w;
     (if ret \<noteq> 0 then Some (ret, mode1, cm1, w1)
      else if decided then Some (0, mode1, cm1, w1)
      else mode_of_segments K cdev vs here1 mode1 cm1 w1) }"

definition snap_read_bio_get_mode :: "('w, 'k) kern_scheme \<Rightarrow> 'd devio_scheme \<Rightarrow> bio \<Rightarrow> cow_manager \<Rightarrow> 'w
    \<Rightarrow> (int \<times> nat \<times> cow_manager \<times> 'w) option" where
  "snap_read_bio_get_mode K cdev b cm w =
     mode_of_segments K cdev (bio_segments b) (wrap64 (bi_sector b * SECTOR_SIZE)) 0 cm w"

text \<open>Filling one page of the bio: \<open>stop\<close> is the offset in the page after the segment, \<open>off\<close> the
  current offset. The answer holds the page and the sector reached.\<close>

function fill_segment :: "('w, 'k) kern_scheme \<Rightarrow> 'd devio_scheme \<Rightarrow> nat \<Rightarrow> nat \<Rightarrow> nat \<Rightarrow> buf \<Rightarrow> cow_manager \<Rightarrow> 'w
    \<Rightarrow> (int \<times> buf \<times> nat \<times> cow_manager \<times> 'w) option" where
  "fill_segment K cdev stop off sect data cm w =
     (if off < stop then
        let pos = wrap64 (sect * SECTOR_SIZE); block = pos div COW_BLOCK_SIZE; block_off = pos mod COW_BLOCK_SIZE;
            n = min (stop - off) (COW_BLOCK_SIZE - block_off) in do {
        (ret, m, cm1, w1) \<leftarrow> cow_read_mapping K cdev cm block w;
        (if ret \<noteq> 0 then Some (ret, data, sect, cm1, w1)
         else do {
           (ret, data1, w2) \<leftarrow> (if m \<noteq> 0 then cow_read_data K cdev cm1 data off m block_off n w1 else Some (0, data, w1));
           (if ret \<noteq> 0 then Some (ret, data1, sect, cm1, w2)
            else fill_segment K cdev stop (off + n) (sect + n div SECTOR_SIZE) data1 cm1 w2) }) }
      else Some (0, data, sect, cm, w))"
  by pat_completeness auto
termination
  by (relation "measure (\<lambda>(K, cdev, stop, off, sect, data, cm, w). stop - off)") auto

declare fill_segment.simps [simp del]

fun fill_segments :: "('w, 'k) kern_scheme \<Rightarrow> 'd devio_scheme \<Rightarrow> bio_vec list \<Rightarrow> nat \<Rightarrow> cow_manager \<Rightarrow> 'w
    \<Rightarrow> (int \<times> bio_vec list \<times> cow_manager \<times> 'w) option" where
  "fill_segments K cdev [] sect cm w = Some (0, [], cm, w)"
| "fill_segments K cdev (v # vs) sect cm w = do {
     pg \<leftarrow> bv_page v;
     (ret, data, sect1, cm1, w1) \<leftarrow> fill_segment K cdev (bv_offset v + bv_len v) (bv_offset v) sect (pg_data pg) cm w;
     (let v1 = v\<lparr>bv_page := Some (pg\<lparr>pg_data := data\<rparr>)\<rparr> in
      if ret \<noteq> 0 then Some (ret, v1 # vs, cm1, w1)
      else do {
        (ret, vs1, cm2, w2) \<leftarrow> fill_segments K cdev vs sect1 cm1 w1;
        Some (ret, v1 # vs1, cm2, w2) }) }"

definition snap_handle_read_bio :: "('w, 'k) blk_kern_scheme \<Rightarrow> 'd devio_scheme \<Rightarrow> snap_device \<Rightarrow> bio \<Rightarrow> cow_manager \<Rightarrow> 'w
    \<Rightarrow> (int \<times> bio \<times> cow_manager \<times> 'w) option" where
  "snap_handle_read_bio K cdev dev b cm w =
     (let restore = (\<lambda>x. x\<lparr>bi_private := bi_private b, bi_end_io := bi_end_io b\<rparr>);
          reset = (\<lambda>x. x\<lparr>bi_idx := bi_idx b, bi_size := bi_size b, bi_sector := bi_sector b\<rparr>);
          fail = (\<lambda>ret x cm w. Some (ret, restore (reset x), cm, w)) in
      do {
        base \<leftarrow> sd_base_dev dev;
        (let b1 = b\<lparr>bi_bdev := base, bi_op := REQ_OP_READ, bi_passthrough := False\<rparr> in do {
          (ret, mode, cm1, w1) \<leftarrow> snap_read_bio_get_mode K cdev b1 cm w;
          (if ret \<noteq> 0 then fail ret b1 cm1 w1
           else (case (if mode \<noteq> READ_MODE_COW_FILE then submit_bio_wait K b1 w1 else (0, b1, w1)) of (ret, b2, w2) \<Rightarrow>
             if ret \<noteq> 0 then fail ret b2 cm1 w2
             else if mode \<noteq> READ_MODE_BASE_DEVICE then do {
               (ret, vs, cm2, w3) \<leftarrow> fill_segments K cdev (bi_io_vec b2) (bi_sector b) cm1 w2;
               (let b3 = (reset b2)\<lparr>bi_io_vec := vs\<rparr> in
                if ret \<noteq> 0 then fail ret b3 cm2 w3 else Some (0, restore b3, cm2, w3)) }
             else Some (0, restore b2, cm1, w2))) }) })"

section \<open>Storing a read clone\<close>

text \<open>The mapped page is passed for every block of the segment.\<close>

fun save_segments :: "('w, 'k) kern_scheme \<Rightarrow> 'd devio_scheme \<Rightarrow> bio_vec list \<Rightarrow> nat \<Rightarrow> cow_manager \<times> 'w
    \<Rightarrow> (int \<times> cow_manager \<times> 'w) option" where
  "save_segments K cdev [] block s = Some (0, s)"
| "save_segments K cdev (v # vs) block s = do {
     pg \<leftarrow> bv_page v;
     (let stop = block + bv_len v div COW_BLOCK_SIZE in do {
       (ret, s1) \<leftarrow> for_each (\<lambda>p (cm, w). cow_write_current K cdev cm p (pg_data pg) w) [block ..< stop] s;
       (if ret \<noteq> 0 then Some (ret, s1) else save_segments K cdev vs stop s1) }) }"

definition snap_handle_write_bio :: "('w, 'k) kern_scheme \<Rightarrow> 'd devio_scheme \<Rightarrow> bio \<Rightarrow> cow_manager \<Rightarrow> 'w
    \<Rightarrow> (int \<times> cow_manager \<times> 'w) option" where
  "snap_handle_write_bio K cdev b cm w = save_segments K cdev (bi_io_vec b) (SECTOR_TO_BLOCK (bi_sector b)) (cm, w)"

section \<open>Marking changed sectors\<close>

definition inc_handle_sset :: "('w, 'k) kern_scheme \<Rightarrow> 'd devio_scheme \<Rightarrow> sector_set \<Rightarrow> cow_manager \<Rightarrow> 'w
    \<Rightarrow> (int \<times> cow_manager \<times> 'w) option" where
  "inc_handle_sset K cdev ss cm w =
     for_each (\<lambda>p (cm, w). cow_write_filler_mapping K cdev cm p w)
       [SECTOR_TO_BLOCK (ss_sect ss) ..< NUM_SEGMENTS (wrap64 (ss_sect ss + ss_len ss)) (COW_BLOCK_LOG_SIZE - 9)] (cm, w)"

section \<open>The threads\<close>

text \<open>\<^verbatim>\<open>dev->sd_cow\<close> and the device its manager points to.\<close>

definition cow_of :: "'w drv \<Rightarrow> snap_device \<Rightarrow> (nat \<times> cow_manager \<times> snap_device) option" where
  "cow_of s dev = do { c \<leftarrow> sd_cow dev; cm \<leftarrow> cows s c; cdev \<leftarrow> devs s (cm_dev cm); Some (c, cm, cdev) }"

text \<open>The first thing a thread does after an error was recorded: the manager's memory and file go.\<close>

definition thread_check_failed :: "('w, 'k) blk_kern_scheme \<Rightarrow> nat \<Rightarrow> bool \<Rightarrow> 'w drv \<Rightarrow> (bool \<times> 'w drv) option" where
  "thread_check_failed K a is_failed s = do {
     dev \<leftarrow> devs s a;
     (if \<not> is_failed \<and> tracer_read_fail_state dev \<noteq> 0 then
        (case sd_cow dev of
           None \<Rightarrow> Some (True, s)
         | Some c \<Rightarrow> do {
             cm \<leftarrow> cows s c;
             (case cow_free_members K cm (world s) of (cm1, w1) \<Rightarrow> Some (True, put_cow c cm1 (s\<lparr>world := w1\<rparr>))) })
      else Some (is_failed, s)) }"

definition snap_cow_thread_step :: "('w, 'k) blk_kern_scheme \<Rightarrow> nat \<Rightarrow> bool \<Rightarrow> 'w drv \<Rightarrow> (bool \<times> 'w drv) option" where
  "snap_cow_thread_step K a is_failed0 s0 = do {
     (is_failed, s) \<leftarrow> thread_check_failed K a is_failed0 s0;
     dev0 \<leftarrow> devs s a;
     (case sd_cow_bios dev0 of
        [] \<Rightarrow> Some (is_failed, s)
      | b0 # bs \<Rightarrow>
          (case delay_read range_of b0 bs of (b, rest) \<Rightarrow>
           let dev = dev0\<lparr>sd_cow_bios := rest\<rparr>; s1 = put_dev a dev s in
           if \<not> bio_data_dir b then
             (if is_failed then Some (is_failed, s1\<lparr>world := bio_endio K b (wrap_err_io dev) (world s1)\<rparr>)
              else do {
                (c, cm, cdev) \<leftarrow> cow_of s1 dev;
                (ret, b1, cm1, w1) \<leftarrow> snap_handle_read_bio K cdev dev b cm (world s1);
                (let dev1 = (if ret \<noteq> 0 then tracer_set_fail_state dev ret else dev);
                     w2 = bio_endio K b1 (if ret \<noteq> 0 then wrap_err_io dev1 else 0) w1 in
                 Some (is_failed, put_dev a dev1 (put_cow c cm1 (s1\<lparr>world := w2\<rparr>)))) })
           else if is_failed then
             Some (is_failed, put_dev a (dev\<lparr>sd_processed_cnt := Suc (sd_processed_cnt dev)\<rparr>) s1)
           else if \<not> sd_ignore_snap_errors dev \<or> tracer_read_fail_state dev = 0 then do {
             (c, cm, cdev) \<leftarrow> cow_of s1 dev;
             (ret, cm1, w1) \<leftarrow> snap_handle_write_bio K cdev b cm (world s1);
             (let dev1 = (if ret \<noteq> 0 then tracer_set_fail_state dev ret else dev) in
              Some (is_failed, put_dev a (dev1\<lparr>sd_processed_cnt := Suc (sd_processed_cnt dev1)\<rparr>)
                                 (put_cow c cm1 (s1\<lparr>world := w1\<rparr>)))) }
           else Some (is_failed, put_dev a (dev\<lparr>sd_processed_cnt := Suc (sd_processed_cnt dev)\<rparr>) s1))) }"

text \<open>\<open>n\<close> rounds of the loop; as many rounds as the queue has requests empty it.\<close>

fun snap_cow_thread :: "('w, 'k) blk_kern_scheme \<Rightarrow> nat \<Rightarrow> nat \<Rightarrow> bool \<Rightarrow> 'w drv \<Rightarrow> (bool \<times> 'w drv) option" where
  "snap_cow_thread K a 0 is_failed s = Some (is_failed, s)"
| "snap_cow_thread K a (Suc n) is_failed s = do {
     (is_failed1, s1) \<leftarrow> snap_cow_thread_step K a is_failed s;
     snap_cow_thread K a n is_failed1 s1 }"

definition inc_sset_thread_step :: "('w, 'k) blk_kern_scheme \<Rightarrow> nat \<Rightarrow> bool \<Rightarrow> 'w drv \<Rightarrow> (bool \<times> 'w drv) option" where
  "inc_sset_thread_step K a is_failed0 s0 = do {
     (is_failed, s) \<leftarrow> thread_check_failed K a is_failed0 s0;
     dev0 \<leftarrow> devs s a;
     (case sd_pending_ssets dev0 of
        [] \<Rightarrow> Some (is_failed, s)
      | ss # rest \<Rightarrow>
          (let dev = dev0\<lparr>sd_pending_ssets := rest\<rparr>; s1 = put_dev a dev s in
           if is_failed then Some (is_failed, s1)
           else do {
             (c, cm, cdev) \<leftarrow> cow_of s1 dev;
             (ret, cm1, w1) \<leftarrow> inc_handle_sset K cdev ss cm (world s1);
             (let dev1 = (if ret \<noteq> 0 then tracer_set_fail_state dev ret else dev) in
              Some (is_failed, put_dev a dev1 (put_cow c cm1 (s1\<lparr>world := w1\<rparr>)))) })) }"

fun inc_sset_thread :: "('w, 'k) blk_kern_scheme \<Rightarrow> nat \<Rightarrow> nat \<Rightarrow> bool \<Rightarrow> 'w drv \<Rightarrow> (bool \<times> 'w drv) option" where
  "inc_sset_thread K a 0 is_failed s = Some (is_failed, s)"
| "inc_sset_thread K a (Suc n) is_failed s = do {
     (is_failed1, s1) \<leftarrow> inc_sset_thread_step K a is_failed s;
     inc_sset_thread K a n is_failed1 s1 }"

text \<open>A released write goes back to the block layer marked as already seen; a NULL
  \<^verbatim>\<open>sd_orig_mrf\<close> would be called.\<close>

definition snap_mrf_thread_step :: "('w, 'k) blk_kern_scheme \<Rightarrow> nat \<Rightarrow> 'w drv \<Rightarrow> 'w drv option" where
  "snap_mrf_thread_step K a s = do {
     dev \<leftarrow> devs s a;
     (case sd_orig_bios dev of
        [] \<Rightarrow> Some s
      | b # rest \<Rightarrow> do {
          mrf \<leftarrow> sd_orig_mrf dev;
          (case call_mrf K mrf (b\<lparr>bi_passthrough := True\<rparr>) (world s) of (ret, w1) \<Rightarrow>
             Some (put_dev a (dev\<lparr>sd_orig_bios := rest\<rparr>) (s\<lparr>world := w1\<rparr>))) }) }"

fun snap_mrf_thread :: "('w, 'k) blk_kern_scheme \<Rightarrow> nat \<Rightarrow> nat \<Rightarrow> 'w drv \<Rightarrow> 'w drv option" where
  "snap_mrf_thread K a 0 s = Some s"
| "snap_mrf_thread K a (Suc n) s = do { s1 \<leftarrow> snap_mrf_thread_step K a s; snap_mrf_thread K a n s1 }"

end
