(* ===== verification/Machine.thy ===== *)
theory Machine
  imports Device
begin

text \<open>
  The machine \<open>ram_kern\<close> with the services of the upper layers: files and block devices are
  byte arrays, every request succeeds. It instantiates the parameters of the model in
  concrete runs; nothing is proved about real kernels from it.
\<close>

text \<open>A read fills the pages of the bio and leaves its iterator at the end, as the block layer does.\<close>

fun ram_fill :: "buf \<Rightarrow> nat \<Rightarrow> bio_vec list \<Rightarrow> bio_vec list" where
  "ram_fill d a [] = []"
| "ram_fill d a (v # vs) =
     v\<lparr>bv_page := map_option (\<lambda>pg. pg\<lparr>pg_data :=
         (\<lambda>i. if bv_offset v \<le> i \<and> i < bv_offset v + bv_len v then d (a + (i - bv_offset v)) else pg_data pg i)\<rparr>) (bv_page v)\<rparr>
     # ram_fill d (a + bv_len v) vs"

definition ram_read_bio :: "bio \<Rightarrow> ram \<Rightarrow> int \<times> bio \<times> ram" where
  "ram_read_bio b w =
     (0, b\<lparr>bi_io_vec := ram_fill (w (bi_bdev b)) (512 * bi_sector b) (bi_io_vec b),
           bi_sector := bi_sector b + bio_sectors b, bi_size := 0, bi_private := 0, bi_end_io := 0\<rparr>, w)"

definition ram_split :: "bio \<Rightarrow> nat \<Rightarrow> ram \<Rightarrow> bio \<times> bio \<times> ram" where
  "ram_split b n w =
     (b\<lparr>bi_size := 512 * n\<rparr>, b\<lparr>bi_sector := bi_sector b + n, bi_size := bi_size b - 512 * n\<rparr>, w)"

definition ram_blk :: "ram blk_kern" where
  "ram_blk = kern.extend ram_kern
     (blk_kern.fields ram_read_bio (\<lambda>m b w. (0, w)) (\<lambda>b w. (0, w)) (\<lambda>b r w. w) ram_split
        (\<lambda>d. 2560) (\<lambda>w. 1000) 2000 (\<lambda>d. Some d) (\<lambda>n. Some n) True)"

lemma ram_blk_simps [simp]:
  "kmalloc ram_blk n w = (Some (\<lambda>_. 0), w)"
  "kernel_read ram_blk = kernel_read ram_kern" "kernel_write ram_blk = kernel_write ram_kern"
  "submit_bio_wait ram_blk = ram_read_bio" "call_mrf ram_blk m b w = (0, w)" "submit_bio_noacct ram_blk b w = (0, w)"
  "bio_endio ram_blk b r w = w" "bio_split_chain ram_blk = ram_split" "queue_max_sectors ram_blk q = 2560"
  "disk_of ram_blk q = Some q" "bio_alloc ram_blk w = (True, w)" "bio_add_page ram_blk n w = n"
  "filp_close ram_blk f w = w" "si_mem_available ram_blk w = 1000" "totalram ram_blk = 2000"
  by (simp_all add: ram_blk_def kern.defs blk_kern.defs ram_kern_def)

lemma ram_blk_file_laws: "file_laws ram_blk (\<lambda>w. w)"
  using ram_kern_file_laws
  by (simp add: file_laws_def read_law_def write_law_def alloc_law_def)

text \<open>The same machine with a disk: a write handed to the block layer reaches device 2.\<close>

fun vec_bytes :: "bio_vec list \<Rightarrow> buf" where
  "vec_bytes [] i = 0"
| "vec_bytes (v # vs) i =
     (if i < bv_len v then (case bv_page v of Some pg \<Rightarrow> pg_data pg (bv_offset v + i) | None \<Rightarrow> 0) else vec_bytes vs (i - bv_len v))"

definition disk_write :: "bio \<Rightarrow> ram \<Rightarrow> ram" where
  "disk_write b w = (if bio_data_dir b then ram_write 2 (vec_bytes (bi_io_vec b)) (512 * bi_sector b) (512 * bio_sectors b) w else w)"

definition disk_blk :: "ram blk_kern" where
  "disk_blk = ram_blk\<lparr>call_mrf := (\<lambda>m b w. (0, disk_write b w))\<rparr>"

lemma disk_blk_simps [simp]:
  "kmalloc disk_blk = kmalloc ram_blk" "kernel_read disk_blk = kernel_read ram_blk" "kernel_write disk_blk = kernel_write ram_blk"
  "bio_alloc disk_blk = bio_alloc ram_blk" "bio_add_page disk_blk = bio_add_page ram_blk" "submit_bio_wait disk_blk = ram_read_bio"
  "call_mrf disk_blk m b w = (0, disk_write b w)" "submit_bio_noacct disk_blk b w = (0, w)" "bio_endio disk_blk b r w = w"
  "queue_max_sectors disk_blk q = 2560" "si_mem_available disk_blk w = 1000" "totalram disk_blk = 2000"
  by (simp_all add: disk_blk_def)

lemma not_starved [simp]: "\<not> starved ram_blk n" "\<not> starved disk_blk n"
  by (simp_all add: starved_def ram_kern_def)

lemma disk_blk_file_laws: "file_laws disk_blk (\<lambda>w. w)"
  using ram_blk_file_laws by (simp add: file_laws_def read_law_def write_law_def alloc_law_def)

text \<open>Paths lead to file 1, block devices to device 2.\<close>

definition ram_drv :: "ram drv_kern" where
  "ram_drv = blk_kern.extend ram_blk
     (drv_kern.fields (\<lambda>p w. Inr 1) (\<lambda>n w. Inr ''/cow'') (\<lambda>n w. Inr ''cow'') (\<lambda>f. f) (\<lambda>p w. Inr ''/dev/sda'')
        (\<lambda>p w. (Inr 2, w)) (\<lambda>d w. w) (\<lambda>d. False) (\<lambda>d. 0) (\<lambda>d. 8192) (\<lambda>d. 8192)
        (\<lambda>d w. Some (1, False)) (\<lambda>d w. (0, w)) (\<lambda>d w. w) (\<lambda>f. 1)
        (\<lambda>w. (0, w)) (\<lambda>w. (True, w)) (\<lambda>w. (0, w)) (\<lambda>w. w) (\<lambda>w. (0, w)) (\<lambda>w. w))"

lemmas ram_drv_defs = ram_drv_def ram_blk_def ram_kern_def kern.defs blk_kern.defs drv_kern.defs

section \<open>A device with one saved block\<close>

text \<open>Block 5 of base device 2 is saved in block 9 of file 1, which is filled with 7; the base
  device is filled with 1.\<close>

definition demo_snap :: snap_device where
  "demo_snap = zero_dev\<lparr>sd_base_dev := Some 2, sd_cow_inode := Some 1, sd_cow := Some 50, sd_size := 8192,
     sd_state := set_bit ACTIVE (set_bit SNAPSHOT 0), sd_orig_mrf := Some NullMrf\<rparr>"

definition ram1 :: ram where
  "ram1 = (\<lambda>f i. if f = 2 then 1 else if f = 1 \<and> 36864 \<le> i then 7 else 0)"

definition demo_page :: page where
  "demo_page = \<lparr>pg_anon = False, pg_mapping = Some 1, pg_mapping_valid = True, pg_host = Some 4, pg_data = (\<lambda>_. 0)\<rparr>"

definition demo_bio :: "nat \<Rightarrow> req_op \<Rightarrow> nat \<Rightarrow> bio" where
  "demo_bio i op sect = \<lparr>bi_id = i, bi_op = op, bi_passthrough = False, bi_bdev = 3, bi_sector = sect, bi_size = 4096, bi_idx = 0,
     bi_bvec_done = 0, bi_io_vec = [\<lparr>bv_page = Some demo_page, bv_len = 4096, bv_offset = 0\<rparr>], bi_private = 8, bi_end_io = 9\<rparr>"

definition demo_used :: "nat \<Rightarrow> cow_manager" where
  "demo_used u = demo_saved_cm\<lparr>sects := [\<lparr>has_data = True, usage = u, mappings = Some ((\<lambda>_. 0)(5 := 9))\<rparr>]\<rparr>"

lemma demo_saved_used: "demo_saved_cm = demo_used 0"
  by (simp add: demo_used_def demo_saved_cm_def)

lemma demo_lookup:
  "p < 4096 \<Longrightarrow> u < 1000 \<Longrightarrow> cow_read_mapping K dev (demo_used u) p w = Some (0, if p = 5 then 9 else 0, demo_used (Suc u), w)"
  by (simp add: cow_read_mapping_def demo_used_def demo_saved_cm_def demo_cm_def sect_at_def set_sect_def)

lemma demo_fetch:
  "block_off + n \<le> 4096 \<Longrightarrow> 0 < n \<Longrightarrow>
     cow_read_data ram_blk dev (demo_used u) b off 9 block_off n w = Some (0, splice b off n (\<lambda>i. w 1 (36864 + (block_off + i))), w)"
  by (simp add: cow_read_data_def demo_used_def demo_saved_cm_def demo_cm_def file_read_open [where f = 1] ram_kern_def)

text \<open>A driver with one device, at address 0 and minor 0.\<close>

definition demo_drv :: "snap_device \<Rightarrow> cow_manager \<Rightarrow> ram \<Rightarrow> ram drv" where
  "demo_drv dev cm w = \<lparr>max_snap_devices = 4, snap_devices = Some [Some 0, None, None, None], lowest_minor = 0, highest_minor = 0,
     devs = (\<lambda>_. None)(0 := Some dev), cows = (\<lambda>_. None)(50 := Some cm), tps = (\<lambda>_. None), trops = (\<lambda>_. None),
     disk_fops = (\<lambda>d. KernelOps d), bd_has_submit_bio = (\<lambda>_. False), cow_max_memory_default = 314572800,
     cow_fallocate_percentage_default = 10, cow_ext_buf_size = 4096, fresh = 100, world = w\<rparr>"

end
