(* ===== verification/Snap_Read.thy ===== *)
theory Snap_Read
  imports Snap_IO Machine
begin

text \<open>
  What the threads of a snapshot device guarantee for the data: a read of the snapshot is put
  together from saved blocks and the base device (\<^verbatim>\<open>snap_handle_read_bio\<close>), a read clone is
  stored block by block (\<^verbatim>\<open>snap_handle_write_bio\<close>), a sector set marks the blocks it touches
  (\<^verbatim>\<open>inc_handle_sset\<close>), and each thread empties its queue.
\<close>

section \<open>Cache steps keep the store\<close>

text \<open>A step of the block cache under the invariant of the store, in one fact.\<close>

definition quiet :: "('w \<Rightarrow> nat \<Rightarrow> buf) \<Rightarrow> cow_manager \<Rightarrow> 'w \<Rightarrow> cow_manager \<Rightarrow> 'w \<Rightarrow> bool" where
  "quiet fd cm w cm' w' \<longleftrightarrow> data_ok fd cm' w' \<and> saved fd cm' w' = saved fd cm w \<and>
     same_outside_index fd cm w w' \<and> cow_file cm' = cow_file cm \<and> data_offset cm' = data_offset cm \<and>
     total_sects cm' = total_sects cm \<and> cm_dev cm' = cm_dev cm"

lemma quiet_refl: "data_ok fd cm w \<Longrightarrow> quiet fd cm w cm w"
  by (simp add: quiet_def)

lemma quiet_trans: "quiet fd a u b v \<Longrightarrow> quiet fd b v c x \<Longrightarrow> quiet fd a u c x"
  by (auto simp: quiet_def same_outside_index_def)

lemma quiet_cache_step: "data_ok fd cm w \<Longrightarrow> cache_step fd cm w cm' w' \<Longrightarrow> quiet fd cm w cm' w'"
  using saved_cache_step [of fd cm w cm' w']
  by (auto simp: quiet_def cache_step_def cow_file_def dest: same_but_sects_fields)

lemma store_same_files:
  assumes "fd w' = fd w"
  shows "mapping_view fd cm w' = mapping_view fd cm w" "saved fd cm w' = saved fd cm w" "data_ok fd cm w' = data_ok fd cm w"
proof -
  have "cow_bytes fd cm w' = cow_bytes fd cm w" using assms by (simp add: cow_bytes_def)
  then show v: "mapping_view fd cm w' = mapping_view fd cm w" by (intro ext) (simp add: mapping_view_def)
  with \<open>cow_bytes fd cm w' = _\<close> show "saved fd cm w' = saved fd cm w" by (intro ext) (simp add: saved_def Let_def)
  from v show "data_ok fd cm w' = data_ok fd cm w" by (simp add: data_ok_def)
qed

lemma quiet_same_files:
  assumes "data_ok fd cm w" "fd w' = fd w"
  shows "quiet fd cm w cm w'"
  using assms(1) store_same_files [OF assms(2), of cm] same_outside_index_eq [OF assms(2)] by (simp add: quiet_def)

text \<open>A lookup, in terms of the store.\<close>

lemma lookup_quiet:
  assumes "file_laws K fd" "data_ok fd cm w" "p < 4096 * total_sects cm"
  shows "\<exists>r v cm' w'. cow_read_mapping K dev cm p w = Some (r, v, cm', w') \<and> quiet fd cm w cm' w' \<and>
     (r = 0 \<longrightarrow> v = mapping_view fd cm' w' p \<and> (v \<noteq> 0 \<longleftrightarrow> saved fd cm w p \<noteq> None))"
proof -
  obtain r v cm' w' where rd: "cow_read_mapping K dev cm p w = Some (r, v, cm', w')"
    and st: "cache_step fd cm w cm' w'" and v: "r = 0 \<longrightarrow> v = mapping_view fd cm w p"
    using cow_read_mapping_spec [OF assms(1) data_okD(1) [OF assms(2)] assms(3), of dev w] by blast
  from st have "mapping_view fd cm' w' = mapping_view fd cm w" by (simp add: cache_step_def)
  with rd v quiet_cache_step [OF assms(2) st] show ?thesis by (auto simp: saved_def Let_def)
qed

section \<open>The read mode\<close>

text \<open>What a mode says of the bytes \<open>lo\<close> to \<open>hi\<close> looked at so far.\<close>

definition all_in :: "(nat \<Rightarrow> bool) \<Rightarrow> nat \<Rightarrow> nat \<Rightarrow> bool" where
  "all_in P lo hi \<longleftrightarrow> (\<forall>p. lo \<le> p \<and> p < hi \<longrightarrow> P (p div 4096))"

definition some_in :: "(nat \<Rightarrow> bool) \<Rightarrow> nat \<Rightarrow> nat \<Rightarrow> bool" where
  "some_in P lo hi \<longleftrightarrow> (\<exists>p. lo \<le> p \<and> p < hi \<and> P (p div 4096))"

abbreviation mapped :: "(nat \<Rightarrow> byte list option) \<Rightarrow> nat \<Rightarrow> bool" where
  "mapped S \<equiv> \<lambda>q. S q \<noteq> None"

abbreviation unmapped :: "(nat \<Rightarrow> byte list option) \<Rightarrow> nat \<Rightarrow> bool" where
  "unmapped S \<equiv> \<lambda>q. S q = None"

definition mode_ok :: "(nat \<Rightarrow> byte list option) \<Rightarrow> nat \<Rightarrow> nat \<Rightarrow> nat \<Rightarrow> bool" where
  "mode_ok S lo hi mode \<longleftrightarrow>
     mode = 0 \<and> hi = lo \<or>
     mode = READ_MODE_COW_FILE \<and> lo < hi \<and> all_in (mapped S) lo hi \<or>
     mode = READ_MODE_BASE_DEVICE \<and> lo < hi \<and> all_in (unmapped S) lo hi"

definition mixed :: "(nat \<Rightarrow> byte list option) \<Rightarrow> nat \<Rightarrow> nat \<Rightarrow> bool" where
  "mixed S lo hi \<longleftrightarrow> some_in (mapped S) lo hi \<and> some_in (unmapped S) lo hi"

lemma some_in_mono: "some_in P lo hi \<Longrightarrow> hi \<le> hi' \<Longrightarrow> some_in P lo hi'"
  unfolding some_in_def by (meson less_le_trans)

lemma mixed_mono: "mixed S lo hi \<Longrightarrow> hi \<le> hi' \<Longrightarrow> mixed S lo hi'"
  by (auto simp: mixed_def intro: some_in_mono)

lemma all_in_empty: "all_in P lo lo"
  by (auto simp: all_in_def)

lemma all_in_some: "all_in P lo hi \<Longrightarrow> lo < hi \<Longrightarrow> some_in P lo hi"
  unfolding all_in_def some_in_def by blast

lemma some_in_here: "P (here div 4096) \<Longrightarrow> lo \<le> here \<Longrightarrow> 0 < step \<Longrightarrow> some_in P lo (here + step)"
  unfolding some_in_def by (intro exI [of _ here]) simp

text \<open>All bytes of one step lie in one block.\<close>

lemma step_block:
  fixes here :: nat
  assumes "here \<le> p" "p < here + step" "step \<le> 4096 - here mod 4096"
  shows "p div 4096 = here div 4096"
proof -
  have "p < 4096 * (here div 4096) + 4096" using assms mult_div_mod_eq [of 4096 here] by linarith
  moreover have "4096 * (here div 4096) \<le> p" using assms(1) mult_div_mod_eq [of 4096 here] by linarith
  ultimately show ?thesis by (intro div_nat_eqI) auto
qed

lemma all_in_step:
  assumes "all_in P lo here" "P (here div 4096)" "step \<le> 4096 - here mod 4096"
  shows "all_in P lo (here + step)"
  unfolding all_in_def
proof (intro allI impI)
  fix p assume "lo \<le> p \<and> p < here + step"
  then show "P (p div 4096)"
    using assms step_block [of here p step] by (cases "p < here") (auto simp: all_in_def)
qed

lemma mode_ok_step:
  assumes "mode_ok S lo here mode" "0 < step" "step \<le> 4096 - here mod 4096" "lo \<le> here"
  shows "mode = 0 \<Longrightarrow> mode_ok S lo (here + step) (if S (here div 4096) \<noteq> None then READ_MODE_COW_FILE else READ_MODE_BASE_DEVICE)"
    and "mode = READ_MODE_COW_FILE \<Longrightarrow> S (here div 4096) \<noteq> None \<Longrightarrow> mode_ok S lo (here + step) mode"
    and "mode = READ_MODE_BASE_DEVICE \<Longrightarrow> S (here div 4096) = None \<Longrightarrow> mode_ok S lo (here + step) mode"
    and "mode = READ_MODE_COW_FILE \<Longrightarrow> S (here div 4096) = None \<Longrightarrow> mixed S lo (here + step)"
    and "mode = READ_MODE_BASE_DEVICE \<Longrightarrow> S (here div 4096) \<noteq> None \<Longrightarrow> mixed S lo (here + step)"
proof -
  show "mode_ok S lo (here + step) (if S (here div 4096) \<noteq> None then READ_MODE_COW_FILE else READ_MODE_BASE_DEVICE)" if "mode = 0"
    using that assms all_in_step [OF all_in_empty [of _ here] _ assms(3)] by (simp add: mode_ok_def)
  show "mode_ok S lo (here + step) mode" if "mode = READ_MODE_COW_FILE" "S (here div 4096) \<noteq> None"
    using that assms(1,2) all_in_step [of "mapped S", OF _ that(2) assms(3)] by (simp add: mode_ok_def)
  show "mode_ok S lo (here + step) mode" if "mode = READ_MODE_BASE_DEVICE" "S (here div 4096) = None"
    using that assms(1,2) all_in_step [of "unmapped S", OF _ that(2) assms(3)] by (simp add: mode_ok_def)
  show "mixed S lo (here + step)" if "mode = READ_MODE_COW_FILE" "S (here div 4096) = None"
  proof -
    have "some_in (mapped S) lo here" using that(1) assms(1) by (auto simp: mode_ok_def intro: all_in_some)
    with some_in_here [of "unmapped S", OF that(2) assms(4,2)] show ?thesis
      by (auto simp: mixed_def intro: some_in_mono)
  qed
  show "mixed S lo (here + step)" if "mode = READ_MODE_BASE_DEVICE" "S (here div 4096) \<noteq> None"
  proof -
    have "some_in (unmapped S) lo here" using that(1) assms(1) by (auto simp: mode_ok_def intro: all_in_some)
    with some_in_here [of "mapped S", OF that(2) assms(4,2)] show ?thesis
      by (auto simp: mixed_def intro: some_in_mono)
  qed
qed

lemma mode_of_segment_spec:
  assumes laws: "file_laws K fd" and "data_ok fd cm w" "saved fd cm w = S" "bytes \<le> len" "lo \<le> here" "mode_ok S lo here mode"
    and "here + (len - bytes) \<le> 4096 * (4096 * total_sects cm)" "here + (len - bytes) < 2 ^ 64"
  shows "\<exists>r dec mode' here' cm' w'. mode_of_segment K cdev len bytes here mode cm w = Some (r, dec, mode', here', cm', w') \<and>
     quiet fd cm w cm' w' \<and>
     (r = 0 \<longrightarrow> (if dec then mode' = READ_MODE_MIXED \<and> mixed S lo (here + (len - bytes))
                 else here' = here + (len - bytes) \<and> mode_ok S lo here' mode'))"
  using assms(2-)
proof (induction "len - bytes" arbitrary: bytes here mode cm w rule: less_induct)
  case less
  note ok = less.prems(1) and sv = less.prems(2) and lo = less.prems(4) and md = less.prems(5)
    and bnd = less.prems(6) and top = less.prems(7)
  define step where "step = min (COW_BLOCK_SIZE - here mod COW_BLOCK_SIZE) (len - bytes)"
  show ?case
  proof (cases "bytes < len")
    case False
    with bnd have "mode_of_segment K cdev len bytes here mode cm w = Some (0, False, mode, here, cm, w)" "len - bytes = 0"
      by (simp_all add: mode_of_segment.simps)
    with ok md quiet_refl show ?thesis by fastforce
  next
    case True
    have step_eq: "min (4096 - here mod 4096) (len - bytes) = step" by (simp add: step_def)
    from True have step: "0 < step" "step \<le> 4096 - here mod 4096" "step \<le> len - bytes"
      by (simp_all add: step_def)
    have "here < 4096 * (4096 * total_sects cm)" using True bnd by linarith
    then have blk: "here div 4096 < 4096 * total_sects cm" by (simp add: less_mult_imp_div_less mult.commute)
    obtain r v cm1 w1 where
      rd: "cow_read_mapping K cdev cm (here div 4096) w = Some (r, v, cm1, w1)" and q: "quiet fd cm w cm1 w1"
      and v: "r = 0 \<longrightarrow> (v \<noteq> 0 \<longleftrightarrow> S (here div 4096) \<noteq> None)"
      using lookup_quiet [OF laws ok blk, of cdev] unfolding sv by blast
    note step_ok = mode_ok_step [OF md step(1,2) lo]
    have wr: "wrap64 (here + step) = here + step" by (rule wrap64_id) (use step(3) top in linarith)
    have rest: "here + step + (len - (bytes + step)) = here + (len - bytes)" using step(3) by linarith
    have q1: "data_ok fd cm1 w1" "saved fd cm1 w1 = S" "total_sects cm1 = total_sects cm"
      using q sv unfolding quiet_def by auto
    have eq: "mode_of_segment K cdev len bytes here mode cm w =
        (if r \<noteq> 0 then Some (r, False, mode, here, cm1, w1)
         else if mode = 0 then
           mode_of_segment K cdev len (bytes + step) (here + step)
             (if v \<noteq> 0 then READ_MODE_COW_FILE else READ_MODE_BASE_DEVICE) cm1 w1
         else if mode = READ_MODE_COW_FILE \<and> v = 0 \<or> mode = READ_MODE_BASE_DEVICE \<and> v \<noteq> 0 then
           Some (0, True, READ_MODE_MIXED, here, cm1, w1)
         else mode_of_segment K cdev len (bytes + step) (here + step) mode cm1 w1)"
      using True rd wr step_eq by (subst mode_of_segment.simps) (simp add: Let_def)
    show ?thesis
    proof (cases "r = 0")
      case False
      with q show ?thesis by (simp add: eq) blast
    next
      case r0: True
      show ?thesis
      proof (cases "mode \<noteq> 0 \<and> (mode = READ_MODE_COW_FILE \<and> v = 0 \<or> mode = READ_MODE_BASE_DEVICE \<and> v \<noteq> 0)")
        case mx: True
        then have "mixed S lo (here + step)" using step_ok(4,5) v r0 by blast
        then have "mixed S lo (here + (len - bytes))" by (rule mixed_mono) (use step(3) in linarith)
        moreover have "mode_of_segment K cdev len bytes here mode cm w = Some (0, True, READ_MODE_MIXED, here, cm1, w1)"
          using mx r0 by (auto simp: eq)
        ultimately show ?thesis using q by auto
      next
        case nmx: False
        define mode1 where "mode1 = (if mode = 0 then if v \<noteq> 0 then READ_MODE_COW_FILE else READ_MODE_BASE_DEVICE else mode)"
        have "mode = 0 \<or> mode = READ_MODE_COW_FILE \<or> mode = READ_MODE_BASE_DEVICE" using md by (auto simp: mode_ok_def)
        then have m1: "mode_ok S lo (here + step) mode1"
          using nmx v r0 step_ok(1-3) unfolding mode1_def by auto
        have next_eq: "mode_of_segment K cdev len bytes here mode cm w =
            mode_of_segment K cdev len (bytes + step) (here + step) mode1 cm1 w1"
          using nmx r0 by (auto simp: eq mode1_def)
        have "len - (bytes + step) < len - bytes" "bytes + step \<le> len" "lo \<le> here + step"
          using step True lo by linarith+
        from less.hyps [OF this(1) q1(1,2) this(2,3) m1, unfolded rest q1(3), OF bnd top] next_eq quiet_trans [OF q]
        show ?thesis by (metis (no_types, lifting))
      qed
    qed
  qed
qed


text \<open>A bio the block layer hands over whole: it starts at its first segment, every segment has a
  page and holds whole sectors, and the size is the sum of the segments.\<close>

definition vec_ok :: "bio_vec list \<Rightarrow> bool" where
  "vec_ok vs \<longleftrightarrow> (\<forall>v\<in>set vs. bv_page v \<noteq> None \<and> 0 < bv_len v \<and> 512 dvd bv_len v)"

definition vec_len :: "bio_vec list \<Rightarrow> nat" where
  "vec_len vs = sum_list (map bv_len vs)"

definition bio_whole :: "bio \<Rightarrow> bool" where
  "bio_whole b \<longleftrightarrow> bi_idx b = 0 \<and> bi_bvec_done b = 0 \<and> vec_ok (bi_io_vec b) \<and> bi_size b = vec_len (bi_io_vec b)"

lemma vec_len_Cons [simp]: "vec_len [] = 0" "vec_len (v # vs) = bv_len v + vec_len vs"
  by (simp_all add: vec_len_def)

lemma vec_ok_Cons: "vec_ok (v # vs) \<longleftrightarrow> bv_page v \<noteq> None \<and> 0 < bv_len v \<and> 512 dvd bv_len v \<and> vec_ok vs"
  by (auto simp: vec_ok_def)

lemma take_segs_all: "vec_ok vs \<Longrightarrow> take_segs (vec_len vs) vs = vs"
  by (induction vs) (auto simp: vec_ok_Cons)

lemma bio_segments_whole:
  assumes "bio_whole b"
  shows "bio_segments b = bi_io_vec b"
proof -
  have "(case bi_io_vec b of [] \<Rightarrow> [] | v # vs \<Rightarrow> v\<lparr>bv_offset := bv_offset v + 0, bv_len := bv_len v - 0\<rparr> # vs) = bi_io_vec b"
    by (auto split: list.split)
  with assms show ?thesis by (simp only: bio_whole_def bio_segments_def drop_0 take_segs_all)
qed

lemma mode_of_segments_spec:
  assumes laws: "file_laws K fd" and "data_ok fd cm w" "saved fd cm w = S" "lo \<le> here" "mode_ok S lo here mode"
    and "here + vec_len vs \<le> 4096 * (4096 * total_sects cm)" "here + vec_len vs < 2 ^ 64"
  shows "\<exists>r mode' cm' w'. mode_of_segments K cdev vs here mode cm w = Some (r, mode', cm', w') \<and> quiet fd cm w cm' w' \<and>
     (r = 0 \<longrightarrow> mode' = READ_MODE_MIXED \<and> mixed S lo (here + vec_len vs) \<or> mode_ok S lo (here + vec_len vs) mode')"
  using assms(2-)
proof (induction vs arbitrary: here mode cm w)
  case Nil
  then show ?case by (simp add: quiet_refl)
next
  case (Cons v vs)
  note ok = Cons.prems(1) and sv = Cons.prems(2) and lo = Cons.prems(3) and md = Cons.prems(4)
  have bnd: "here + bv_len v + vec_len vs \<le> 4096 * (4096 * total_sects cm)" "here + bv_len v + vec_len vs < 2 ^ 64"
    using Cons.prems(5,6) by simp_all
  then have "here + (bv_len v - 0) \<le> 4096 * (4096 * total_sects cm)" "here + (bv_len v - 0) < 2 ^ 64" by linarith+
  from mode_of_segment_spec [OF laws ok sv _ lo md this, of cdev] obtain r dec mode1 here1 cm1 w1 where
    seg: "mode_of_segment K cdev (bv_len v) 0 here mode cm w = Some (r, dec, mode1, here1, cm1, w1)"
    and q: "quiet fd cm w cm1 w1"
    and res: "r = 0 \<longrightarrow> (if dec then mode1 = READ_MODE_MIXED \<and> mixed S lo (here + bv_len v)
         else here1 = here + bv_len v \<and> mode_ok S lo here1 mode1)" unfolding diff_zero by blast
  consider "r \<noteq> 0" | "r = 0" dec | "r = 0" "\<not> dec" by blast
  then show ?case
  proof cases
    case 1
    with seg q show ?thesis by simp
  next
    case 2
    with res have "mode1 = READ_MODE_MIXED" "mixed S lo (here + vec_len (v # vs))" by (auto intro: mixed_mono)
    with 2 seg q show ?thesis by simp
  next
    case 3
    with res have h: "here1 = here + bv_len v" "mode_ok S lo (here + bv_len v) mode1" by auto
    have q1: "data_ok fd cm1 w1" "saved fd cm1 w1 = S" "total_sects cm1 = total_sects cm"
      using q sv unfolding quiet_def by auto
    from Cons.IH [OF q1(1,2) _ h(2), unfolded q1(3), OF _ bnd] lo obtain r2 mode' cm' w' where
      ih: "mode_of_segments K cdev vs (here + bv_len v) mode1 cm1 w1 = Some (r2, mode', cm', w')" "quiet fd cm1 w1 cm' w'"
      "r2 = 0 \<longrightarrow> mode' = READ_MODE_MIXED \<and> mixed S lo (here + bv_len v + vec_len vs) \<or>
         mode_ok S lo (here + bv_len v + vec_len vs) mode'" by auto
    with 3 seg h quiet_trans [OF q ih(2)] show ?thesis by (simp add: add.assoc)
  qed
qed

section \<open>Filling a bio\<close>

text \<open>The byte of the snapshot at an address, given the byte of the base device.\<close>

definition snap_byte :: "(nat \<Rightarrow> byte list option) \<Rightarrow> nat \<Rightarrow> byte \<Rightarrow> byte" where
  "snap_byte S p base = (case S (p div 4096) of Some d \<Rightarrow> d ! (p mod 4096) | None \<Rightarrow> base)"

lemma snap_byte_in_block:
  assumes "j < n" "n \<le> 4096 - p mod 4096"
  shows "snap_byte S (p + j) x = (case S (p div 4096) of Some d \<Rightarrow> d ! (p mod 4096 + j) | None \<Rightarrow> x)"
proof -
  have b: "(p + j) div 4096 = p div 4096" by (rule step_block [of _ _ n]) (use assms in auto)
  have m: "(p + j) mod 4096 = p mod 4096 + j"
    using mult_div_mod_eq [of 4096 "p + j"] mult_div_mod_eq [of 4096 p] b by linarith
  show ?thesis unfolding snap_byte_def b m by (rule refl)
qed

text \<open>What filling a page does to it: \<open>a\<close> is the address of offset \<open>off\<close>.\<close>

definition filled :: "(nat \<Rightarrow> byte list option) \<Rightarrow> nat \<Rightarrow> nat \<Rightarrow> nat \<Rightarrow> buf \<Rightarrow> buf" where
  "filled S a off stop data = (\<lambda>i. if off \<le> i \<and> i < stop then snap_byte S (a + (i - off)) (data i) else data i)"

lemma filled_empty: "stop \<le> off \<Longrightarrow> filled S a off stop data = data"
  by (auto simp: filled_def fun_eq_iff)

lemma filled_step: "off + n \<le> stop \<Longrightarrow> filled S (a + n) (off + n) stop (filled S a off (off + n) data) = filled S a off stop data"
  by (auto simp: filled_def fun_eq_iff)

lemma filled_block:
  assumes "n \<le> 4096 - a mod 4096"
  shows "filled S a off (off + n) data =
     (case S (a div 4096) of Some d \<Rightarrow> splice data off n (\<lambda>i. d ! (a mod 4096 + i)) | None \<Rightarrow> data)"
proof (rule ext)
  fix i
  show "filled S a off (off + n) data i =
     (case S (a div 4096) of Some d \<Rightarrow> splice data off n (\<lambda>i. d ! (a mod 4096 + i)) | None \<Rightarrow> data) i"
  proof (cases "off \<le> i \<and> i < off + n")
    case True
    then have "i - off < n" by linarith
    from snap_byte_in_block [OF this assms, of S "data i"] True show ?thesis
      by (auto simp: filled_def splice_def split: option.split)
  qed (auto simp: filled_def splice_def split: option.split)
qed

text \<open>\<^verbatim>\<open>cow_read_data\<close> does not check its allocation; where it fails the read does not return.\<close>

lemma fill_segment_spec:
  assumes laws: "file_laws K fd"
    and "data_ok fd cm w" "saved fd cm w = S" "512 dvd stop - off"
    and "512 * sect + (stop - off) \<le> 4096 * (4096 * total_sects cm)" "512 * sect + (stop - off) < 2 ^ 64"
  shows "fill_segment K cdev stop off sect data cm w = None \<and> starved K 4096 \<or>
    (\<exists>r data' sect' cm' w'. fill_segment K cdev stop off sect data cm w = Some (r, data', sect', cm', w') \<and>
       quiet fd cm w cm' w' \<and>
       (r = 0 \<longrightarrow> sect' = sect + (stop - off) div 512 \<and> data' = filled S (512 * sect) off stop data))"
  using assms(2-)
proof (induction "stop - off" arbitrary: off sect data cm w rule: less_induct)
  case less
  note ok = less.prems(1) and sv = less.prems(2) and dv = less.prems(3) and bnd = less.prems(4) and top = less.prems(5)
  show ?case
  proof (cases "off < stop")
    case False
    with ok show ?thesis by (subst fill_segment.simps) (simp add: quiet_refl filled_empty)
  next
    case True
    define a where "a = 512 * sect"
    define n where "n = min (stop - off) (COW_BLOCK_SIZE - a mod COW_BLOCK_SIZE)"
    have n_eq: "min (stop - off) (4096 - a mod 4096) = n" by (simp add: n_def)
    then have n: "0 < n" "n \<le> 4096 - a mod 4096" "n \<le> stop - off" using True by auto
    have "512 dvd a mod 4096" unfolding a_def by (simp add: dvd_mod_iff dvd_mod)
    then have "512 dvd 4096 - a mod 4096" by (intro dvd_diff_nat) simp_all
    with dv n_eq have n512: "512 dvd n" by (auto simp: min_def split: if_splits)
    have pos: "wrap64 (sect * 512) = a" using top by (simp add: a_def mult.commute)
    have "a < 4096 * (4096 * total_sects cm)" using True bnd unfolding a_def by linarith
    then have blk: "a div 4096 < 4096 * total_sects cm" by (simp add: less_mult_imp_div_less mult.commute)
    obtain r v cm1 w1 where
      rd: "cow_read_mapping K cdev cm (a div 4096) w = Some (r, v, cm1, w1)" and q: "quiet fd cm w cm1 w1"
      and v: "r = 0 \<longrightarrow> v = mapping_view fd cm1 w1 (a div 4096) \<and> (v \<noteq> 0 \<longleftrightarrow> S (a div 4096) \<noteq> None)"
      using lookup_quiet [OF laws ok blk, of cdev] unfolding sv by blast
    have q1: "data_ok fd cm1 w1" "saved fd cm1 w1 = S" "total_sects cm1 = total_sects cm"
      using q sv unfolding quiet_def by auto
    define rest where "rest data1 w2 = fill_segment K cdev stop (off + n) (sect + n div 512) data1 cm1 w2" for data1 w2
    have eq: "fill_segment K cdev stop off sect data cm w =
        (if r \<noteq> 0 then Some (r, data, sect, cm1, w1)
         else if v \<noteq> 0 then
           (case cow_read_data K cdev cm1 data off v (a mod 4096) n w1 of
              None \<Rightarrow> None | Some (r2, b, w2) \<Rightarrow> if r2 \<noteq> 0 then Some (r2, b, sect, cm1, w2) else rest b w2)
         else rest data w1)"
      using True rd pos n_eq by (subst fill_segment.simps) (simp add: rest_def Let_def split: option.split)
    have go: "rest data1 w2 = None \<and> starved K 4096 \<or>
        (\<exists>r' data' sect' cm' w'. rest data1 w2 = Some (r', data', sect', cm', w') \<and> quiet fd cm w cm' w' \<and>
          (r' = 0 \<longrightarrow> sect' = sect + (stop - off) div 512 \<and> data' = filled S a off stop data))"
      if "fd w2 = fd w1" and d1: "data1 = filled S a off (off + n) data" for data1 w2
    proof -
      note q2 = quiet_trans [OF q quiet_same_files [OF q1(1) that(1)]]
      then have ok2: "data_ok fd cm1 w2" "saved fd cm1 w2 = S" using sv unfolding quiet_def by auto
      have ar: "stop - (off + n) < stop - off" "512 dvd stop - (off + n)" "512 * (sect + n div 512) = a + n"
        using True n n512 dv by (auto simp: a_def dvd_diff_nat simp flip: diff_diff_left)
      have "a + n + (stop - (off + n)) = 512 * sect + (stop - off)" using n(3) by (simp add: a_def)
      then have "a + n + (stop - (off + n)) \<le> 4096 * (4096 * total_sects cm)" "a + n + (stop - (off + n)) < 2 ^ 64"
        using bnd top by simp_all
      from less.hyps [OF ar(1) ok2 ar(2), of "sect + n div 512" data1, unfolded ar(3) q1(3), OF this, folded rest_def]
      consider (fault) "rest data1 w2 = None" "starved K 4096"
        | (ends) r' data' sect' cm' w' where "rest data1 w2 = Some (r', data', sect', cm', w')" "quiet fd cm1 w2 cm' w'"
        "r' = 0 \<longrightarrow> sect' = sect + n div 512 + (stop - (off + n)) div 512 \<and> data' = filled S (a + n) (off + n) stop data1"
        by (elim disjE exE conjE) metis+
      then show ?thesis
      proof cases
        case ends
        have "n div 512 + (stop - (off + n)) div 512 = (stop - off) div 512"
          using n512 ar(2) n(3) by (simp flip: div_add)
        with ends d1 filled_step [of off n stop] n(3) True quiet_trans [OF q2 ends(2)] show ?thesis by auto
      qed blast
    qed
    consider "r \<noteq> 0" | "r = 0" "v = 0" | "r = 0" "v \<noteq> 0" by blast
    then show ?thesis
    proof cases
      case 1
      with eq q show ?thesis by simp
    next
      case 2
      with v have "data = filled S a off (off + n) data" by (simp add: filled_block [OF n(2)])
      from go [OF refl this] 2 eq show ?thesis unfolding a_def by simp
    next
      case 3
      with v obtain d where d: "S (a div 4096) = Some d" by blast
      with q1(2) have sd: "saved fd cm1 w1 (a div 4096) = Some d" by simp
      have len: "a mod 4096 + n \<le> 4096" using n(2) by (simp add: le_diff_conv2 add.commute)
      from cow_read_data_spec [OF laws q1(1) sd len n(1), of cdev data off] v 3
      consider (fault) "cow_read_data K cdev cm1 data off v (a mod 4096) n w1 = None" "starved K 4096"
        | (ends) r2 b w2 where "cow_read_data K cdev cm1 data off v (a mod 4096) n w1 = Some (r2, b, w2)" "fd w2 = fd w1"
            "r2 = 0 \<longrightarrow> b = splice data off n (\<lambda>i. d ! (a mod 4096 + i))" by (auto simp: starved_def)
      then show ?thesis
      proof cases
        case fault
        with 3 eq show ?thesis by simp
      next
        case cd: ends
        show ?thesis
        proof (cases "r2 = 0")
          case True
          with cd(3) d have "b = filled S a off (off + n) data" by (simp add: filled_block [OF n(2)])
          from go [OF cd(2) this] True 3 eq cd(1) show ?thesis unfolding a_def by simp
        next
          case False
          with 3 eq cd(1) quiet_trans [OF q quiet_same_files [OF q1(1) cd(2)]] show ?thesis by simp
        qed
      qed
    qed
  qed
qed

text \<open>The pages of a vector hold the bytes \<open>g\<close> from address \<open>a\<close> on, at the addresses \<open>P\<close> selects.\<close>

fun pages_hold :: "(nat \<Rightarrow> bool) \<Rightarrow> (nat \<Rightarrow> byte) \<Rightarrow> nat \<Rightarrow> bio_vec list \<Rightarrow> bool" where
  "pages_hold P g a [] = True"
| "pages_hold P g a (v # vs) =
     ((case bv_page v of None \<Rightarrow> False
       | Some pg \<Rightarrow> \<forall>i<bv_len v. P (a + i) \<longrightarrow> pg_data pg (bv_offset v + i) = g (a + i)) \<and>
      pages_hold P g (a + bv_len v) vs)"

definition same_shape :: "bio_vec list \<Rightarrow> bio_vec list \<Rightarrow> bool" where
  "same_shape vs vs' \<longleftrightarrow> list_all2 (\<lambda>v v'. bv_len v' = bv_len v \<and> bv_offset v' = bv_offset v \<and> (bv_page v = None \<longleftrightarrow> bv_page v' = None)) vs vs'"

lemma same_shape_vec: "same_shape vs vs' \<Longrightarrow> vec_ok vs' = vec_ok vs \<and> vec_len vs' = vec_len vs"
  unfolding same_shape_def by (induction rule: list_all2_induct) (simp_all add: vec_ok_Cons)

lemma same_shape_refl: "same_shape vs vs"
  by (simp add: same_shape_def list.rel_refl)

lemma same_shape_trans: "same_shape a b \<Longrightarrow> same_shape b c \<Longrightarrow> same_shape a c"
  unfolding same_shape_def by (rule list_all2_trans) auto

lemma fill_segments_spec:
  assumes laws: "file_laws K fd"
    and "data_ok fd cm w" "saved fd cm w = S" "vec_ok vs"
    and "512 * sect + vec_len vs \<le> 4096 * (4096 * total_sects cm)" "512 * sect + vec_len vs < 2 ^ 64"
    and "pages_hold (\<lambda>p. S (p div 4096) = None) g (512 * sect) vs"
  shows "fill_segments K cdev vs sect cm w = None \<and> starved K 4096 \<or>
    (\<exists>r vs' cm' w'. fill_segments K cdev vs sect cm w = Some (r, vs', cm', w') \<and> quiet fd cm w cm' w' \<and> same_shape vs vs' \<and>
       (r = 0 \<longrightarrow> pages_hold (\<lambda>_. True) (\<lambda>p. snap_byte S p (g p)) (512 * sect) vs'))"
  using assms(2-)
proof (induction vs arbitrary: sect cm w)
  case Nil
  then show ?case by (simp add: quiet_refl same_shape_def)
next
  case (Cons v vs)
  note ok = Cons.prems(1) and sv = Cons.prems(2) and vec = Cons.prems(3)
  let ?a = "512 * sect"
  have bnd: "?a + bv_len v + vec_len vs \<le> 4096 * (4096 * total_sects cm)" "?a + bv_len v + vec_len vs < 2 ^ 64"
    using Cons.prems(4,5) by simp_all
  obtain pg where pg: "bv_page v = Some pg" and v512: "512 dvd bv_len v" and vec': "vec_ok vs"
    using vec by (auto simp: vec_ok_Cons)
  have hold: "\<forall>i<bv_len v. S ((?a + i) div 4096) = None \<longrightarrow> pg_data pg (bv_offset v + i) = g (?a + i)"
    and hold': "pages_hold (\<lambda>p. S (p div 4096) = None) g (?a + bv_len v) vs" using Cons.prems(6) pg by simp_all
  have "bv_offset v + bv_len v - bv_offset v = bv_len v" by simp
  from fill_segment_spec [OF laws ok sv, of "bv_offset v + bv_len v" "bv_offset v" sect cdev "pg_data pg", unfolded this] v512 bnd
  consider (fault) "fill_segment K cdev (bv_offset v + bv_len v) (bv_offset v) sect (pg_data pg) cm w = None" "starved K 4096"
    | (ends) r data' sect1 cm1 w1 where
        "fill_segment K cdev (bv_offset v + bv_len v) (bv_offset v) sect (pg_data pg) cm w = Some (r, data', sect1, cm1, w1)"
        "quiet fd cm w cm1 w1"
        "r = 0 \<longrightarrow> sect1 = sect + bv_len v div 512 \<and> data' = filled S ?a (bv_offset v) (bv_offset v + bv_len v) (pg_data pg)" by auto
  then show ?case
  proof cases
    case fault
    with pg show ?thesis by simp
  next
    case ends
    note seg = ends(1) and q = ends(2) and res = ends(3)
    let ?v1 = "v\<lparr>bv_page := Some (pg\<lparr>pg_data := data'\<rparr>)\<rparr>"
    show ?thesis
    proof (cases "r = 0")
      case False
      with pg seg q show ?thesis by (auto simp: same_shape_def list.rel_refl)
    next
      case True
      have q1: "data_ok fd cm1 w1" "saved fd cm1 w1 = S" "total_sects cm1 = total_sects cm"
        using q sv unfolding quiet_def by auto
      have s1: "512 * sect1 = ?a + bv_len v" using True res v512 by auto
      have "data' (bv_offset v + i) = snap_byte S (?a + i) (g (?a + i))" if "i < bv_len v" for i
        using that True res hold by (auto simp: filled_def snap_byte_def split: option.split)
      then have here: "pages_hold (\<lambda>_. True) (\<lambda>p. snap_byte S p (g p)) (?a + bv_len v) vs' \<Longrightarrow>
          pages_hold (\<lambda>_. True) (\<lambda>p. snap_byte S p (g p)) ?a (?v1 # vs')" for vs' by simp
      from Cons.IH [OF q1(1,2) vec', of sect1, unfolded s1 q1(3), OF bnd hold']
      consider (fault) "fill_segments K cdev vs sect1 cm1 w1 = None" "starved K 4096"
        | (ends) r2 vs' cm' w' where "fill_segments K cdev vs sect1 cm1 w1 = Some (r2, vs', cm', w')" "quiet fd cm1 w1 cm' w'"
            "same_shape vs vs'" "r2 = 0 \<longrightarrow> pages_hold (\<lambda>_. True) (\<lambda>p. snap_byte S p (g p)) (?a + bv_len v) vs'" by (elim disjE exE conjE) metis+
      then show ?thesis
      proof cases
        case fault
        with True pg seg show ?thesis by simp
      next
        case ih: ends
        have "fill_segments K cdev (v # vs) sect cm w = Some (r2, ?v1 # vs', cm', w')" using True pg seg ih(1) by simp
        moreover have "same_shape (v # vs) (?v1 # vs')" using ih(3) pg by (simp add: same_shape_def)
        ultimately show ?thesis using quiet_trans [OF q ih(2)] ih(4) here by blast
      qed
    qed
  qed
qed


section \<open>The whole read\<close>

lemma pages_hold_none: "vec_ok vs \<Longrightarrow> all_in (\<lambda>q. \<not> P q) a (a + vec_len vs) \<Longrightarrow> pages_hold (\<lambda>p. P (p div 4096)) g a vs"
  by (induction vs arbitrary: a) (auto simp: vec_ok_Cons all_in_def)

lemma pages_hold_mono: "pages_hold (\<lambda>_. True) g a vs \<Longrightarrow> pages_hold P g a vs"
  by (induction vs arbitrary: a) (auto split: option.splits)

lemma pages_hold_cong:
  "pages_hold P g a vs \<Longrightarrow> (\<And>p. a \<le> p \<Longrightarrow> p < a + vec_len vs \<Longrightarrow> g p = g' p) \<Longrightarrow> pages_hold P g' a vs"
  by (induction vs arbitrary: a) (auto split: option.splits)

text \<open>What the driver relies on when it reads from the base device: no file changes, the pages
  stay where they are, and a successful read of a whole bio has filled them from the device.\<close>

definition base_law :: "('w, 'k) blk_kern_scheme \<Rightarrow> ('w \<Rightarrow> nat \<Rightarrow> buf) \<Rightarrow> ('w \<Rightarrow> nat \<Rightarrow> nat \<Rightarrow> byte) \<Rightarrow> bool" where
  "base_law K fd base \<longleftrightarrow> (\<forall>b w r b' w'. submit_bio_wait K b w = (r, b', w') \<longrightarrow>
     fd w' = fd w \<and> same_shape (bi_io_vec b) (bi_io_vec b') \<and>
     (r = 0 \<and> bi_op b = REQ_OP_READ \<and> bio_whole b \<longrightarrow>
        pages_hold (\<lambda>_. True) (base w (bi_bdev b)) (512 * bi_sector b) (bi_io_vec b')))"

lemma base_lawD:
  assumes "base_law K fd base" "submit_bio_wait K b w = (r, b', w')"
  shows "fd w' = fd w" "same_shape (bi_io_vec b) (bi_io_vec b')"
    "r = 0 \<Longrightarrow> bi_op b = REQ_OP_READ \<Longrightarrow> bio_whole b \<Longrightarrow>
       pages_hold (\<lambda>_. True) (base w (bi_bdev b)) (512 * bi_sector b) (bi_io_vec b')"
  using assms unfolding base_law_def by blast+

abbreviation to_base :: "nat \<Rightarrow> bio \<Rightarrow> bio" where
  "to_base d b \<equiv> b\<lparr>bi_bdev := d, bi_op := REQ_OP_READ, bi_passthrough := False\<rparr>"

text \<open>The mode is exact.\<close>

lemma snap_read_bio_get_mode_spec:
  assumes laws: "file_laws K fd" and ok: "data_ok fd cm w" and b: "bio_whole b"
    and bnd: "512 * bi_sector b + bi_size b \<le> 4096 * (4096 * total_sects cm)" "512 * bi_sector b + bi_size b < 2 ^ 64"
  shows "\<exists>r mode cm' w'. snap_read_bio_get_mode K cdev (to_base d b) cm w = Some (r, mode, cm', w') \<and> quiet fd cm w cm' w' \<and>
     (r = 0 \<longrightarrow> mode = READ_MODE_MIXED \<and> mixed (saved fd cm w) (512 * bi_sector b) (512 * bi_sector b + bi_size b) \<or>
        mode_ok (saved fd cm w) (512 * bi_sector b) (512 * bi_sector b + bi_size b) mode)"
proof -
  have w: "wrap64 (bi_sector b * 512) = 512 * bi_sector b" using bnd(2) by simp
  have sz: "bi_size b = vec_len (bi_io_vec b)" using b by (simp add: bio_whole_def)
  have segs: "bio_segments (to_base d b) = bi_io_vec b" using bio_segments_whole [of "to_base d b"] b by (simp add: bio_whole_def)
  have "snap_read_bio_get_mode K cdev (to_base d b) cm w = mode_of_segments K cdev (bi_io_vec b) (512 * bi_sector b) 0 cm w"
    unfolding snap_read_bio_get_mode_def SECTOR_SIZE_def segs using w by (simp add: mult.commute)
  moreover have "mode_ok (saved fd cm w) (512 * bi_sector b) (512 * bi_sector b) 0" by (simp add: mode_ok_def)
  ultimately show ?thesis
    using mode_of_segments_spec [OF laws ok refl order_refl, of "512 * bi_sector b" 0 "bi_io_vec b" cdev] bnd sz
    by simp
qed

text \<open>A handler that faults for want of memory or ends.\<close>

lemma fault_or_ends:
  assumes "x = None \<and> P \<or> (\<exists>r b c d. x = Some (r, b, c, d) \<and> Q r b c d)"
    and "x = None \<Longrightarrow> P \<Longrightarrow> R" and "\<And>r b c d. x = Some (r, b, c, d) \<Longrightarrow> Q r b c d \<Longrightarrow> R"
  shows R
  using assms by blast

lemma snap_handle_read_bio_spec:
  assumes laws: "file_laws K fd" and base: "base_law K fd base"
    and ok: "data_ok fd cm w" and b: "bio_whole b" and d: "sd_base_dev dev = Some d"
    and bnd: "512 * bi_sector b + bi_size b \<le> 4096 * (4096 * total_sects cm)" "512 * bi_sector b + bi_size b < 2 ^ 64"
  shows "snap_handle_read_bio K cdev dev b cm w = None \<and> starved K 4096 \<or>
    (\<exists>r b' cm' w' r1 mode cm1 w1. snap_handle_read_bio K cdev dev b cm w = Some (r, b', cm', w') \<and> quiet fd cm w cm' w' \<and>
     snap_read_bio_get_mode K cdev (to_base d b) cm w = Some (r1, mode, cm1, w1) \<and>
     bi_private b' = bi_private b \<and> bi_end_io b' = bi_end_io b \<and> same_shape (bi_io_vec b) (bi_io_vec b') \<and>
     (r \<noteq> 0 \<longrightarrow> bi_idx b' = bi_idx b \<and> bi_size b' = bi_size b \<and> bi_sector b' = bi_sector b) \<and>
     (r = 0 \<longrightarrow> pages_hold (\<lambda>_. True) (\<lambda>p. snap_byte (saved fd cm w) p (base w1 d p)) (512 * bi_sector b) (bi_io_vec b')))"
proof -
  let ?S = "saved fd cm w" and ?a = "512 * bi_sector b"
  have sz: "bi_size b = vec_len (bi_io_vec b)" and vec: "vec_ok (bi_io_vec b)" using b by (simp_all add: bio_whole_def)
  obtain r1 mode cm1 w1 where gm: "snap_read_bio_get_mode K cdev (to_base d b) cm w = Some (r1, mode, cm1, w1)"
    and q: "quiet fd cm w cm1 w1"
    and md: "r1 = 0 \<longrightarrow> mode = READ_MODE_MIXED \<and> mixed ?S ?a (?a + bi_size b) \<or> mode_ok ?S ?a (?a + bi_size b) mode"
    using snap_read_bio_get_mode_spec [OF laws ok b bnd] by blast
  have q1: "data_ok fd cm1 w1" "saved fd cm1 w1 = ?S" "total_sects cm1 = total_sects cm" using q unfolding quiet_def by auto
  have fill: "fill_segments K cdev vs (bi_sector b) cm1 w2 = None \<and> starved K 4096 \<or>
      (\<exists>r vs' cm' w'. fill_segments K cdev vs (bi_sector b) cm1 w2 = Some (r, vs', cm', w') \<and> quiet fd cm w cm' w' \<and>
      same_shape (bi_io_vec b) vs' \<and>
      (r = 0 \<longrightarrow> pages_hold (\<lambda>_. True) (\<lambda>p. snap_byte ?S p (base w1 d p)) ?a vs'))"
    if "fd w2 = fd w1" "same_shape (bi_io_vec b) vs" "pages_hold (\<lambda>p. ?S (p div 4096) = None) (base w1 d) ?a vs" for w2 vs
  proof -
    note q2 = quiet_trans [OF q quiet_same_files [OF q1(1) that(1)]]
    then have ok2: "data_ok fd cm1 w2" "saved fd cm1 w2 = ?S" unfolding quiet_def by auto
    from same_shape_vec [OF that(2)] vec sz have "vec_ok vs" "vec_len vs = bi_size b" by simp_all
    from fill_segments_spec [OF laws ok2 this(1), of "bi_sector b" "base w1 d" cdev, unfolded this(2) q1(3), OF bnd that(3)]
      quiet_trans [OF q2] same_shape_trans [OF that(2)] show ?thesis by blast
  qed
  have all: "all_in (mapped ?S) ?a (?a + bi_size b)" if "r1 = 0" "mode = READ_MODE_COW_FILE"
    using md that by (auto simp: mode_ok_def)
  have none: "all_in (unmapped ?S) ?a (?a + bi_size b)" if "r1 = 0" "mode = READ_MODE_BASE_DEVICE"
    using md that by (auto simp: mode_ok_def)
  consider "r1 \<noteq> 0" | "r1 = 0" "mode = READ_MODE_COW_FILE" | "r1 = 0" "mode \<noteq> READ_MODE_COW_FILE" by blast
  then show ?thesis
  proof cases
    case 1
    with gm q d show ?thesis by (simp add: snap_handle_read_bio_def Let_def same_shape_refl)
  next
    case 2
    have pre: "pages_hold (\<lambda>p. ?S (p div 4096) = None) (base w1 d) ?a (bi_io_vec b)"
      by (rule pages_hold_none [OF vec]) (use all [OF 2] sz in \<open>simp add: all_in_def\<close>)
    note cow = 2
    show ?thesis
    proof (rule fault_or_ends [OF fill [OF refl same_shape_refl pre]], goal_cases)
      case 1
      with cow gm d show ?thesis by (simp add: snap_handle_read_bio_def Let_def)
    next
      case (2 r vs' cm' w')
      with cow gm d show ?thesis by (cases "r = 0") (simp_all add: snap_handle_read_bio_def Let_def)
    qed
  next
    case 3
    obtain r2 b2 w2 where sb: "submit_bio_wait K (to_base d b) w1 = (r2, b2, w2)" by (metis prod_cases3)
    note law = base_lawD [OF base sb]
    have hold: "pages_hold (\<lambda>_. True) (base w1 d) ?a (bi_io_vec b2)" if "r2 = 0"
      using law(3) [OF that] b by (simp add: bio_whole_def)
    have shape: "same_shape (bi_io_vec b) (bi_io_vec b2)" using law(2) by simp
    note q2 = quiet_trans [OF q quiet_same_files [OF q1(1) law(1)]]
    consider "r2 \<noteq> 0" | "r2 = 0" "mode = READ_MODE_BASE_DEVICE" | "r2 = 0" "mode \<noteq> READ_MODE_BASE_DEVICE" by blast
    then show ?thesis
    proof cases
      case r2: 1
      with 3 gm sb d q2 shape show ?thesis by (simp add: snap_handle_read_bio_def Let_def)
    next
      case r2: 2
      have "pages_hold (\<lambda>_. True) (\<lambda>p. snap_byte ?S p (base w1 d p)) ?a (bi_io_vec b2)"
        by (rule pages_hold_cong [OF hold [OF r2(1)]])
           (use none [OF 3(1) r2(2)] same_shape_vec [OF shape] sz in \<open>auto simp: all_in_def snap_byte_def\<close>)
      with r2 3 gm sb d q2 shape show ?thesis by (simp add: snap_handle_read_bio_def Let_def)
    next
      case r2: 3
      note mixed = 3
      show ?thesis
      proof (rule fault_or_ends [OF fill [OF law(1) shape pages_hold_mono [OF hold [OF r2(1)]]]], goal_cases)
        case 1
        with r2 mixed gm sb d show ?thesis by (simp add: snap_handle_read_bio_def Let_def)
      next
        case (2 r vs' cm' w')
        with r2 mixed gm sb d show ?thesis by (cases "r = 0") (simp_all add: snap_handle_read_bio_def Let_def)
      qed
    qed
  qed
qed


section \<open>Storing a read clone\<close>

definition clone_pages_ok :: "bio_vec list \<Rightarrow> bool" where
  "clone_pages_ok vs \<longleftrightarrow> (\<forall>v\<in>set vs. bv_len v = 4096 \<and> bv_page v \<noteq> None)"

definition page_bufs :: "bio_vec list \<Rightarrow> buf list" where
  "page_bufs vs = map (\<lambda>v. case bv_page v of Some pg \<Rightarrow> pg_data pg | None \<Rightarrow> (\<lambda>_. 0)) vs"

lemma clone_pages_ok_Cons: "clone_pages_ok (v # vs) \<longleftrightarrow> bv_len v = 4096 \<and> bv_page v \<noteq> None \<and> clone_pages_ok vs"
  by (auto simp: clone_pages_ok_def)

lemma page_bufs_Cons [simp]:
  "page_bufs [] = []" "bv_page v = Some pg \<Longrightarrow> page_bufs (v # vs) = pg_data pg # page_bufs vs"
  by (simp_all add: page_bufs_def)

text \<open>The nested loop over segments and blocks is one run of writes, one per page.\<close>

lemma save_segments_run:
  "clone_pages_ok vs \<Longrightarrow> save_segments K cdev vs block s =
     for_each (\<lambda>(p, b) (cm, w). cow_write_current K cdev cm p b w) (zip [block ..< block + length vs] (page_bufs vs)) s"
proof (induction vs arbitrary: block s)
  case (Cons v vs)
  then obtain pg where v: "bv_page v = Some pg" "bv_len v = 4096" and ok: "clone_pages_ok vs" by (auto simp: clone_pages_ok_Cons)
  have up: "[block ..< block + length (v # vs)] = block # [Suc block ..< Suc block + length vs]"
    by (subst upt_conv_Cons) simp_all
  show ?case
    unfolding up by (simp add: v Cons.IH [OF ok] split: option.split prod.split bind_splits)
qed simp

lemma write_bio_run:
  assumes "file_laws K fd" and "data_ok fd cm w" and "clone_pages_ok (bi_io_vec b)"
    and "bi_sector b div 8 + length (bi_io_vec b) \<le> 4096 * total_sects cm"
  shows "\<exists>r cm' w'. snap_handle_write_bio K cdev b cm w = Some (r, cm', w') \<and>
     total_sects cm' = total_sects cm \<and> cm_dev cm' = cm_dev cm \<and>
     (\<forall>q. saved fd cm w q \<noteq> None \<or> q < bi_sector b div 8 \<or> bi_sector b div 8 + length (bi_io_vec b) \<le> q \<longrightarrow>
        saved fd cm' w' q = saved fd cm w q) \<and>
     (r = 0 \<longrightarrow> data_ok fd cm' w' \<and>
        (\<forall>i<length (bi_io_vec b). saved fd cm w (bi_sector b div 8 + i) = None \<longrightarrow>
           saved fd cm' w' (bi_sector b div 8 + i) = Some (block_of (page_bufs (bi_io_vec b) ! i))))"
proof -
  let ?n = "length (bi_io_vec b)" and ?s = "bi_sector b div 8"
  let ?pbs = "zip [?s ..< ?s + ?n] (page_bufs (bi_io_vec b))"
  have len: "length (page_bufs (bi_io_vec b)) = ?n" by (simp add: page_bufs_def)
  then have dom: "map fst ?pbs = [?s ..< ?s + ?n]" by (simp add: map_fst_zip)
  then have keys: "fst ` set ?pbs = {?s ..< ?s + ?n}" by (metis list.set_map set_upt)
  then have "fst ` set ?pbs \<subseteq> {..<4096 * total_sects cm}" using assms(4) by auto
  from save_run [OF assms(1,2) this, of cdev] obtain r cm' w' where
    run: "for_each (\<lambda>(p, b) (cm, w). cow_write_current K cdev cm p b w) ?pbs (cm, w) = Some (r, cm', w')"
    and ids: "total_sects cm' = total_sects cm" "cm_dev cm' = cm_dev cm"
    and keep: "\<forall>q. saved fd cm w q \<noteq> None \<or> q \<notin> fst ` set ?pbs \<longrightarrow> saved fd cm' w' q = saved fd cm w q"
    and new: "r = 0 \<longrightarrow> data_ok fd cm' w' \<and> (\<forall>q. saved fd cm' w' q =
       (case saved fd cm w q of Some d \<Rightarrow> Some d | None \<Rightarrow> map_option block_of (map_of ?pbs q)))" by auto
  have "map_of ?pbs (?s + i) = Some (page_bufs (bi_io_vec b) ! i)" if "i < ?n" for i
    using that len by (intro map_of_is_SomeI) (auto simp: dom set_zip intro!: exI [of _ i])
  with run ids keep new show ?thesis
    by (auto simp: snap_handle_write_bio_def SECTOR_TO_BLOCK_def save_segments_run [OF assms(3)] keys)
qed

section \<open>Marking sectors\<close>

lemma sset_run:
  assumes "file_laws K fd" and "cm_ok cm" and "0 < ss_len ss" and "ss_sect ss + ss_len ss \<le> 8 * (4096 * total_sects cm)"
    and "ss_sect ss + ss_len ss < 2 ^ 63"
  shows "\<exists>r cm' w'. inc_handle_sset K cdev ss cm w = Some (r, cm', w') \<and>
     cm_ok cm' \<and> total_sects cm' = total_sects cm \<and> cm_dev cm' = cm_dev cm \<and>
     (r = 0 \<longrightarrow> mapping_view fd cm' w' =
        (\<lambda>q. if \<exists>s\<in>{ss_sect ss ..< ss_sect ss + ss_len ss}. s div 8 = q then 1 else mapping_view fd cm w q)) \<and>
     (\<forall>q. mapping_view fd cm' w' q = mapping_view fd cm w q \<or>
        mapping_view fd cm' w' q = 1 \<and> (\<exists>s\<in>{ss_sect ss ..< ss_sect ss + ss_len ss}. s div 8 = q))"
proof -
  let ?e = "ss_sect ss + ss_len ss"
  let ?ps = "[ss_sect ss div 8 ..< NUM_SEGMENTS ?e 3]"
  have touched: "q \<in> set ?ps \<longleftrightarrow> (\<exists>s\<in>{ss_sect ss ..< ?e}. s div 8 = q)" for q
  proof -
    have "?e \<le> NUM_SEGMENTS ?e 3 * 8" "NUM_SEGMENTS ?e 3 * 8 < ?e + 8"
      using NUM_SEGMENTS_bounds [of ?e 3] assms(5) by simp_all
    moreover have "8 * (ss_sect ss div 8) \<le> ss_sect ss" "ss_sect ss < 8 * (ss_sect ss div 8) + 8" by presburger+
    ultimately have "q \<in> set ?ps \<longleftrightarrow> ss_sect ss < 8 * q + 8 \<and> 8 * q < ?e" by simp linarith
    also have "\<dots> \<longleftrightarrow> (\<exists>s\<in>{ss_sect ss ..< ?e}. s div 8 = q)"
    proof
      assume a: "ss_sect ss < 8 * q + 8 \<and> 8 * q < ?e"
      have "max (ss_sect ss) (8 * q) div 8 = q" by (rule div_nat_eqI) (use a in auto)
      moreover have "max (ss_sect ss) (8 * q) \<in> {ss_sect ss ..< ?e}" using a assms(3) by auto
      ultimately show "\<exists>s\<in>{ss_sect ss ..< ?e}. s div 8 = q" by blast
    next
      assume "\<exists>s\<in>{ss_sect ss ..< ?e}. s div 8 = q"
      then obtain s where s: "ss_sect ss \<le> s" "s < ?e" "s div 8 = q" by auto
      have "8 * (s div 8) \<le> s" "s < 8 * (s div 8) + 8" by presburger+
      with s show "ss_sect ss < 8 * q + 8 \<and> 8 * q < ?e" by simp
    qed
    finally show ?thesis .
  qed
  have eq: "inc_handle_sset K cdev ss cm w = for_each (\<lambda>p (cm, w). cow_write_filler_mapping K cdev cm p w) ?ps (cm, w)"
    using assms(5) by (simp add: inc_handle_sset_def SECTOR_TO_BLOCK_def)
  have "set ?ps \<subseteq> {..<4096 * total_sects cm}"
  proof
    fix q assume "q \<in> set ?ps"
    with touched obtain s where "s < ?e" "s div 8 = q" by auto
    with assms(4) show "q \<in> {..<4096 * total_sects cm}" by auto
  qed
  from filler_run [OF assms(1,2) this, of cdev w] show ?thesis unfolding eq touched by blast
qed

section \<open>Properties\<close>

text \<open>C3: A read of the snapshot device returns, unless the block buffer of \<^verbatim>\<open>cow_read_data\<close> cannot be
  allocated, which the code does not check. When it succeeds the pages of the bio hold,
  byte for byte, the snapshot: the saved contents of every block that has been saved and the
  contents of the base device, as they are when the read is passed on, everywhere else, for
  any sector alignment and any layout of the pages. Saved data, the data area and the header of
  the cow file never change, and the owner's callback and private pointer are put back (with
  the iterator, when an error is reported).\<close>

theorem snapshot_read_correct:
  assumes "file_laws K fd" and "base_law K fd base"
    and "data_ok fd cm w" and "bio_whole b" and "sd_base_dev dev = Some d"
    and "512 * bi_sector b + bi_size b \<le> 4096 * (4096 * total_sects cm)" and "512 * bi_sector b + bi_size b < 2 ^ 64"
  shows "snap_handle_read_bio K cdev dev b cm w = None \<and> starved K 4096 \<or>
    (\<exists>r b' cm' w' r1 mode cm1 w1. snap_handle_read_bio K cdev dev b cm w = Some (r, b', cm', w') \<and>
     data_ok fd cm' w' \<and> saved fd cm' w' = saved fd cm w \<and> same_outside_index fd cm w w' \<and>
     snap_read_bio_get_mode K cdev (to_base d b) cm w = Some (r1, mode, cm1, w1) \<and>
     bi_private b' = bi_private b \<and> bi_end_io b' = bi_end_io b \<and> same_shape (bi_io_vec b) (bi_io_vec b') \<and>
     (r \<noteq> 0 \<longrightarrow> bi_idx b' = bi_idx b \<and> bi_size b' = bi_size b \<and> bi_sector b' = bi_sector b) \<and>
     (r = 0 \<longrightarrow> pages_hold (\<lambda>_. True) (\<lambda>p. snap_byte (saved fd cm w) p (base w1 d p)) (512 * bi_sector b) (bi_io_vec b')))"
  using snap_handle_read_bio_spec [OF assms, of cdev] unfolding quiet_def by blast

lemma ram_fill_same_shape: "same_shape vs (ram_fill d a vs)"
  by (induction vs arbitrary: a) (simp_all add: same_shape_def)

lemma ram_fill_hold: "vec_ok vs \<Longrightarrow> pages_hold (\<lambda>_. True) d a (ram_fill d a vs)"
  by (induction vs arbitrary: a) (auto simp: vec_ok_Cons)

lemma ram_base_law: "base_law ram_blk (\<lambda>w. w) (\<lambda>w. w)"
  by (auto simp: base_law_def ram_read_bio_def ram_fill_same_shape ram_fill_hold bio_whole_def)

lemma demo_bio_whole: "bio_whole (demo_bio i op sect)"
  by (simp add: bio_whole_def demo_bio_def vec_ok_def demo_page_def)

lemma demo_used_ok: "data_ok (\<lambda>w. w) (demo_used 0) w"
  using demo_saved_ok by (simp add: demo_saved_used)

lemma demo_read_bio:
  "\<exists>b'. snap_handle_read_bio ram_blk demo_dev demo_snap (demo_bio 0 REQ_OP_READ 36) (demo_used 0) ram1 = Some (0, b', demo_used (Suc (Suc (Suc (Suc 0)))), ram1)"
  by (simp add: snap_handle_read_bio_def Let_def demo_snap_def demo_bio_def snap_read_bio_get_mode_def bio_segments_def
      mode_of_segment.simps demo_lookup ram_read_bio_def fill_segment.simps demo_fetch demo_page_def zero_dev_def)


lemma demo_snapshot: "saved (\<lambda>w. w) (demo_used 0) ram1 = (\<lambda>_. None)(5 := Some (replicate 4096 7))"
proof (rule ext)
  fix q
  have "block_of (\<lambda>i. cow_bytes (\<lambda>w. w) (demo_used 0) ram1 (36864 + i)) = replicate 4096 7"
    by (rule nth_equalityI) (simp_all add: block_of_def cow_bytes_def cow_file_def demo_used_def demo_saved_cm_def demo_cm_def ram1_def)
  then show "saved (\<lambda>w. w) (demo_used 0) ram1 q = ((\<lambda>_. None)(5 := Some (replicate 4096 7))) q"
    using demo_saved_view [of ram1] by (simp add: saved_def demo_saved_used)
qed

theorem snapshot_read_correct_witness:
  "\<exists>b'. snap_handle_read_bio ram_blk demo_dev demo_snap (demo_bio 0 REQ_OP_READ 36) (demo_used 0) ram1 =
       Some (0, b', demo_used (Suc (Suc (Suc (Suc 0)))), ram1) \<and>
     pages_hold (\<lambda>_. True) (\<lambda>p. if p < 20480 then 1 else 7) 18432 (bi_io_vec b')"
proof -
  have tot: "512 * bi_sector (demo_bio 0 REQ_OP_READ 36) + bi_size (demo_bio 0 REQ_OP_READ 36) \<le> 4096 * (4096 * total_sects (demo_used 0))"
    "512 * bi_sector (demo_bio 0 REQ_OP_READ 36) + bi_size (demo_bio 0 REQ_OP_READ 36) < 2 ^ 64"
    and base: "sd_base_dev demo_snap = Some 2"
    by (simp_all add: demo_bio_def demo_used_def demo_saved_cm_def demo_cm_def demo_snap_def)
  obtain b' where rd: "snap_handle_read_bio ram_blk demo_dev demo_snap (demo_bio 0 REQ_OP_READ 36) (demo_used 0) ram1 =
      Some (0, b', demo_used (Suc (Suc (Suc (Suc 0)))), ram1)" using demo_read_bio by blast
  have gm: "snap_read_bio_get_mode ram_blk demo_dev (to_base 2 (demo_bio 0 REQ_OP_READ 36)) (demo_used 0) ram1 =
      Some (0, 3, demo_used (Suc (Suc 0)), ram1)"
    by (simp add: demo_bio_def snap_read_bio_get_mode_def bio_segments_def mode_of_segment.simps demo_lookup)
  from snapshot_read_correct [OF ram_blk_file_laws ram_base_law demo_used_ok demo_bio_whole base tot, of demo_dev ram1] rd gm
  have hold: "pages_hold (\<lambda>_. True) (\<lambda>p. snap_byte (saved (\<lambda>w. w) (demo_used 0) ram1) p (ram1 2 p)) 18432 (bi_io_vec b')"
    and "same_shape (bi_io_vec (demo_bio 0 REQ_OP_READ 36)) (bi_io_vec b')" by (auto simp: demo_bio_def)
  from same_shape_vec [OF this(2)] have len: "vec_len (bi_io_vec b') = 4096" by (simp add: demo_bio_def)
  have "pages_hold (\<lambda>_. True) (\<lambda>p. if p < 20480 then 1 else 7) 18432 (bi_io_vec b')"
  proof (rule pages_hold_cong [OF hold])
    fix p assume p: "18432 \<le> p" "p < 18432 + vec_len (bi_io_vec b')"
    have "p div 4096 = (if p < 20480 then 4 else 5)" using p len by (intro div_nat_eqI) (auto split: if_splits)
    then show "snap_byte (saved (\<lambda>w. w) (demo_used 0) ram1) p (ram1 2 p) = (if p < 20480 then 1 else 7)"
      by (simp add: snap_byte_def demo_snapshot) (simp add: ram1_def)
  qed
  with rd show ?thesis by blast
qed


text \<open>C10: Storing a read clone always returns. Blocks that were saved before and blocks the clone does
  not cover keep what is saved for them, whether it succeeds or not; when it succeeds, block
  \<open>block + i\<close> of the clone is saved, with page \<open>i\<close> unless an earlier version had been saved.\<close>

theorem write_bio_saves_clone:
  assumes "file_laws K fd" and "data_ok fd cm w" and "clone_pages_ok (bi_io_vec b)"
    and "bi_sector b div 8 + length (bi_io_vec b) \<le> 4096 * total_sects cm"
  shows "\<exists>r cm' w'. snap_handle_write_bio K cdev b cm w = Some (r, cm', w') \<and>
     (\<forall>q. saved fd cm w q \<noteq> None \<or> q < bi_sector b div 8 \<or> bi_sector b div 8 + length (bi_io_vec b) \<le> q \<longrightarrow>
        saved fd cm' w' q = saved fd cm w q) \<and>
     (r = 0 \<longrightarrow> data_ok fd cm' w' \<and>
        (\<forall>i<length (bi_io_vec b). saved fd cm w (bi_sector b div 8 + i) = None \<longrightarrow>
           saved fd cm' w' (bi_sector b div 8 + i) = Some (block_of (page_bufs (bi_io_vec b) ! i))))"
  using write_bio_run [OF assms, of cdev] by blast

lemma ram_blk_file_write: "filp cm = Some f \<Longrightarrow> file_write ram_blk dev cm b off n w = Some (0, ram_write f b off n w)"
  by (simp add: file_write_open ram_kern_def)

theorem write_bio_saves_clone_witness:
  "\<exists>cm' w'. snap_handle_write_bio ram_blk demo_dev (demo_bio 1 REQ_OP_WRITE 48) (demo_used 0) ram1 = Some (0, cm', w') \<and>
     saved (\<lambda>w. w) cm' w' 5 = Some (replicate 4096 7) \<and> saved (\<lambda>w. w) cm' w' 6 = Some (block_of (\<lambda>_. 0))"
proof -
  have pages: "clone_pages_ok (bi_io_vec (demo_bio 1 REQ_OP_WRITE 48))" by (simp add: clone_pages_ok_def demo_bio_def)
  have bnd: "bi_sector (demo_bio 1 REQ_OP_WRITE 48) div 8 + length (bi_io_vec (demo_bio 1 REQ_OP_WRITE 48)) \<le> 4096 * total_sects (demo_used 0)"
    by (simp add: demo_bio_def demo_used_def demo_saved_cm_def demo_cm_def)
  have run: "\<exists>cm' w'. snap_handle_write_bio ram_blk demo_dev (demo_bio 1 REQ_OP_WRITE 48) (demo_used 0) ram1 = Some (0, cm', w')"
    by (simp add: snap_handle_write_bio_def demo_bio_def demo_page_def SECTOR_TO_BLOCK_def cow_write_current_def demo_lookup
        cow_write_current_mapping_def cow_write_mapping_def cow_write_data_def ram_blk_file_write [where f = 1]
        demo_used_def [of "Suc 0"] demo_saved_cm_def demo_cm_def sect_at_def set_sect_def)
  from write_bio_saves_clone [OF ram_blk_file_laws demo_used_ok pages bnd, of demo_dev ram1] run
  show ?thesis by (auto simp: demo_bio_def demo_snapshot demo_page_def dest: spec [of _ 5] spec [of _ "0 :: nat"])
qed

text \<open>A sector set marks exactly the blocks it touches: after a successful pass a block has the
  filler mapping 1 if one of the sectors of the set lies in it, and its old mapping otherwise;
  if the pass fails, every block outside still has its old mapping and every block inside has
  its old mapping or 1.\<close>

theorem sset_marks_touched_blocks:
  assumes "file_laws K fd" and "cm_ok cm" and "0 < ss_len ss" and "ss_sect ss + ss_len ss \<le> 8 * (4096 * total_sects cm)"
    and "ss_sect ss + ss_len ss < 2 ^ 63"
  shows "\<exists>r cm' w'. inc_handle_sset K cdev ss cm w = Some (r, cm', w') \<and>
     (r = 0 \<longrightarrow> mapping_view fd cm' w' =
        (\<lambda>q. if \<exists>s\<in>{ss_sect ss ..< ss_sect ss + ss_len ss}. s div 8 = q then 1 else mapping_view fd cm w q)) \<and>
     (\<forall>q. mapping_view fd cm' w' q = mapping_view fd cm w q \<or>
        mapping_view fd cm' w' q = 1 \<and> (\<exists>s\<in>{ss_sect ss ..< ss_sect ss + ss_len ss}. s div 8 = q))"
  using sset_run [OF assms, of cdev w] by blast

theorem sset_marks_touched_blocks_witness:
  "\<exists>cm' w'. inc_handle_sset ram_blk demo_dev \<lparr>ss_sect = 23, ss_len = 2\<rparr> demo_cm ram0 = Some (0, cm', w') \<and>
     mapping_view (\<lambda>w. w) cm' w' 2 = 1 \<and> mapping_view (\<lambda>w. w) cm' w' 3 = 1 \<and> mapping_view (\<lambda>w. w) cm' w' 4 = 0"
proof -
  have h: "0 < ss_len \<lparr>ss_sect = 23, ss_len = 2\<rparr>"
    "ss_sect \<lparr>ss_sect = 23, ss_len = 2\<rparr> + ss_len \<lparr>ss_sect = 23, ss_len = 2\<rparr> \<le> 8 * (4096 * total_sects demo_cm)"
    "ss_sect \<lparr>ss_sect = 23, ss_len = 2\<rparr> + ss_len \<lparr>ss_sect = 23, ss_len = 2\<rparr> < 2 ^ 63" by (simp_all add: demo_cm_def)
  have "\<exists>cm' w'. inc_handle_sset ram_blk demo_dev \<lparr>ss_sect = 23, ss_len = 2\<rparr> demo_cm ram0 = Some (0, cm', w')"
    by (simp add: inc_handle_sset_def SECTOR_TO_BLOCK_def NUM_SEGMENTS_def wrap64_def upt_rec cow_write_filler_mapping_def
        cow_write_mapping_def cow_alloc_section_def demo_cm_def sect_at_def set_sect_def)
  then obtain cm' w' where run: "inc_handle_sset ram_blk demo_dev \<lparr>ss_sect = 23, ss_len = 2\<rparr> demo_cm ram0 = Some (0, cm', w')" by blast
  have sects: "{23..<25 :: nat} = {23, 24}" by auto
  have "mapping_view (\<lambda>w. w) cm' w' = (\<lambda>q. if q = 2 \<or> q = 3 then 1 else 0)"
    using sset_marks_touched_blocks [OF ram_blk_file_laws demo_cm_ok h, of demo_dev ram0] run
    by (auto simp: demo_view sects)
  with run show ?thesis by simp
qed

end
