(* ===== verification/Threads.thy ===== *)
theory Threads
  imports Snap_Read
begin

text \<open>
  The kernel threads of a device (\<^verbatim>\<open>snap_cow_thread\<close>, \<^verbatim>\<open>inc_sset_thread\<close>,
  \<^verbatim>\<open>snap_mrf_thread\<close>): as many rounds as there are queued requests empty the queue, whatever
  fails on the way, and what they have done then.
\<close>

section \<open>The cow thread\<close>

text \<open>Ending a bio touches no file.\<close>

definition endio_law :: "('w, 'k) blk_kern_scheme \<Rightarrow> ('w \<Rightarrow> nat \<Rightarrow> buf) \<Rightarrow> bool" where
  "endio_law K fd \<longleftrightarrow> (\<forall>b r w. fd (bio_endio K b r w) = fd w)"

definition snap_laws :: "('w, 'k) blk_kern_scheme \<Rightarrow> ('w \<Rightarrow> nat \<Rightarrow> buf) \<Rightarrow> ('w \<Rightarrow> nat \<Rightarrow> nat \<Rightarrow> byte) \<Rightarrow> bool" where
  "snap_laws K fd base \<longleftrightarrow> file_laws K fd \<and> base_law K fd base \<and> endio_law K fd"

lemma snap_lawsD:
  assumes "snap_laws K fd base"
  shows "file_laws K fd" "base_law K fd base" "fd (bio_endio K b r w) = fd w"
  using assms by (auto simp: snap_laws_def endio_law_def)

text \<open>A request that fits a device of \<open>T\<close> sections: a clone of whole pages, or a whole read bio.\<close>

definition req_ok :: "nat \<Rightarrow> bio \<Rightarrow> bool" where
  "req_ok T b \<longleftrightarrow>
     (if bio_data_dir b then clone_pages_ok (bi_io_vec b) \<and> bi_sector b div 8 + length (bi_io_vec b) \<le> 4096 * T
      else bio_whole b \<and> 512 * bi_sector b + bi_size b \<le> 4096 * (4096 * T) \<and> 512 * bi_sector b + bi_size b < 2 ^ 64)"

definition store_ready :: "('w \<Rightarrow> nat \<Rightarrow> buf) \<Rightarrow> nat \<Rightarrow> snap_device \<Rightarrow> 'w drv \<Rightarrow> bool" where
  "store_ready fd T dev s \<longleftrightarrow>
     (\<exists>c cm. sd_cow dev = Some c \<and> cows s c = Some cm \<and> devs s (cm_dev cm) \<noteq> None \<and> data_ok fd cm (world s) \<and> total_sects cm = T)"

definition cow_thread_inv :: "('w \<Rightarrow> nat \<Rightarrow> buf) \<Rightarrow> nat \<Rightarrow> nat \<Rightarrow> bool \<Rightarrow> 'w drv \<Rightarrow> bool" where
  "cow_thread_inv fd T a is_failed s \<longleftrightarrow>
     (\<exists>dev. devs s a = Some dev \<and> sd_base_dev dev \<noteq> None \<and> (\<forall>b\<in>set (sd_cow_bios dev). req_ok T b) \<and>
        (\<forall>c. sd_cow dev = Some c \<longrightarrow> cows s c \<noteq> None) \<and>
        (\<not> is_failed \<and> sd_fail_code dev = 0 \<longrightarrow> store_ready fd T dev s))"

text \<open>The first versions the store of a device holds, and what a queued request holds for a block.\<close>

definition cow_saved :: "('w \<Rightarrow> nat \<Rightarrow> buf) \<Rightarrow> 'w drv \<Rightarrow> snap_device \<Rightarrow> nat \<Rightarrow> byte list option" where
  "cow_saved fd s dev =
     (case Option.bind (sd_cow dev) (cows s) of Some cm \<Rightarrow> saved fd cm (world s) | None \<Rightarrow> (\<lambda>_. None))"

definition clone_block :: "bio \<Rightarrow> nat \<Rightarrow> byte list option" where
  "clone_block b q =
     (if bio_data_dir b \<and> bi_sector b div 8 \<le> q \<and> q < bi_sector b div 8 + length (bi_io_vec b)
      then Some (block_of (page_bufs (bi_io_vec b) ! (q - bi_sector b div 8))) else None)"

text \<open>A read is answered with the snapshot: the saved versions, and the base device as it is when the
  read is passed on to it.\<close>

definition answered :: "('w, 'k) blk_kern_scheme \<Rightarrow> ('w \<Rightarrow> nat \<Rightarrow> buf) \<Rightarrow> ('w \<Rightarrow> nat \<Rightarrow> nat \<Rightarrow> byte) \<Rightarrow> bio \<Rightarrow> 'w drv \<Rightarrow> snap_device \<Rightarrow> bio \<Rightarrow> bool" where
  "answered K fd base b s dev b' \<longleftrightarrow>
     (\<exists>d cm (cdev :: snap_device) r1 mode cm1 w1. sd_base_dev dev = Some d \<and> Option.bind (sd_cow dev) (cows s) = Some cm \<and>
        snap_read_bio_get_mode K cdev (to_base d b) cm (world s) = Some (r1, mode, cm1, w1) \<and>
        pages_hold (\<lambda>_. True) (\<lambda>p. snap_byte (cow_saved fd s dev) p (base w1 d p)) (512 * bi_sector b) (bi_io_vec b'))"

lemma answeredI:
  fixes cdev :: snap_device
  assumes "sd_base_dev dev = Some d" "sd_cow dev = Some c" "cows s c = Some cm"
    and "snap_read_bio_get_mode K cdev (to_base d b) cm (world s) = Some (r1, mode, cm1, w1)"
    and "pages_hold (\<lambda>_. True) (\<lambda>p. snap_byte (cow_saved fd s dev) p (base w1 d p)) (512 * bi_sector b) (bi_io_vec b')"
  shows "answered K fd base b s dev b'"
  unfolding answered_def using assms by (intro exI conjI) simp_all

text \<open>What a round does with a request \<open>b\<close>: it leaves the queue; a read is ended, with an error if one
  is recorded and else with the snapshot; a write is counted and, if no error is recorded, each
  of its blocks is stored unless a version of it was.\<close>

definition served :: "('w, 'k) blk_kern_scheme \<Rightarrow> ('w \<Rightarrow> nat \<Rightarrow> buf) \<Rightarrow> ('w \<Rightarrow> nat \<Rightarrow> nat \<Rightarrow> byte) \<Rightarrow> bio \<Rightarrow> 'w drv \<Rightarrow> snap_device
    \<Rightarrow> bool \<Rightarrow> 'w drv \<Rightarrow> snap_device \<Rightarrow> bool" where
  "served K fd base b s dev f' s' dev' \<longleftrightarrow>
     mset (sd_cow_bios dev) = mset (b # sd_cow_bios dev') \<and>
     sd_processed_cnt dev' = sd_processed_cnt dev + (if bio_data_dir b then 1 else 0) \<and>
     (let fine = (\<not> f' \<and> sd_fail_code dev' = 0) in
      if bio_data_dir b
      then fine \<longrightarrow> (\<forall>q. cow_saved fd s' dev' q = (case cow_saved fd s dev q of Some v \<Rightarrow> Some v | None \<Rightarrow> clone_block b q))
      else \<exists>b' w'. world s' = bio_endio K b' (if fine then 0 else wrap_err_io dev') w' \<and>
             bi_private b' = bi_private b \<and> bi_end_io b' = bi_end_io b \<and> same_shape (bi_io_vec b) (bi_io_vec b') \<and>
             (fine \<longrightarrow> cow_saved fd s' dev' = cow_saved fd s dev \<and> answered K fd base b s dev b'))"

text \<open>Rounds that serve the requests \<open>bs\<close> one after the other.\<close>

fun rounds :: "('w, 'k) blk_kern_scheme \<Rightarrow> ('w \<Rightarrow> nat \<Rightarrow> buf) \<Rightarrow> ('w \<Rightarrow> nat \<Rightarrow> nat \<Rightarrow> byte) \<Rightarrow> nat \<Rightarrow> bio list
    \<Rightarrow> bool \<Rightarrow> 'w drv \<Rightarrow> bool \<Rightarrow> 'w drv \<Rightarrow> bool" where
  "rounds K fd base a [] f s f' s' \<longleftrightarrow> f' = f \<and> s' = s"
| "rounds K fd base a (b # bs) f s f' s' \<longleftrightarrow>
     (\<exists>f1 s1 dev dev1. snap_cow_thread_step K a f s = Some (f1, s1) \<and> devs s a = Some dev \<and> devs s1 a = Some dev1 \<and>
        served K fd base b s dev f1 s1 dev1 \<and> rounds K fd base a bs f1 s1 f' s')"

lemma check_failed:
  assumes d: "devs s a = Some dev" and heap: "\<forall>c. sd_cow dev = Some c \<longrightarrow> cows s c \<noteq> None"
  shows "\<exists>f1 s1. thread_check_failed K a f s = Some (f1, s1) \<and> devs s1 = devs s \<and>
     (\<forall>c. cows s c \<noteq> None \<longrightarrow> cows s1 c \<noteq> None) \<and> (f1 \<longleftrightarrow> f \<or> sd_fail_code dev \<noteq> 0) \<and> (\<not> f1 \<longrightarrow> s1 = s)"
proof (cases "\<not> f \<and> sd_fail_code dev \<noteq> 0")
  case False
  with d show ?thesis by (auto simp: thread_check_failed_def tracer_read_fail_state_def)
next
  case True
  show ?thesis
  proof (cases "sd_cow dev")
    case None
    with True d show ?thesis by (auto simp: thread_check_failed_def tracer_read_fail_state_def intro: exI [of _ True])
  next
    case (Some c)
    with heap obtain cm where cm: "cows s c = Some cm" by auto
    obtain cm1 w1 where fr: "cow_free_members K cm (world s) = (cm1, w1)" by fastforce
    have "thread_check_failed K a f s = Some (True, put_cow c cm1 (s\<lparr>world := w1\<rparr>))"
      using True d Some cm fr by (simp add: thread_check_failed_def tracer_read_fail_state_def)
    then show ?thesis using True by (auto simp: put_cow_def intro!: exI [of _ True])
  qed
qed

lemma thread_check_failed_spec:
  assumes inv: "cow_thread_inv fd T a f s" and d: "devs s a = Some dev"
  shows "\<exists>f1 s1. thread_check_failed K a f s = Some (f1, s1) \<and> devs s1 = devs s \<and>
     cow_thread_inv fd T a f1 s1 \<and> (\<not> f1 \<longrightarrow> sd_fail_code dev = 0 \<and> s1 = s)"
proof -
  have heap: "\<forall>c. sd_cow dev = Some c \<longrightarrow> cows s c \<noteq> None" using inv d by (auto simp: cow_thread_inv_def)
  from check_failed [OF d heap, of K f] obtain f1 s1 where
    "thread_check_failed K a f s = Some (f1, s1)" "devs s1 = devs s" "\<forall>c. cows s c \<noteq> None \<longrightarrow> cows s1 c \<noteq> None"
    "f1 \<longleftrightarrow> f \<or> sd_fail_code dev \<noteq> 0" "\<not> f1 \<longrightarrow> s1 = s" by blast
  with inv d show ?thesis by (cases f1) (auto simp: cow_thread_inv_def)
qed

text \<open>What a round takes off the queue.\<close>

lemma delay_read_took:
  assumes "delay_read B b xs = (t, rest)"
  shows "mset (b # xs) = mset (t # rest)" "set rest \<subseteq> set (b # xs)" "t \<in> set (b # xs)"
proof -
  show m: "mset (b # xs) = mset (t # rest)" using delay_read_mset [of B b xs] assms by simp
  from arg_cong [OF m, of set_mset] show "set rest \<subseteq> set (b # xs)" "t \<in> set (b # xs)" by auto
qed

text \<open>The two handlers, on a ready store.\<close>

lemma read_handler:
  assumes laws: "snap_laws K fd base" and req: "req_ok T b" "\<not> bio_data_dir b" and dev: "sd_base_dev dev = Some d"
    and cm: "data_ok fd cm w" "total_sects cm = T"
  shows "snap_handle_read_bio K cdev dev b cm w = None \<and> starved K 4096 \<or>
    (\<exists>r b' cm' w'. snap_handle_read_bio K cdev dev b cm w = Some (r, b', cm', w') \<and> (quiet fd cm w cm' w' \<and>
     bi_private b' = bi_private b \<and> bi_end_io b' = bi_end_io b \<and> same_shape (bi_io_vec b) (bi_io_vec b') \<and>
     (r = 0 \<longrightarrow> (\<exists>r1 mode cm1 w1. snap_read_bio_get_mode K cdev (to_base d b) cm w = Some (r1, mode, cm1, w1) \<and>
        pages_hold (\<lambda>_. True) (\<lambda>p. snap_byte (saved fd cm w) p (base w1 d p)) (512 * bi_sector b) (bi_io_vec b')))))"
proof -
  have req': "bio_whole b" "512 * bi_sector b + bi_size b \<le> 4096 * (4096 * total_sects cm)" "512 * bi_sector b + bi_size b < 2 ^ 64"
    using req cm(2) unfolding req_ok_def by auto
  note spec = snap_handle_read_bio_spec [OF snap_lawsD(1,2) [OF laws] cm(1) req'(1) dev req'(2,3), of cdev]
  show ?thesis
  proof (cases "snap_handle_read_bio K cdev dev b cm w")
    case None
    with spec show ?thesis by simp
  next
    case (Some x)
    then obtain r b' cm' w' where "snap_handle_read_bio K cdev dev b cm w = Some (r, b', cm', w')" by (cases x) auto
    with spec show ?thesis by auto
  qed
qed

text \<open>The store after a clone has been saved, as one function.\<close>

lemma stored_clone:
  assumes "bio_data_dir b"
    and keep: "\<forall>q. S q \<noteq> None \<or> q < bi_sector b div 8 \<or> bi_sector b div 8 + length (bi_io_vec b) \<le> q \<longrightarrow> S' q = S q"
    and new: "\<forall>i<length (bi_io_vec b). S (bi_sector b div 8 + i) = None \<longrightarrow>
           S' (bi_sector b div 8 + i) = Some (block_of (page_bufs (bi_io_vec b) ! i))"
  shows "S' q = (case S q of Some d \<Rightarrow> Some d | None \<Rightarrow> clone_block b q)"
proof (cases "S q = None \<and> bi_sector b div 8 \<le> q \<and> q < bi_sector b div 8 + length (bi_io_vec b)")
  case True
  with new [rule_format, of "q - bi_sector b div 8"] assms(1) show ?thesis
    by (simp add: clone_block_def less_diff_conv2 del: op_write_simps)
next
  case False
  with keep [rule_format, of q] show ?thesis by (auto simp: clone_block_def split: option.split)
qed

lemma write_handler:
  assumes laws: "snap_laws K fd base" and req: "req_ok T b" "bio_data_dir b"
    and cm: "data_ok fd cm w" "total_sects cm = T"
  shows "\<exists>r cm' w'. snap_handle_write_bio K cdev b cm w = Some (r, cm', w') \<and> total_sects cm' = T \<and> cm_dev cm' = cm_dev cm \<and>
     (r = 0 \<longrightarrow> data_ok fd cm' w' \<and>
        (\<forall>q. saved fd cm' w' q = (case saved fd cm w q of Some v \<Rightarrow> Some v | None \<Rightarrow> clone_block b q)))"
proof -
  have req': "clone_pages_ok (bi_io_vec b)" "bi_sector b div 8 + length (bi_io_vec b) \<le> 4096 * total_sects cm"
    using req cm(2) unfolding req_ok_def by auto
  from write_bio_run [OF snap_lawsD(1) [OF laws] cm(1) req', of cdev] cm(2) show ?thesis
    by (fastforce intro!: stored_clone [OF req(2)])
qed

text \<open>One round: it faults for want of memory, or it serves a request and keeps the invariant.\<close>

lemma cow_thread_round:
  assumes laws: "snap_laws K fd base" and inv: "cow_thread_inv fd T a f s"
    and dev: "devs s a = Some dev" and queue: "sd_cow_bios dev \<noteq> []"
  shows "snap_cow_thread_step K a f s = None \<and> starved K 4096 \<or>
    (\<exists>f' s' dev' b. snap_cow_thread_step K a f s = Some (f', s') \<and> cow_thread_inv fd T a f' s' \<and> devs s' a = Some dev' \<and>
       served K fd base b s dev f' s' dev' \<and> (sd_fail_code dev \<noteq> 0 \<longrightarrow> sd_fail_code dev' = sd_fail_code dev) \<and> (f \<longrightarrow> f'))"
    (is "_ \<or> ?ends")
proof -
  have heap0: "\<forall>c. sd_cow dev = Some c \<longrightarrow> cows s c \<noteq> None" using inv dev by (auto simp: cow_thread_inv_def)
  from thread_check_failed_spec [OF inv dev, of K] check_failed [OF dev heap0, of K f] obtain f1 s1 where
    chk: "thread_check_failed K a f s = Some (f1, s1)" and devs1: "devs s1 = devs s"
    and inv1: "cow_thread_inv fd T a f1 s1" and ok1: "\<not> f1 \<longrightarrow> sd_fail_code dev = 0 \<and> s1 = s" and mono: "f \<longrightarrow> f1" by auto
  have d1: "devs s1 a = Some dev" using devs1 dev by simp
  obtain b0 bs where q: "sd_cow_bios dev = b0 # bs" using queue by (cases "sd_cow_bios dev") auto
  obtain b rest where dr: "delay_read range_of b0 bs = (b, rest)" by fastforce
  note took = delay_read_took [OF dr]
  let ?dev = "dev\<lparr>sd_cow_bios := rest\<rparr>"
  obtain d where base: "sd_base_dev dev = Some d" and reqs: "\<forall>x\<in>set (sd_cow_bios dev). req_ok T x"
    and heap: "\<forall>c. sd_cow dev = Some c \<longrightarrow> cows s1 c \<noteq> None"
    and rdy: "\<not> f1 \<Longrightarrow> store_ready fd T dev s1"
    using inv1 d1 ok1 by (auto simp: cow_thread_inv_def)
  have req: "req_ok T b" and rest: "\<forall>x\<in>set rest. req_ok T x" using reqs took q by auto
  have ms: "mset (sd_cow_bios dev) = mset (b # rest)" using took(1) q by simp
  note unf = snap_cow_thread_step_def chk d1 q dr
  consider (rfail) "\<not> bio_data_dir b" f1 | (rok) "\<not> bio_data_dir b" "\<not> f1"
    | (wfail) "bio_data_dir b" f1 | (wok) "bio_data_dir b" "\<not> f1" by blast
  then show ?thesis
  proof cases
    case rfail
    let ?s = "(put_dev a ?dev s1)\<lparr>world := bio_endio K b (wrap_err_io ?dev) (world s1)\<rparr>"
    have "snap_cow_thread_step K a f s = Some (True, ?s)"
      using rfail by (simp add: unf Let_def put_dev_def del: op_write_simps)
    moreover have "cow_thread_inv fd T a True ?s" using base rest heap by (simp add: cow_thread_inv_def put_dev_def)
    moreover have "served K fd base b s dev True ?s ?dev"
      using ms rfail(1) by (auto simp: served_def Let_def same_shape_refl simp del: op_write_simps)
    moreover have "devs ?s a = Some ?dev" "f \<longrightarrow> True" "sd_fail_code dev \<noteq> 0 \<longrightarrow> sd_fail_code ?dev = sd_fail_code dev"
      by (simp_all add: put_dev_def)
    ultimately show ?thesis by blast
  next
    case wfail
    let ?dev' = "?dev\<lparr>sd_processed_cnt := Suc (sd_processed_cnt dev)\<rparr>" and ?s' = "put_dev a (?dev\<lparr>sd_processed_cnt := Suc (sd_processed_cnt dev)\<rparr>) (put_dev a ?dev s1)"
    have "snap_cow_thread_step K a f s = Some (True, ?s')"
      using wfail by (simp add: unf Let_def put_dev_def del: op_write_simps)
    moreover have "cow_thread_inv fd T a True ?s'" using base rest heap by (simp add: cow_thread_inv_def put_dev_def)
    moreover have "served K fd base b s dev True ?s' ?dev'"
      using ms wfail(1) by (simp add: served_def Let_def del: op_write_simps)
    moreover have "devs ?s' a = Some ?dev'" "f \<longrightarrow> True" "sd_fail_code dev \<noteq> 0 \<longrightarrow> sd_fail_code ?dev' = sd_fail_code dev"
      by (simp_all add: put_dev_def)
    ultimately show ?thesis by blast
  next
    case rok
    let ?s = "put_dev a ?dev s"
    from rok ok1 have s1: "s1 = s" "sd_fail_code dev = 0" "f1 = False" by auto
    from rdy [OF rok(2)] s1 obtain c cm where c: "sd_cow dev = Some c" "cows s c = Some cm" "data_ok fd cm (world s)"
      "total_sects cm = T" "devs s (cm_dev cm) \<noteq> None"
      unfolding store_ready_def by blast
    then obtain cdev where cdev: "devs ?s (cm_dev cm) = Some cdev"
      by (cases "cm_dev cm = a") (auto simp: put_dev_def)
    have co: "cow_of ?s ?dev = Some (c, cm, cdev)" using c cdev by (simp add: cow_of_def put_dev_def)
    have based: "sd_base_dev ?dev = Some d" using base by simp
    have sv: "cow_saved fd s dev = saved fd cm (world s)" using c by (simp add: cow_saved_def)
    show ?thesis
    proof (rule fault_or_ends [OF read_handler [OF laws req rok(1) based c(3,4), of cdev]], goal_cases)
      case 1
      have "snap_cow_thread_step K a f s = None"
        using rok co 1(1) by (simp add: unf dev s1 Let_def put_dev_def [of a ?dev] put_dev_def [of a dev] del: op_write_simps)
      with 1(2) show ?thesis by blast
    next
      case rd: (2 r b' cm' w')
      then have cm': "data_ok fd cm' w'" "total_sects cm' = T" "cm_dev cm' = cm_dev cm" "saved fd cm' w' = saved fd cm (world s)"
        and own: "bi_private b' = bi_private b" "bi_end_io b' = bi_end_io b" "same_shape (bi_io_vec b) (bi_io_vec b')"
        using c(4) by (auto simp: quiet_def)
      let ?dev' = "if r \<noteq> 0 then tracer_set_fail_state ?dev r else ?dev"
      let ?w = "bio_endio K b' (if r \<noteq> 0 then wrap_err_io ?dev' else 0) w'"
      let ?s' = "put_dev a ?dev' (put_cow c cm' (?s\<lparr>world := ?w\<rparr>))"
      have same: "sd_base_dev ?dev' = sd_base_dev dev" "sd_cow_bios ?dev' = rest" "sd_cow ?dev' = Some c"
        "sd_processed_cnt ?dev' = sd_processed_cnt dev" "sd_fail_code ?dev' = r"
        using c(1) s1(2) by (simp_all add: tracer_set_fail_state_def)
      have step: "snap_cow_thread_step K a f s = Some (False, ?s')"
        using rok co rd(1) by (simp add: unf dev s1 Let_def put_dev_def [of a ?dev] put_dev_def [of a dev] del: op_write_simps)
      moreover have st: "data_ok fd cm' ?w" "saved fd cm' ?w = saved fd cm (world s)"
        using store_same_files [of fd ?w w' cm', OF snap_lawsD(3) [OF laws]] cm'(1,4) by simp_all
      then have "store_ready fd T ?dev' ?s'"
        using cm' cdev same(3) by (auto simp: store_ready_def put_dev_def put_cow_def)
      then have inv': "cow_thread_inv fd T a False ?s'"
        using same(1-3) base rest by (simp add: cow_thread_inv_def put_dev_def put_cow_def)
      moreover have "cow_saved fd ?s' ?dev' = cow_saved fd s dev"
        using st(2) same(3) sv by (simp add: cow_saved_def put_dev_def put_cow_def)
      moreover have "r = 0 \<longrightarrow> answered K fd base b s dev b'"
        using rd(2) c(1,2) base by (auto simp: sv intro!: answeredI [where cdev = cdev])
      ultimately have "served K fd base b s dev False ?s' ?dev'"
        using ms rok(1) same own unfolding served_def Let_def
        by (auto simp: put_dev_def put_cow_def simp del: op_write_simps intro!: exI [of _ b'] exI [of _ w'])
      moreover have "devs ?s' a = Some ?dev'" "f \<longrightarrow> False" "sd_fail_code dev \<noteq> 0 \<longrightarrow> sd_fail_code ?dev' = sd_fail_code dev"
        using mono s1 by (simp_all add: put_dev_def)
      ultimately show ?thesis using step inv' by blast
    qed
  next
    case wok
    let ?s = "put_dev a ?dev s"
    from wok ok1 have s1: "s1 = s" "sd_fail_code dev = 0" "f1 = False" by auto
    from rdy [OF wok(2)] s1 obtain c cm where c: "sd_cow dev = Some c" "cows s c = Some cm" "data_ok fd cm (world s)"
      "total_sects cm = T" "devs s (cm_dev cm) \<noteq> None"
      unfolding store_ready_def by blast
    then obtain cdev where cdev: "devs ?s (cm_dev cm) = Some cdev"
      by (cases "cm_dev cm = a") (auto simp: put_dev_def)
    have co: "cow_of ?s ?dev = Some (c, cm, cdev)" using c cdev by (simp add: cow_of_def put_dev_def)
    from write_handler [OF laws req wok(1) c(3,4), of cdev] obtain r cm' w' where
      wr: "snap_handle_write_bio K cdev b cm (world s) = Some (r, cm', w')"
      and cm': "total_sects cm' = T" "cm_dev cm' = cm_dev cm" "r = 0 \<longrightarrow> data_ok fd cm' w'"
      and sv: "r = 0 \<longrightarrow> (\<forall>q. saved fd cm' w' q = (case saved fd cm (world s) q of Some v \<Rightarrow> Some v | None \<Rightarrow> clone_block b q))" by auto
    let ?dev1 = "if r \<noteq> 0 then tracer_set_fail_state ?dev r else ?dev"
    let ?dev' = "?dev1\<lparr>sd_processed_cnt := Suc (sd_processed_cnt ?dev1)\<rparr>"
    let ?s' = "put_dev a ?dev' (put_cow c cm' (?s\<lparr>world := w'\<rparr>))"
    have same: "sd_base_dev ?dev' = sd_base_dev dev" "sd_cow_bios ?dev' = rest" "sd_cow ?dev' = Some c"
      "sd_processed_cnt ?dev' = Suc (sd_processed_cnt dev)" "sd_fail_code ?dev' = r"
      using c(1) s1(2) by (simp_all add: tracer_set_fail_state_def)
    have "snap_cow_thread_step K a f s = Some (False, ?s')"
      using wok co wr s1(2)
      by (simp add: unf dev s1 Let_def tracer_read_fail_state_def put_dev_def [of a ?dev] put_dev_def [of a dev] del: op_write_simps)
    moreover have "r = 0 \<Longrightarrow> store_ready fd T ?dev' ?s'"
      using cm' cdev same(3) by (auto simp: store_ready_def put_dev_def put_cow_def)
    then have "cow_thread_inv fd T a False ?s'"
      using same base rest by (simp add: cow_thread_inv_def put_dev_def put_cow_def)
    moreover have "cow_saved fd ?s' ?dev' = saved fd cm' w'" "cow_saved fd s dev = saved fd cm (world s)"
      using same(3) c by (simp_all add: cow_saved_def put_dev_def put_cow_def)
    then have "served K fd base b s dev False ?s' ?dev'"
      using ms wok(1) same sv unfolding served_def Let_def by (auto simp del: op_write_simps)
    moreover have "devs ?s' a = Some ?dev'" "f \<longrightarrow> False" "sd_fail_code dev \<noteq> 0 \<longrightarrow> sd_fail_code ?dev' = sd_fail_code dev"
      using mono s1 by (simp_all add: put_dev_def)
    ultimately show ?thesis by blast
  qed
qed

text \<open>Rounds add up.\<close>

lemma cow_thread_rounds:
  assumes laws: "snap_laws K fd base"
  shows "cow_thread_inv fd T a f s \<Longrightarrow> devs s a = Some dev \<Longrightarrow> n = length (sd_cow_bios dev) \<Longrightarrow>
    snap_cow_thread K a n f s = None \<and> starved K 4096 \<or>
    (\<exists>f' s' dev' bs. snap_cow_thread K a n f s = Some (f', s') \<and> cow_thread_inv fd T a f' s' \<and> devs s' a = Some dev' \<and>
      sd_cow_bios dev' = [] \<and> mset bs = mset (sd_cow_bios dev) \<and> rounds K fd base a bs f s f' s' \<and>
      (sd_fail_code dev \<noteq> 0 \<longrightarrow> sd_fail_code dev' = sd_fail_code dev))"
proof (induction n arbitrary: f s dev)
  case 0
  then show ?case by auto
next
  case (Suc n)
  then have "sd_cow_bios dev \<noteq> []" by auto
  from cow_thread_round [OF laws Suc.prems(1,2) this] show ?case
  proof (elim disjE exE conjE, goal_cases)
    case 1
    then show ?case by simp
  next
    case (2 f1 s1 dev1 b)
    have ms: "mset (sd_cow_bios dev) = mset (b # sd_cow_bios dev1)" using 2(4) by (simp add: served_def)
    from arg_cong [OF ms, of size] Suc.prems(3) have "n = length (sd_cow_bios dev1)" by simp
    from Suc.IH [OF 2(2,3) this] show ?case
    proof (elim disjE exE conjE, goal_cases)
      case 1
      with 2(1) show ?case by simp
    next
      case (2 f' s' dev' bs)
      with \<open>snap_cow_thread_step K a f s = _\<close> \<open>devs s1 a = _\<close> \<open>served K fd base b s dev f1 s1 dev1\<close> Suc.prems(2) have
        "rounds K fd base a (b # bs) f s f' s'" by auto
      moreover have "mset (b # bs) = mset (sd_cow_bios dev)" using 2(5) ms by simp
      ultimately show ?case
        using 2(1-4,7) \<open>snap_cow_thread_step K a f s = _\<close> \<open>sd_fail_code dev \<noteq> 0 \<longrightarrow> sd_fail_code dev1 = _\<close>
        by (intro disjI2 exI [of _ f'] exI [of _ s'] exI [of _ dev'] exI [of _ "b # bs"]) (simp del: rounds.simps)
    qed
  qed
qed

text \<open>What a sequence of rounds has counted.\<close>

lemma rounds_counted:
  "rounds K fd base a bs f s f' s' \<Longrightarrow> devs s a = Some dev \<Longrightarrow> devs s' a = Some dev' \<Longrightarrow>
     sd_processed_cnt dev' = sd_processed_cnt dev + size (filter_mset bio_data_dir (mset bs))"
proof (induction bs arbitrary: f s dev)
  case (Cons b bs)
  from Cons.prems(1,2) obtain f1 s1 dev1 where r: "devs s1 a = Some dev1" "served K fd base b s dev f1 s1 dev1" "rounds K fd base a bs f1 s1 f' s'"
    by auto
  with Cons.IH [OF r(3,1) Cons.prems(3)] show ?case by (simp add: served_def del: op_write_simps)
qed simp

section \<open>The thread of incremental mode\<close>

definition sset_ok :: "nat \<Rightarrow> sector_set \<Rightarrow> bool" where
  "sset_ok T ss \<longleftrightarrow> 0 < ss_len ss \<and> ss_sect ss + ss_len ss \<le> 8 * (4096 * T) \<and> ss_sect ss + ss_len ss < 2 ^ 63"

definition touched :: "sector_set \<Rightarrow> nat \<Rightarrow> bool" where
  "touched ss q \<longleftrightarrow> (\<exists>s\<in>{ss_sect ss ..< ss_sect ss + ss_len ss}. s div 8 = q)"

definition mark :: "sector_set \<Rightarrow> (nat \<Rightarrow> nat) \<Rightarrow> nat \<Rightarrow> nat" where
  "mark ss view = (\<lambda>q. if touched ss q then 1 else view q)"

text \<open>As long as nothing has failed the manager stands for the mappings \<open>view\<close>.\<close>

definition inc_inv :: "('w \<Rightarrow> nat \<Rightarrow> buf) \<Rightarrow> nat \<Rightarrow> nat \<Rightarrow> snap_device \<Rightarrow> (nat \<Rightarrow> nat) \<Rightarrow> bool \<Rightarrow> 'w drv \<Rightarrow> bool" where
  "inc_inv fd T a dev view is_failed s \<longleftrightarrow> devs s a = Some dev \<and> (is_failed \<longrightarrow> sd_fail_code dev \<noteq> 0) \<and>
     (\<forall>ss\<in>set (sd_pending_ssets dev). sset_ok T ss) \<and> (\<forall>c. sd_cow dev = Some c \<longrightarrow> cows s c \<noteq> None) \<and>
     (sd_fail_code dev = 0 \<longrightarrow>
        (\<exists>c cm. sd_cow dev = Some c \<and> cows s c = Some cm \<and> devs s (cm_dev cm) \<noteq> None \<and> cm_ok cm \<and> total_sects cm = T \<and>
           mapping_view fd cm (world s) = view))"

lemma sset_handler:
  assumes "file_laws K fd" "cm_ok cm" "sset_ok (total_sects cm) ss"
  shows "\<exists>r cm' w'. inc_handle_sset K cdev ss cm w = Some (r, cm', w') \<and> cm_ok cm' \<and> total_sects cm' = total_sects cm \<and>
     cm_dev cm' = cm_dev cm \<and> (r = 0 \<longrightarrow> mapping_view fd cm' w' = mark ss (mapping_view fd cm w))"
proof -
  have "0 < ss_len ss" "ss_sect ss + ss_len ss \<le> 8 * (4096 * total_sects cm)" "ss_sect ss + ss_len ss < 2 ^ 63"
    using assms(3) by (simp_all add: sset_ok_def)
  from sset_run [OF assms(1,2) this, of cdev w] show ?thesis unfolding mark_def touched_def by blast
qed

lemma inc_thread_round:
  assumes laws: "file_laws K fd" and inv: "inc_inv fd T a dev view f s" and q: "sd_pending_ssets dev = ss # rest"
  shows "\<exists>f' s' dev'. inc_sset_thread_step K a f s = Some (f', s') \<and> inc_inv fd T a dev' (mark ss view) f' s' \<and>
     sd_pending_ssets dev' = rest \<and> (sd_fail_code dev \<noteq> 0 \<longrightarrow> sd_fail_code dev' = sd_fail_code dev)"
proof -
  have d: "devs s a = Some dev" and heap: "\<forall>c. sd_cow dev = Some c \<longrightarrow> cows s c \<noteq> None"
    and ok: "sset_ok T ss" "\<forall>x\<in>set rest. sset_ok T x" using inv q by (auto simp: inc_inv_def)
  from check_failed [OF d heap, of K f] obtain f1 s1 where
    chk: "thread_check_failed K a f s = Some (f1, s1)" and s1: "devs s1 = devs s" "\<forall>c. cows s c \<noteq> None \<longrightarrow> cows s1 c \<noteq> None"
    and f1: "f1 \<longleftrightarrow> f \<or> sd_fail_code dev \<noteq> 0" and same: "\<not> f1 \<longrightarrow> s1 = s" by blast
  let ?dev = "dev\<lparr>sd_pending_ssets := rest\<rparr>"
  have d1: "devs s1 a = Some dev" using s1 d by simp
  note unf = inc_sset_thread_step_def chk d1 q
  show ?thesis
  proof (cases f1)
    case True
    then have "sd_fail_code dev \<noteq> 0" using f1 inv by (auto simp: inc_inv_def)
    then have "inc_inv fd T a ?dev (mark ss view) True (put_dev a ?dev s1)"
      using ok(2) heap s1(2) by (auto simp: inc_inv_def put_dev_def)
    moreover have "inc_sset_thread_step K a f s = Some (True, put_dev a ?dev s1)"
      using True by (simp add: unf Let_def)
    ultimately show ?thesis
      by (intro exI [of _ True] exI [of _ "put_dev a ?dev s1"] exI [of _ ?dev] conjI) simp_all
  next
    case False
    then have s: "s1 = s" "sd_fail_code dev = 0" "f1 = False" using same f1 by auto
    let ?s = "put_dev a ?dev s"
    from inv s(2) obtain c cm where c: "sd_cow dev = Some c" "cows s c = Some cm" "devs s (cm_dev cm) \<noteq> None" "cm_ok cm"
      "total_sects cm = T" "mapping_view fd cm (world s) = view" unfolding inc_inv_def by blast
    then obtain cdev where cdev: "devs ?s (cm_dev cm) = Some cdev"
      by (cases "cm_dev cm = a") (auto simp: put_dev_def)
    have co: "cow_of ?s ?dev = Some (c, cm, cdev)" using c cdev by (simp add: cow_of_def put_dev_def)
    from sset_handler [OF laws c(4), of ss cdev "world s"] ok(1) c(5,6) obtain r cm' w' where
      hd: "inc_handle_sset K cdev ss cm (world s) = Some (r, cm', w')" and cm': "cm_ok cm'" "total_sects cm' = T"
      "cm_dev cm' = cm_dev cm" "r = 0 \<longrightarrow> mapping_view fd cm' w' = mark ss view" by auto
    let ?dev' = "if r \<noteq> 0 then tracer_set_fail_state ?dev r else ?dev"
    let ?s' = "put_dev a ?dev' (put_cow c cm' (?s\<lparr>world := w'\<rparr>))"
    have "inc_sset_thread_step K a f s = Some (False, ?s')"
      using co hd by (simp add: unf d s Let_def put_dev_def [of a ?dev] put_dev_def [of a dev])
    moreover have "sd_fail_code ?dev' = r" "sd_pending_ssets ?dev' = rest" "sd_cow ?dev' = Some c"
      using s(2) c(1) by (simp_all add: tracer_set_fail_state_def)
    then have "inc_inv fd T a ?dev' (mark ss view) False ?s'" "sd_pending_ssets ?dev' = rest"
      using ok(2) cm' cdev by (auto simp: inc_inv_def put_dev_def put_cow_def)
    ultimately show ?thesis using s(2) by blast
  qed
qed

lemma inc_thread_rounds:
  assumes laws: "file_laws K fd"
  shows "inc_inv fd T a dev view f s \<Longrightarrow> sd_pending_ssets dev = sss \<Longrightarrow>
    \<exists>f' s' dev'. inc_sset_thread K a (length sss) f s = Some (f', s') \<and> sd_pending_ssets dev' = [] \<and>
      inc_inv fd T a dev' (fold mark sss view) f' s' \<and> (sd_fail_code dev \<noteq> 0 \<longrightarrow> sd_fail_code dev' = sd_fail_code dev)"
proof (induction sss arbitrary: dev view f s)
  case Nil
  then show ?case by auto
next
  case (Cons ss sss)
  from inc_thread_round [OF laws Cons.prems] obtain f1 s1 dev1 where
    st: "inc_sset_thread_step K a f s = Some (f1, s1)" "inc_inv fd T a dev1 (mark ss view) f1 s1" "sd_pending_ssets dev1 = sss"
    "sd_fail_code dev \<noteq> 0 \<longrightarrow> sd_fail_code dev1 = sd_fail_code dev" by blast
  from Cons.IH [OF st(2,3)] st(1,4) show ?case by fastforce
qed

lemma fold_mark: "fold mark sss view q = (if \<exists>ss\<in>set sss. touched ss q then 1 else view q)"
  by (induction sss arbitrary: view) (auto simp: mark_def)

section \<open>The thread that releases the original writes\<close>

lemma mrf_thread_rounds:
  "devs s a = Some dev \<Longrightarrow> sd_orig_bios dev = bs \<Longrightarrow> sd_orig_mrf dev = Some m \<Longrightarrow>
    snap_mrf_thread K a (length bs) s = Some (s\<lparr>devs := (devs s)(a \<mapsto> dev\<lparr>sd_orig_bios := []\<rparr>),
      world := fold (\<lambda>b w. snd (call_mrf K m (b\<lparr>bi_passthrough := True\<rparr>) w)) bs (world s)\<rparr>)"
proof (induction bs arbitrary: s dev)
  case Nil
  then have "dev\<lparr>sd_orig_bios := []\<rparr> = dev" by (intro snap_device.equality) simp_all
  with Nil have "(devs s)(a \<mapsto> dev\<lparr>sd_orig_bios := []\<rparr>) = devs s" by (simp add: fun_upd_idem)
  then show ?case by simp
next
  case (Cons b bs)
  let ?dev = "dev\<lparr>sd_orig_bios := bs\<rparr>"
  let ?s = "put_dev a ?dev (s\<lparr>world := snd (call_mrf K m (b\<lparr>bi_passthrough := True\<rparr>) (world s))\<rparr>)"
  have "snap_mrf_thread_step K a s = Some ?s" using Cons.prems by (simp add: snap_mrf_thread_step_def split_beta)
  moreover have "(devs ?s)(a \<mapsto> ?dev\<lparr>sd_orig_bios := []\<rparr>) = (devs s)(a \<mapsto> dev\<lparr>sd_orig_bios := []\<rparr>)"
    by (simp add: put_dev_def)
  note Cons.IH [of ?s ?dev, unfolded this]
  ultimately show ?case using Cons.prems(3) by (simp add: put_dev_def)
qed


section \<open>Properties\<close>

text \<open>C13: The cow thread keeps up: as many rounds of its loop as requests are queued return, unless the
  block buffer of a read cannot be allocated, which the code does not check, and leave the
  queue empty, whether the store works, fails half-way or had failed before; the first error
  recorded for the device stays. The rounds have served every request that was queued, one
  after the other: each read has been ended, with the snapshot as it was at its round while no
  error is recorded and with the device's error code else; each write has been counted as
  processed, and while no error is recorded each of its blocks is in the store, with the
  earlier version if there was one.\<close>

theorem cow_thread_drains_queue:
  assumes "snap_laws K fd base" and "cow_thread_inv fd T a f s" and "devs s a = Some dev"
  shows "snap_cow_thread K a (length (sd_cow_bios dev)) f s = None \<and> starved K 4096 \<or>
    (\<exists>f' s' dev' bs. snap_cow_thread K a (length (sd_cow_bios dev)) f s = Some (f', s') \<and> cow_thread_inv fd T a f' s' \<and>
     devs s' a = Some dev' \<and> sd_cow_bios dev' = [] \<and>
     mset bs = mset (sd_cow_bios dev) \<and> rounds K fd base a bs f s f' s' \<and>
     sd_processed_cnt dev' = sd_processed_cnt dev + size (filter_mset bio_data_dir (mset (sd_cow_bios dev))) \<and>
     (sd_fail_code dev \<noteq> 0 \<longrightarrow> sd_fail_code dev' = sd_fail_code dev))"
proof -
  note spec = cow_thread_rounds [OF assms refl]
  show ?thesis
  proof (cases "snap_cow_thread K a (length (sd_cow_bios dev)) f s")
    case (Some x)
    then obtain f' s' where "snap_cow_thread K a (length (sd_cow_bios dev)) f s = Some (f', s')" by (cases x) auto
    with spec rounds_counted [OF _ assms(3)] show ?thesis by fastforce
  qed (use spec in simp)
qed

lemma ram_snap_laws: "snap_laws ram_blk (\<lambda>w. w) (\<lambda>w. w)"
  by (simp add: snap_laws_def endio_law_def ram_blk_file_laws ram_base_law)

lemma demo_thread_inv:
  "cow_thread_inv (\<lambda>w. w) 1 0 False (demo_drv (demo_snap\<lparr>sd_cow_bios := [demo_bio 0 REQ_OP_READ 36, demo_bio 1 REQ_OP_WRITE 48]\<rparr>) (demo_used 0) ram1)"
proof -
  have "data_ok (\<lambda>w. w) (demo_used 0) ram1" by (rule demo_used_ok)
  moreover have "total_sects (demo_used 0) = 1" "cm_dev (demo_used 0) = 0"
    by (simp_all add: demo_used_def demo_saved_cm_def demo_cm_def)
  moreover have "req_ok 1 (demo_bio 0 REQ_OP_READ 36)" "req_ok 1 (demo_bio 1 REQ_OP_WRITE 48)"
    using demo_bio_whole [of 0 REQ_OP_READ 36] by (simp_all add: req_ok_def clone_pages_ok_def) (simp_all add: demo_bio_def)
  ultimately show ?thesis by (simp add: cow_thread_inv_def store_ready_def demo_drv_def demo_snap_def zero_dev_def)
qed

theorem cow_thread_drains_queue_witness:
  "\<exists>f' s' dev'. snap_cow_thread ram_blk 0 2 False
       (demo_drv (demo_snap\<lparr>sd_cow_bios := [demo_bio 0 REQ_OP_READ 36, demo_bio 1 REQ_OP_WRITE 48]\<rparr>) (demo_used 0) ram1) = Some (f', s') \<and>
     devs s' 0 = Some dev' \<and> sd_cow_bios dev' = [] \<and> sd_processed_cnt dev' = 1"
proof -
  let ?dev = "demo_snap\<lparr>sd_cow_bios := [demo_bio 0 REQ_OP_READ 36, demo_bio 1 REQ_OP_WRITE 48]\<rparr>"
  have d: "devs (demo_drv ?dev (demo_used 0) ram1) 0 = Some ?dev" by (simp add: demo_drv_def)
  have len: "length (sd_cow_bios ?dev) = 2" "sd_processed_cnt ?dev + size (filter_mset bio_data_dir (mset (sd_cow_bios ?dev))) = 1"
    by (simp_all add: demo_snap_def zero_dev_def demo_bio_def)
  from cow_thread_drains_queue [OF ram_snap_laws demo_thread_inv d, unfolded len] show ?thesis by auto
qed

text \<open>C19: The thread of incremental mode keeps up: as many rounds as sector sets are pending always
  return and leave the list empty, and if no error has been recorded by then, the index marks
  exactly the blocks marked before and the blocks touched by one of the sets.\<close>

theorem inc_thread_marks_all:
  assumes "file_laws K fd" and "inc_inv fd T a dev view f s"
  shows "\<exists>f' s' dev'. inc_sset_thread K a (length (sd_pending_ssets dev)) f s = Some (f', s') \<and> sd_pending_ssets dev' = [] \<and>
     inc_inv fd T a dev' (\<lambda>q. if \<exists>ss\<in>set (sd_pending_ssets dev). touched ss q then 1 else view q) f' s' \<and>
     (sd_fail_code dev \<noteq> 0 \<longrightarrow> sd_fail_code dev' = sd_fail_code dev)"
  using inc_thread_rounds [OF assms refl] unfolding fold_mark [abs_def] by blast

theorem inc_thread_marks_all_witness:
  "\<exists>f' s' dev'. inc_sset_thread ram_blk 0 1 False
       (demo_drv (demo_snap\<lparr>sd_pending_ssets := [\<lparr>ss_sect = 23, ss_len = 2\<rparr>]\<rparr>) demo_cm ram0) = Some (f', s') \<and>
     devs s' 0 = Some dev' \<and> sd_pending_ssets dev' = []"
proof -
  let ?dev = "demo_snap\<lparr>sd_pending_ssets := [\<lparr>ss_sect = 23, ss_len = 2\<rparr>]\<rparr>"
  have "inc_inv (\<lambda>w. w) 1 0 ?dev (\<lambda>_. 0) False (demo_drv ?dev demo_cm ram0)"
    using demo_cm_ok demo_view by (simp add: inc_inv_def demo_drv_def demo_snap_def zero_dev_def sset_ok_def) (simp add: demo_cm_def)
  from inc_thread_marks_all [OF ram_blk_file_laws this] show ?thesis by (auto simp: inc_inv_def)
qed

text \<open>C20: The thread that releases intercepted writes hands every queued write, in the order of the
  queue and marked as already seen, to the original make-request function, and leaves the
  queue empty, provided that function is still set.\<close>

theorem mrf_thread_releases_in_order:
  assumes "devs s a = Some dev" and "sd_orig_mrf dev = Some m"
  shows "snap_mrf_thread K a (length (sd_orig_bios dev)) s = Some (s\<lparr>devs := (devs s)(a \<mapsto> dev\<lparr>sd_orig_bios := []\<rparr>),
     world := fold (\<lambda>b w. snd (call_mrf K m (b\<lparr>bi_passthrough := True\<rparr>) w)) (sd_orig_bios dev) (world s)\<rparr>)"
  by (rule mrf_thread_rounds [OF assms(1) refl assms(2)])

theorem mrf_thread_releases_in_order_witness:
  "\<exists>s' dev'. snap_mrf_thread ram_blk 0 1 (demo_drv (demo_snap\<lparr>sd_orig_bios := [demo_bio 1 REQ_OP_WRITE 48]\<rparr>) (demo_used 0) ram1) = Some s' \<and>
     devs s' 0 = Some dev' \<and> sd_orig_bios dev' = []"
proof -
  let ?dev = "demo_snap\<lparr>sd_orig_bios := [demo_bio 1 REQ_OP_WRITE 48]\<rparr>"
  have "devs (demo_drv ?dev (demo_used 0) ram1) 0 = Some ?dev" "sd_orig_mrf ?dev = Some NullMrf" "length (sd_orig_bios ?dev) = 1"
    by (simp_all add: demo_drv_def demo_snap_def)
  from mrf_thread_releases_in_order [OF this(1,2), of ram_blk] this(3) show ?thesis by auto
qed


text \<open>A manager with the mappings \<open>m\<close> in memory and the write head at \<open>k\<close>.\<close>

definition demo_at :: "(nat \<Rightarrow> nat) \<Rightarrow> nat \<Rightarrow> nat \<Rightarrow> nat \<Rightarrow> cow_manager" where
  "demo_at m k u n = demo_saved_cm\<lparr>sects := [\<lparr>has_data = True, usage = u, mappings = Some m\<rparr>], curr_pos := k, nr_changed_blocks := n\<rparr>"

lemma demo_at_save:
  assumes "p < 4096" "k < 200" "u < 1000" "n < 1000" "m p = 0"
  shows "cow_write_current ram_blk dev (demo_at m k u n) p b w =
     Some (0, demo_at (m(p := k)) (Suc k) (Suc (Suc u)) (Suc n), ram_write 1 b (4096 * k) 4096 w)"
proof -
  have rd: "cow_read_mapping ram_blk dev (demo_at m k u n) p w = Some (0, 0, demo_at m k (Suc u) n, w)"
    using assms by (simp add: cow_read_mapping_def demo_at_def demo_saved_cm_def demo_cm_def sect_at_def set_sect_def)
  have wm: "cow_write_mapping ram_blk dev (demo_at m k (Suc u) n) p k w =
      Some (0, demo_at (m(p := k)) k (Suc (Suc u)) (Suc n), w)"
    using assms by (simp add: cow_write_mapping_def demo_at_def demo_saved_cm_def demo_cm_def sect_at_def set_sect_def)
  have wd: "cow_write_data ram_blk dev (demo_at (m(p := k)) k (Suc (Suc u)) (Suc n)) b w =
      Some (0, demo_at (m(p := k)) (Suc k) (Suc (Suc u)) (Suc n), ram_write 1 b (4096 * k) 4096 w)"
    using assms by (simp add: cow_write_data_def demo_at_def demo_saved_cm_def demo_cm_def ram_blk_file_write [where f = 1] mult.commute)
  have "curr_pos (demo_at m k (Suc u) n) = k" by (simp add: demo_at_def)
  with rd wm wd show ?thesis by (simp add: cow_write_current_def cow_write_current_mapping_def)
qed

definition demo_clone :: "nat \<Rightarrow> nat \<Rightarrow> nat \<Rightarrow> byte \<Rightarrow> bio" where
  "demo_clone i sect n v = (demo_bio i REQ_OP_WRITE sect)\<lparr>bi_size := 4096 * n,
     bi_io_vec := replicate n \<lparr>bv_page = Some (demo_page\<lparr>pg_data := (\<lambda>_. v)\<rparr>), bv_len = 4096, bv_offset = 0\<rparr>\<rparr>"

lemma demo_save_three:
  "\<exists>cm' w'. snap_handle_write_bio ram_blk dev (demo_clone 2 0 3 6) (demo_at (\<lambda>_. 0) 9 0 0) w = Some (0, cm', w')"
proof -
  have vec: "clone_pages_ok (bi_io_vec (demo_clone 2 0 3 6))" "length (bi_io_vec (demo_clone 2 0 3 6)) = 3"
    "page_bufs (bi_io_vec (demo_clone 2 0 3 6)) = [\<lambda>_. 6, \<lambda>_. 6, \<lambda>_. 6]"
    by (simp_all add: clone_pages_ok_def demo_clone_def page_bufs_def numeral_3_eq_3)
  have up: "[0 ..< 0 + 3] = [0 :: nat, 1, 2]" by (simp add: upt_rec)
  have sect: "SECTOR_TO_BLOCK (bi_sector (demo_clone 2 0 3 6)) = 0" by (simp add: SECTOR_TO_BLOCK_def demo_clone_def demo_bio_def)
  show ?thesis
    unfolding snap_handle_write_bio_def save_segments_run [OF vec(1)] vec sect up
    by (simp add: demo_at_save)
qed

lemma demo_at_ok: "data_ok (\<lambda>w. w) (demo_at (\<lambda>_. 0) 9 0 0) w" and demo_at_saved: "saved (\<lambda>w. w) (demo_at (\<lambda>_. 0) 9 0 0) w = (\<lambda>_. None)"
proof -
  have v: "mapping_view (\<lambda>w. w) (demo_at (\<lambda>_. 0) 9 0 0) w = (\<lambda>_. 0)"
    by (rule ext) (auto simp: mapping_view_def demo_at_def demo_saved_cm_def demo_cm_def sect_word_def less_mult_imp_div_less)
  then show "saved (\<lambda>w. w) (demo_at (\<lambda>_. 0) 9 0 0) w = (\<lambda>_. None)" by (intro ext) (simp add: saved_def)
  have "cm_ok (demo_at (\<lambda>_. 0) 9 0 0)" by (simp add: cm_ok_def demo_at_def demo_saved_cm_def demo_cm_def sect_ok_def)
  with v show "data_ok (\<lambda>w. w) (demo_at (\<lambda>_. 0) 9 0 0) w"
    by (simp add: data_ok_def) (simp add: demo_at_def demo_saved_cm_def demo_cm_def)
qed

text \<open>C22: Delaying a read lets a newer clone overtake an older one: with a read of block 0, a clone of
  blocks 2 and 3 and a later clone of blocks 0 to 2 queued in this order, the first round of
  the cow thread stores the later clone (the only one that overlaps the read), and block 2 is
  saved with the later clone's data although the older clone of it is still in the queue.\<close>

theorem newer_clone_overtakes:
  "\<exists>s' dev' cm'. snap_cow_thread ram_blk 0 1 False
       (demo_drv (demo_snap\<lparr>sd_cow_bios := [demo_bio 0 REQ_OP_READ 0, demo_clone 1 16 2 5, demo_clone 2 0 3 6]\<rparr>)
          (demo_at (\<lambda>_. 0) 9 0 0) ram0) = Some (False, s') \<and>
     devs s' 0 = Some dev' \<and> sd_cow_bios dev' = [demo_clone 1 16 2 5, demo_bio 0 REQ_OP_READ 0] \<and>
     cows s' 50 = Some cm' \<and> saved (\<lambda>w. w) cm' (world s') 2 = Some (block_of (\<lambda>_. 6))"
proof -
  let ?dev = "demo_snap\<lparr>sd_cow_bios := [demo_bio 0 REQ_OP_READ 0, demo_clone 1 16 2 5, demo_clone 2 0 3 6]\<rparr>"
  let ?cm = "demo_at (\<lambda>_. 0) 9 0 0"
  let ?s = "demo_drv ?dev ?cm ram0" and ?rest = "[demo_clone 1 16 2 5, demo_bio 0 REQ_OP_READ 0]"
  let ?dev1 = "?dev\<lparr>sd_cow_bios := ?rest\<rparr>"
  have dr: "delay_read range_of (demo_bio 0 REQ_OP_READ 0) [demo_clone 1 16 2 5, demo_clone 2 0 3 6] = (demo_clone 2 0 3 6, ?rest)"
    by (simp add: delay_read_def range_of_def demo_bio_def demo_clone_def bio_overlap_def)
  have f: "sd_fail_code demo_snap = 0" "sd_cow demo_snap = Some 50" by (simp_all add: demo_snap_def zero_dev_def)
  obtain cm' w' where wr: "snap_handle_write_bio ram_blk ?dev1 (demo_clone 2 0 3 6) ?cm ram0 = Some (0, cm', w')"
    using demo_save_three by blast
  have vec: "clone_pages_ok (bi_io_vec (demo_clone 2 0 3 6))" by (simp add: clone_pages_ok_def demo_clone_def)
  have "bi_sector (demo_clone 2 0 3 6) div 8 + length (bi_io_vec (demo_clone 2 0 3 6)) \<le> 4096 * total_sects ?cm"
    by (simp add: demo_clone_def demo_bio_def demo_at_def demo_saved_cm_def demo_cm_def)
  from write_bio_run [OF ram_blk_file_laws demo_at_ok vec this, of ?dev1 ram0] wr
  have "\<forall>i<3. saved (\<lambda>w. w) cm' w' (0 + i) = Some (block_of (page_bufs (bi_io_vec (demo_clone 2 0 3 6)) ! i))"
    by (simp add: demo_at_saved) (simp add: demo_clone_def demo_bio_def)
  then have blk: "saved (\<lambda>w. w) cm' w' 2 = Some (block_of (\<lambda>_. 6))"
    by (auto simp: demo_clone_def page_bufs_def numeral_3_eq_3 dest: spec [of _ 2])
  let ?dev2 = "?dev1\<lparr>sd_processed_cnt := Suc (sd_processed_cnt ?dev1)\<rparr>"
  have co: "cow_of (put_dev 0 ?dev1 ?s) ?dev1 = Some (50, ?cm, ?dev1)"
    using f by (simp add: cow_of_def put_dev_def demo_drv_def demo_at_def demo_saved_cm_def demo_cm_def)
  have d: "devs ?s 0 = Some ?dev" "world ?s = ram0" by (simp_all add: demo_drv_def)
  then have chk: "thread_check_failed ram_blk 0 False ?s = Some (False, ?s)"
    using f by (simp add: thread_check_failed_def tracer_read_fail_state_def)
  have wd: "world (put_dev 0 ?dev1 ?s) = ram0" by (simp add: put_dev_def demo_drv_def)
  have wrt: "bio_data_dir (demo_clone 2 0 3 6)" by (simp add: demo_clone_def demo_bio_def)
  have q: "sd_cow_bios ?dev = [demo_bio 0 REQ_OP_READ 0, demo_clone 1 16 2 5, demo_clone 2 0 3 6]" by simp
  have "snap_cow_thread_step ram_blk 0 False ?s =
      Some (False, put_dev 0 ?dev2 (put_cow 50 cm' ((put_dev 0 ?dev1 ?s)\<lparr>world := w'\<rparr>)))"
    unfolding snap_cow_thread_step_def chk using d(1) q dr wrt co wr wd f
    by (simp add: Let_def tracer_read_fail_state_def del: op_write_simps)
  then show ?thesis using blk by (simp add: put_dev_def put_cow_def)
qed

end
