(* ===== verification/Clone_Image.thy ===== *)
theory Clone_Image
  imports Threads
begin

text \<open>
  What the snapshot shows while read clones are still queued: a block counts as the first
  version the driver has of it, in the cow file, else in the first queued clone that covers
  it, else on the base device. Storing a clone moves a version from the queue to the cow
  file and changes nothing of this image, unless it overtakes an older clone of the same
  block in the queue; the lemmas here are about one step each.
\<close>

section \<open>Writing the cow file changes no other file\<close>

lemma cow_write_data_frame:
  assumes laws: "file_laws K fd" and f: "filp cm = Some f" and "cow_write_data K dev cm b w = Some (r, cm', w')"
  shows "(\<forall>g. g \<noteq> f \<longrightarrow> fd w' g = fd w g) \<and> cow_file cm' = cow_file cm"
proof (cases "file_max cm \<le> wrap64 (curr_pos cm * 4096)")
  case False
  with assms(3) obtain r1 w1 where wr: "file_write K dev cm b (wrap64 (curr_pos cm * 4096)) 4096 w = Some (r1, w1)"
    and "w' = w1" "cow_file cm' = cow_file cm"
    by (auto simp: cow_write_data_def cow_file_def Let_def split: bind_splits if_splits)
  with file_write_laws(1) [OF laws f wr] show ?thesis by auto
qed (use assms(3) in \<open>auto simp: cow_write_data_def Let_def\<close>)

lemma cow_write_current_frame:
  assumes laws: "file_laws K fd" and good: "data_ok fd cm w" and block: "block < 4096 * total_sects cm"
    and run: "cow_write_current K dev cm block b w = Some (r, cm', w')"
  shows "(\<forall>g. g \<noteq> cow_file cm \<longrightarrow> fd w' g = fd w g) \<and> cow_file cm' = cow_file cm"
proof -
  note ok = data_okD(1) [OF good]
  obtain r1 v cm1 w1 where rd: "cow_read_mapping K dev cm block w = Some (r1, v, cm1, w1)"
    and st: "cache_step fd cm w cm1 w1"
    using cow_read_mapping_spec [OF laws ok block] by blast
  have fr1: "\<forall>g. g \<noteq> cow_file cm \<longrightarrow> fd w1 g = fd w g" and cf1: "cow_file cm1 = cow_file cm" and cp: "curr_pos cm1 = curr_pos cm"
    and ok1: "cm_ok cm1" and b1: "block < 4096 * total_sects cm1"
    using st block by (auto simp: cache_step_def same_outside_index_def dest: same_but_sects_fields)
  have v64: "curr_pos cm1 < 2 ^ 64" using data_okD(3) [OF good] cp by simp
  show ?thesis
  proof (cases "r1 \<noteq> 0 \<or> v \<noteq> 0")
    case True
    with rd run fr1 cf1 show ?thesis by (auto simp: cow_write_current_def split: if_splits)
  next
    case False
    from cow_write_mapping_spec [OF laws ok1 b1 v64, of dev w1] obtain r2 cm2 w2 where
      wm: "cow_write_mapping K dev cm1 block (curr_pos cm1) w1 = Some (r2, cm2, w2)"
      and fr2: "same_outside_index fd cm1 w1 w2" "cow_file cm2 = cow_file cm1" "cm_ok cm2"
      by (auto simp: cache_step_def dest!: same_but_sects_fields(14))
    have fr: "\<forall>g. g \<noteq> cow_file cm \<longrightarrow> fd w2 g = fd w g" using fr1 fr2(1) cf1 by (auto simp: same_outside_index_def)
    from run rd False wm have go: "(if r2 \<noteq> 0 then Some (r2, cm2, w2) else cow_write_data K dev cm2 b w2) = Some (r, cm', w')"
      by (simp add: cow_write_current_def cow_write_current_mapping_def)
    show ?thesis
    proof (cases "r2 = 0")
      case True
      obtain f where f: "filp cm2 = Some f" using fr2(3) by (auto simp: cm_ok_def)
      then have "f = cow_file cm" using fr2(2) cf1 by (simp add: cow_file_def)
      with cow_write_data_frame [OF laws f] go True fr fr2(2) cf1 show ?thesis by fastforce
    qed (use go fr fr2 cf1 in auto)
  qed
qed

lemma save_run_frame:
  assumes laws: "file_laws K fd"
  shows "data_ok fd cm w \<Longrightarrow> fst ` set pbs \<subseteq> {..<4096 * total_sects cm} \<Longrightarrow>
     for_each (\<lambda>(p, b) (cm, w). cow_write_current K dev cm p b w) pbs (cm, w) = Some (r, cm', w') \<Longrightarrow>
     (\<forall>g. g \<noteq> cow_file cm \<longrightarrow> fd w' g = fd w g) \<and> cow_file cm' = cow_file cm"
proof (induction pbs arbitrary: cm w)
  case (Cons pb pbs)
  obtain p b where pb: "pb = (p, b)" by fastforce
  with Cons.prems(2) have p: "p < 4096 * total_sects cm" by simp
  from cow_write_current_spec [OF laws Cons.prems(1) p, of dev b] obtain r1 cm1 w1 where
    st: "cow_write_current K dev cm p b w = Some (r1, cm1, w1)" "total_sects cm1 = total_sects cm" "r1 = 0 \<longrightarrow> data_ok fd cm1 w1" by auto
  note fr = cow_write_current_frame [OF laws Cons.prems(1) p st(1)]
  show ?case
  proof (cases "r1 = 0")
    case True
    with Cons.prems(3) pb st(1) have "for_each (\<lambda>(p, b) (cm, w). cow_write_current K dev cm p b w) pbs (cm1, w1) = Some (r, cm', w')" by simp
    from Cons.IH [OF _ _ this] st True Cons.prems(2) fr show ?thesis by simp
  qed (use Cons.prems(3) pb st(1) fr in auto)
qed simp

lemma write_bio_frame:
  assumes laws: "file_laws K fd" and ok: "data_ok fd cm w" and vec: "clone_pages_ok (bi_io_vec b)"
    and bnd: "bi_sector b div 8 + length (bi_io_vec b) \<le> 4096 * total_sects cm"
    and run: "snap_handle_write_bio K cdev b cm w = Some (r, cm', w')"
  shows "(\<forall>g. g \<noteq> cow_file cm \<longrightarrow> fd w' g = fd w g) \<and> cow_file cm' = cow_file cm"
proof (rule save_run_frame [OF laws ok])
  let ?pbs = "zip [bi_sector b div 8 ..< bi_sector b div 8 + length (bi_io_vec b)] (page_bufs (bi_io_vec b))"
  show "fst ` set ?pbs \<subseteq> {..<4096 * total_sects cm}" using bnd by (auto dest!: set_zip_leftD)
  show "for_each (\<lambda>(p, b) (cm, w). cow_write_current K cdev cm p b w) ?pbs (cm, w) = Some (r, cm', w')"
    using run by (simp add: snap_handle_write_bio_def SECTOR_TO_BLOCK_def save_segments_run [OF vec])
qed

section \<open>Clones as versions of blocks\<close>

text \<open>What the first clone in the queue that covers the block holds.\<close>

fun queued :: "bio list \<Rightarrow> nat \<Rightarrow> byte list option" where
  "queued [] q = None"
| "queued (b # bs) q = (case clone_block b q of Some d \<Rightarrow> Some d | None \<Rightarrow> queued bs q)"

text \<open>The driver has a version of the block; the version the snapshot stands for.\<close>

definition covered :: "(nat \<Rightarrow> byte list option) \<Rightarrow> bio list \<Rightarrow> nat \<Rightarrow> bool" where
  "covered S bs q \<longleftrightarrow> S q \<noteq> None \<or> queued bs q \<noteq> None"

definition seen :: "(nat \<Rightarrow> byte list option) \<Rightarrow> bio list \<Rightarrow> (nat \<Rightarrow> byte) \<Rightarrow> nat \<Rightarrow> byte list" where
  "seen S bs base q =
     (case S q of Some d \<Rightarrow> d
      | None \<Rightarrow> (case queued bs q of Some d \<Rightarrow> d | None \<Rightarrow> block_of (\<lambda>i. base (4096 * q + i))))"

lemma queued_append: "queued (xs @ ys) q = (case queued xs q of Some d \<Rightarrow> Some d | None \<Rightarrow> queued ys q)"
  by (induction xs) (auto split: option.split)

lemma clone_block_read [simp]: "\<not> bio_data_dir b \<Longrightarrow> clone_block b q = None"
  unfolding clone_block_def by (simp del: op_write_simps)

lemma queued_read [simp]: "\<not> bio_data_dir b \<Longrightarrow> queued (b # bs) q = queued bs q"
  by (simp del: op_write_simps)

text \<open>Taking out a request loses only the versions of that request.\<close>

lemma delay_read_queued:
  assumes "delay_read range_of b0 bs = (t, rest)" "clone_block t q = None"
  shows "queued rest q = queued (b0 # bs) q"
proof (cases "bio_data_dir b0")
  case True
  with assms show ?thesis by (simp add: delay_read_def range_of_def del: op_write_simps)
next
  case rd: False
  show ?thesis
  proof (cases "take_overlapping range_of b0 bs")
    case None
    with assms rd show ?thesis by (simp add: delay_read_def range_of_def del: op_write_simps)
  next
    case (Some x)
    then obtain ys u zs where tk: "take_overlapping range_of b0 bs = Some (ys, u, zs)" by (metis prod_cases3)
    with assms(1) rd have "t = u" "rest = ys @ b0 # zs" by (auto simp: delay_read_def range_of_def simp del: op_write_simps)
    moreover from take_overlapping_Some [OF tk] have "bs = ys @ u # zs" by blast
    ultimately show ?thesis using rd assms(2) by (simp add: queued_append split: option.split del: op_write_simps)
  qed
qed

section \<open>Progress\<close>

text \<open>A step from one state of cow file, queue and base device to another that changes no block of
  the image and loses no version, at the blocks \<open>Q\<close>.\<close>

definition progress :: "(nat \<Rightarrow> bool) \<Rightarrow> (nat \<Rightarrow> byte list option) \<Rightarrow> bio list \<Rightarrow> (nat \<Rightarrow> byte)
    \<Rightarrow> (nat \<Rightarrow> byte list option) \<Rightarrow> bio list \<Rightarrow> (nat \<Rightarrow> byte) \<Rightarrow> bool" where
  "progress Q S bs base S' bs' base' \<longleftrightarrow>
     (\<forall>q. Q q \<longrightarrow> seen S' bs' base' q = seen S bs base q \<and> (covered S bs q \<longrightarrow> covered S' bs' q))"

lemma progress_trans: "progress Q S bs x S1 bs1 x1 \<Longrightarrow> progress Q S1 bs1 x1 S2 bs2 x2 \<Longrightarrow> progress Q S bs x S2 bs2 x2"
  by (simp add: progress_def)

lemma progress_weaken: "progress Q S bs x S1 bs1 x1 \<Longrightarrow> (\<And>q. Q' q \<Longrightarrow> Q q) \<Longrightarrow> progress Q' S bs x S1 bs1 x1"
  by (simp add: progress_def)

text \<open>The base device changes where there is a version.\<close>

lemma progress_base:
  assumes "\<And>q i. Q q \<Longrightarrow> \<not> covered S bs q \<Longrightarrow> i < 4096 \<Longrightarrow> x' (4096 * q + i) = x (4096 * q + i)"
  shows "progress Q S bs x S bs x'"
  using assms by (auto simp: progress_def seen_def covered_def block_of_eq split: option.split)

text \<open>A clone of the base device joins the queue.\<close>

lemma progress_append:
  assumes "\<And>q d. Q q \<Longrightarrow> \<not> covered S bs q \<Longrightarrow> clone_block b q = Some d \<Longrightarrow> d = block_of (\<lambda>i. x (4096 * q + i))"
  shows "progress Q S bs x S (bs @ [b]) x"
  using assms by (auto simp: progress_def seen_def covered_def queued_append split: option.split)

text \<open>The request the queue gives out next holds other contents of a block that has not been saved
  than the first clone of the block in the queue: a newer clone has overtaken an older one.\<close>

definition overtaken :: "(nat \<Rightarrow> byte list option) \<Rightarrow> bio list \<Rightarrow> nat \<Rightarrow> bool" where
  "overtaken S bs q \<longleftrightarrow>
     (case bs of [] \<Rightarrow> False
      | b0 # rest \<Rightarrow> (let t = fst (delay_read range_of b0 rest) in S q = None \<and> clone_block t q \<noteq> None \<and> queued bs q \<noteq> clone_block t q))"

lemma overtaken_Nil [simp]: "\<not> overtaken S [] q" "overtaken S [] = (\<lambda>_. False)"
  by (auto simp: overtaken_def)

text \<open>Only a read at the head of the queue lets a clone overtake.\<close>

lemma overtaken_by_read:
  assumes "overtaken S (b0 # bs) q"
  shows "\<not> bio_data_dir b0"
proof
  assume w: "bio_data_dir b0"
  then have "delay_read range_of b0 bs = (b0, bs)" by (simp add: delay_read_def range_of_def del: op_write_simps)
  with assms show False by (auto simp: overtaken_def split: option.splits)
qed

text \<open>A request leaves the queue and what had no version is stored: no version is lost, and only
  overtaken blocks change.\<close>

lemma progress_store:
  assumes dr: "delay_read range_of b0 bs = (t, rest)"
    and store: "\<And>q. S' q = (case S q of Some d \<Rightarrow> Some d | None \<Rightarrow> clone_block t q)"
  shows "progress (\<lambda>q. \<not> overtaken S (b0 # bs) q) S (b0 # bs) x S' rest x"
    and "covered S (b0 # bs) q \<Longrightarrow> covered S' rest q"
proof -
  have same: "queued rest q = queued (b0 # bs) q" if "clone_block t q = None" for q using delay_read_queued [OF dr that] .
  have first: "queued (b0 # bs) q = clone_block t q" if "\<not> overtaken S (b0 # bs) q" "S q = None" "clone_block t q \<noteq> None" for q
    using that dr by (simp add: overtaken_def del: queued.simps)
  show "covered S (b0 # bs) q \<Longrightarrow> covered S' rest q"
    using same [of q] by (auto simp: covered_def store split: option.splits simp del: queued.simps)
  show "progress (\<lambda>q. \<not> overtaken S (b0 # bs) q) S (b0 # bs) x S' rest x"
    unfolding progress_def
  proof (intro allI impI conjI)
    fix q assume q: "\<not> overtaken S (b0 # bs) q"
    show "seen S' rest x q = seen S (b0 # bs) x q"
      using same [of q] first [OF q] by (cases "S q"; cases "clone_block t q") (simp_all add: seen_def store del: queued.simps)
    show "covered S' rest q" if "covered S (b0 # bs) q"
      using that same [of q] by (auto simp: covered_def store split: option.splits simp del: queued.simps)
  qed
qed

text \<open>The pages a completed read has filled.\<close>

lemma pages_hold_block:
  assumes "pages_hold P g (4096 * k) vs" "clone_pages_ok vs" "\<forall>v\<in>set vs. bv_offset v = 0" "i < length vs" "j < 4096"
    and "P (4096 * (k + i) + j)"
  shows "(page_bufs vs ! i) j = g (4096 * (k + i) + j)"
  using assms
proof (induction vs arbitrary: k i)
  case (Cons v vs)
  from Cons.prems(2) obtain pg where v: "bv_page v = Some pg" "bv_len v = 4096" "clone_pages_ok vs" by (auto simp: clone_pages_ok_Cons)
  show ?case
  proof (cases i)
    case 0
    with Cons.prems v show ?thesis by simp
  next
    case (Suc n)
    have "pages_hold P g (4096 * Suc k) vs" using Cons.prems(1) v by (simp add: add.commute)
    from Cons.IH [OF this v(3), of n] Cons.prems Suc v show ?thesis by simp
  qed
qed simp

section \<open>Reads and clones that share a block\<close>

text \<open>A clone that covers a block of the read and does not end, by its size, before the read starts is
  seen to overlap it.\<close>

lemma shared_block_overlaps:
  assumes rd: "\<not> bio_data_dir b" "bio_whole b" "512 * bi_sector b \<le> p" "p < 512 * bi_sector b + bi_size b"
    and cl: "bio_data_dir y" "8 dvd bi_sector y" "bi_sector b \<le> bi_sector y + bi_size y div 512" "clone_block y (p div 4096) \<noteq> None"
    and small: "512 * bi_sector b + bi_size b < 2 ^ 64" "bi_sector y + bi_size y div 512 < 2 ^ 64"
  shows "is_write (range_of y) \<and> bio_overlap (range_of b) (range_of y)"
proof -
  let ?n = "bi_size b div 512"
  obtain k where k: "bi_sector y = 8 * k" using cl(2) by blast
  have blk: "k \<le> p div 4096" using cl(4) k by (auto simp: clone_block_def split: if_splits)
  have "512 dvd vec_len vs" if "vec_ok vs" for vs using that by (induction vs) (simp_all add: vec_ok_Cons)
  then have "512 dvd bi_size b" using rd(2) by (simp add: bio_whole_def)
  then have n: "512 * ?n = bi_size b" by simp
  have "4096 * k \<le> p" using blk by (auto simp: less_eq_div_iff_mult_less_eq mult.commute)
  then have "bi_sector y \<le> bi_sector b + ?n" using rd(4) k n by linarith
  moreover have "wrap64 (bi_sector b + ?n) = bi_sector b + ?n" "wrap64 (bi_sector y + bi_size y div 512) = bi_sector y + bi_size y div 512"
    using small n by (intro wrap64_id; linarith)+
  ultimately show ?thesis using cl(1,3) by (simp add: bio_overlap_def range_of_def del: op_write_simps)
qed

end
