(* ===== verification/Tracing.thy ===== *)
theory Tracing
  imports Snap_IO
begin

text \<open>
  How writes to a traced device are intercepted (\<^verbatim>\<open>BIO TRACING LOGIC\<close> of \<^verbatim>\<open>src/main.c\<close>). In
  snapshot mode a write is held back until the blocks it covers have been read into clones;
  the tracing parameters count the clones under way, and the last one to finish releases the
  write. In incremental mode only the sector range is queued. The completion of a clone is an
  event of its own, \<open>on_bio_read_complete\<close>.
\<close>

section \<open>Tracing parameters\<close>

definition sizeof_tracing_params :: nat where "sizeof_tracing_params = 40"
definition sizeof_bio_sector_map :: nat where "sizeof_bio_sector_map = 32"
definition sizeof_sector_set :: nat where "sizeof_sector_set = 24"

definition tp_alloc :: "('w, 'k) kern_scheme \<Rightarrow> nat \<Rightarrow> bio \<Rightarrow> 'w drv \<Rightarrow> int \<times> nat option \<times> 'w drv" where
  "tp_alloc K a b s =
     (case kmalloc K sizeof_tracing_params (world s) of
        (None, w1) \<Rightarrow> (- ENOMEM, None, s\<lparr>world := w1\<rparr>)
      | (Some _, w1) \<Rightarrow>
          (0, Some (fresh s),
           s\<lparr>tps := (tps s)(fresh s \<mapsto> \<lparr>tp_orig_bio = b, tp_dev = a, tp_refs = 1, tp_sects = []\<rparr>),
             fresh := Suc (fresh s), world := w1\<rparr>))"

definition tp_get :: "nat \<Rightarrow> 'w drv \<Rightarrow> 'w drv option" where
  "tp_get t s = do { tp \<leftarrow> tps s t; Some (s\<lparr>tps := (tps s)(t \<mapsto> tp\<lparr>tp_refs := tp_refs tp + 1\<rparr>)\<rparr>) }"

definition tp_put :: "nat \<Rightarrow> 'w drv \<Rightarrow> 'w drv option" where
  "tp_put t s = do {
     tp \<leftarrow> tps s t;
     (if tp_refs tp - 1 = 0 then do {
        dev \<leftarrow> devs s (tp_dev tp);
        Some ((put_dev (tp_dev tp) (dev\<lparr>sd_orig_bios := sd_orig_bios dev @ [tp_orig_bio tp]\<rparr>) s)\<lparr>tps := (tps s)(t := None)\<rparr>) }
      else Some (s\<lparr>tps := (tps s)(t \<mapsto> tp\<lparr>tp_refs := tp_refs tp - 1\<rparr>)\<rparr>)) }"

definition tp_add :: "('w, 'k) kern_scheme \<Rightarrow> nat \<Rightarrow> bio \<Rightarrow> 'w drv \<Rightarrow> (int \<times> 'w drv) option" where
  "tp_add K t b s =
     (case kmalloc K sizeof_bio_sector_map (world s) of
        (None, w1) \<Rightarrow> Some (- ENOMEM, s\<lparr>world := w1\<rparr>)
      | (Some _, w1) \<Rightarrow> do {
          tp \<leftarrow> tps s t;
          Some (0, s\<lparr>tps := (tps s)(t \<mapsto> tp\<lparr>tp_sects := tp_sects tp @ [\<lparr>map_bio = bi_id b, map_sect = bi_sector b, map_size = bi_size b\<rparr>]\<rparr>),
                     world := w1\<rparr>) })"

section \<open>Which writes need copying\<close>

definition bio_needs_cow :: "bio \<Rightarrow> snap_device \<Rightarrow> bool" where
  "bio_needs_cow b dev \<longleftrightarrow>
     \<not> on_bdev dev \<or> bi_op b = REQ_OP_WRITE_ZEROES \<or>
     (\<exists>v \<in> set (bio_segments b). page_get_inode (bv_page v) \<noteq> sd_cow_inode dev)"

definition LOW_MEMORY_FAIL_PERCENT :: nat where
  "LOW_MEMORY_FAIL_PERCENT = 20"

definition memory_is_too_low :: "('w, 'k) blk_kern_scheme \<Rightarrow> snap_device \<Rightarrow> 'w \<Rightarrow> (int \<times> snap_device) option" where
  "memory_is_too_low K dev w =
     (let ret = tracer_read_fail_state dev in
      if ret = - ENOMEM then Some (ret, dev)
      else if totalram K = 0 then None
      else if wrap64 (si_mem_available K w * 100) div totalram K < LOW_MEMORY_FAIL_PERCENT
      then Some (- ENOMEM, tracer_set_fail_state dev (- ENOMEM))
      else Some (ret, dev))"

section \<open>Read clones\<close>

definition BIO_MAX_PAGES :: nat where
  "BIO_MAX_PAGES = 256"

text \<open>The page loop; a page the queue does not take any more ends it without an error.\<close>

fun clone_pages :: "('w, 'k) kern_scheme \<Rightarrow> nat \<Rightarrow> bio_vec list \<Rightarrow> 'w \<Rightarrow> int \<times> bio_vec list \<times> 'w" where
  "clone_pages K 0 vs w = (0, vs, w)"
| "clone_pages K (Suc n) vs w =
     (case kmalloc K PAGE_SIZE w of
        (None, w1) \<Rightarrow> (- ENOMEM, vs, w1)
      | (Some g, w1) \<Rightarrow>
          if bio_add_page K PAGE_SIZE w1 \<noteq> PAGE_SIZE then (0, vs, w1)
          else clone_pages K n
                 (vs @ [\<lparr>bv_page = Some \<lparr>pg_anon = False, pg_mapping = None, pg_mapping_valid = False, pg_host = None, pg_data = g\<rparr>,
                         bv_len = PAGE_SIZE, bv_offset = 0\<rparr>]) w1)"

definition on_bio_read_complete_fn :: nat where
  "on_bio_read_complete_fn = 1"

text \<open>The reference taken on the tracing parameters is not dropped when a page is missing.\<close>

definition bio_make_read_clone :: "('w, 'k) kern_scheme \<Rightarrow> nat \<Rightarrow> bio \<Rightarrow> nat \<Rightarrow> nat \<Rightarrow> 'w drv
    \<Rightarrow> (int \<times> bio option \<times> nat \<times> 'w drv) option" where
  "bio_make_read_clone K t orig sect pages s =
     (case bio_alloc K (world s) of
        (False, w1) \<Rightarrow> Some (- ENOMEM, None, 0, s\<lparr>world := w1\<rparr>)
      | (True, w1) \<Rightarrow> do {
          s1 \<leftarrow> tp_get t (s\<lparr>world := w1\<rparr>);
          (case clone_pages K (min pages BIO_MAX_PAGES) [] (world s1) of (ret, vs, w2) \<Rightarrow>
             let s2 = s1\<lparr>fresh := Suc (fresh s1), world := w2\<rparr> in
             if ret \<noteq> 0 then Some (ret, None, 0, s2)
             else
               let total = PAGE_SIZE * length vs in
               Some (0, Some \<lparr>bi_id = fresh s1, bi_op = REQ_OP_READ, bi_passthrough = False, bi_bdev = bi_bdev orig,
                              bi_sector = sect, bi_size = total, bi_idx = 0, bi_bvec_done = 0, bi_io_vec = vs,
                              bi_private = t, bi_end_io = on_bio_read_complete_fn\<rparr>, total, s2)) })"

text \<open>The \<^verbatim>\<open>retry\<close> loop of \<^verbatim>\<open>snap_trace_bio\<close>. It answers the return code and whether the last
  clone was built but not submitted. A queue that takes no page at all keeps it going for
  ever.\<close>

partial_function (option) trace_clones :: "('w, 'k) blk_kern_scheme \<Rightarrow> nat \<Rightarrow> nat \<Rightarrow> bio \<Rightarrow> nat \<Rightarrow> nat \<Rightarrow> 'w drv
    \<Rightarrow> (int \<times> 'w drv) option" where
  "trace_clones K a t orig sect pages s =
     Option.bind (bio_make_read_clone K t orig sect pages s) (\<lambda>(ret, nb, bytes, s1).
       case nb of
         None \<Rightarrow> Some (ret, s1)
       | Some b \<Rightarrow>
           Option.bind (tp_add K t b s1) (\<lambda>(ret, s2).
             if ret \<noteq> 0 then Some (ret, s2)
             else Option.bind (devs s2 a) (\<lambda>dev.
               let s3 = put_dev a (dev\<lparr>sd_submitted_cnt := Suc (sd_submitted_cnt dev)\<rparr>) s2;
                   w1 = snd (case sd_orig_mrf dev of Some mrf \<Rightarrow> call_mrf K mrf b (world s3) | None \<Rightarrow> submit_bio_noacct K b (world s3));
                   s4 = s3\<lparr>world := w1\<rparr> in
               if bytes div PAGE_SIZE < pages
               then trace_clones K a t orig (sect + bytes div SECTOR_SIZE) (pages - bytes div PAGE_SIZE) s4
               else Some (0, s4))))"

section \<open>Tracing a write\<close>

definition call_orig_mrf :: "('w, 'k) blk_kern_scheme \<Rightarrow> nat \<Rightarrow> bio \<Rightarrow> 'w drv \<Rightarrow> (int \<times> 'w drv) option" where
  "call_orig_mrf K a b s = do {
     dev \<leftarrow> devs s a;
     mrf \<leftarrow> sd_orig_mrf dev;
     (case call_mrf K mrf b (world s) of (ret, w1) \<Rightarrow> Some (ret, s\<lparr>world := w1\<rparr>)) }"

definition bump_traced :: "bio \<Rightarrow> snap_device \<Rightarrow> snap_device" where
  "bump_traced b dev =
     dev\<lparr>sd_bio_stats_traced := (sd_bio_stats_traced dev)(bi_op b := wrap64 (Suc (sd_bio_stats_traced dev (bi_op b))))\<rparr>"

definition set_fail :: "nat \<Rightarrow> int \<Rightarrow> 'w drv \<Rightarrow> 'w drv option" where
  "set_fail a e s = do { dev \<leftarrow> devs s a; Some (put_dev a (tracer_set_fail_state dev e) s) }"

definition clone_start :: "snap_device \<Rightarrow> bio \<Rightarrow> nat" where
  "clone_start dev b = wrap64 (ROUND_DOWN (sub64 (bi_sector b) (sd_sect_off dev)) SECTORS_PER_BLOCK + sd_sect_off dev)"

definition clone_end :: "snap_device \<Rightarrow> bio \<Rightarrow> nat" where
  "clone_end dev b =
     wrap64 (ROUND_UP (sub64 (wrap64 (bi_sector b + bi_size b div SECTOR_SIZE)) (sd_sect_off dev)) SECTORS_PER_BLOCK + sd_sect_off dev)"

definition snap_trace_bio :: "('w, 'k) blk_kern_scheme \<Rightarrow> nat \<Rightarrow> bio \<Rightarrow> 'w drv \<Rightarrow> (int \<times> 'w drv) option" where
  "snap_trace_bio K a b0 s0 = do {
     dev0 \<leftarrow> devs s0 a;
     (if \<not> bio_needs_cow b0 dev0 then call_orig_mrf K a b0 s0
      else do {
        (low, dev) \<leftarrow> memory_is_too_low K dev0 (world s0);
        (let s = put_dev a dev s0 in
         if low \<noteq> 0 \<or> tracer_read_fail_state dev \<noteq> 0 then call_orig_mrf K a b0 s
         else do {
           base \<leftarrow> sd_base_dev dev;
           (b, s1) \<leftarrow>
             (if bio_sectors b0 > queue_max_sectors K base then
                (case bio_split_chain K b0 (queue_max_sectors K base) (world s) of (split, rest, w1) \<Rightarrow>
                   (case submit_bio_noacct K rest w1 of (_, w2) \<Rightarrow> Some (split, s\<lparr>world := w2\<rparr>)))
              else Some (b0, s));
           (let s2 = put_dev a (bump_traced b dev) s1;
                start = clone_start dev b;
                pages = sub64 (clone_end dev b) start div SECTORS_PER_PAGE mod 2 ^ 32 in
            case tp_alloc K a b s2 of
              (ret, None, s3) \<Rightarrow> do { s4 \<leftarrow> set_fail a ret s3; Some (0, s4) }
            | (ret, Some t, s3) \<Rightarrow> do {
                (ret, s4) \<leftarrow> trace_clones K a t b start pages s3;
                s5 \<leftarrow> (if ret \<noteq> 0 then set_fail a ret s4 else Some s4);
                s6 \<leftarrow> tp_put t s5;
                Some (0, s6) }) }) }) }"

text \<open>The completion of a clone. The sector of the clone is taken back from the list of the
  tracing parameters, relative to the device; the size stays what the completed bio has.\<close>

definition on_bio_read_complete :: "bio \<Rightarrow> int \<Rightarrow> 'w drv \<Rightarrow> 'w drv option" where
  "on_bio_read_complete b err s = do {
     tp \<leftarrow> tps s (bi_private b);
     dev \<leftarrow> devs s (tp_dev tp);
     (if err \<noteq> 0 then tp_put (bi_private b) (put_dev (tp_dev tp) (tracer_set_fail_state dev err) s)
      else
        let b1 = b\<lparr>bi_op := REQ_OP_WRITE, bi_passthrough := False\<rparr>;
            b2 = (case find (\<lambda>m. map_bio m = bi_id b) (tp_sects tp) of
                    Some m \<Rightarrow> b1\<lparr>bi_sector := sub64 (map_sect m) (sd_sect_off dev), bi_idx := 0\<rparr>
                  | None \<Rightarrow> b1);
            b3 = b2\<lparr>bi_private := tp_dev tp\<rparr>;
            dev1 = dev\<lparr>sd_cow_bios := sd_cow_bios dev @ [b3], sd_received_cnt := Suc (sd_received_cnt dev)\<rparr> in
        tp_put (bi_private b) (put_dev (tp_dev tp) dev1 s)) }"

section \<open>Incremental mode\<close>

definition inc_make_sset :: "('w, 'k) kern_scheme \<Rightarrow> nat \<Rightarrow> nat \<Rightarrow> nat \<Rightarrow> 'w drv \<Rightarrow> (int \<times> 'w drv) option" where
  "inc_make_sset K a sect len s =
     (case kmalloc K sizeof_sector_set (world s) of
        (None, w1) \<Rightarrow> Some (- ENOMEM, s\<lparr>world := w1\<rparr>)
      | (Some _, w1) \<Rightarrow> do {
          dev \<leftarrow> devs s a;
          Some (0, put_dev a (dev\<lparr>sd_pending_ssets := sd_pending_ssets dev @ [\<lparr>ss_sect = sub64 sect (sd_sect_off dev), ss_len = len mod 2 ^ 32\<rparr>]\<rparr>)
                     (s\<lparr>world := w1\<rparr>)) })"

text \<open>The segment loop: \<open>opened\<close> is \<^verbatim>\<open>is_initialized\<close>, the range under construction starts at
  \<open>start\<close>.\<close>

fun inc_segments :: "('w, 'k) kern_scheme \<Rightarrow> nat \<Rightarrow> nat option \<Rightarrow> bio_vec list \<Rightarrow> bool \<Rightarrow> nat \<Rightarrow> nat \<Rightarrow> 'w drv
    \<Rightarrow> (int \<times> 'w drv) option" where
  "inc_segments K a ino [] opened start stop s =
     (if opened \<and> 0 < sub64 stop start then inc_make_sset K a start (sub64 stop start) s else Some (0, s))"
| "inc_segments K a ino (v # vs) opened start stop s =
     (if page_get_inode (bv_page v) \<noteq> ino then
        inc_segments K a ino vs True (if opened then start else stop) (wrap64 (stop + bv_len v div 512)) s
      else if opened \<and> 0 < sub64 stop start then do {
        (ret, s1) \<leftarrow> inc_make_sset K a start (sub64 stop start) s;
        (if ret \<noteq> 0 then Some (ret, s1)
         else inc_segments K a ino vs False start (wrap64 (stop + bv_len v div 512)) s1) }
      else inc_segments K a ino vs False start (wrap64 (stop + bv_len v div 512)) s)"

definition inc_trace_bio :: "('w, 'k) blk_kern_scheme \<Rightarrow> nat \<Rightarrow> bio \<Rightarrow> 'w drv \<Rightarrow> (int \<times> 'w drv) option" where
  "inc_trace_bio K a b s0 = do {
     dev0 \<leftarrow> devs s0 a;
     (let dev = bump_traced b dev0; s = put_dev a dev s0 in do {
       (ret, s1) \<leftarrow>
         (if \<not> on_bdev dev \<or> bi_op b = REQ_OP_WRITE_ZEROES then inc_make_sset K a (bi_sector b) (bi_size b div SECTOR_SIZE) s
          else if bio_is_discard b then Some (0, s)
          else inc_segments K a (sd_cow_inode dev) (bio_segments b) False 0 (bi_sector b) s);
       s2 \<leftarrow> (if ret \<noteq> 0 then set_fail a ret s1 else Some s1);
       call_orig_mrf K a b s2 }) }"

section \<open>The make-request functions\<close>

definition bdev_ops :: "('w, 'k) blk_kern_scheme \<Rightarrow> 'w drv \<Rightarrow> nat \<Rightarrow> fops option" where
  "bdev_ops K s bdev = map_option (disk_fops s) (disk_of K bdev)"

definition tracer_matches_bio :: "('w, 'k) blk_kern_scheme \<Rightarrow> 'w drv \<Rightarrow> snap_device \<Rightarrow> bio \<Rightarrow> bool option" where
  "tracer_matches_bio K s dev b = do {
     base \<leftarrow> sd_base_dev dev; o1 \<leftarrow> bdev_ops K s base; o2 \<leftarrow> bdev_ops K s (bi_bdev b); Some (o1 = o2) }"

definition tracer_sector_matches_bio :: "snap_device \<Rightarrow> bio \<Rightarrow> bool" where
  "tracer_sector_matches_bio dev b \<longleftrightarrow>
     sd_sect_off dev \<le> bi_sector b \<and> bi_sector b < wrap64 (sd_sect_off dev + sd_size dev)"

definition tracer_should_trace_bio :: "snap_device \<Rightarrow> bio \<Rightarrow> bool" where
  "tracer_should_trace_bio dev b \<longleftrightarrow>
     bio_data_dir b \<and> bi_size b \<noteq> 0 \<and> tracer_read_fail_state dev = 0 \<and> tracer_sector_matches_bio dev b"

text \<open>\<^verbatim>\<open>call_orig\<close> of \<^verbatim>\<open>tracing_mrf\<close>.\<close>

definition call_orig :: "('w, 'k) blk_kern_scheme \<Rightarrow> mrf option \<Rightarrow> bio \<Rightarrow> 'w drv \<Rightarrow> (int \<times> 'w drv) option" where
  "call_orig K orig b s =
     (case orig of
        Some mrf \<Rightarrow> (case call_mrf K mrf b (world s) of (ret, w1) \<Rightarrow> Some (ret, s\<lparr>world := w1\<rparr>))
      | None \<Rightarrow> do {
          ops \<leftarrow> bdev_ops K s (bi_bdev b);
          (case ops of
             TracingOps t \<Rightarrow> (case call_mrf K NullMrf b (world s) of (ret, w1) \<Rightarrow> Some (ret, s\<lparr>world := w1\<rparr>))
           | KernelOps k \<Rightarrow>
               (case fops_submit_bio K k of
                  Some m \<Rightarrow> (case call_mrf K (OrigMrf m) b (world s) of (ret, w1) \<Rightarrow> Some (ret, s\<lparr>world := w1\<rparr>))
                | None \<Rightarrow> (case submit_bio_noacct K b (world s) of (ret, w1) \<Rightarrow> Some (ret, s\<lparr>world := w1\<rparr>)))) })"

definition bump_total :: "bio \<Rightarrow> snap_device \<Rightarrow> snap_device" where
  "bump_total b dev =
     dev\<lparr>sd_bio_stats_total := (sd_bio_stats_total dev)(bi_op b := wrap64 (Suc (sd_bio_stats_total dev (bi_op b))))\<rparr>"

fun tracing_loop :: "('w, 'k) blk_kern_scheme \<Rightarrow> nat list \<Rightarrow> mrf option \<Rightarrow> bio \<Rightarrow> 'w drv \<Rightarrow> (int \<times> 'w drv) option" where
  "tracing_loop K [] orig b s = call_orig K orig b s"
| "tracing_loop K (i # is) orig b s = do {
     p \<leftarrow> table s i;
     (case p of
        None \<Rightarrow> tracing_loop K is orig b s
      | Some a \<Rightarrow> do {
          dev0 \<leftarrow> devs s a;
          (if test_flag UNVERIFIED dev0 then tracing_loop K is orig b s
           else
             let dev = bump_total b dev0; s1 = put_dev a dev s in do {
             hit \<leftarrow> tracer_matches_bio K s1 dev b;
             (if \<not> hit then tracing_loop K is orig b s1
              else if bi_passthrough b then call_orig K (sd_orig_mrf dev) (b\<lparr>bi_passthrough := False\<rparr>) s1
              else if tracer_should_trace_bio dev b then
                (if test_flag SNAPSHOT dev then
                   (if bio_is_discard b then
                      Some (0, (put_dev a (dev\<lparr>sd_discard_dropped_cnt := Suc (sd_discard_dropped_cnt dev),
                                               sd_discard_ignored_size := sd_discard_ignored_size dev + bi_size b div 512\<rparr>) s1)
                                 \<lparr>world := bio_endio K b (- EBUSY) (world s1)\<rparr>)
                    else snap_trace_bio K a b s1)
                 else inc_trace_bio K a b s1)
              else tracing_loop K is (sd_orig_mrf dev) b s1) }) }) }"

definition tracing_mrf :: "('w, 'k) blk_kern_scheme \<Rightarrow> bio \<Rightarrow> 'w drv \<Rightarrow> (int \<times> 'w drv) option" where
  "tracing_mrf K b s = tracing_loop K (tracer_for_each s) None b s"

definition elastio_snap_request_queue_stopped :: "snap_device \<Rightarrow> bool" where
  "elastio_snap_request_queue_stopped dev \<longleftrightarrow> sd_ignore_requests dev \<noteq> 0"

definition snap_mrf :: "('w, 'k) blk_kern_scheme \<Rightarrow> nat \<Rightarrow> bio \<Rightarrow> 'w drv \<Rightarrow> 'w drv option" where
  "snap_mrf K a b s = do {
     dev \<leftarrow> devs s a;
     (let finish = (\<lambda>err. Some (s\<lparr>world := bio_endio K b err (world s)\<rparr>)) in
      if bio_data_dir b then finish (- EOPNOTSUPP)
      else if tracer_read_fail_state dev \<noteq> 0 then finish (wrap_err_io dev)
      else if \<not> test_flag ACTIVE dev then finish (- EBUSY)
      else if elastio_snap_request_queue_stopped dev then finish (- EBUSY)
      else Some (put_dev a (dev\<lparr>sd_cow_bios := sd_cow_bios dev @ [b]\<rparr>) s)) }"

end
