(* ===== verification/Paths.thy ===== *)
theory Paths
  imports Device
begin

text \<open>
  Strings copied from user space and path names (\<^verbatim>\<open>src/main.c\<close>, FILE OPERATIONS). A function
  answers the return code, the string it hands out (NULL is \<^term>\<open>None\<close>) and the machine.
\<close>

definition copy_string_from_user :: "('w, 'k) drv_kern_scheme \<Rightarrow> nat option \<Rightarrow> 'w \<Rightarrow> int \<times> string option" where
  "copy_string_from_user K data w =
     (case data of
        None \<Rightarrow> (0, None)
      | Some p \<Rightarrow> (case strndup_user K p w of Inl err \<Rightarrow> (err, None) | Inr str \<Rightarrow> (0, Some str)))"

definition dentry_get_relative_pathname :: "('w, 'k) drv_kern_scheme \<Rightarrow> nat \<Rightarrow> 'w \<Rightarrow> int \<times> string option \<times> 'w" where
  "dentry_get_relative_pathname K f w =
     (case kmalloc K PAGE_SIZE w of
        (None, w1) \<Rightarrow> (- ENOMEM, None, w1)
      | (Some _, w1) \<Rightarrow>
          (case dentry_path_raw K f w1 of
             Inl err \<Rightarrow> (err, None, w1)
           | Inr str \<Rightarrow>
               (case kmalloc K (Suc (length str)) w1 of
                  (None, w2) \<Rightarrow> (- ENOMEM, None, w2)
                | (Some _, w2) \<Rightarrow> (0, Some str, w2))))"

definition path_get_absolute_pathname :: "('w, 'k) drv_kern_scheme \<Rightarrow> nat \<Rightarrow> 'w \<Rightarrow> int \<times> string option \<times> 'w" where
  "path_get_absolute_pathname K p w =
     (case kmalloc K PAGE_SIZE w of
        (None, w1) \<Rightarrow> (- ENOMEM, None, w1)
      | (Some _, w1) \<Rightarrow>
          (case d_path K p w1 of
             Inl err \<Rightarrow> (err, None, w1)
           | Inr str \<Rightarrow>
               (case kmalloc K (Suc (length str)) w1 of
                  (None, w2) \<Rightarrow> (- ENOMEM, None, w2)
                | (Some _, w2) \<Rightarrow> (0, Some str, w2))))"

text \<open>The error path writes through \<^verbatim>\<open>len_res\<close>, which some callers leave NULL.\<close>

definition file_get_absolute_pathname :: "('w, 'k) drv_kern_scheme \<Rightarrow> nat \<Rightarrow> bool \<Rightarrow> 'w \<Rightarrow> (int \<times> string option \<times> 'w) option" where
  "file_get_absolute_pathname K f has_len w =
     (case path_get_absolute_pathname K (f_path K f) w of (ret, str, w1) \<Rightarrow>
        if ret \<noteq> 0 then (if has_len then Some (ret, None, w1) else None)
        else Some (0, str, w1))"

definition pathname_to_absolute :: "('w, 'k) drv_kern_scheme \<Rightarrow> string \<Rightarrow> 'w \<Rightarrow> int \<times> string option \<times> 'w" where
  "pathname_to_absolute K pathname w =
     (case kern_path K pathname w of
        Inl err \<Rightarrow> (err, None, w)
      | Inr p \<Rightarrow> path_get_absolute_pathname K p w)"

text \<open>The text of the concatenation; the character before an empty \<open>pathname1\<close> is read outside
  the string.\<close>

definition concat_path :: "string \<Rightarrow> string \<Rightarrow> string option" where
  "concat_path p1 p2 =
     (if p1 = [] then None
      else
        let slash2 = (p2 \<noteq> [] \<and> hd p2 = CHR ''/'') in
        Some (if last p1 \<noteq> CHR ''/'' \<and> \<not> slash2 then p1 @ ''/'' @ p2
              else if last p1 = CHR ''/'' \<and> slash2 then butlast p1 @ p2
              else p1 @ p2))"

definition pathname_concat :: "('w, 'k) drv_kern_scheme \<Rightarrow> string \<Rightarrow> string \<Rightarrow> 'w \<Rightarrow> (int \<times> string option \<times> 'w) option" where
  "pathname_concat K p1 p2 w = do {
     str \<leftarrow> concat_path p1 p2;
     Some (case kmalloc K (Suc (length str)) w of
             (None, w1) \<Rightarrow> (- ENOMEM, None, w1)
           | (Some _, w1) \<Rightarrow> (0, Some str, w1)) }"

definition pathname_exists :: "('w, 'k) drv_kern_scheme \<Rightarrow> string \<Rightarrow> 'w \<Rightarrow> bool" where
  "pathname_exists K pathname w = (case kern_path K pathname w of Inl _ \<Rightarrow> False | Inr _ \<Rightarrow> True)"

definition user_mount_pathname_concat :: "('w, 'k) drv_kern_scheme \<Rightarrow> nat option \<Rightarrow> string \<Rightarrow> 'w \<Rightarrow> (int \<times> string option \<times> 'w) option" where
  "user_mount_pathname_concat K user_mount_path rel_path w =
     (case copy_string_from_user K user_mount_path w of (ret, mp) \<Rightarrow>
        if ret \<noteq> 0 then Some (ret, None, w)
        else do { mount_path \<leftarrow> mp; pathname_concat K mount_path rel_path w })"

text \<open>The two parts are always joined by exactly one slash.\<close>

lemma concat_path_one_slash:
  assumes "p1 \<noteq> []"
  shows "\<exists>a b. concat_path p1 p2 = Some (a @ CHR ''/'' # b) \<and>
     (p1 = a \<and> (a = [] \<or> last a \<noteq> CHR ''/'') \<or> p1 = a @ ''/'') \<and>
     (p2 = b \<and> (b = [] \<or> hd b \<noteq> CHR ''/'') \<or> p2 = CHR ''/'' # b)"
proof -
  obtain c cs where p1: "p1 = cs @ [c]" using assms by (metis append_butlast_last_id)
  consider "c = CHR ''/''" | "c \<noteq> CHR ''/''" by blast
  then show ?thesis
  proof cases
    case 1
    then show ?thesis by (cases p2) (auto simp: concat_path_def Let_def p1)
  next
    case 2
    then show ?thesis
      by (cases p2) (auto simp: concat_path_def Let_def p1
        intro!: exI [of _ "cs @ [c]"] exI [of _ "if p2 \<noteq> [] \<and> hd p2 = CHR ''/'' then tl p2 else p2"])
  qed
qed

end
