(* ===== verification/Tracer.thy ===== *)
theory Tracer
  imports Tracing Paths
begin

text \<open>
  Setting up and destroying tracers and switching them between modes (\<^verbatim>\<open>SETUP HELPER
  FUNCTIONS\<close> to \<^verbatim>\<open>IOCTL TRANSITION FUNCTIONS\<close> of \<^verbatim>\<open>src/main.c\<close>). An operation works on the
  device at an address; where the C code jumps to \<^verbatim>\<open>error\<close> the model runs the clean-up
  operations on the state reached so far. Waiting (\<^verbatim>\<open>wait_for_bio_complete\<close>,
  \<^verbatim>\<open>elastio_snap_wait_for_release\<close>) is bounded and changes nothing by itself.
\<close>

section \<open>Devices on the heap\<close>

definition upd_dev :: "nat \<Rightarrow> (snap_device \<Rightarrow> snap_device) \<Rightarrow> 'w drv \<Rightarrow> 'w drv option" where
  "upd_dev a f s = do { dev \<leftarrow> devs s a; Some (put_dev a (f dev) s) }"

definition kfree_dev :: "nat \<Rightarrow> 'w drv \<Rightarrow> 'w drv" where
  "kfree_dev a s = s\<lparr>devs := (devs s)(a := None)\<rparr>"

definition tracer_init :: "snap_device \<Rightarrow> snap_device" where
  "tracer_init dev = dev\<lparr>sd_fail_code := 0, sd_cow_bios := [], sd_orig_bios := [], sd_pending_ssets := []\<rparr>"

definition sizeof_snap_device :: nat where
  "sizeof_snap_device = 5000"

definition tracer_alloc :: "('w, 'k) kern_scheme \<Rightarrow> 'w drv \<Rightarrow> int \<times> nat option \<times> 'w drv" where
  "tracer_alloc K s =
     (case kmalloc K sizeof_snap_device (world s) of
        (None, w1) \<Rightarrow> (- ENOMEM, None, s\<lparr>world := w1\<rparr>)
      | (Some _, w1) \<Rightarrow>
          (0, Some (fresh s), put_dev (fresh s) (tracer_init zero_dev) (s\<lparr>fresh := Suc (fresh s), world := w1\<rparr>)))"

definition set_flags :: "bool \<Rightarrow> bool \<Rightarrow> bool \<Rightarrow> snap_device \<Rightarrow> snap_device" where
  "set_flags snap active unverified dev =
     dev\<lparr>sd_state := (if unverified then set_bit UNVERIFIED else unset_bit UNVERIFIED)
        ((if active then set_bit ACTIVE else unset_bit ACTIVE)
        ((if snap then set_bit SNAPSHOT else unset_bit SNAPSHOT) (sd_state dev)))\<rparr>"

section \<open>Operations of the base device\<close>

definition verified_devs :: "'w drv \<Rightarrow> (nat \<times> snap_device) list option" where
  "verified_devs s =
     (let step = (\<lambda>i acc. do {
        p \<leftarrow> table s i;
        rest \<leftarrow> acc;
        (case p of
           None \<Rightarrow> Some rest
         | Some a \<Rightarrow> do { dev \<leftarrow> devs s a; Some (if test_flag UNVERIFIED dev then rest else (a, dev) # rest) }) }) in
      foldr step (tracer_for_each s) (Some []))"

definition bdev_is_already_traced :: "'w drv \<Rightarrow> nat \<Rightarrow> bool option" where
  "bdev_is_already_traced s bdev = do {
     ds \<leftarrow> verified_devs s;
     Some (\<exists>(a, dev) \<in> set ds. sd_base_dev dev = Some bdev) }"

definition ops_submit_bio :: "('w, 'k) blk_kern_scheme \<Rightarrow> fops \<Rightarrow> mrf option" where
  "ops_submit_bio K ops = (case ops of TracingOps t \<Rightarrow> Some TracingMrf | KernelOps k \<Rightarrow> map_option OrigMrf (fops_submit_bio K k))"

definition tracing_ops_get :: "nat option \<Rightarrow> 'w drv \<Rightarrow> 'w drv option" where
  "tracing_ops_get t s =
     (case t of
        None \<Rightarrow> Some s
      | Some t \<Rightarrow> do { x \<leftarrow> trops s t; Some (s\<lparr>trops := (trops s)(t \<mapsto> x\<lparr>to_refs := to_refs x + 1\<rparr>)\<rparr>) })"

definition tracing_ops_put :: "nat \<Rightarrow> 'w drv \<Rightarrow> 'w drv option" where
  "tracing_ops_put t s = do {
     x \<leftarrow> trops s t;
     Some (s\<lparr>trops := (trops s)(t := (if to_refs x - 1 = 0 then None else Some (x\<lparr>to_refs := to_refs x - 1\<rparr>)))\<rparr>) }"

text \<open>The first device whose disk has the same operations, if any.\<close>

fun find_same_ops :: "('w, 'k) blk_kern_scheme \<Rightarrow> 'w drv \<Rightarrow> fops \<Rightarrow> (nat \<times> snap_device) list \<Rightarrow> snap_device option option" where
  "find_same_ops K s ops [] = Some None"
| "find_same_ops K s ops ((a, dev) # ds) = do {
     base \<leftarrow> sd_base_dev dev;
     o1 \<leftarrow> bdev_ops K s base;
     (if o1 = ops then Some (Some dev) else find_same_ops K s ops ds) }"

definition find_orig_fops :: "('w, 'k) blk_kern_scheme \<Rightarrow> nat \<Rightarrow> nat \<Rightarrow> 'w drv \<Rightarrow> (int \<times> 'w drv) option" where
  "find_orig_fops K a bdev s0 = do {
     s \<leftarrow> upd_dev a (\<lambda>d. d\<lparr>sd_tracing_ops := None\<rparr>) s0;
     orig_ops \<leftarrow> bdev_ops K s bdev;
     (let orig_mrf = ops_submit_bio K orig_ops;
          found = (\<lambda>ops mrf t s. do { s1 \<leftarrow> upd_dev a (\<lambda>d. d\<lparr>sd_orig_ops := ops, sd_orig_mrf := mrf, sd_tracing_ops := t\<rparr>) s; Some (0, s1) }) in
      if orig_mrf \<noteq> Some TracingMrf then
        (case orig_mrf of
           None \<Rightarrow> (if \<not> has_blk_mq_submit_bio K then Some (- EFAULT, s) else found (Some orig_ops) (Some NullMrf) None s)
         | Some m \<Rightarrow> found (Some orig_ops) (Some m) None s)
      else do {
        ds \<leftarrow> verified_devs s;
        hit \<leftarrow> find_same_ops K s orig_ops ds;
        (case hit of
           Some d \<Rightarrow> do { s1 \<leftarrow> tracing_ops_get (sd_tracing_ops d) s; found (sd_orig_ops d) (sd_orig_mrf d) (sd_tracing_ops d) s1 }
         | None \<Rightarrow> do { s1 \<leftarrow> upd_dev a (\<lambda>d. d\<lparr>sd_orig_ops := None, sd_orig_mrf := None\<rparr>) s; Some (- EFAULT, s1) }) }) }"

definition tracing_ops_alloc :: "('w, 'k) blk_kern_scheme \<Rightarrow> nat \<Rightarrow> 'w drv \<Rightarrow> (int \<times> 'w drv) option" where
  "tracing_ops_alloc K a s =
     (case kmalloc K 24 (world s) of
        (None, w1) \<Rightarrow> Some (- ENOMEM, s\<lparr>world := w1\<rparr>)
      | (Some _, w1) \<Rightarrow>
     (case kmalloc K 128 w1 of
        (None, w2) \<Rightarrow> Some (- ENOMEM, s\<lparr>world := w2\<rparr>)
      | (Some _, w2) \<Rightarrow> do {
          dev \<leftarrow> devs s a;
          base \<leftarrow> sd_base_dev dev;
          _ \<leftarrow> bdev_ops K s base;
          (let t = fresh s in
           Some (0, put_dev a (dev\<lparr>sd_tracing_ops := Some t\<rparr>)
             (s\<lparr>trops := (trops s)(t \<mapsto> \<lparr>to_bd_ops = TracingOps t, to_has_submit_bio = bd_has_submit_bio s base, to_refs = 1\<rparr>),
                fresh := Suc t, world := w2\<rparr>))) }))"

definition tracer_should_reset_mrf :: "('w, 'k) blk_kern_scheme \<Rightarrow> nat \<Rightarrow> 'w drv \<Rightarrow> bool option" where
  "tracer_should_reset_mrf K a s = do {
     dev \<leftarrow> devs s a;
     base \<leftarrow> sd_base_dev dev;
     ops \<leftarrow> bdev_ops K s base;
     (if ops_submit_bio K ops \<noteq> Some TracingMrf then Some False
      else do {
        p \<leftarrow> table s (sd_minor dev);
        (if p \<noteq> Some a then Some False
         else do {
           ds \<leftarrow> verified_devs s;
           hit \<leftarrow> find_same_ops K s ops (filter (\<lambda>(b, d). b \<noteq> a) ds);
           Some (hit = None) }) }) }"

text \<open>\<open>slot\<close> is the table entry \<^verbatim>\<open>dev_ptr\<close> points to.\<close>

definition tracer_transition_tracing :: "('w, 'k) drv_kern_scheme \<Rightarrow> nat \<Rightarrow> nat \<Rightarrow> fops option \<Rightarrow> nat \<Rightarrow> bool \<Rightarrow> 'w drv
    \<Rightarrow> (int \<times> 'w drv) option" where
  "tracer_transition_tracing K a bdev new_ops slot start s =
     (let sb = get_super K bdev (world s) in
      case (if sb \<noteq> None then freeze_bdev K bdev (world s) else (0, world s)) of (ret, w1) \<Rightarrow>
        if ret \<noteq> 0 then Some (ret, s\<lparr>world := w1\<rparr>)
        else do {
          dsk \<leftarrow> disk_of K bdev;
          (let s1 = s\<lparr>world := w1\<rparr>;
               swap = (\<lambda>s. case new_ops of None \<Rightarrow> s | Some ops \<Rightarrow> s\<lparr>disk_fops := (disk_fops s)(dsk := ops)\<rparr>) in do {
            s4 \<leftarrow> (if start then do {
                    s2 \<leftarrow> set_table slot (Some a) s1;
                    Some ((swap s2)\<lparr>bd_has_submit_bio := (bd_has_submit_bio s2)(bdev := True)\<rparr>) }
                  else do {
                    dev \<leftarrow> devs s1 a;
                    t \<leftarrow> sd_tracing_ops dev;
                    x \<leftarrow> trops s1 t;
                    set_table slot None ((swap s1)\<lparr>bd_has_submit_bio := (bd_has_submit_bio s1)(bdev := to_has_submit_bio x)\<rparr>) });
            Some (0, if sb \<noteq> None then s4\<lparr>world := thaw_bdev K bdev (world s4)\<rparr> else s4) }) })"

section \<open>Base device\<close>

definition destroy_base_dev :: "('w, 'k) drv_kern_scheme \<Rightarrow> nat \<Rightarrow> 'w drv \<Rightarrow> 'w drv option" where
  "destroy_base_dev K a s = do {
     dev \<leftarrow> devs s a;
     (let w1 = (case sd_base_dev dev of None \<Rightarrow> world s | Some b \<Rightarrow> blkdev_put K b (world s)) in
      Some (put_dev a (dev\<lparr>sd_size := 0, sd_sect_off := 0, sd_bdev_path := None, sd_base_dev := None\<rparr>) (s\<lparr>world := w1\<rparr>))) }"

definition setup_base_dev :: "('w, 'k) drv_kern_scheme \<Rightarrow> nat \<Rightarrow> string \<Rightarrow> 'w drv \<Rightarrow> (int \<times> 'w drv) option" where
  "setup_base_dev K a bdev_path s =
     (let fail = (\<lambda>ret s. do { s1 \<leftarrow> destroy_base_dev K a s; Some (ret, s1) }) in
      case blkdev_get_by_path K bdev_path (world s) of
        (Inl err, w1) \<Rightarrow> do { s1 \<leftarrow> upd_dev a (\<lambda>d. d\<lparr>sd_base_dev := None\<rparr>) (s\<lparr>world := w1\<rparr>); fail err s1 }
      | (Inr bdev, w1) \<Rightarrow> do {
          s1 \<leftarrow> upd_dev a (\<lambda>d. d\<lparr>sd_base_dev := Some bdev\<rparr>) (s\<lparr>world := w1\<rparr>);
          (case disk_of K bdev of
             None \<Rightarrow> fail (- EFAULT) s1
           | Some dsk \<Rightarrow> do {
               traced \<leftarrow> bdev_is_already_traced s1 bdev;
               (if traced then fail (- EINVAL) s1
                else (case pathname_to_absolute K bdev_path (world s1) of (ret, str, w2) \<Rightarrow> do {
                  s2 \<leftarrow> upd_dev a (\<lambda>d. case str of None \<Rightarrow> d | Some p \<Rightarrow> d\<lparr>sd_bdev_path := Some p\<rparr>) (s1\<lparr>world := w2\<rparr>);
                  (if ret \<noteq> 0 then fail ret s2
                   else do {
                     s3 \<leftarrow> upd_dev a (\<lambda>d. if bdev_is_partition K bdev
                              then d\<lparr>sd_sect_off := get_start_sect K bdev, sd_size := bdev_size K bdev\<rparr>
                              else d\<lparr>sd_sect_off := 0, sd_size := get_capacity K dsk\<rparr>) s2;
                     Some (0, s3) }) })) }) })"

definition copy_base_dev :: "snap_device \<Rightarrow> snap_device \<Rightarrow> snap_device" where
  "copy_base_dev src dest =
     dest\<lparr>sd_size := sd_size src, sd_sect_off := sd_sect_off src, sd_base_dev := sd_base_dev src,
          sd_bdev_path := sd_bdev_path src, sd_cow_state := sd_cow_state src,
          sd_ignore_snap_errors := sd_ignore_snap_errors src\<rparr>"

section \<open>Cow manager\<close>

text \<open>\<open>close_method\<close>: 0 frees, 1 syncs and frees, 2 syncs and closes.\<close>

definition destroy_cow :: "('w, 'k) drv_kern_scheme \<Rightarrow> nat \<Rightarrow> nat \<Rightarrow> 'w drv \<Rightarrow> (int \<times> 'w drv) option" where
  "destroy_cow K a close_method s = do {
     dev \<leftarrow> devs s a;
     (ret, s1) \<leftarrow>
       (case sd_cow dev of
          None \<Rightarrow> Some (0, s)
        | Some c \<Rightarrow> do {
            cm \<leftarrow> cows s c;
            (if close_method = 0 then
               Some (0, put_dev a (dev\<lparr>sd_cow := None\<rparr>) (s\<lparr>cows := (cows s)(c := None), world := cow_free K cm (world s)\<rparr>))
             else do {
               cdev \<leftarrow> devs s (cm_dev cm);
               (if close_method = 1 then do {
                  (ret, w1) \<leftarrow> cow_sync_and_free K cdev cm (world s);
                  Some (ret, put_dev a (dev\<lparr>sd_cow := None\<rparr>) (s\<lparr>cows := (cows s)(c := None), world := w1\<rparr>)) }
                else if close_method = 2 then do {
                  (ret, cm1, cdev1, _, w1) \<leftarrow> cow_sync_and_close K (cow_ext_buf_size s) cdev cm (world s);
                  Some (ret, put_dev (cm_dev cm) cdev1 (put_cow c cm1 (s\<lparr>world := task_work_flush K w1\<rparr>))) }
                else Some (0, s)) }) });
     s2 \<leftarrow> upd_dev a (\<lambda>d. if close_method \<noteq> 2 \<and> sd_cow_extents d \<noteq> None
             then d\<lparr>sd_cow_extents := None, sd_cow_ext_cnt := 0, sd_cow_inode := None\<rparr> else d) s1;
     s3 \<leftarrow> upd_dev a (\<lambda>d. d\<lparr>sd_falloc_size := 0, sd_cache_size := 0\<rparr>) s2;
     Some (ret, s3) }"

definition file_is_on_bdev :: "('w, 'k) drv_kern_scheme \<Rightarrow> nat \<Rightarrow> nat \<Rightarrow> 'w \<Rightarrow> bool" where
  "file_is_on_bdev K f bdev w = (case get_super K bdev w of None \<Rightarrow> False | Some (sb, _) \<Rightarrow> mnt_sb K f = sb)"

definition MiB :: nat where
  "MiB = 1024 * 1024"

definition max_cow_file_size :: "'w drv \<Rightarrow> nat \<Rightarrow> nat \<Rightarrow> nat" where
  "max_cow_file_size s nsec fallocated_space =
     (if fallocated_space = 0
      then ALIGN (wrap64 (nsec * SECTOR_SIZE * cow_fallocate_percentage_default s) div 100) PAGE_SIZE
      else ALIGN (wrap64 (fallocated_space * MiB)) PAGE_SIZE)"

text \<open>The cow file name: below the mount point in user space if there is such a file.\<close>

definition cow_path_for :: "('w, 'k) drv_kern_scheme \<Rightarrow> nat option \<Rightarrow> string \<Rightarrow> 'w drv \<Rightarrow> (int \<times> string \<times> 'w drv) option" where
  "cow_path_for K user_mount_path cow_path s =
     (case user_mount_path of
        None \<Rightarrow> Some (0, cow_path, s)
      | Some p \<Rightarrow> do {
          (ret, full, w1) \<leftarrow> user_mount_pathname_concat K (Some p) cow_path (world s);
          (let s1 = s\<lparr>world := w1\<rparr> in
           if ret \<noteq> 0 then Some (ret, cow_path, s1)
           else do { fp \<leftarrow> full; Some (0, if pathname_exists K fp w1 then fp else cow_path, s1) }) })"

definition open_cow_new :: "('w, 'k) drv_kern_scheme \<Rightarrow> nat \<Rightarrow> string \<Rightarrow> nat \<Rightarrow> nat \<Rightarrow> byte list option \<Rightarrow> nat \<Rightarrow> 'w drv
    \<Rightarrow> (int \<times> 'w drv) option" where
  "open_cow_new K a path nsec fallocated_space uuid_opt seq s = do {
     dev0 \<leftarrow> devs s a;
     (let maxsz = max_cow_file_size s nsec fallocated_space; dev = dev0\<lparr>sd_falloc_size := maxsz div MiB\<rparr> in do {
       (ret, cmo, dev1, w1) \<leftarrow> cow_init K a dev path (SECTOR_TO_BLOCK nsec) COW_SECTION_SIZE (sd_cache_size dev) maxsz uuid_opt seq (world s);
       (let s1 = s\<lparr>world := w1, fresh := Suc (fresh s)\<rparr> in
        Some (ret, case cmo of
            None \<Rightarrow> put_dev a (dev1\<lparr>sd_cow := None\<rparr>) s1
          | Some cm \<Rightarrow> put_dev a (dev1\<lparr>sd_cow := Some (fresh s)\<rparr>) (put_cow (fresh s) cm s1))) }) }"

definition open_cow_reload :: "('w, 'k) drv_kern_scheme \<Rightarrow> nat \<Rightarrow> string \<Rightarrow> nat \<Rightarrow> bool \<Rightarrow> 'w drv \<Rightarrow> (int \<times> 'w drv) option" where
  "open_cow_reload K a path nsec index_only s = do {
     dev \<leftarrow> devs s a;
     (ret, cmo, dev1, w1) \<leftarrow> cow_reload K a dev path (SECTOR_TO_BLOCK nsec) COW_SECTION_SIZE (sd_cache_size dev) index_only (world s);
     (let s1 = s\<lparr>world := w1, fresh := Suc (fresh s)\<rparr> in
      Some (ret, case cmo of
          None \<Rightarrow> put_dev a (dev1\<lparr>sd_cow := None\<rparr>) s1
        | Some cm \<Rightarrow> put_dev a (dev1\<lparr>sd_cow := Some (fresh s), sd_falloc_size := file_max cm div MiB\<rparr>) (put_cow (fresh s) cm s1))) }"

definition open_cow_reopen :: "('w, 'k) drv_kern_scheme \<Rightarrow> nat \<Rightarrow> string \<Rightarrow> 'w drv \<Rightarrow> (int \<times> 'w drv) option" where
  "open_cow_reopen K a path s = do {
     dev \<leftarrow> devs s a;
     (c, cm, cdev) \<leftarrow> cow_of s dev;
     (ret, cm1, cdev1, w1) \<leftarrow> cow_reopen K cdev cm path (world s);
     Some (ret, put_dev (cm_dev cm) cdev1 (put_cow c cm1 (s\<lparr>world := w1\<rparr>))) }"

text \<open>\<open>open_method\<close>: 0 new, 1 reload a snapshot, 2 reload an incremental, 3 reopen.\<close>

definition setup_cow :: "('w, 'k) drv_kern_scheme \<Rightarrow> nat \<Rightarrow> nat \<Rightarrow> nat option \<Rightarrow> string \<Rightarrow> nat \<Rightarrow> nat \<Rightarrow> nat \<Rightarrow> byte list option \<Rightarrow> nat \<Rightarrow> nat
    \<Rightarrow> 'w drv \<Rightarrow> (int \<times> 'w drv) option" where
  "setup_cow K a bdev user_mount_path cow_path nsec fallocated_space cache_size uuid_opt seq open_method s = do {
     (ret, path, s1) \<leftarrow> cow_path_for K user_mount_path cow_path s;
     (ret, s2) \<leftarrow>
       (if ret \<noteq> 0 then Some (ret, s1)
        else if open_method = 3 then open_cow_reopen K a path s1
        else do {
          s1a \<leftarrow> upd_dev a (\<lambda>d. d\<lparr>sd_cache_size := (if cache_size = 0 then cow_max_memory_default s1 else cache_size)\<rparr>) s1;
          (if open_method = 0 then open_cow_new K a path nsec fallocated_space uuid_opt seq s1a
           else open_cow_reload K a path nsec (open_method = 2) s1a) });
     (if ret \<noteq> 0 then
        (if open_method \<noteq> 3 then do { (_, s3) \<leftarrow> destroy_cow K a 0 s2; Some (ret, s3) } else Some (ret, s2))
      else do {
        dev \<leftarrow> devs s2 a;
        c \<leftarrow> sd_cow dev;
        cm \<leftarrow> cows s2 c;
        f \<leftarrow> filp cm;
        (if file_is_on_bdev K f bdev (world s2)
         then Some (0, put_dev a (dev\<lparr>sd_cow_state := set_bit COW_ON_BDEV (sd_cow_state dev), sd_cow_inode := Some (f_inode K f)\<rparr>) s2)
         else Some (0, s2)) }) }"

definition copy_cow :: "nat \<Rightarrow> nat \<Rightarrow> 'w drv \<Rightarrow> 'w drv option" where
  "copy_cow old a s = do {
     src \<leftarrow> devs s old;
     c \<leftarrow> sd_cow src;
     cm \<leftarrow> cows s c;
     upd_dev a (\<lambda>d. d\<lparr>sd_cow := Some c, sd_cow_extents := sd_cow_extents src, sd_cow_ext_cnt := sd_cow_ext_cnt src,
                      sd_cow_inode := sd_cow_inode src, sd_cache_size := sd_cache_size src, sd_falloc_size := sd_falloc_size src\<rparr>)
       (put_cow c (cm\<lparr>cm_dev := a\<rparr>) s) }"

definition destroy_cow_path :: "nat \<Rightarrow> 'w drv \<Rightarrow> 'w drv option" where
  "destroy_cow_path a s = upd_dev a (\<lambda>d. d\<lparr>sd_cow_path := None\<rparr>) s"

definition setup_cow_path :: "('w, 'k) drv_kern_scheme \<Rightarrow> nat \<Rightarrow> 'w drv \<Rightarrow> (int \<times> 'w drv) option" where
  "setup_cow_path K a s = do {
     dev \<leftarrow> devs s a;
     c \<leftarrow> sd_cow dev;
     cm \<leftarrow> cows s c;
     f \<leftarrow> filp cm;
     (ret, str, w1) \<leftarrow> (if on_bdev dev then Some (dentry_get_relative_pathname K f (world s))
                        else file_get_absolute_pathname K f False (world s));
     (let s1 = put_dev a (dev\<lparr>sd_cow_path := str\<rparr>) (s\<lparr>world := w1\<rparr>) in
      if ret \<noteq> 0 then do { s2 \<leftarrow> destroy_cow_path a s1; Some (ret, s2) } else Some (0, s1)) }"

section \<open>Snapshot disk and threads\<close>

text \<open>\<^verbatim>\<open>kthread_stop\<close> waits until the thread function returns: the released writes are
  submitted first, and the cow thread empties its queue. A thread that was never woken does
  not run its function at all.\<close>

definition stop_mrf_thread :: "('w, 'k) blk_kern_scheme \<Rightarrow> nat \<Rightarrow> 'w drv \<Rightarrow> 'w drv option" where
  "stop_mrf_thread K a s = do {
     dev \<leftarrow> devs s a;
     (if sd_mrf_thread dev then do {
        s1 \<leftarrow> snap_mrf_thread K a (length (sd_orig_bios dev)) s;
        upd_dev a (\<lambda>d. d\<lparr>sd_mrf_thread := False\<rparr>) s1 }
      else Some s) }"

definition stop_cow_thread :: "('w, 'k) blk_kern_scheme \<Rightarrow> nat \<Rightarrow> 'w drv \<Rightarrow> 'w drv option" where
  "stop_cow_thread K a s = do {
     dev \<leftarrow> devs s a;
     (_, s1) \<leftarrow> (case sd_cow_thread dev of
         Some (Running is_snap is_failed) \<Rightarrow>
           (if is_snap then snap_cow_thread K a (length (sd_cow_bios dev)) is_failed s
            else inc_sset_thread K a (length (sd_pending_ssets dev)) is_failed s)
       | _ \<Rightarrow> Some (False, s));
     upd_dev a (\<lambda>d. d\<lparr>sd_cow_thread := None\<rparr>) s1 }"

definition destroy_snap :: "('w, 'k) drv_kern_scheme \<Rightarrow> nat \<Rightarrow> 'w drv \<Rightarrow> 'w drv option" where
  "destroy_snap K a s = do {
     s1 \<leftarrow> stop_mrf_thread K a s;
     dev \<leftarrow> devs s1 a;
     (let w1 = (if sd_gd dev \<noteq> None then del_disk K (world s1) else world s1) in
      Some (put_dev a (dev\<lparr>sd_gd := None, sd_queue := False, sd_bioset := False\<rparr>) (s1\<lparr>world := w1\<rparr>))) }"

definition setup_snap :: "('w, 'k) drv_kern_scheme \<Rightarrow> nat \<Rightarrow> nat \<Rightarrow> nat \<Rightarrow> 'w drv \<Rightarrow> (int \<times> 'w drv) option" where
  "setup_snap K a minor nsec s =
     (let fail = (\<lambda>ret s. do { s1 \<leftarrow> destroy_snap K a s; Some (ret, s1) }) in
      case bioset_init K (world s) of (ret, w1) \<Rightarrow>
        if ret \<noteq> 0 then fail ret (s\<lparr>world := w1\<rparr>)
        else do {
          s1 \<leftarrow> upd_dev a (\<lambda>d. d\<lparr>sd_bioset := True\<rparr>) (s\<lparr>world := w1\<rparr>);
          (case blk_alloc_disk K (world s1) of (okd, w2) \<Rightarrow>
             if \<not> okd then fail (- ENOMEM) (s1\<lparr>world := w2\<rparr>)
             else do {
               s2 \<leftarrow> upd_dev a (\<lambda>d. d\<lparr>sd_gd := Some (minor, nsec), sd_queue := True\<rparr>) (s1\<lparr>world := w2\<rparr>);
               (case add_disk K (world s2) of (ret, w3) \<Rightarrow>
                  if ret \<noteq> 0 then fail ret (s2\<lparr>world := w3\<rparr>)
                  else (case kthread_create K w3 of (ret, w4) \<Rightarrow>
                    if ret \<noteq> 0 then do { s3 \<leftarrow> upd_dev a (\<lambda>d. d\<lparr>sd_mrf_thread := False\<rparr>) (s2\<lparr>world := w4\<rparr>); fail ret s3 }
                    else do {
                      s3 \<leftarrow> upd_dev a (\<lambda>d. d\<lparr>sd_mrf_thread := True, sd_submitted_cnt := 0, sd_received_cnt := 0, sd_processed_cnt := 0,
                                             sd_discard_dropped_cnt := 0, sd_discard_ignored_size := 0\<rparr>) (s2\<lparr>world := w4\<rparr>);
                      Some (0, s3) })) }) })"

definition elastio_snap_stop_request_queue :: "snap_device \<Rightarrow> snap_device" where
  "elastio_snap_stop_request_queue dev = (if sd_queue dev then dev\<lparr>sd_ignore_requests := 1\<rparr> else dev)"

definition destroy_cow_thread :: "('w, 'k) blk_kern_scheme \<Rightarrow> nat \<Rightarrow> 'w drv \<Rightarrow> 'w drv option" where
  "destroy_cow_thread K a s = do {
     dev \<leftarrow> devs s a;
     (if sd_cow_thread dev = None then Some s
      else stop_cow_thread K a (put_dev a (elastio_snap_stop_request_queue dev) s)) }"

definition setup_cow_thread :: "('w, 'k) blk_kern_scheme \<Rightarrow> ('w \<Rightarrow> int \<times> 'w) \<Rightarrow> nat \<Rightarrow> bool \<Rightarrow> 'w drv \<Rightarrow> (int \<times> 'w drv) option" where
  "setup_cow_thread K create a is_snap s =
     (case create (world s) of (ret, w1) \<Rightarrow>
        if ret \<noteq> 0 then do {
          s1 \<leftarrow> upd_dev a (\<lambda>d. d\<lparr>sd_cow_thread := None\<rparr>) (s\<lparr>world := w1\<rparr>);
          s2 \<leftarrow> destroy_cow_thread K a s1;
          Some (ret, s2) }
        else do {
          s1 \<leftarrow> upd_dev a (\<lambda>d. d\<lparr>sd_cow_thread := Some (Created is_snap)\<rparr>) (s\<lparr>world := w1\<rparr>);
          Some (0, s1) })"

text \<open>Waking a thread that is not there is a fault.\<close>

definition wake_up_cow_thread :: "nat \<Rightarrow> 'w drv \<Rightarrow> 'w drv option" where
  "wake_up_cow_thread a s = do {
     dev \<leftarrow> devs s a;
     t \<leftarrow> sd_cow_thread dev;
     Some (put_dev a (dev\<lparr>sd_cow_thread := Some (case t of Created k \<Rightarrow> Running k False | Running k f \<Rightarrow> Running k f)\<rparr>) s) }"

section \<open>The minor range\<close>

definition minor_range_recalculate :: "'w drv \<Rightarrow> 'w drv option" where
  "minor_range_recalculate s = do {
     t \<leftarrow> snap_devices s;
     (if length t < max_snap_devices s then None
      else
        let used = filter (\<lambda>i. t ! i \<noteq> None) (tracer_for_each_full s) in
        Some (s\<lparr>lowest_minor := foldl min (max_snap_devices s - 1) used, highest_minor := foldl max 0 used\<rparr>)) }"

definition minor_range_include :: "nat \<Rightarrow> 'w drv \<Rightarrow> 'w drv" where
  "minor_range_include minor s =
     s\<lparr>lowest_minor := min minor (lowest_minor s), highest_minor := max minor (highest_minor s)\<rparr>"

section \<open>Tracing\<close>

definition free_mrf_and_ops :: "nat \<Rightarrow> 'w drv \<Rightarrow> 'w drv option" where
  "free_mrf_and_ops a s = do {
     dev \<leftarrow> devs s a;
     s1 \<leftarrow> (case sd_tracing_ops dev of None \<Rightarrow> Some s | Some t \<Rightarrow> tracing_ops_put t s);
     upd_dev a (\<lambda>d. d\<lparr>sd_tracing_ops := None, sd_orig_ops := None, sd_orig_mrf := None\<rparr>) s1 }"

definition destroy_tracing :: "('w, 'k) drv_kern_scheme \<Rightarrow> nat \<Rightarrow> 'w drv \<Rightarrow> 'w drv option" where
  "destroy_tracing K a s = do {
     dev \<leftarrow> devs s a;
     s4 \<leftarrow>
       (if sd_orig_mrf dev \<noteq> None then do {
          reset \<leftarrow> tracer_should_reset_mrf K a s;
          s2 \<leftarrow>
            (if reset then do {
               s1 \<leftarrow> (if test_flag ACTIVE dev then Some s
                     else do {
                       (_, t1) \<leftarrow> setup_cow_thread K (kthread_create K) a (test_flag SNAPSHOT dev) s;
                       t2 \<leftarrow> wake_up_cow_thread a t1;
                       destroy_cow_thread K a t2 });
               dev1 \<leftarrow> devs s1 a;
               base \<leftarrow> sd_base_dev dev1;
               (_, s2) \<leftarrow> tracer_transition_tracing K a base (sd_orig_ops dev1) (sd_minor dev1) False s1;
               Some s2 }
             else do {
               base \<leftarrow> sd_base_dev dev;
               (_, s2) \<leftarrow> tracer_transition_tracing K a base None (sd_minor dev) False s;
               Some s2 });
          free_mrf_and_ops a s2 }
        else do {
          p \<leftarrow> table s (sd_minor dev);
          (if p = Some a then set_table (sd_minor dev) None s else Some s) });
     s5 \<leftarrow> upd_dev a (\<lambda>d. d\<lparr>sd_minor := 0\<rparr>) s4;
     minor_range_recalculate s5 }"

definition setup_tracing_unverified :: "nat \<Rightarrow> nat \<Rightarrow> 'w drv \<Rightarrow> 'w drv option" where
  "setup_tracing_unverified a minor s = do {
     s1 \<leftarrow> free_mrf_and_ops a s;
     s2 \<leftarrow> upd_dev a (\<lambda>d. d\<lparr>sd_minor := minor\<rparr>) (minor_range_include minor s1);
     set_table minor (Some a) s2 }"

definition setup_tracing :: "('w, 'k) drv_kern_scheme \<Rightarrow> nat \<Rightarrow> nat \<Rightarrow> 'w drv \<Rightarrow> (int \<times> 'w drv) option" where
  "setup_tracing K a minor s = do {
     s1 \<leftarrow> upd_dev a (\<lambda>d. d\<lparr>sd_minor := minor\<rparr>) s;
     (let s2 = minor_range_include minor s1 in do {
       dev \<leftarrow> devs s2 a;
       (ret, s6) \<leftarrow>
         (if sd_tracing_ops dev \<noteq> None then Some (0, s2)
          else do {
            base \<leftarrow> sd_base_dev dev;
            and_then (find_orig_fops K a base s2) (\<lambda>s3.
            and_then (do { d3 \<leftarrow> devs s3 a; (if sd_tracing_ops d3 = None then tracing_ops_alloc K a s3 else Some (0, s3)) }) (\<lambda>s4. do {
              d4 \<leftarrow> devs s4 a;
              t \<leftarrow> sd_tracing_ops d4;
              x \<leftarrow> trops s4 t;
              tracer_transition_tracing K a base (Some (to_bd_ops x)) minor True s4 })) });
       (if ret \<noteq> 0 then do {
          s7 \<leftarrow> upd_dev a (\<lambda>d. d\<lparr>sd_minor := 0\<rparr>) s6;
          s8 \<leftarrow> free_mrf_and_ops a s7;
          s9 \<leftarrow> minor_range_recalculate s8;
          Some (ret, s9) }
        else Some (0, s6)) }) }"

section \<open>Tracers\<close>

definition tracer_destroy :: "('w, 'k) drv_kern_scheme \<Rightarrow> nat \<Rightarrow> 'w drv \<Rightarrow> 'w drv option" where
  "tracer_destroy K a s = do {
     s1 \<leftarrow> destroy_tracing K a s;
     s2 \<leftarrow> destroy_cow_thread K a s1;
     s3 \<leftarrow> destroy_snap K a s2;
     s4 \<leftarrow> destroy_cow_path a s3;
     (_, s5) \<leftarrow> destroy_cow K a 0 s4;
     destroy_base_dev K a s5 }"

text \<open>An operation on the fields of the device at an address.\<close>

definition with_dev :: "nat \<Rightarrow> (snap_device \<Rightarrow> 'w drv \<Rightarrow> (int \<times> 'w drv) option) \<Rightarrow> 'w drv \<Rightarrow> (int \<times> 'w drv) option" where
  "with_dev a f s = do { dev \<leftarrow> devs s a; f dev s }"

definition wake :: "nat \<Rightarrow> 'w drv \<Rightarrow> (int \<times> 'w drv) option" where
  "wake a s = do { s1 \<leftarrow> wake_up_cow_thread a s; Some (0, s1) }"

definition tracer_setup_active_snap :: "('w, 'k) drv_kern_scheme \<Rightarrow> nat \<Rightarrow> nat \<Rightarrow> string \<Rightarrow> string \<Rightarrow> nat \<Rightarrow> nat \<Rightarrow> bool \<Rightarrow> 'w drv
    \<Rightarrow> (int \<times> 'w drv) option" where
  "tracer_setup_active_snap K a minor bdev_path cow_path fallocated_space cache_size ignore_snap_errors s0 = do {
     s \<leftarrow> upd_dev a (\<lambda>d. (set_flags True True False d)\<lparr>sd_ignore_snap_errors := ignore_snap_errors\<rparr>) s0;
     (ret, s1) \<leftarrow>
       and_then (setup_base_dev K a bdev_path s) (\<lambda>s.
       and_then (with_dev a (\<lambda>d s. do { b \<leftarrow> sd_base_dev d; setup_cow K a b None cow_path (sd_size d) fallocated_space cache_size None 1 0 s }) s) (\<lambda>s.
       and_then (setup_cow_path K a s) (\<lambda>s.
       and_then (with_dev a (\<lambda>d. setup_snap K a minor (sd_size d)) s) (\<lambda>s.
       and_then (setup_cow_thread K (kthread_create K) a True s) (\<lambda>s.
       and_then (wake a s) (\<lambda>s.
       setup_tracing K a minor s))))));
     (if ret \<noteq> 0 then do { s2 \<leftarrow> tracer_destroy K a s1; Some (ret, s2) } else Some (0, s1)) }"

definition setup_unverified :: "('w, 'k) drv_kern_scheme \<Rightarrow> nat \<Rightarrow> nat \<Rightarrow> string \<Rightarrow> string \<Rightarrow> nat \<Rightarrow> bool \<Rightarrow> bool \<Rightarrow> 'w drv
    \<Rightarrow> (int \<times> 'w drv) option" where
  "setup_unverified K a minor bdev_path cow_path cache_size ignore_snap_errors is_snap s0 = do {
     s \<leftarrow> upd_dev a (\<lambda>d. (set_flags is_snap False True d)\<lparr>sd_cache_size := cache_size, sd_ignore_snap_errors := ignore_snap_errors\<rparr>) s0;
     (case kmalloc K (Suc (length bdev_path)) (world s) of
        (None, w1) \<Rightarrow> do {
          s1 \<leftarrow> upd_dev a (\<lambda>d. d\<lparr>sd_bdev_path := None\<rparr>) (s\<lparr>world := w1\<rparr>);
          s2 \<leftarrow> tracer_destroy K a s1; Some (- ENOMEM, s2) }
      | (Some _, w1) \<Rightarrow> do {
          s1 \<leftarrow> upd_dev a (\<lambda>d. d\<lparr>sd_bdev_path := Some bdev_path\<rparr>) (s\<lparr>world := w1\<rparr>);
          (case kmalloc K (Suc (length cow_path)) (world s1) of
             (None, w2) \<Rightarrow> do {
               s2 \<leftarrow> upd_dev a (\<lambda>d. d\<lparr>sd_cow_path := None\<rparr>) (s1\<lparr>world := w2\<rparr>);
               s3 \<leftarrow> tracer_destroy K a s2; Some (- ENOMEM, s3) }
           | (Some _, w2) \<Rightarrow> do {
               s2 \<leftarrow> upd_dev a (\<lambda>d. d\<lparr>sd_cow_path := Some cow_path\<rparr>) (s1\<lparr>world := w2\<rparr>);
               s3 \<leftarrow> setup_tracing_unverified a minor s2;
               Some (0, s3) }) }) }"

section \<open>Changing modes\<close>

definition tracer_active_snap_to_inc :: "('w, 'k) drv_kern_scheme \<Rightarrow> nat \<Rightarrow> 'w drv \<Rightarrow> (int \<times> 'w drv) option" where
  "tracer_active_snap_to_inc K old s0 =
     (case tracer_alloc K s0 of
        (ret, None, s) \<Rightarrow> Some (ret, s)
      | (ret, Some a, s) \<Rightarrow> do {
          old_dev \<leftarrow> devs s old;
          s1 \<leftarrow> upd_dev a (\<lambda>d. (copy_base_dev old_dev (set_flags False True False d))\<lparr>sd_cow_path := sd_cow_path old_dev\<rparr>) s;
          s2 \<leftarrow> copy_cow old a s1;
          (ret, s3) \<leftarrow> and_then (setup_cow_thread K (kthread_create K) a False s2) (\<lambda>s. setup_tracing K a (sd_minor old_dev) s);
          (if ret \<noteq> 0 then do {
             s4 \<leftarrow> destroy_cow_thread K a s3;
             Some (ret, kfree_dev a s4) }
           else do {
             s4 \<leftarrow> destroy_cow_thread K old s3;
             old1 \<leftarrow> devs s4 old;
             (let err = tracer_read_fail_state old1 in
              if err \<noteq> 0 then do {
                s5 \<leftarrow> upd_dev a (\<lambda>d. tracer_set_fail_state d err) s4;
                s6 \<leftarrow> wake_up_cow_thread a s5;
                s7 \<leftarrow> destroy_snap K old s6;
                Some (err, kfree_dev old s7) }
              else do {
                s5 \<leftarrow> wake_up_cow_thread a s4;
                dev \<leftarrow> devs s5 a;
                c \<leftarrow> sd_cow dev;
                cm \<leftarrow> cows s5 c;
                (ret, cm1, w1) \<leftarrow> cow_truncate_to_index K cm (world s5);
                s6 \<leftarrow> (if ret \<noteq> 0 then do {
                        f \<leftarrow> filp cm1;
                        (_, _, w2) \<leftarrow> file_get_absolute_pathname K f True w1;
                        Some (put_cow c cm1 (s5\<lparr>world := w2\<rparr>)) }
                      else Some (put_cow c cm1 (s5\<lparr>world := w1\<rparr>)));
                s7 \<leftarrow> destroy_snap K old s6;
                Some (0, kfree_dev old s7) }) }) })"

definition tracer_active_inc_to_snap :: "('w, 'k) drv_kern_scheme \<Rightarrow> nat \<Rightarrow> string \<Rightarrow> nat \<Rightarrow> 'w drv \<Rightarrow> (int \<times> 'w drv) option" where
  "tracer_active_inc_to_snap K old cow_path fallocated_space s0 =
     (case tracer_alloc K s0 of
        (ret, None, s) \<Rightarrow> Some (ret, s)
      | (ret, Some a, s) \<Rightarrow> do {
          old_dev \<leftarrow> devs s old;
          s1 \<leftarrow> upd_dev a (\<lambda>d. copy_base_dev old_dev (set_flags True True False d)) s;
          oc \<leftarrow> sd_cow old_dev;
          ocm \<leftarrow> cows s1 oc;
          (ret, s2) \<leftarrow>
            and_then (with_dev a (\<lambda>d s. do { b \<leftarrow> sd_base_dev d;
                setup_cow K a b None cow_path (sd_size d) fallocated_space (sd_cache_size d)
                  (Some (uuid ocm)) (wrap64 (Suc (seqid ocm))) 0 s }) s1) (\<lambda>s.
            and_then (setup_cow_path K a s) (\<lambda>s.
            and_then (with_dev a (\<lambda>d. setup_snap K a (sd_minor old_dev) (sd_size d)) s) (\<lambda>s.
            and_then (setup_cow_thread K (kthread_create K) a True s) (\<lambda>s.
            setup_tracing K a (sd_minor old_dev) s))));
          (if ret \<noteq> 0 then do {
             s3 \<leftarrow> destroy_cow_thread K a s2;
             s4 \<leftarrow> destroy_snap K a s3;
             s5 \<leftarrow> destroy_cow_path a s4;
             (_, s6) \<leftarrow> destroy_cow K a 0 s5;
             Some (ret, kfree_dev a s6) }
           else do {
             s3 \<leftarrow> destroy_cow_thread K old s2;
             s4 \<leftarrow> wake_up_cow_thread a s3;
             s5 \<leftarrow> destroy_cow_path old s4;
             (_, s6) \<leftarrow> destroy_cow K old 1 s5;
             Some (0, kfree_dev old s6) }) })"

definition tracer_reconfigure :: "nat \<Rightarrow> nat \<Rightarrow> 'w drv \<Rightarrow> 'w drv option" where
  "tracer_reconfigure a cache_size s = do {
     dev \<leftarrow> devs s a;
     (let s1 = put_dev a (dev\<lparr>sd_cache_size := cache_size\<rparr>) s;
          csize = (if cache_size = 0 then cow_max_memory_default s else cache_size) in
      if test_flag ACTIVE dev then do {
        c \<leftarrow> sd_cow dev;
        cm \<leftarrow> cows s c;
        Some (put_cow c (cow_modify_cache_size cm csize) s1) }
      else Some s1) }"

end
