(* ===== verification/Ioctl.thy ===== *)
theory Ioctl
  imports Tracer
begin

text \<open>
  The control device: copying the parameters from user space, the checks and the handlers of
  the ioctl commands (\<^verbatim>\<open>IOCTL HANDLER FUNCTIONS\<close> of \<^verbatim>\<open>src/main.c\<close>). All of them run under
  \<^verbatim>\<open>ioctl_mutex\<close>, so one command is one step of the module.
\<close>

section \<open>Parameters\<close>

record setup_params =
  p_bdev :: "nat option"
  p_cow :: "nat option"
  p_fallocated_space :: nat
  p_cache_size :: nat
  p_minor :: nat
  p_ignore_snap_errors :: bool

record reload_params =
  r_bdev :: "nat option"
  r_cow :: "nat option"
  r_cache_size :: nat
  r_minor :: nat
  r_ignore_snap_errors :: bool

record transition_snap_params =
  t_cow :: "nat option"
  t_fallocated_space :: nat
  t_minor :: nat

record reconfigure_params =
  c_cache_size :: nat
  c_minor :: nat

record elastio_snap_info =
  info_minor :: nat
  info_flags :: nat
  info_state :: "64 word"
  info_error :: int
  info_cache_size :: nat
  info_falloc_size :: nat
  info_seqid :: nat
  info_uuid :: "byte list"
  info_cow :: string
  info_bdev :: string
  info_version :: nat
  info_nr_changed_blocks :: nat
  info_ignore_snap_errors :: bool

text \<open>Copies between user space and the driver: \<^term>\<open>None\<close> is a copy that failed.\<close>

record 'w ioctl_kern = "'w drv_kern" +
  copy_setup :: "nat \<Rightarrow> 'w \<Rightarrow> setup_params option"
  copy_reload :: "nat \<Rightarrow> 'w \<Rightarrow> reload_params option"
  copy_transition :: "nat \<Rightarrow> 'w \<Rightarrow> transition_snap_params option"
  copy_reconfigure :: "nat \<Rightarrow> 'w \<Rightarrow> reconfigure_params option"
  copy_info :: "nat \<Rightarrow> 'w \<Rightarrow> elastio_snap_info option"
  get_user_uint :: "nat \<Rightarrow> 'w \<Rightarrow> int + nat"
  put_info :: "nat \<Rightarrow> elastio_snap_info \<Rightarrow> 'w \<Rightarrow> bool \<times> 'w"
  put_int :: "nat \<Rightarrow> int \<Rightarrow> 'w \<Rightarrow> bool \<times> 'w"

definition get_setup_params :: "('w, 'k) ioctl_kern_scheme \<Rightarrow> nat \<Rightarrow> 'w \<Rightarrow> int + (nat \<times> string \<times> string \<times> nat \<times> nat \<times> bool)" where
  "get_setup_params K arg w =
     (case copy_setup K arg w of
        None \<Rightarrow> Inl (- EFAULT)
      | Some p \<Rightarrow>
     (case copy_string_from_user K (p_bdev p) w of (ret, bdev) \<Rightarrow>
      if ret \<noteq> 0 then Inl ret
      else (case bdev of None \<Rightarrow> Inl (- EINVAL) | Some b \<Rightarrow>
     (case copy_string_from_user K (p_cow p) w of (ret, cow) \<Rightarrow>
      if ret \<noteq> 0 then Inl ret
      else (case cow of None \<Rightarrow> Inl (- EINVAL) | Some c \<Rightarrow>
        Inr (p_minor p, b, c, p_fallocated_space p, p_cache_size p, p_ignore_snap_errors p))))))"

definition get_reload_params :: "('w, 'k) ioctl_kern_scheme \<Rightarrow> nat \<Rightarrow> 'w \<Rightarrow> int + (nat \<times> string \<times> string \<times> nat \<times> bool)" where
  "get_reload_params K arg w =
     (case copy_reload K arg w of
        None \<Rightarrow> Inl (- EFAULT)
      | Some p \<Rightarrow>
     (case copy_string_from_user K (r_bdev p) w of (ret, bdev) \<Rightarrow>
      if ret \<noteq> 0 then Inl ret
      else (case bdev of None \<Rightarrow> Inl (- EINVAL) | Some b \<Rightarrow>
     (case copy_string_from_user K (r_cow p) w of (ret, cow) \<Rightarrow>
      if ret \<noteq> 0 then Inl ret
      else (case cow of None \<Rightarrow> Inl (- EINVAL) | Some c \<Rightarrow>
        Inr (r_minor p, b, c, r_cache_size p, r_ignore_snap_errors p))))))"

definition get_transition_snap_params :: "('w, 'k) ioctl_kern_scheme \<Rightarrow> nat \<Rightarrow> 'w \<Rightarrow> int + (nat \<times> string \<times> nat)" where
  "get_transition_snap_params K arg w =
     (case copy_transition K arg w of
        None \<Rightarrow> Inl (- EFAULT)
      | Some p \<Rightarrow>
     (case copy_string_from_user K (t_cow p) w of (ret, cow) \<Rightarrow>
      if ret \<noteq> 0 then Inl ret
      else (case cow of None \<Rightarrow> Inl (- EINVAL) | Some c \<Rightarrow> Inr (t_minor p, c, t_fallocated_space p))))"

definition get_reconfigure_params :: "('w, 'k) ioctl_kern_scheme \<Rightarrow> nat \<Rightarrow> 'w \<Rightarrow> int + (nat \<times> nat)" where
  "get_reconfigure_params K arg w =
     (case copy_reconfigure K arg w of None \<Rightarrow> Inl (- EFAULT) | Some p \<Rightarrow> Inr (c_minor p, c_cache_size p))"

section \<open>Checks\<close>

text \<open>\<open>mode\<close>: 0 the minor has to be free, 1 in use and not busy, 2 in use.\<close>

definition verify_minor :: "nat \<Rightarrow> nat \<Rightarrow> 'w drv \<Rightarrow> int option" where
  "verify_minor minor mode s =
     (if max_snap_devices s \<le> minor then Some (- EINVAL)
      else do {
        p \<leftarrow> table s minor;
        (if mode = 0 then Some (if p \<noteq> None then - EBUSY else 0)
         else (case p of
             None \<Rightarrow> Some (- ENOENT)
           | Some a \<Rightarrow>
               if mode = 1 then do { dev \<leftarrow> devs s a; Some (if sd_refs dev \<noteq> 0 then - EBUSY else 0) }
               else Some 0)) })"

definition verify_bdev_writable :: "('w, 'k) drv_kern_scheme \<Rightarrow> string \<Rightarrow> 'w \<Rightarrow> int \<times> bool \<times> 'w" where
  "verify_bdev_writable K bdev_path w =
     (case blkdev_get_by_path K bdev_path w of
        (Inl err, w1) \<Rightarrow> (err, False, w1)
      | (Inr bdev, w1) \<Rightarrow>
          (0, case get_super K bdev w1 of None \<Rightarrow> False | Some (sb, rdonly) \<Rightarrow> \<not> rdonly, blkdev_put K bdev w1))"

section \<open>Handlers\<close>

definition ioctl_setup :: "('w, 'k) drv_kern_scheme \<Rightarrow> nat \<Rightarrow> string \<Rightarrow> string \<Rightarrow> nat \<Rightarrow> nat \<Rightarrow> bool \<Rightarrow> bool \<Rightarrow> bool \<Rightarrow> 'w drv
    \<Rightarrow> (int \<times> 'w drv) option" where
  "ioctl_setup K minor bdev_path cow_path fallocated_space cache_size ignore_snap_errors is_snap is_reload s = do {
     ret \<leftarrow> verify_minor minor 0 s;
     (if ret \<noteq> 0 then Some (ret, s)
      else (case verify_bdev_writable K bdev_path (world s) of (ret, is_mounted, w1) \<Rightarrow>
        let s1 = s\<lparr>world := w1\<rparr> in
        if ret \<noteq> 0 then Some (ret, s1)
        else if is_mounted \<and> is_reload then Some (- EINVAL, s1)
        else if \<not> is_mounted \<and> \<not> is_reload then Some (- EINVAL, s1)
        else (case tracer_alloc K s1 of
            (ret, None, s2) \<Rightarrow> Some (ret, s2)
          | (_, Some a, s2) \<Rightarrow> do {
              (ret, s3) \<leftarrow>
                (if is_snap then
                   (if is_mounted then tracer_setup_active_snap K a minor bdev_path cow_path fallocated_space cache_size ignore_snap_errors s2
                    else setup_unverified K a minor bdev_path cow_path cache_size ignore_snap_errors True s2)
                 else if \<not> is_mounted then setup_unverified K a minor bdev_path cow_path cache_size ignore_snap_errors False s2
                 else Some (- EINVAL, s2));
              Some (ret, if ret \<noteq> 0 then kfree_dev a s3 else s3) }))) }"

definition ioctl_destroy :: "('w, 'k) drv_kern_scheme \<Rightarrow> nat \<Rightarrow> 'w drv \<Rightarrow> (int \<times> 'w drv) option" where
  "ioctl_destroy K minor s = do {
     ret \<leftarrow> verify_minor minor 1 s;
     (if ret \<noteq> 0 then Some (ret, s)
      else do {
        p \<leftarrow> table s minor;
        a \<leftarrow> p;
        s1 \<leftarrow> tracer_destroy K a s;
        Some (0, kfree_dev a s1) }) }"

definition ioctl_transition_inc :: "('w, 'k) drv_kern_scheme \<Rightarrow> nat \<Rightarrow> 'w drv \<Rightarrow> (int \<times> 'w drv) option" where
  "ioctl_transition_inc K minor s = do {
     ret \<leftarrow> verify_minor minor 1 s;
     (if ret \<noteq> 0 then Some (ret, s)
      else do {
        p \<leftarrow> table s minor;
        a \<leftarrow> p;
        dev \<leftarrow> devs s a;
        (if tracer_read_fail_state dev \<noteq> 0 then Some (tracer_read_fail_state dev, s)
         else if \<not> test_flag SNAPSHOT dev \<or> \<not> test_flag ACTIVE dev then Some (- EINVAL, s)
         else tracer_active_snap_to_inc K a s) }) }"

definition ioctl_transition_snap :: "('w, 'k) drv_kern_scheme \<Rightarrow> nat \<Rightarrow> string \<Rightarrow> nat \<Rightarrow> 'w drv \<Rightarrow> (int \<times> 'w drv) option" where
  "ioctl_transition_snap K minor cow_path fallocated_space s = do {
     ret \<leftarrow> verify_minor minor 1 s;
     (if ret \<noteq> 0 then Some (ret, s)
      else do {
        p \<leftarrow> table s minor;
        a \<leftarrow> p;
        dev \<leftarrow> devs s a;
        (if tracer_read_fail_state dev \<noteq> 0 then Some (- EINVAL, s)
         else if test_flag SNAPSHOT dev \<or> \<not> test_flag ACTIVE dev then Some (- EINVAL, s)
         else tracer_active_inc_to_snap K a cow_path fallocated_space s) }) }"

definition ioctl_reconfigure :: "nat \<Rightarrow> nat \<Rightarrow> 'w drv \<Rightarrow> (int \<times> 'w drv) option" where
  "ioctl_reconfigure minor cache_size s = do {
     ret \<leftarrow> verify_minor minor 1 s;
     (if ret \<noteq> 0 then Some (ret, s)
      else do {
        p \<leftarrow> table s minor;
        a \<leftarrow> p;
        dev \<leftarrow> devs s a;
        (if tracer_read_fail_state dev \<noteq> 0 then Some (- EINVAL, s)
         else do { s1 \<leftarrow> tracer_reconfigure a cache_size s; Some (0, s1) }) }) }"

definition PATH_MAX :: nat where
  "PATH_MAX = 4096"

text \<open>\<^verbatim>\<open>version\<close> and \<^verbatim>\<open>nr_changed_blocks\<close> of an unverified device keep what the caller's buffer
  held.\<close>

definition tracer_elastio_snap_info :: "'w drv \<Rightarrow> snap_device \<Rightarrow> elastio_snap_info \<Rightarrow> elastio_snap_info option" where
  "tracer_elastio_snap_info s dev info = do {
     cow \<leftarrow> sd_cow_path dev;
     bdev \<leftarrow> sd_bdev_path dev;
     (let i1 = info\<lparr>info_minor := sd_minor dev, info_state := sd_state dev, info_error := tracer_read_fail_state dev,
                 info_cache_size := (if sd_cache_size dev \<noteq> 0 then sd_cache_size dev else cow_max_memory_default s),
                 info_ignore_snap_errors := sd_ignore_snap_errors dev,
                 info_cow := take (PATH_MAX - 1) cow, info_bdev := take (PATH_MAX - 1) bdev\<rparr>;
          fl = unat (sd_cow_state dev) mod 2 ^ 32 in
      if \<not> test_flag UNVERIFIED dev then do {
        c \<leftarrow> sd_cow dev;
        cm \<leftarrow> cows s c;
        Some (i1\<lparr>info_falloc_size := file_max cm, info_seqid := seqid cm, info_uuid := uuid cm, info_version := version cm,
                 info_nr_changed_blocks := nr_changed_blocks cm, info_flags := fl\<rparr>) }
      else Some (i1\<lparr>info_falloc_size := 0, info_seqid := 0, info_uuid := replicate 16 0, info_flags := fl\<rparr>)) }"

definition ioctl_elastio_snap_info :: "elastio_snap_info \<Rightarrow> 'w drv \<Rightarrow> (int \<times> elastio_snap_info) option" where
  "ioctl_elastio_snap_info info s = do {
     ret \<leftarrow> verify_minor (info_minor info) 2 s;
     (if ret \<noteq> 0 then Some (ret, info)
      else do {
        p \<leftarrow> table s (info_minor info);
        a \<leftarrow> p;
        dev \<leftarrow> devs s a;
        i1 \<leftarrow> tracer_elastio_snap_info s dev info;
        Some (0, i1) }) }"

fun free_minor_from :: "'w drv \<Rightarrow> nat list \<Rightarrow> int option" where
  "free_minor_from s [] = Some (- ENOENT)"
| "free_minor_from s (i # is) = do { p \<leftarrow> table s i; (if p = None then Some (int i) else free_minor_from s is) }"

definition get_free_minor :: "'w drv \<Rightarrow> int option" where
  "get_free_minor s = free_minor_from s (tracer_for_each_full s)"

datatype ioctl_cmd = IOCTL_SETUP_SNAP | IOCTL_RELOAD_SNAP | IOCTL_RELOAD_INC | IOCTL_DESTROY | IOCTL_TRANSITION_INC
  | IOCTL_TRANSITION_SNAP | IOCTL_RECONFIGURE | IOCTL_ELASTIO_SNAP_INFO | IOCTL_GET_FREE | IOCTL_OTHER

text \<open>\<^verbatim>\<open>elastio_snap_wait_for_release\<close> reads the device it waits for.\<close>

definition wait_for_release :: "nat option \<Rightarrow> 'w drv \<Rightarrow> 'w drv option" where
  "wait_for_release p s = do { a \<leftarrow> p; _ \<leftarrow> devs s a; Some s }"

definition ctrl_ioctl :: "('w, 'k) ioctl_kern_scheme \<Rightarrow> ioctl_cmd \<Rightarrow> nat \<Rightarrow> 'w drv \<Rightarrow> (int \<times> 'w drv) option" where
  "ctrl_ioctl K cmd arg s =
     (case cmd of
        IOCTL_SETUP_SNAP \<Rightarrow>
          (case get_setup_params K arg (world s) of
             Inl ret \<Rightarrow> Some (ret, s)
           | Inr (minor, bdev, cow, falloc, cache, ign) \<Rightarrow>
               and_then (ioctl_setup K minor bdev cow falloc cache ign True False s)
                 (\<lambda>s1. do { p \<leftarrow> table s1 minor; s2 \<leftarrow> wait_for_release p s1; Some (0, s2) }))
      | IOCTL_RELOAD_SNAP \<Rightarrow>
          (case get_reload_params K arg (world s) of
             Inl ret \<Rightarrow> Some (ret, s)
           | Inr (minor, bdev, cow, cache, ign) \<Rightarrow> ioctl_setup K minor bdev cow 0 cache ign True True s)
      | IOCTL_RELOAD_INC \<Rightarrow>
          (case get_reload_params K arg (world s) of
             Inl ret \<Rightarrow> Some (ret, s)
           | Inr (minor, bdev, cow, cache, ign) \<Rightarrow> ioctl_setup K minor bdev cow 0 cache ign False True s)
      | IOCTL_DESTROY \<Rightarrow>
          (case get_user_uint K arg (world s) of Inl ret \<Rightarrow> Some (ret, s) | Inr minor \<Rightarrow> ioctl_destroy K minor s)
      | IOCTL_TRANSITION_INC \<Rightarrow>
          (case get_user_uint K arg (world s) of
             Inl ret \<Rightarrow> Some (ret, s)
           | Inr minor \<Rightarrow> do {
               p \<leftarrow> table s minor;
               s1 \<leftarrow> (if p \<noteq> None then wait_for_release p s else Some s);
               ioctl_transition_inc K minor s1 })
      | IOCTL_TRANSITION_SNAP \<Rightarrow>
          (case get_transition_snap_params K arg (world s) of
             Inl ret \<Rightarrow> Some (ret, s)
           | Inr (minor, cow, falloc) \<Rightarrow> ioctl_transition_snap K minor cow falloc s)
      | IOCTL_RECONFIGURE \<Rightarrow>
          (case get_reconfigure_params K arg (world s) of
             Inl ret \<Rightarrow> Some (ret, s)
           | Inr (minor, cache) \<Rightarrow> ioctl_reconfigure minor cache s)
      | IOCTL_ELASTIO_SNAP_INFO \<Rightarrow>
          (case kmalloc K 8400 (world s) of
             (None, w1) \<Rightarrow> Some (- ENOMEM, s\<lparr>world := w1\<rparr>)
           | (Some _, w1) \<Rightarrow>
               (case copy_info K arg w1 of
                  None \<Rightarrow> Some (- EFAULT, s\<lparr>world := w1\<rparr>)
                | Some info \<Rightarrow> do {
                    (ret, i1) \<leftarrow> ioctl_elastio_snap_info info (s\<lparr>world := w1\<rparr>);
                    (if ret \<noteq> 0 then Some (ret, s\<lparr>world := w1\<rparr>)
                     else (case put_info K arg i1 w1 of (okc, w2) \<Rightarrow> Some (if okc then 0 else - EFAULT, s\<lparr>world := w2\<rparr>))) }))
      | IOCTL_GET_FREE \<Rightarrow> do {
          idx \<leftarrow> get_free_minor s;
          (if idx < 0 then Some (idx, s)
           else (case put_int K arg idx (world s) of (okc, w1) \<Rightarrow> Some (if okc then 0 else - EFAULT, s\<lparr>world := w1\<rparr>))) }
      | IOCTL_OTHER \<Rightarrow> Some (- EINVAL, s))"

end
