(* ===== verification/Mount.thy ===== *)
theory Mount
  imports Ioctl
begin

text \<open>
  The automatic transitions around mount and umount (\<^verbatim>\<open>AUTOMATIC TRANSITION FUNCTIONS\<close> and
  \<^verbatim>\<open>SYSTEM CALL HOOKING\<close> of \<^verbatim>\<open>src/main.c\<close>): before the file system of a traced device goes
  away the device becomes dormant, and once it is back the device becomes active again.
\<close>

section \<open>Transitions\<close>

definition tracer_active_to_dormant :: "('w, 'k) drv_kern_scheme \<Rightarrow> nat \<Rightarrow> 'w drv \<Rightarrow> 'w drv option" where
  "tracer_active_to_dormant K a s = do {
     s1 \<leftarrow> destroy_cow_thread K a s;
     (ret, s2) \<leftarrow> destroy_cow K a 2 s1;
     upd_dev a (\<lambda>d. if ret \<noteq> 0 then tracer_set_fail_state d ret else d\<lparr>sd_state := unset_bit ACTIVE (sd_state d)\<rparr>) s2 }"

text \<open>The clean-up of both \<^verbatim>\<open>unverified\<close> transitions: the tracer is taken apart and put back as an
  unverified one that carries the error.\<close>

definition back_to_unverified :: "('w, 'k) drv_kern_scheme \<Rightarrow> nat \<Rightarrow> nat \<Rightarrow> string \<Rightarrow> string \<Rightarrow> nat \<Rightarrow> bool \<Rightarrow> int \<Rightarrow> 'w drv \<Rightarrow> 'w drv option" where
  "back_to_unverified K a minor bdev_path rel_path cache_size is_snap err s = do {
     s1 \<leftarrow> tracer_destroy K a s;
     dev \<leftarrow> devs s1 a;
     (_, s2) \<leftarrow> setup_unverified K a minor bdev_path rel_path cache_size (sd_ignore_snap_errors dev) is_snap s1;
     upd_dev a (\<lambda>d. tracer_set_fail_state d err) s2 }"

definition tracer_unverified_snap_to_active :: "('w, 'k) drv_kern_scheme \<Rightarrow> nat \<Rightarrow> nat option \<Rightarrow> 'w drv \<Rightarrow> 'w drv option" where
  "tracer_unverified_snap_to_active K a user_mount_path s0 = do {
     dev \<leftarrow> devs s0 a;
     bdev_path \<leftarrow> sd_bdev_path dev;
     rel_path \<leftarrow> sd_cow_path dev;
     (let minor = sd_minor dev; cache_size = sd_cache_size dev in do {
       s \<leftarrow> destroy_tracing K a s0;
       s \<leftarrow> upd_dev a (\<lambda>d. d\<lparr>sd_state := unset_bit UNVERIFIED (set_bit ACTIVE (sd_state d)), sd_bdev_path := None, sd_cow_path := None\<rparr>) s;
       (ret, s1) \<leftarrow>
         and_then (setup_base_dev K a bdev_path s) (\<lambda>s.
         and_then (with_dev a (\<lambda>d s. do { b \<leftarrow> sd_base_dev d;
                     setup_cow K a b user_mount_path rel_path (sd_size d) 0 (sd_cache_size d) None 0 1 s }) s) (\<lambda>s.
         and_then (setup_cow_path K a s) (\<lambda>s.
         and_then (with_dev a (\<lambda>d. setup_snap K a minor (sd_size d)) s) (\<lambda>s.
         and_then (setup_cow_thread K (kthread_create K) a True s) (\<lambda>s.
         and_then (wake a s) (\<lambda>s.
         setup_tracing K a minor s))))));
       (if ret \<noteq> 0 then back_to_unverified K a minor bdev_path rel_path cache_size True ret s1 else Some s1) }) }"

definition tracer_unverified_inc_to_active :: "('w, 'k) drv_kern_scheme \<Rightarrow> nat \<Rightarrow> nat option \<Rightarrow> 'w drv \<Rightarrow> 'w drv option" where
  "tracer_unverified_inc_to_active K a user_mount_path s0 = do {
     dev \<leftarrow> devs s0 a;
     bdev_path \<leftarrow> sd_bdev_path dev;
     rel_path \<leftarrow> sd_cow_path dev;
     (let minor = sd_minor dev; cache_size = sd_cache_size dev in do {
       s \<leftarrow> destroy_tracing K a s0;
       s \<leftarrow> upd_dev a (\<lambda>d. d\<lparr>sd_state := unset_bit UNVERIFIED (set_bit ACTIVE (sd_state d)), sd_bdev_path := None, sd_cow_path := None\<rparr>) s;
       (ret, s1) \<leftarrow>
         and_then (setup_base_dev K a bdev_path s) (\<lambda>s.
         and_then (with_dev a (\<lambda>d s. do { b \<leftarrow> sd_base_dev d;
                     setup_cow K a b user_mount_path rel_path (sd_size d) 0 (sd_cache_size d) None 0 2 s }) s) (\<lambda>s.
         and_then (setup_cow_path K a s) (\<lambda>s.
         and_then (setup_cow_thread K (kthread_create K) a False s) (\<lambda>s.
         and_then (wake a s) (\<lambda>s.
         setup_tracing K a minor s)))));
       (if ret \<noteq> 0 then back_to_unverified K a minor bdev_path rel_path cache_size False ret s1 else Some s1) }) }"

definition tracer_dormant_to_active :: "('w, 'k) drv_kern_scheme \<Rightarrow> nat \<Rightarrow> nat option \<Rightarrow> 'w drv \<Rightarrow> 'w drv option" where
  "tracer_dormant_to_active K a user_mount_path s0 = do {
     (ret, s1) \<leftarrow>
       and_then (with_dev a (\<lambda>d s. do { b \<leftarrow> sd_base_dev d; path \<leftarrow> sd_cow_path d;
                   setup_cow K a b user_mount_path path 0 0 0 None 0 3 s }) s0) (\<lambda>s.
       and_then (with_dev a (\<lambda>d. setup_cow_thread K (kthread_create K) a (test_flag SNAPSHOT d)) s) (\<lambda>s.
       wake a s));
     upd_dev a (\<lambda>d. if ret \<noteq> 0 then tracer_set_fail_state d ret
                    else d\<lparr>sd_state := unset_bit UNVERIFIED (set_bit ACTIVE (sd_state d))\<rparr>) s1 }"

definition auto_transition_dormant :: "('w, 'k) drv_kern_scheme \<Rightarrow> nat \<Rightarrow> 'w drv \<Rightarrow> 'w drv option" where
  "auto_transition_dormant K i s = do { p \<leftarrow> table s i; a \<leftarrow> p; tracer_active_to_dormant K a s }"

definition auto_transition_active :: "('w, 'k) drv_kern_scheme \<Rightarrow> nat \<Rightarrow> nat option \<Rightarrow> 'w drv \<Rightarrow> 'w drv option" where
  "auto_transition_active K i dir_name s = do {
     p \<leftarrow> table s i;
     a \<leftarrow> p;
     dev \<leftarrow> devs s a;
     (if test_flag UNVERIFIED dev then
        (if test_flag SNAPSHOT dev then tracer_unverified_snap_to_active K a dir_name s
         else tracer_unverified_inc_to_active K a dir_name s)
      else tracer_dormant_to_active K a dir_name s) }"

section \<open>Mount events\<close>

text \<open>The answer is the return code and the minor (\<^verbatim>\<open>idx_out\<close>).\<close>

fun nowrite_loop :: "('w, 'k) drv_kern_scheme \<Rightarrow> nat option \<Rightarrow> nat list \<Rightarrow> 'w drv \<Rightarrow> (int \<times> nat \<times> 'w drv) option" where
  "nowrite_loop K s_bdev [] s = Some (- ENODEV, 0, s)"
| "nowrite_loop K s_bdev (i # is) s = do {
     p \<leftarrow> table s i;
     (case p of
        None \<Rightarrow> nowrite_loop K s_bdev is s
      | Some a \<Rightarrow> do {
          dev \<leftarrow> devs s a;
          (if \<not> test_flag ACTIVE dev \<or> tracer_read_fail_state dev \<noteq> 0 \<or> sd_base_dev dev \<noteq> s_bdev
           then nowrite_loop K s_bdev is s
           else do { s1 \<leftarrow> auto_transition_dormant K i s; Some (0, i, s1) }) }) }"

definition handle_bdev_mount_nowrite :: "('w, 'k) drv_kern_scheme \<Rightarrow> nat \<Rightarrow> 'w drv \<Rightarrow> (int \<times> nat \<times> 'w drv) option" where
  "handle_bdev_mount_nowrite K bdev s = nowrite_loop K (Some bdev) (tracer_for_each s) s"

fun writable_loop :: "('w, 'k) drv_kern_scheme \<Rightarrow> nat option \<Rightarrow> nat \<Rightarrow> nat list \<Rightarrow> 'w drv \<Rightarrow> (int \<times> nat \<times> 'w drv) option" where
  "writable_loop K dir_name bdev [] s = Some (- ENODEV, 0, s)"
| "writable_loop K dir_name bdev (i # is) s = do {
     p \<leftarrow> table s i;
     (case p of
        None \<Rightarrow> writable_loop K dir_name bdev is s
      | Some a \<Rightarrow> do {
          dev \<leftarrow> devs s a;
          (if test_flag ACTIVE dev \<or> tracer_read_fail_state dev \<noteq> 0 then writable_loop K dir_name bdev is s
           else if test_flag UNVERIFIED dev then do {
             path \<leftarrow> sd_bdev_path dev;
             (case blkdev_get_by_path K path (world s) of
                (Inl err, w1) \<Rightarrow> writable_loop K dir_name bdev is (s\<lparr>world := w1\<rparr>)
              | (Inr cur, w1) \<Rightarrow>
                  if cur = bdev then do {
                    s1 \<leftarrow> auto_transition_active K i dir_name (s\<lparr>world := w1\<rparr>);
                    Some (0, i, s1\<lparr>world := blkdev_put K cur (world s1)\<rparr>) }
                  else writable_loop K dir_name bdev is (s\<lparr>world := blkdev_put K cur w1\<rparr>)) }
           else if sd_base_dev dev = Some bdev then do {
             s1 \<leftarrow> auto_transition_active K i dir_name s; Some (0, i, s1) }
           else writable_loop K dir_name bdev is s) }) }"

definition handle_bdev_mount_writable :: "('w, 'k) drv_kern_scheme \<Rightarrow> nat option \<Rightarrow> nat \<Rightarrow> 'w drv \<Rightarrow> (int \<times> nat \<times> 'w drv) option" where
  "handle_bdev_mount_writable K dir_name bdev s = writable_loop K dir_name bdev (tracer_for_each s) s"

text \<open>\<open>user_path_at\<close> answers the path: whether it is the root of its mount and the block device
  below the mount, if any. The last two are the original system calls.\<close>

record 'w mount_kern = "'w ioctl_kern" +
  user_path_at :: "nat option \<Rightarrow> bool \<Rightarrow> 'w \<Rightarrow> int + (bool \<times> nat option)"
  orig_mount :: "nat option \<Rightarrow> nat option \<Rightarrow> 64 word \<Rightarrow> 'w \<Rightarrow> int \<times> 'w"
  orig_umount :: "nat option \<Rightarrow> 64 word \<Rightarrow> 'w \<Rightarrow> int \<times> 'w"

definition UMOUNT_NOFOLLOW :: "64 word" where
  "UMOUNT_NOFOLLOW = 8"

definition handle_bdev_mount_event :: "('w, 'k) mount_kern_scheme \<Rightarrow> nat option \<Rightarrow> 64 word \<Rightarrow> bool \<Rightarrow> 'w drv
    \<Rightarrow> (int \<times> nat \<times> 'w drv) option" where
  "handle_bdev_mount_event K dir_name follow_flags mount_writable s =
     (case user_path_at K dir_name (follow_flags AND UMOUNT_NOFOLLOW = 0) (world s) of
        Inl ret \<Rightarrow> Some (ret, 0, s)
      | Inr (is_root, bdev_opt) \<Rightarrow>
          if \<not> is_root then Some (- ENODEV, 0, s)
          else (case bdev_opt of
              None \<Rightarrow> Some (- ENODEV, 0, s)
            | Some bdev \<Rightarrow> do {
                (ret, idx, s1) \<leftarrow> (if \<not> mount_writable then handle_bdev_mount_nowrite K bdev s
                                  else handle_bdev_mount_writable K dir_name bdev s);
                Some (ret, if ret \<noteq> 0 then 0 else idx, s1) }))"

definition post_umount_check :: "('w, 'k) mount_kern_scheme \<Rightarrow> int \<Rightarrow> int \<Rightarrow> nat \<Rightarrow> nat option \<Rightarrow> 'w drv \<Rightarrow> 'w drv option" where
  "post_umount_check K dormant_ret umount_ret idx dir_name s =
     (if dormant_ret \<noteq> 0 then Some s
      else do {
        p \<leftarrow> table s idx;
        (if umount_ret \<noteq> 0 then do {
           a \<leftarrow> p;
           dev \<leftarrow> devs s a;
           path \<leftarrow> sd_bdev_path dev;
           (case blkdev_get_by_path K path (world s) of
              (Inl err, w1) \<Rightarrow> upd_dev a (\<lambda>d. tracer_set_fail_state d (- ENODEV)) (s\<lparr>world := w1\<rparr>)
            | (Inr bdev, w1) \<Rightarrow> auto_transition_active K idx dir_name (s\<lparr>world := blkdev_put K bdev w1\<rparr>)) }
         else do {
           a \<leftarrow> p;
           dev \<leftarrow> devs s a;
           base \<leftarrow> sd_base_dev dev;
           (let s1 = s\<lparr>world := task_work_flush K (world s)\<rparr> in
            case get_super K base (world s1) of
              None \<Rightarrow> Some s1
            | Some (sb, rdonly) \<Rightarrow>
                if \<not> rdonly then upd_dev a (\<lambda>d. tracer_set_fail_state d (- EIO)) s1 else Some s1) }) })"

section \<open>The hooked system calls\<close>

definition MS_RDONLY :: "64 word" where "MS_RDONLY = 1"
definition MS_REMOUNT :: "64 word" where "MS_REMOUNT = 32"
definition MS_BIND :: "64 word" where "MS_BIND = 4096"
definition MS_MOVE :: "64 word" where "MS_MOVE = 8192"
definition MS_UNBINDABLE :: "64 word" where "MS_UNBINDABLE = 131072"
definition MS_PRIVATE :: "64 word" where "MS_PRIVATE = 262144"
definition MS_SLAVE :: "64 word" where "MS_SLAVE = 524288"
definition MS_SHARED :: "64 word" where "MS_SHARED = 1048576"
definition MS_MGC_VAL :: "64 word" where "MS_MGC_VAL = 0xC0ED0000"
definition MS_MGC_MSK :: "64 word" where "MS_MGC_MSK = 0xFFFF0000"

lemmas ms_flags = MS_RDONLY_def MS_REMOUNT_def MS_BIND_def MS_MOVE_def MS_UNBINDABLE_def MS_PRIVATE_def MS_SLAVE_def
  MS_SHARED_def MS_MGC_VAL_def MS_MGC_MSK_def

definition strip_magic :: "64 word \<Rightarrow> 64 word" where
  "strip_magic fl = (if fl AND MS_MGC_MSK = MS_MGC_VAL then fl AND NOT MS_MGC_MSK else fl)"

definition mount_hook :: "('w, 'k) mount_kern_scheme \<Rightarrow> nat option \<Rightarrow> nat option \<Rightarrow> 64 word \<Rightarrow> 'w drv \<Rightarrow> (int \<times> 'w drv) option" where
  "mount_hook K dev_name dir_name fl s0 =
     (case kmalloc K PATH_MAX (world s0) of (m1, w1) \<Rightarrow>
      case kmalloc K PATH_MAX w1 of (m2, w2) \<Rightarrow>
        let s = s0\<lparr>world := w2\<rparr>; real_flags = strip_magic fl in
        if m1 = None \<or> m2 = None then Some (- ENOMEM, s)
        else if real_flags AND (MS_BIND OR MS_SHARED OR MS_PRIVATE OR MS_SLAVE OR MS_UNBINDABLE OR MS_MOVE) \<noteq> 0 \<or>
                real_flags AND MS_RDONLY \<noteq> 0 \<and> real_flags AND MS_REMOUNT = 0 then
          (case orig_mount K dev_name dir_name fl (world s) of (sys_ret, w3) \<Rightarrow> Some (sys_ret, s\<lparr>world := w3\<rparr>))
        else if real_flags AND MS_RDONLY \<noteq> 0 \<and> real_flags AND MS_REMOUNT \<noteq> 0 then do {
          (ret, idx, s1) \<leftarrow> handle_bdev_mount_event K dir_name 0 False s;
          (case orig_mount K dev_name dir_name fl (world s1) of (sys_ret, w3) \<Rightarrow> do {
             s2 \<leftarrow> post_umount_check K ret sys_ret idx dir_name (s1\<lparr>world := w3\<rparr>);
             Some (sys_ret, s2) }) }
        else
          (case orig_mount K dev_name dir_name fl (world s) of (sys_ret, w3) \<Rightarrow>
             if sys_ret = 0 then do {
               (_, _, s1) \<leftarrow> handle_bdev_mount_event K dir_name 0 True (s\<lparr>world := w3\<rparr>);
               Some (sys_ret, s1) }
             else Some (sys_ret, s\<lparr>world := w3\<rparr>)))"

definition umount_hook :: "('w, 'k) mount_kern_scheme \<Rightarrow> nat option \<Rightarrow> 64 word \<Rightarrow> 'w drv \<Rightarrow> (int \<times> 'w drv) option" where
  "umount_hook K name fl s0 =
     (case kmalloc K PATH_MAX (world s0) of
        (None, w1) \<Rightarrow> Some (- ENOMEM, s0\<lparr>world := w1\<rparr>)
      | (Some _, w1) \<Rightarrow> do {
          (ret, idx, s1) \<leftarrow> handle_bdev_mount_event K name fl False (s0\<lparr>world := w1\<rparr>);
          (case orig_umount K name fl (world s1) of (sys_ret, w2) \<Rightarrow> do {
             s2 \<leftarrow> post_umount_check K ret sys_ret idx name (s1\<lparr>world := w2\<rparr>);
             Some (sys_ret, s2) }) })"

end
