(* ===== verification/Module.thy ===== *)
theory Module
  imports Mount
begin

text \<open>
  The outside of the module: opening and closing a snapshot device, the text of
  \<^verbatim>\<open>/proc/elastio-snap-info\<close>, and loading and unloading the module (\<^verbatim>\<open>BLOCK DEVICE DRIVER\<close> and
  \<^verbatim>\<open>MODULE SETUP AND DESTROY\<close> of \<^verbatim>\<open>src/main.c\<close>).
\<close>

section \<open>Open and close\<close>

definition tracer_add_ref :: "nat option \<Rightarrow> int \<Rightarrow> 'w drv \<Rightarrow> (int \<times> 'w drv) option" where
  "tracer_add_ref p ref_cnt s =
     (case p of
        None \<Rightarrow> Some (- EFAULT, s)
      | Some a \<Rightarrow> do { s1 \<leftarrow> upd_dev a (\<lambda>d. d\<lparr>sd_refs := sd_refs d + ref_cnt\<rparr>) s; Some (0, s1) })"

definition snap_open :: "nat option \<Rightarrow> 'w drv \<Rightarrow> (int \<times> 'w drv) option" where
  "snap_open p s = tracer_add_ref p 1 s"

definition snap_release :: "nat option \<Rightarrow> 'w drv \<Rightarrow> (int \<times> 'w drv) option" where
  "snap_release p s = tracer_add_ref p (- 1) s"

section \<open>The proc file\<close>

definition NL :: string where "NL = [CHR 0x0A]"
definition TAB :: string where "TAB = [CHR 0x09]"
definition QT :: string where "QT = [CHR 0x22]"

definition key :: "string \<Rightarrow> string" where
  "key k = TAB @ TAB @ TAB @ QT @ k @ QT @ '': ''"

definition quoted :: "string \<Rightarrow> string" where
  "quoted v = QT @ v @ QT"

definition field :: "string \<Rightarrow> string \<Rightarrow> string" where
  "field k v = key k @ v @ '','' @ NL"

definition proc_cow_text :: "cow_manager \<Rightarrow> string" where
  "proc_cow_text cm =
     field ''fallocate'' (dec (file_max cm)) @
     field ''seq_id'' (dec (seqid cm)) @
     field ''uuid'' (quoted (concat (map hex2 (uuid cm)))) @
     (if 0 < version cm then field ''version'' (dec (version cm)) @ field ''nr_changed_blocks'' (dec (nr_changed_blocks cm)) else [])"

text \<open>One device. A NULL path or cow manager is followed by \<^verbatim>\<open>seq_printf\<close> or the code.\<close>

definition proc_dev_text :: "'w drv \<Rightarrow> snap_device \<Rightarrow> string option" where
  "proc_dev_text s dev = do {
     cow \<leftarrow> sd_cow_path dev;
     bdev \<leftarrow> sd_bdev_path dev;
     ctext \<leftarrow> (if \<not> test_flag UNVERIFIED dev then do { c \<leftarrow> sd_cow dev; cm \<leftarrow> cows s c; Some (proc_cow_text cm) } else Some []);
     Some (TAB @ TAB @ ''{'' @ NL @
           field ''minor'' (dec (sd_minor dev)) @
           field ''cow_file'' (quoted cow) @
           field ''block_device'' (quoted bdev) @
           field ''max_cache'' (dec (if sd_cache_size dev \<noteq> 0 then sd_cache_size dev else cow_max_memory_default s)) @
           ctext @
           (if tracer_read_fail_state dev \<noteq> 0 then field ''error'' (dec_int (tracer_read_fail_state dev)) else []) @
           field ''state'' (dec (unat (sd_state dev))) @
           field ''ignore_errors'' (if sd_ignore_snap_errors dev then ''1'' else ''0'') @
           field ''bio_op_discard_ignored'' (dec (sd_discard_dropped_cnt dev)) @
           field ''discard_sectors_ignored'' (dec (sd_discard_ignored_size dev)) @
           key ''cow_on_bdev'' @ (if on_bdev dev then ''true'' else ''false'') @ NL @
           TAB @ TAB @ ''}'') }"

datatype seq_ptr = SEQ_START_TOKEN | Slot nat

definition proc_header :: "string \<Rightarrow> string" where
  "proc_header ver = ''{'' @ NL @ TAB @ QT @ ''version'' @ QT @ '': '' @ quoted ver @ '','' @ NL @ TAB @ QT @ ''devices'' @ QT @ '': ['' @ NL"

definition proc_footer :: string where
  "proc_footer = NL @ TAB @ '']'' @ NL @ ''}'' @ NL"

definition elastio_snap_proc_show :: "string \<Rightarrow> seq_ptr \<Rightarrow> 'w drv \<Rightarrow> string option" where
  "elastio_snap_proc_show ver v s =
     (case v of
        SEQ_START_TOKEN \<Rightarrow> Some (proc_header ver @ (if highest_minor s < lowest_minor s then proc_footer else []))
      | Slot i \<Rightarrow> do {
          p \<leftarrow> table s i;
          (case p of
             None \<Rightarrow> Some []
           | Some a \<Rightarrow> do {
               dev \<leftarrow> devs s a;
               txt \<leftarrow> proc_dev_text s dev;
               Some ((if sd_minor dev \<noteq> lowest_minor s then '','' @ NL else []) @ txt @
                     (if sd_minor dev = highest_minor s then proc_footer else [])) }) })"

definition elastio_snap_proc_get_idx :: "'w drv \<Rightarrow> nat \<Rightarrow> seq_ptr option" where
  "elastio_snap_proc_get_idx s pos = (if highest_minor s < pos then None else Some (Slot pos))"

definition elastio_snap_proc_start :: "'w drv \<Rightarrow> nat \<Rightarrow> seq_ptr option" where
  "elastio_snap_proc_start s pos = (if pos = 0 then Some SEQ_START_TOKEN else elastio_snap_proc_get_idx s (pos - 1))"

definition elastio_snap_proc_next :: "'w drv \<Rightarrow> nat \<Rightarrow> seq_ptr option \<times> nat" where
  "elastio_snap_proc_next s pos = (elastio_snap_proc_get_idx s pos, Suc pos)"

text \<open>What reading the whole file gives: \<^verbatim>\<open>seq_read\<close> shows an element and asks for the next.\<close>

function proc_read_from :: "string \<Rightarrow> 'w drv \<Rightarrow> seq_ptr option \<Rightarrow> nat \<Rightarrow> string option" where
  "proc_read_from ver s v pos =
     (case v of
        None \<Rightarrow> Some []
      | Some p \<Rightarrow> do {
          txt \<leftarrow> elastio_snap_proc_show ver p s;
          (if Suc (highest_minor s) < pos then Some txt
           else case elastio_snap_proc_next s pos of (v1, pos1) \<Rightarrow> do {
             rest \<leftarrow> proc_read_from ver s v1 pos1;
             Some (txt @ rest) }) })"
  by pat_completeness auto
termination
  by (relation "measure (\<lambda>(ver, s, v, pos). highest_minor s + 2 - pos)") (auto simp: elastio_snap_proc_next_def)

declare proc_read_from.simps [simp del]

definition proc_read :: "string \<Rightarrow> 'w drv \<Rightarrow> string option" where
  "proc_read ver s = proc_read_from ver s (elastio_snap_proc_start s 0) 0"

section \<open>Loading and unloading\<close>

record 'w module_kern = "'w mount_kern" +
  register_blkdev :: "'w \<Rightarrow> int \<times> 'w"
  proc_create :: "'w \<Rightarrow> bool \<times> 'w"
  misc_register :: "'w \<Rightarrow> int \<times> 'w"
  hook_system_call_table :: "'w \<Rightarrow> int \<times> 'w"
  unregister_all :: "'w \<Rightarrow> 'w"

definition ELASTIO_SNAP_DEFAULT_SNAP_DEVICES :: nat where
  "ELASTIO_SNAP_DEFAULT_SNAP_DEVICES = 24"

definition ELASTIO_SNAP_MAX_SNAP_DEVICES :: nat where
  "ELASTIO_SNAP_MAX_SNAP_DEVICES = 255"

text \<open>The module variables with the parameters as given and everything else as the loader leaves it.\<close>

definition drv_loaded :: "nat \<Rightarrow> nat \<Rightarrow> nat \<Rightarrow> nat \<Rightarrow> (nat \<Rightarrow> fops) \<Rightarrow> (nat \<Rightarrow> bool) \<Rightarrow> 'w \<Rightarrow> 'w drv" where
  "drv_loaded maxdev mem pct extbuf fops hsb w =
     \<lparr>max_snap_devices = maxdev, snap_devices = None, lowest_minor = 0, highest_minor = 0,
      devs = (\<lambda>_. None), cows = (\<lambda>_. None), tps = (\<lambda>_. None), trops = (\<lambda>_. None),
      disk_fops = fops, bd_has_submit_bio = hsb, cow_max_memory_default = mem,
      cow_fallocate_percentage_default = pct, cow_ext_buf_size = extbuf, fresh = 1, world = w\<rparr>"

text \<open>\<^verbatim>\<open>agent_exit\<close> walks the table while destroying, so the range it walks shrinks; the devices
  themselves are not freed.\<close>

function destroy_all :: "('w, 'k) drv_kern_scheme \<Rightarrow> nat \<Rightarrow> 'w drv \<Rightarrow> 'w drv option" where
  "destroy_all K i s =
     (if i \<le> highest_minor s \<and> i < max_snap_devices s then do {
        p \<leftarrow> table s i;
        s1 \<leftarrow> (case p of None \<Rightarrow> Some s | Some a \<Rightarrow> tracer_destroy K a s);
        (if max_snap_devices s1 = max_snap_devices s then destroy_all K (Suc i) s1 else None) }
      else Some s)"
  by pat_completeness auto
termination
  by (relation "measure (\<lambda>(K, i, s). max_snap_devices s - i)") auto

declare destroy_all.simps [simp del]

definition agent_exit :: "('w, 'k) module_kern_scheme \<Rightarrow> 'w drv \<Rightarrow> 'w drv option" where
  "agent_exit K s = do {
     s1 \<leftarrow> (case snap_devices s of
              None \<Rightarrow> Some s
            | Some t \<Rightarrow> do { s1 \<leftarrow> destroy_all K (lowest_minor s) s; Some (s1\<lparr>snap_devices := None\<rparr>) });
     Some (s1\<lparr>world := unregister_all K (world s1)\<rparr>) }"

definition agent_init :: "('w, 'k) module_kern_scheme \<Rightarrow> bool \<Rightarrow> 'w drv \<Rightarrow> (int \<times> 'w drv) option" where
  "agent_init K may_hook s0 =
     (let n = (if max_snap_devices s0 = 0 then ELASTIO_SNAP_DEFAULT_SNAP_DEVICES
               else if ELASTIO_SNAP_MAX_SNAP_DEVICES < max_snap_devices s0 then ELASTIO_SNAP_MAX_SNAP_DEVICES
               else max_snap_devices s0);
          s = s0\<lparr>max_snap_devices := n, highest_minor := 0, lowest_minor := n - 1\<rparr>;
          error = (\<lambda>ret s. do { s1 \<leftarrow> agent_exit K s; Some (ret, s1) }) in
      case register_blkdev K (world s) of (major, w1) \<Rightarrow>
        if major \<le> 0 then error (- EBUSY) (s\<lparr>world := w1\<rparr>)
        else (case kmalloc K (n * 8) w1 of
            (None, w2) \<Rightarrow> error (- ENOMEM) (s\<lparr>world := w2\<rparr>)
          | (Some _, w2) \<Rightarrow>
              let s1 = s\<lparr>snap_devices := Some (replicate n None)\<rparr> in
              (case proc_create K w2 of (okp, w3) \<Rightarrow>
                if \<not> okp then error (- ENOENT) (s1\<lparr>world := w3\<rparr>)
                else (case misc_register K w3 of (ret, w4) \<Rightarrow>
                  if ret \<noteq> 0 then error ret (s1\<lparr>world := w4\<rparr>)
                  else Some (0, s1\<lparr>world := (if may_hook then snd (hook_system_call_table K w4) else w4)\<rparr>)))))"

section \<open>The statistics parameter\<close>

text \<open>Writing a minor number to the parameter logs the counters of that device: the operations that
  have been counted, in the order of their codes. \<open>m\<close> is what \<^verbatim>\<open>sscanf\<close> finds; it is not checked
  before it indexes the table.\<close>

definition bio_stats_lines :: "(req_op \<Rightarrow> nat) \<Rightarrow> (nat \<times> nat) list" where
  "bio_stats_lines cnt =
     map (\<lambda>q. (op_code q, cnt q))
       (filter (\<lambda>q. cnt q \<noteq> 0) [REQ_OP_READ, REQ_OP_WRITE, REQ_OP_FLUSH, REQ_OP_DISCARD, REQ_OP_SECURE_ERASE, REQ_OP_WRITE_ZEROES])"

definition param_set_bio_stats :: "int option \<Rightarrow> 'w drv \<Rightarrow> (int \<times> (nat \<times> nat) list \<times> (nat \<times> nat) list) option" where
  "param_set_bio_stats m s =
     (case m of
        None \<Rightarrow> Some (- EINVAL, [], [])
      | Some minor \<Rightarrow>
          if minor < 0 then None
          else do {
            p \<leftarrow> table s (nat minor);
            (case p of
               None \<Rightarrow> Some (- ENODEV, [], [])
             | Some a \<Rightarrow> do {
                 dev \<leftarrow> devs s a;
                 Some (0, bio_stats_lines (sd_bio_stats_total dev), bio_stats_lines (sd_bio_stats_traced dev)) }) })"

text \<open>A parameter given when the module is loaded is handled before \<^verbatim>\<open>agent_init\<close> has made the table.\<close>

lemma bio_stats_at_load: "param_set_bio_stats (Some minor) (drv_loaded maxdev mem pct extbuf ops hsb w) = None"
  by (simp add: param_set_bio_stats_def table_def drv_loaded_def)

lemma bio_stats_past_end:
  assumes "snap_devices s = Some t" "minor < 0 \<or> int (length t) \<le> minor"
  shows "param_set_bio_stats (Some minor) s = None"
  using assms by (auto simp: param_set_bio_stats_def table_def)

end
