(* ===== verification/Steady.thy ===== *)
theory Steady
  imports Module
begin

text \<open>
  Frame lemmas: which operations leave the device table, the minor range and the tracing state of
  every device as they are. All of the request paths and the threads do, and so do the parts a
  tracer is set up from, except those that trace. The invariant of \<open>Table\<close> rests on them.
\<close>

section \<open>Operations that leave the table alone\<close>

text \<open>What the table depends on in a device.\<close>

definition slot_key :: "snap_device \<Rightarrow> nat \<times> mrf option \<times> nat option \<times> bool" where
  "slot_key d = (sd_minor d, sd_orig_mrf d, sd_tracing_ops d, test_flag UNVERIFIED d)"

definition table_view where
  "table_view s = (snap_devices s, max_snap_devices s, lowest_minor s, highest_minor s, \<lambda>a. map_option slot_key (devs s a))"

definition steady :: "'w drv \<Rightarrow> 'w drv \<Rightarrow> bool" where
  "steady s s' \<longleftrightarrow> table_view s' = table_view s \<and> fresh s \<le> fresh s'"

lemma steady_refl [simp, intro]: "steady s s"
  by (simp add: steady_def)

lemma steady_trans: "steady s t \<Longrightarrow> steady t u \<Longrightarrow> steady s u"
  by (simp add: steady_def)

lemma view_updates [simp]:
  "table_view (s\<lparr>world := w\<rparr>) = table_view s" "table_view (s\<lparr>cows := cs\<rparr>) = table_view s" "table_view (s\<lparr>tps := ts\<rparr>) = table_view s"
  "table_view (s\<lparr>trops := ops\<rparr>) = table_view s" "table_view (s\<lparr>disk_fops := fs\<rparr>) = table_view s"
  "table_view (s\<lparr>bd_has_submit_bio := hs\<rparr>) = table_view s" "table_view (s\<lparr>fresh := n\<rparr>) = table_view s"
  "table_view (put_cow c cm s) = table_view s"
  by (simp_all add: table_view_def put_cow_def)

lemma put_dev_view [simp]: "devs s a = Some d0 \<Longrightarrow> slot_key d = slot_key d0 \<Longrightarrow> table_view (put_dev a d s) = table_view s"
  by (auto simp: table_view_def put_dev_def)

lemma put_fields [simp]:
  "devs (put_dev a d s) = (devs s)(a \<mapsto> d)" "world (put_dev a d s) = world s" "cows (put_dev a d s) = cows s"
  "devs (put_cow c cm s) = devs s" "world (put_cow c cm s) = world s" "cows (put_cow c cm s) = (cows s)(c \<mapsto> cm)"
  "fresh (put_dev a d s) = fresh s" "fresh (put_cow c cm s) = fresh s" "trops (put_dev a d s) = trops s" "tps (put_dev a d s) = tps s"
  by (simp_all add: put_dev_def put_cow_def)

lemma slot_key_more: "devio.more d = devio.more e \<Longrightarrow> slot_key d = slot_key e"
  by (cases d; cases e) (simp add: slot_key_def test_flag_def)

lemma fail_state_fields [simp]:
  "sd_minor (tracer_set_fail_state d e) = sd_minor d" "sd_orig_mrf (tracer_set_fail_state d e) = sd_orig_mrf d"
  "sd_tracing_ops (tracer_set_fail_state d e) = sd_tracing_ops d" "sd_state (tracer_set_fail_state d e) = sd_state d"
  by (simp_all add: tracer_set_fail_state_def)

lemmas key_defs = steady_def slot_key_def test_flag_def
lemmas open_monad = upd_dev_def Let_def and_then_def with_dev_def

named_theorems steady_ops

section \<open>The operations\<close>

lemma cow_ops_more:
  "cow_init K addr dev p n m c sz u q w = Some (r, co, dev', w') \<Longrightarrow> devio.more dev' = devio.more dev"
  "cow_reload K addr dev p n m c io w = Some (r, co, dev', w') \<Longrightarrow> devio.more dev' = devio.more dev"
  by (auto simp: cow_init_def cow_reload_def Let_def split: bind_splits option.splits prod.splits if_splits)

lemma cow_reopen_more: "cow_reopen K dev cm p w = Some (r, cm', dev', w') \<Longrightarrow> devio.more dev' = devio.more dev"
  by (auto simp: cow_reopen_def Let_def split: bind_splits option.splits prod.splits if_splits)

lemma extents_more:
  "elastio_snap_get_cow_file_extents K dev fp n w = Some (r, dev', l, w') \<Longrightarrow> devio.more dev' = devio.more dev"
  by (auto simp: elastio_snap_get_cow_file_extents_def Let_def split: bind_splits option.splits prod.splits if_splits)

lemma cow_sync_and_close_more:
  "cow_sync_and_close K n dev cm w = Some (r, cm', dev', l, w') \<Longrightarrow> devio.more dev' = devio.more dev"
  by (auto simp: cow_sync_and_close_def split: bind_splits prod.splits if_splits dest!: extents_more)

lemma destroy_base_dev_steady [steady_ops]: "destroy_base_dev K a s = Some t \<Longrightarrow> steady s t"
  by (auto simp: destroy_base_dev_def key_defs split: bind_splits)

lemma setup_base_dev_steady [steady_ops]: "setup_base_dev K a p s = Some (r, t) \<Longrightarrow> steady s t"
  by (auto simp: setup_base_dev_def open_monad key_defs split: bind_splits option.splits prod.splits sum.splits if_splits
      dest!: destroy_base_dev_steady)

lemma destroy_cow_steady [steady_ops]: "destroy_cow K a m s = Some (r, t) \<Longrightarrow> steady s t"
  by (auto simp: destroy_cow_def open_monad key_defs split: bind_splits option.splits prod.splits if_splits
      dest!: cow_sync_and_close_more slot_key_more)

lemma cow_path_for_steady [steady_ops]: "cow_path_for K u p s = Some (r, q, t) \<Longrightarrow> steady s t"
  by (auto simp: cow_path_for_def steady_def Let_def split: bind_splits option.splits if_splits)

lemma open_cow_steady [steady_ops]:
  "open_cow_new K a p n f u q s = Some (r, t) \<Longrightarrow> steady s t"
  "open_cow_reload K a p n io s = Some (r, t) \<Longrightarrow> steady s t"
  "open_cow_reopen K a p s = Some (r, t) \<Longrightarrow> steady s t"
  by (auto simp: open_cow_new_def open_cow_reload_def open_cow_reopen_def cow_of_def key_defs Let_def
      split: bind_splits option.splits dest!: cow_ops_more cow_reopen_more slot_key_more)

lemma setup_cow_steady [steady_ops]: "setup_cow K a b u p n f c uu q m s = Some (r, t) \<Longrightarrow> steady s t"
  by (auto simp: setup_cow_def open_monad key_defs split: bind_splits if_splits
      dest!: cow_path_for_steady open_cow_steady destroy_cow_steady)

lemma cow_path_steady [steady_ops]:
  "destroy_cow_path a s = Some t \<Longrightarrow> steady s t"
  "setup_cow_path K a s = Some (r, t) \<Longrightarrow> steady s t"
  by (auto simp: destroy_cow_path_def setup_cow_path_def open_monad key_defs split: bind_splits if_splits)

lemma copy_cow_steady [steady_ops]: "copy_cow old a s = Some t \<Longrightarrow> steady s t"
  by (auto simp: copy_cow_def open_monad key_defs split: bind_splits)

section \<open>Threads and requests\<close>

lemma thread_check_steady: "thread_check_failed K a f s = Some (f', t) \<Longrightarrow> steady s t"
  by (auto simp: thread_check_failed_def steady_def split: bind_splits if_splits option.splits prod.splits)

lemma cow_thread_step_steady: "snap_cow_thread_step K a f s = Some (f', t) \<Longrightarrow> steady s t"
  by (auto simp: snap_cow_thread_step_def cow_of_def key_defs Let_def split: bind_splits if_splits option.splits prod.splits list.splits
      dest!: thread_check_steady)

lemma cow_thread_steady: "snap_cow_thread K a n f s = Some (f', t) \<Longrightarrow> steady s t"
  by (induction n arbitrary: f s) (auto split: bind_splits dest!: cow_thread_step_steady intro: steady_trans)

lemma inc_thread_step_steady: "inc_sset_thread_step K a f s = Some (f', t) \<Longrightarrow> steady s t"
  by (auto simp: inc_sset_thread_step_def cow_of_def key_defs Let_def split: bind_splits if_splits option.splits prod.splits list.splits
      dest!: thread_check_steady)

lemma inc_thread_steady: "inc_sset_thread K a n f s = Some (f', t) \<Longrightarrow> steady s t"
  by (induction n arbitrary: f s) (auto split: bind_splits dest!: inc_thread_step_steady intro: steady_trans)

lemma mrf_thread_step_steady: "snap_mrf_thread_step K a s = Some t \<Longrightarrow> steady s t"
  by (auto simp: snap_mrf_thread_step_def key_defs split: bind_splits prod.splits list.splits)

lemma mrf_thread_steady: "snap_mrf_thread K a n s = Some t \<Longrightarrow> steady s t"
  by (induction n arbitrary: s) (auto split: bind_splits dest!: mrf_thread_step_steady intro: steady_trans)

lemma stop_threads_steady [steady_ops]:
  "stop_mrf_thread K a s = Some t \<Longrightarrow> steady s t"
  "stop_cow_thread K a s = Some t \<Longrightarrow> steady s t"
  by (auto simp: stop_mrf_thread_def stop_cow_thread_def open_monad key_defs split: bind_splits option.splits thread.splits if_splits
      dest!: mrf_thread_steady cow_thread_steady inc_thread_steady)

lemma destroy_snap_steady [steady_ops]: "destroy_snap K a s = Some t \<Longrightarrow> steady s t"
  by (auto simp: destroy_snap_def key_defs Let_def split: bind_splits dest!: stop_threads_steady)

lemma setup_snap_steady [steady_ops]: "setup_snap K a m n s = Some (r, t) \<Longrightarrow> steady s t"
  by (auto simp: setup_snap_def open_monad key_defs split: bind_splits prod.splits if_splits dest!: destroy_snap_steady)

lemma destroy_cow_thread_steady [steady_ops]: "destroy_cow_thread K a s = Some t \<Longrightarrow> steady s t"
  by (auto simp: destroy_cow_thread_def elastio_snap_stop_request_queue_def key_defs split: bind_splits if_splits dest!: stop_threads_steady)

lemma setup_cow_thread_steady [steady_ops]: "setup_cow_thread K cr a sn s = Some (r, t) \<Longrightarrow> steady s t"
  by (auto simp: setup_cow_thread_def open_monad key_defs split: bind_splits prod.splits if_splits dest!: destroy_cow_thread_steady)

lemma wake_steady [steady_ops]: "wake_up_cow_thread a s = Some t \<Longrightarrow> steady s t" "wake a s = Some (r, t) \<Longrightarrow> steady s t"
  by (auto simp: wake_def wake_up_cow_thread_def key_defs split: bind_splits)

lemma tracing_ops_steady [steady_ops]: "tracing_ops_get x s = Some t \<Longrightarrow> steady s t" "tracing_ops_put y s = Some t \<Longrightarrow> steady s t"
  by (auto simp: tracing_ops_get_def tracing_ops_put_def steady_def split: bind_splits option.splits)

lemma reconfigure_steady [steady_ops]: "tracer_reconfigure a c s = Some t \<Longrightarrow> steady s t"
  by (auto simp: tracer_reconfigure_def open_monad key_defs split: bind_splits if_splits)

lemma add_ref_steady [steady_ops]: "tracer_add_ref p n s = Some (r, t) \<Longrightarrow> steady s t"
  by (auto simp: tracer_add_ref_def open_monad key_defs split: bind_splits option.splits)

section \<open>Tracing requests\<close>

lemma tp_ops_steady:
  "tp_alloc K a b s = (r, x, t) \<Longrightarrow> steady s t" "tp_get y s = Some t \<Longrightarrow> steady s t" "tp_put y s = Some t \<Longrightarrow> steady s t"
  "tp_add K y b s = Some (r, t) \<Longrightarrow> steady s t"
  by (auto simp: tp_alloc_def tp_get_def tp_put_def tp_add_def key_defs split: bind_splits option.splits prod.splits if_splits)

lemma read_clone_steady: "bio_make_read_clone K y ob x n s = Some (r, nb, m, t) \<Longrightarrow> steady s t"
  by (auto simp: bio_make_read_clone_def steady_def Let_def split: bind_splits option.splits prod.splits if_splits bool.splits dest!: tp_ops_steady)

lemma trace_clones_steady: 
  fixes K :: "('w, 'k) blk_kern_scheme"
  assumes "trace_clones K a y ob sect n s = Some x"
  shows "steady s (snd x)"
proof (rule trace_clones.raw_induct [where P = "\<lambda>K a y ob sect n s x. steady s (snd x)", OF _ assms], goal_cases)
  case (1 tc K a t ob sect n s x)
  note IH = 1(1)
  from 1(2) show ?case
    by (auto simp: key_defs Let_def split: bind_splits option.splits prod.splits if_splits 
       dest!: read_clone_steady tp_ops_steady IH)
qed

lemma call_orig_steady:
  "call_orig_mrf K a b s = Some (r, t) \<Longrightarrow> steady s t"
  "call_orig K m b s = Some (r, t) \<Longrightarrow> steady s t"
  by (auto simp: call_orig_mrf_def call_orig_def steady_def split: bind_splits prod.splits option.splits fops.splits)

lemma set_fail_steady: "set_fail a e s = Some t \<Longrightarrow> steady s t"
  by (auto simp: set_fail_def key_defs split: bind_splits)

lemma memory_key: "memory_is_too_low K d w = Some (r, d') \<Longrightarrow> slot_key d' = slot_key d"
  by (auto simp: memory_is_too_low_def slot_key_def test_flag_def Let_def split: if_splits)

lemma bump_fields [simp]:
  "sd_minor (bump_traced b d) = sd_minor d" "sd_orig_mrf (bump_traced b d) = sd_orig_mrf d"
  "sd_tracing_ops (bump_traced b d) = sd_tracing_ops d" "sd_state (bump_traced b d) = sd_state d"
  "sd_minor (bump_total b d) = sd_minor d" "sd_orig_mrf (bump_total b d) = sd_orig_mrf d"
  "sd_tracing_ops (bump_total b d) = sd_tracing_ops d" "sd_state (bump_total b d) = sd_state d"
  by (simp_all add: bump_traced_def bump_total_def)

lemma bump_key [simp]: "slot_key (bump_traced b d) = slot_key d" "slot_key (bump_total b d) = slot_key d"
  by (simp_all add: slot_key_def test_flag_def)

lemma snap_trace_bio_steady: "snap_trace_bio K a b s = Some (r, t) \<Longrightarrow> steady s t"
  by (auto simp: snap_trace_bio_def steady_def Let_def split: bind_splits option.splits prod.splits if_splits
      dest!: call_orig_steady set_fail_steady memory_key trace_clones_steady tp_ops_steady)

lemma inc_make_sset_steady: "inc_make_sset K a n l s = Some (r, t) \<Longrightarrow> steady s t"
  by (auto simp: inc_make_sset_def key_defs split: bind_splits option.splits prod.splits)

lemma inc_segments_steady: "inc_segments K a i vs op m n s = Some (r, t) \<Longrightarrow> steady s t"
  by (induction K a i vs op m n s rule: inc_segments.induct)
     (auto split: bind_splits if_splits intro: steady_trans dest!: inc_make_sset_steady)

lemma inc_trace_bio_steady: "inc_trace_bio K a b s = Some (r, t) \<Longrightarrow> steady s t"
  by (auto simp: inc_trace_bio_def steady_def Let_def split: bind_splits if_splits
      dest!: inc_make_sset_steady inc_segments_steady set_fail_steady call_orig_steady)

lemma tracing_loop_steady: "tracing_loop K is m b s = Some (r, t) \<Longrightarrow> steady s t"
proof (induction "is" arbitrary: m s)
  case Nil
  then show ?case by (auto dest: call_orig_steady)
next
  case (Cons i "is")
  from Cons.prems show ?case
    by (auto simp: key_defs Let_def split: bind_splits option.splits if_splits
        dest!: Cons.IH call_orig_steady snap_trace_bio_steady inc_trace_bio_steady)
qed

lemma request_steady:
  "tracing_mrf K b s = Some (r, t) \<Longrightarrow> steady s t"
  "on_bio_read_complete b e s = Some t \<Longrightarrow> steady s t"
  "snap_mrf K a b s = Some t \<Longrightarrow> steady s t"
  by (auto simp: tracing_mrf_def on_bio_read_complete_def snap_mrf_def key_defs Let_def split: bind_splits if_splits
      dest!: tracing_loop_steady tp_ops_steady)

end
