(* ===== verification/Trace_Release.thy ===== *)
theory Trace_Release
  imports Steady Machine
begin

text \<open>
  What tracing a write does as a whole: the clones cover the blocks around the write, one after
  the other, and the write itself is released by the last clone that completes, whatever their
  order.
\<close>

section \<open>The clones\<close>

text \<open>Reads one after the other, in whole pages, from sector \<open>s\<close> over \<open>n\<close> bytes.\<close>

fun covers :: "nat \<Rightarrow> nat \<Rightarrow> bio_sector_map list \<Rightarrow> bool" where
  "covers s n [] \<longleftrightarrow> n = 0"
| "covers s n (m # ms) \<longleftrightarrow> map_sect m = s \<and> map_size m \<le> n \<and> PAGE_SIZE dvd map_size m \<and>
     covers (s + map_size m div SECTOR_SIZE) (n - map_size m) ms"

lemma clone_pages_length: "clone_pages K n vs w = (r, us, w') \<Longrightarrow> length us \<le> length vs + n"
  by (induction K n vs w rule: clone_pages.induct) (auto split: option.splits prod.splits if_splits)

lemma read_clone_effect:
  assumes "bio_make_read_clone K t ob sect n s = Some (r, nb, bytes, s')" "tps s t = Some tp"
  shows "devs s' = devs s \<and> (case nb of None \<Rightarrow> r \<noteq> 0 \<and> (\<exists>k. tps s' = (tps s)(t \<mapsto> tp\<lparr>tp_refs := tp_refs tp + k\<rparr>))
      | Some b \<Rightarrow> r = 0 \<and> tps s' = (tps s)(t \<mapsto> tp\<lparr>tp_refs := tp_refs tp + 1\<rparr>) \<and> bi_sector b = sect \<and> bi_size b = bytes \<and> bi_private b = t \<and>
          PAGE_SIZE dvd bytes \<and> bytes \<le> PAGE_SIZE * n)"
proof (cases nb)
  case None
  with assms show ?thesis
    by (auto simp: bio_make_read_clone_def tp_get_def Let_def split: bind_splits bool.splits prod.splits if_splits intro: exI [of _ 0] exI [of _ 1])
       (metis add_0_right fun_upd_triv tracing_params.surjective tracing_params.update_convs(3))
next
  case (Some b)
  with assms show ?thesis
    by (auto simp: bio_make_read_clone_def tp_get_def Let_def dest!: clone_pages_length split: bind_splits bool.splits prod.splits if_splits)
qed

definition clones_made :: "nat \<Rightarrow> nat \<Rightarrow> nat \<Rightarrow> nat \<Rightarrow> 'w drv \<Rightarrow> int \<Rightarrow> 'w drv \<Rightarrow> bool" where
  "clones_made a t sect n s r s' \<longleftrightarrow>
     (\<forall>tp d. tps s t = Some tp \<and> devs s a = Some d \<longrightarrow>
       (\<exists>ms k c. devs s' = (devs s)(a \<mapsto> d\<lparr>sd_submitted_cnt := c\<rparr>) \<and>
          tps s' = (tps s)(t \<mapsto> tp\<lparr>tp_refs := tp_refs tp + int (length ms) + k, tp_sects := tp_sects tp @ ms\<rparr>) \<and>
          (r = 0 \<longrightarrow> k = 0 \<and> ms \<noteq> [] \<and> covers sect (PAGE_SIZE * n) ms)))"

lemma clones_madeI:
  "(\<And>tp d. tps s t = Some tp \<Longrightarrow> devs s a = Some d \<Longrightarrow> \<exists>ms k c. devs s' = (devs s)(a \<mapsto> d\<lparr>sd_submitted_cnt := c\<rparr>) \<and>
      tps s' = (tps s)(t \<mapsto> tp\<lparr>tp_refs := tp_refs tp + int (length ms) + k, tp_sects := tp_sects tp @ ms\<rparr>) \<and>
      (r = 0 \<longrightarrow> k = 0 \<and> ms \<noteq> [] \<and> covers sect (PAGE_SIZE * n) ms)) \<Longrightarrow> clones_made a t sect n s r s'"
  by (auto simp: clones_made_def)

lemma clones_none:
  assumes "devs s' = devs s" "\<And>tp. tps s t = Some tp \<Longrightarrow> \<exists>k. tps s' = (tps s)(t \<mapsto> tp\<lparr>tp_refs := tp_refs tp + k\<rparr>)" "r \<noteq> 0"
  shows "clones_made a t sect n s r s'"
proof (rule clones_madeI)
  fix tp d assume "tps s t = Some tp" "devs s a = Some d"
  with assms(2) obtain k where "tps s' = (tps s)(t \<mapsto> tp\<lparr>tp_refs := tp_refs tp + k\<rparr>)" by blast
  with \<open>devs s a = Some d\<close> assms show "\<exists>ms k c. devs s' = (devs s)(a \<mapsto> d\<lparr>sd_submitted_cnt := c\<rparr>) \<and>
      tps s' = (tps s)(t \<mapsto> tp\<lparr>tp_refs := tp_refs tp + int (length ms) + k, tp_sects := tp_sects tp @ ms\<rparr>) \<and>
      (r = 0 \<longrightarrow> k = 0 \<and> ms \<noteq> [] \<and> covers sect (PAGE_SIZE * n) ms)"
    by (intro exI [of _ "[]"] exI [of _ k] exI [of _ "sd_submitted_cnt d"]) auto
qed

lemma page_bytes: "PAGE_SIZE dvd m \<Longrightarrow> PAGE_SIZE * n - m = PAGE_SIZE * (n - m div PAGE_SIZE)"
  by (auto simp: dvd_def right_diff_distrib' PAGE_SIZE_def)

lemma clones_step:
  assumes m: "map_sect m = sect" "map_size m \<le> PAGE_SIZE * n" "PAGE_SIZE dvd map_size m"
    and s1: "\<And>tp d. tps s t = Some tp \<Longrightarrow> devs s a = Some d \<Longrightarrow> \<exists>c. devs s1 = (devs s)(a \<mapsto> d\<lparr>sd_submitted_cnt := c\<rparr>) \<and>
       tps s1 = (tps s)(t \<mapsto> tp\<lparr>tp_refs := tp_refs tp + 1, tp_sects := tp_sects tp @ [m]\<rparr>)"
    and rest: "if map_size m div PAGE_SIZE < n then clones_made a t (sect + map_size m div SECTOR_SIZE) (n - map_size m div PAGE_SIZE) s1 r s'
      else r = 0 \<and> s' = s1"
  shows "clones_made a t sect n s r s'"
proof (rule clones_madeI)
  fix tp d assume tp: "tps s t = Some tp" "devs s a = Some d"
  let ?goal = "\<exists>ms k c. devs s' = (devs s)(a \<mapsto> d\<lparr>sd_submitted_cnt := c\<rparr>) \<and>
      tps s' = (tps s)(t \<mapsto> tp\<lparr>tp_refs := tp_refs tp + int (length ms) + k, tp_sects := tp_sects tp @ ms\<rparr>) \<and>
      (r = 0 \<longrightarrow> k = 0 \<and> ms \<noteq> [] \<and> covers sect (PAGE_SIZE * n) ms)"
  from s1 [OF tp] obtain c where c: "devs s1 = (devs s)(a \<mapsto> d\<lparr>sd_submitted_cnt := c\<rparr>)"
    "tps s1 = (tps s)(t \<mapsto> tp\<lparr>tp_refs := tp_refs tp + 1, tp_sects := tp_sects tp @ [m]\<rparr>)" by blast
  show ?goal
  proof (cases "map_size m div PAGE_SIZE < n")
    case True
    with rest c obtain ms k c' where "devs s' = (devs s1)(a \<mapsto> d\<lparr>sd_submitted_cnt := c'\<rparr>)"
      "tps s' = (tps s1)(t \<mapsto> tp\<lparr>tp_refs := tp_refs tp + 1 + int (length ms) + k, tp_sects := (tp_sects tp @ [m]) @ ms\<rparr>)"
      "r = 0 \<longrightarrow> k = 0 \<and> ms \<noteq> [] \<and> covers (sect + map_size m div SECTOR_SIZE) (PAGE_SIZE * (n - map_size m div PAGE_SIZE)) ms"
      by (fastforce simp: clones_made_def)
    with c m show ?goal
      by (intro exI [of _ "m # ms"] exI [of _ k] exI [of _ c']) (simp add: page_bytes algebra_simps)
  next
    case False
    then have "PAGE_SIZE * n - map_size m = 0" using page_bytes [OF m(3), of n] by simp
    with rest c m False show ?goal by (intro exI [of _ "[m]"] exI [of _ 0] exI [of _ c]) auto
  qed
qed

lemma trace_clones_made:
  fixes K :: "('w, 'k) blk_kern_scheme"
  assumes "trace_clones K a t ob sect n s = Some x"
  shows "clones_made a t sect n s (fst x) (snd x)"
proof (rule trace_clones.raw_induct [where P = "\<lambda>K a t ob sect n s x. clones_made a t sect n s (fst x) (snd x)", OF _ assms], goal_cases)
  case (1 tc K a t ob sect n s x)
  note IH = 1(1)
  from 1(2) obtain r nb bytes s1 where rc: "bio_make_read_clone K t ob sect n s = Some (r, nb, bytes, s1)"
    by (auto split: bind_splits)
  note eff = read_clone_effect [OF rc]
  show ?case
  proof (cases nb)
    case None
    with 1(2) rc have x: "x = (r, s1)" by simp
    show ?thesis
    proof (cases "tps s t")
      case (Some tp)
      with eff \<open>nb = None\<close> x show ?thesis by (auto intro!: clones_none)
    qed (simp add: clones_made_def)
  next
    case (Some b)
    with 1(2) rc obtain r2 s2 where add: "tp_add K t b s1 = Some (r2, s2)" by (auto split: bind_splits)
    show ?thesis
    proof (cases "tps s t")
      case (Some tp)
      with eff \<open>nb = Some b\<close> have e1: "devs s1 = devs s" "tps s1 = (tps s)(t \<mapsto> tp\<lparr>tp_refs := tp_refs tp + 1\<rparr>)"
        and b: "bi_sector b = sect" "bi_size b = bytes" "PAGE_SIZE dvd bytes" "bytes \<le> PAGE_SIZE * n" by auto
      show ?thesis
      proof (cases "r2 = 0")
        case False
        with add have "tps s2 = tps s1" "devs s2 = devs s1" by (auto simp: tp_add_def split: option.splits prod.splits bind_splits)
        moreover from False 1(2) rc add \<open>nb = Some b\<close> have "x = (r2, s2)" by simp
        ultimately show ?thesis using e1 Some False by (auto intro!: clones_none)
      next
        case True
        let ?m = "\<lparr>map_bio = bi_id b, map_sect = bi_sector b, map_size = bi_size b\<rparr>"
        from add True e1 have e2: "devs s2 = devs s" "tps s2 = (tps s)(t \<mapsto> tp\<lparr>tp_refs := tp_refs tp + 1, tp_sects := tp_sects tp @ [?m]\<rparr>)"
          by (auto simp: tp_add_def split: option.splits prod.splits bind_splits)
        from 1(2) rc add \<open>nb = Some b\<close> True obtain dev where dev: "devs s2 a = Some dev" by (auto split: bind_splits)
        let ?s3 = "put_dev a (dev\<lparr>sd_submitted_cnt := Suc (sd_submitted_cnt dev)\<rparr>) s2"
        let ?s4 = "?s3\<lparr>world := snd (case sd_orig_mrf dev of Some mrf \<Rightarrow> call_mrf K mrf b (world ?s3) | None \<Rightarrow> submit_bio_noacct K b (world ?s3))\<rparr>"
        from 1(2) rc add \<open>nb = Some b\<close> True dev have run: "(if bytes div PAGE_SIZE < n
            then tc K a t ob (sect + bytes div SECTOR_SIZE) (n - bytes div PAGE_SIZE) ?s4 else Some (0, ?s4)) = Some x"
          by (simp add: Let_def)
        have "clones_made a t sect n s (fst x) (snd x)"
        proof (rule clones_step [of ?m _ _ _ _ _ ?s4])
          show "if map_size ?m div PAGE_SIZE < n then clones_made a t (sect + map_size ?m div SECTOR_SIZE) (n - map_size ?m div PAGE_SIZE) ?s4 (fst x) (snd x)
            else fst x = 0 \<and> snd x = ?s4"
            using run b(2) IH [of K a t ob "sect + bytes div SECTOR_SIZE" "n - bytes div PAGE_SIZE" ?s4 x] by (auto split: if_splits)
        qed (use b e2 dev Some in auto)
        then show ?thesis .
      qed
    qed (simp add: clones_made_def)
  qed
qed

section \<open>Completions\<close>

text \<open>The completions of clones, one after the other; each comes with its error.\<close>

fun complete_clones :: "(bio \<times> int) list \<Rightarrow> 'w drv \<Rightarrow> 'w drv option" where
  "complete_clones [] s = Some s"
| "complete_clones ((b, e) # cs) s = do { s1 \<leftarrow> on_bio_read_complete b e s; complete_clones cs s1 }"

text \<open>What a completed clone leaves for the cow thread.\<close>

definition clone_to_save :: "tracing_params \<Rightarrow> snap_device \<Rightarrow> bio \<Rightarrow> bio" where
  "clone_to_save tp d b =
     (case find (\<lambda>m. map_bio m = bi_id b) (tp_sects tp) of
        Some m \<Rightarrow> b\<lparr>bi_op := REQ_OP_WRITE, bi_passthrough := False, bi_sector := sub64 (map_sect m) (sd_sect_off d), bi_idx := 0, bi_private := tp_dev tp\<rparr>
      | None \<Rightarrow> b\<lparr>bi_op := REQ_OP_WRITE, bi_passthrough := False, bi_private := tp_dev tp\<rparr>)"

definition clones_to_save :: "tracing_params \<Rightarrow> snap_device \<Rightarrow> (bio \<times> int) list \<Rightarrow> bio list" where
  "clones_to_save tp d cs = map (\<lambda>c. clone_to_save tp d (fst c)) (filter (\<lambda>c. snd c = 0) cs)"

text \<open>The device with so many clones queued and the write held back or released.\<close>

definition progressed :: "nat \<Rightarrow> tracing_params \<Rightarrow> snap_device \<Rightarrow> (bio \<times> int) list \<Rightarrow> bio list \<Rightarrow> 'w drv \<Rightarrow> bool" where
  "progressed t tp d cs released s \<longleftrightarrow>
     (\<exists>d'. devs s (tp_dev tp) = Some d' \<and> sd_orig_bios d' = sd_orig_bios d @ released \<and>
        sd_cow_bios d' = sd_cow_bios d @ clones_to_save tp d cs \<and> sd_sect_off d' = sd_sect_off d \<and>
        tps s t = (if released = [] then Some (tp\<lparr>tp_refs := tp_refs tp - int (length cs)\<rparr>) else None))"

lemma sect_off_fail [simp]: "sd_sect_off (tracer_set_fail_state d e) = sd_sect_off d" "sd_cow_bios (tracer_set_fail_state d e) = sd_cow_bios d"
  "sd_orig_bios (tracer_set_fail_state d e) = sd_orig_bios d"
  by (simp_all add: tracer_set_fail_state_def)

lemma complete_one:
  assumes "tps s t = Some tp" "devs s (tp_dev tp) = Some d" "bi_private b = t"
  shows "\<exists>s'. on_bio_read_complete b e s = Some s' \<and> progressed t tp d [(b, e)] (if tp_refs tp = 1 then [tp_orig_bio tp] else []) s'"
  using assms
  by (cases "e = 0"; cases "find (\<lambda>m. map_bio m = bi_id b) (tp_sects tp)")
     (auto simp: on_bio_read_complete_def tp_put_def progressed_def clones_to_save_def clone_to_save_def Let_def)

lemma clone_to_save_cong: "sd_sect_off d' = sd_sect_off d \<Longrightarrow> clones_to_save (tp\<lparr>tp_refs := k\<rparr>) d' cs = clones_to_save tp d cs"
  by (simp add: clones_to_save_def clone_to_save_def cong: option.case_cong)

lemma complete_all:
  assumes "tps s t = Some tp" "devs s (tp_dev tp) = Some d" "\<forall>c \<in> set cs. bi_private (fst c) = t" "int (length cs) \<le> tp_refs tp" "0 < tp_refs tp"
  shows "\<exists>s'. complete_clones cs s = Some s' \<and> progressed t tp d cs (if tp_refs tp = int (length cs) then [tp_orig_bio tp] else []) s'"
  using assms
proof (induction cs arbitrary: s tp d)
  case Nil
  then show ?case by (simp add: progressed_def clones_to_save_def)
next
  case (Cons c cs)
  obtain b e where c: "c = (b, e)" by fastforce
  from complete_one [OF Cons.prems(1,2), of b e] Cons.prems(3) c obtain s1 where s1: "on_bio_read_complete b e s = Some s1"
    and p: "progressed t tp d [(b, e)] (if tp_refs tp = 1 then [tp_orig_bio tp] else []) s1" by auto
  show ?case
  proof (cases "tp_refs tp = 1")
    case True
    then have "cs = []" using Cons.prems(4) by simp
    with p s1 c True show ?thesis by simp
  next
    case False
    let ?tp = "tp\<lparr>tp_refs := tp_refs tp - 1\<rparr>"
    from p False obtain d1 where d1: "devs s1 (tp_dev tp) = Some d1" "sd_orig_bios d1 = sd_orig_bios d" "sd_sect_off d1 = sd_sect_off d"
      "sd_cow_bios d1 = sd_cow_bios d @ clones_to_save tp d [(b, e)]" "tps s1 t = Some ?tp" by (auto simp: progressed_def)
    from Cons.IH [of s1 ?tp d1] d1 Cons.prems False obtain s' where
      "complete_clones cs s1 = Some s'" "progressed t ?tp d1 cs (if tp_refs tp - 1 = int (length cs) then [tp_orig_bio ?tp] else []) s'" by auto
    moreover have "clones_to_save ?tp d1 cs = clones_to_save tp d cs" by (rule clone_to_save_cong [OF d1(3)])
    ultimately show ?thesis using d1 s1 c by (auto simp: progressed_def clones_to_save_def algebra_simps split: if_splits)
  qed
qed

section \<open>Tracing as a whole\<close>

definition clone_pages_of :: "snap_device \<Rightarrow> bio \<Rightarrow> nat" where
  "clone_pages_of dev b = sub64 (clone_end dev b) (clone_start dev b) div SECTORS_PER_PAGE mod 2 ^ 32"

lemma clone_range:
  assumes "sd_sect_off dev \<le> bi_sector b" "bi_sector b + bio_sectors b + 8 < 2 ^ 64" "bio_sectors b < 2 ^ 32"
  shows "clone_start dev b \<le> bi_sector b \<and> bi_sector b + bio_sectors b \<le> clone_start dev b + SECTORS_PER_PAGE * clone_pages_of dev b \<and>
     (clone_start dev b - sd_sect_off dev) mod SECTORS_PER_BLOCK = 0"
proof -
  define x where "x = bi_sector b - sd_sect_off dev"
  define n where "n = bio_sectors b"
  define p where "p = (x + n + 7) div 8"
  have x: "bi_sector b = x + sd_sect_off dev" using assms(1) by (simp add: x_def)
  note b = assms(2,3) [folded n_def, unfolded x]
  define q where "q = x div 8"
  have a: "q * 8 \<le> x" "p * 8 \<le> x + n + 7" "x + n \<le> p * 8" "q \<le> p" "x < q * 8 + 8" unfolding p_def q_def by (presburger+)
  have start: "clone_start dev b = q * 8 + sd_sect_off dev"
    using b a(1) by (simp add: clone_start_def x ROUND_DOWN_def sub64_ge q_def [symmetric])
  have "wrap64 (bi_sector b + bi_size b div SECTOR_SIZE) = x + n + sd_sect_off dev"
    using b by (simp add: x n_def bio_sectors_def algebra_simps)
  then have "clone_end dev b = p * 8 + sd_sect_off dev"
    using b a(2) by (simp add: clone_end_def ROUND_UP_def sub64_ge p_def algebra_simps)
  moreover have "p * 8 + sd_sect_off dev - (q * 8 + sd_sect_off dev) = 8 * (p - q)" using a(4) by (simp add: diff_mult_distrib2)
  moreover have "p - q < 2 ^ 32" using b(2) a(2,5) by simp
  ultimately have "clone_pages_of dev b = p - q" using start a b by (simp add: clone_pages_of_def sub64_ge)
  then show ?thesis using a by (simp add: start x n_def [symmetric])
qed

text \<open>A write that is traced: what is left once \<^verbatim>\<open>snap_trace_bio\<close> returns, when the device has not
  failed.\<close>

lemma fail_not_zero: "e \<noteq> 0 \<Longrightarrow> tracer_read_fail_state (tracer_set_fail_state d e) \<noteq> 0"
  by (simp add: tracer_set_fail_state_def tracer_read_fail_state_def)

lemma memory_low_failed:
  "memory_is_too_low K d w = Some (low, d') \<Longrightarrow> (low \<noteq> 0 \<or> tracer_read_fail_state d' \<noteq> 0) \<Longrightarrow> tracer_read_fail_state d' \<noteq> 0"
  "memory_is_too_low K d w = Some (low, d') \<Longrightarrow> tracer_read_fail_state d' = 0 \<Longrightarrow> d' = d \<and> low = 0"
  by (auto simp: memory_is_too_low_def Let_def dest: fail_not_zero split: if_splits) (simp_all add: fail_not_zero)

lemma tp_put_keeps_failure:
  "tp_put t s = Some s' \<Longrightarrow> devs s a = Some d \<Longrightarrow> devs s' a = Some d' \<Longrightarrow> tracer_read_fail_state d' = tracer_read_fail_state d"
  by (auto simp: tp_put_def put_dev_def tracer_read_fail_state_def split: bind_splits if_splits)

text \<open>The part after the checks, for a write that is not split.\<close>

definition trace_checked :: "('w, 'k) blk_kern_scheme \<Rightarrow> nat \<Rightarrow> bio \<Rightarrow> snap_device \<Rightarrow> 'w drv \<Rightarrow> (int \<times> 'w drv) option" where
  "trace_checked K a b dev s2 =
           (let start = clone_start dev b;
                pages = sub64 (clone_end dev b) start div SECTORS_PER_PAGE mod 2 ^ 32 in
            case tp_alloc K a b s2 of
              (ret, None, s3) \<Rightarrow> do { s4 \<leftarrow> set_fail a ret s3; Some (0, s4) }
            | (ret, Some t, s3) \<Rightarrow> do {
                (ret, s4) \<leftarrow> trace_clones K a t b start pages s3;
                s5 \<leftarrow> (if ret \<noteq> 0 then set_fail a ret s4 else Some s4);
                s6 \<leftarrow> tp_put t s5;
                Some (0, s6) })"

lemma trace_checked_fine:
  assumes run: "trace_checked K a b dev s = Some (r, s')" and dev: "devs s a = Some d0"
    and fine: "devs s' a = Some dev'" "tracer_read_fail_state dev' = 0"
  obtains t tp where "tps s' t = Some tp" "tp_dev tp = a" "tp_orig_bio tp = b" "tp_sects tp \<noteq> []" "tp_refs tp = int (length (tp_sects tp))"
    "covers (clone_start dev b) (PAGE_SIZE * clone_pages_of dev b) (tp_sects tp)" "\<exists>c. dev' = d0\<lparr>sd_submitted_cnt := c\<rparr>"
    "tps s' = (tps s)(t \<mapsto> tp)" "devs s' = (devs s)(a \<mapsto> dev')"
proof -
  obtain r1 x s3 where al: "tp_alloc K a b s = (r1, x, s3)" by (metis prod_cases3)
  show thesis
  proof (cases x)
    case None
    with al have "r1 \<noteq> 0" by (auto simp: tp_alloc_def split: option.splits prod.splits)
    from run al None have "set_fail a r1 s3 = Some s'" by (auto simp: trace_checked_def Let_def split: bind_splits)
    with fine fail_not_zero [OF \<open>r1 \<noteq> 0\<close>] show thesis by (auto simp: set_fail_def split: bind_splits)
  next
    case (Some t)
    with al dev have s3: "devs s3 a = Some d0" "tps s3 t = Some \<lparr>tp_orig_bio = b, tp_dev = a, tp_refs = 1, tp_sects = []\<rparr>"
      and eq: "devs s3 = devs s" "\<exists>y. tps s3 = (tps s)(t \<mapsto> y)"
      by (auto simp: tp_alloc_def split: option.splits prod.splits)
    from run al Some obtain ret s4 s5 where cl: "trace_clones K a t b (clone_start dev b) (clone_pages_of dev b) s3 = Some (ret, s4)"
      and s5: "(if ret \<noteq> 0 then set_fail a ret s4 else Some s4) = Some s5" and put: "tp_put t s5 = Some s'"
      by (auto simp: trace_checked_def Let_def clone_pages_of_def split: bind_splits)
    from trace_clones_made [OF cl] s3 obtain ms k c where m: "devs s4 = (devs s3)(a \<mapsto> d0\<lparr>sd_submitted_cnt := c\<rparr>)"
      "tps s4 = (tps s3)(t \<mapsto> \<lparr>tp_orig_bio = b, tp_dev = a, tp_refs = 1 + int (length ms) + k, tp_sects = ms\<rparr>)"
      "ret = 0 \<longrightarrow> k = 0 \<and> ms \<noteq> [] \<and> covers (clone_start dev b) (PAGE_SIZE * clone_pages_of dev b) ms"
      by (auto simp: clones_made_def)
    show thesis
    proof (cases "ret = 0")
      case False
      with s5 m(1) have "devs s5 a = Some (tracer_set_fail_state (d0\<lparr>sd_submitted_cnt := c\<rparr>) ret)" by (auto simp: set_fail_def split: bind_splits)
      from tp_put_keeps_failure [OF put this fine(1)] fail_not_zero [OF False] fine(2) show thesis by simp
    next
      case True
      let ?tp = "\<lparr>tp_orig_bio = b, tp_dev = a, tp_refs = int (length ms), tp_sects = ms\<rparr>"
      have ms: "ms \<noteq> []" "covers (clone_start dev b) (PAGE_SIZE * clone_pages_of dev b) ms" and k: "k = 0" using m(3) True by simp_all
      from eq(2) m(2) k have tps4: "tps s4 = (tps s)(t \<mapsto> ?tp\<lparr>tp_refs := 1 + int (length ms)\<rparr>)" by auto
      from s5 True have "s5 = s4" by simp
      with put ms(1) have "s' = s4\<lparr>tps := (tps s4)(t \<mapsto> ?tp)\<rparr>" by (simp add: tp_put_def tps4)
      with tps4 m(1) eq(1) have s': "tps s' = (tps s)(t \<mapsto> ?tp)" "devs s' = (devs s)(a \<mapsto> d0\<lparr>sd_submitted_cnt := c\<rparr>)" by simp_all
      with fine(1) have "dev' = d0\<lparr>sd_submitted_cnt := c\<rparr>" by simp
      with s' ms show thesis by (intro that [of t ?tp]) auto
    qed
  qed
qed

lemma traced_write_checked:
  assumes run: "snap_trace_bio K a b s = Some (r, s')" and dev: "devs s a = Some dev" "bio_needs_cow b dev"
    and small: "\<forall>q. sd_base_dev dev = Some q \<longrightarrow> bio_sectors b \<le> queue_max_sectors K q"
    and fine: "devs s' a = Some dev'" "tracer_read_fail_state dev' = 0"
  shows "trace_checked K a b dev (put_dev a (bump_traced b dev) (put_dev a dev s)) = Some (r, s')"
proof -
  from run dev obtain low d1 where mem: "memory_is_too_low K dev (world s) = Some (low, d1)"
    by (auto simp: snap_trace_bio_def split: bind_splits)
  show ?thesis
  proof (cases "low \<noteq> 0 \<or> tracer_read_fail_state d1 \<noteq> 0")
    case True
    with run dev mem have "call_orig_mrf K a b (put_dev a d1 s) = Some (r, s')" by (simp add: snap_trace_bio_def Let_def)
    then have "devs s' a = Some d1" by (auto simp: call_orig_mrf_def split: bind_splits prod.splits)
    with memory_low_failed(1) [OF mem True] fine show ?thesis by simp
  next
    case False
    with memory_low_failed(2) [OF mem] have d1: "d1 = dev" "low = 0" by auto
    with run dev mem False small show ?thesis
      by (auto simp: snap_trace_bio_def trace_checked_def Let_def not_less [symmetric] split: bind_splits)
  qed
qed

lemma traced_write:
  assumes run: "snap_trace_bio K a b s = Some (r, s')" and dev: "devs s a = Some dev" "bio_needs_cow b dev"
    and small: "\<forall>q. sd_base_dev dev = Some q \<longrightarrow> bio_sectors b \<le> queue_max_sectors K q"
    and fine: "devs s' a = Some dev'" "tracer_read_fail_state dev' = 0"
  obtains t tp c where "tps s' = (tps s)(t \<mapsto> tp)" "tp_dev tp = a" "tp_orig_bio tp = b" "tp_sects tp \<noteq> []" "tp_refs tp = int (length (tp_sects tp))"
    "covers (clone_start dev b) (PAGE_SIZE * clone_pages_of dev b) (tp_sects tp)" "devs s' = (devs s)(a \<mapsto> dev')"
    "dev' = (bump_traced b dev)\<lparr>sd_submitted_cnt := c\<rparr>"
proof -
  let ?s = "put_dev a (bump_traced b dev) (put_dev a dev s)"
  have same: "devs ?s a = Some (bump_traced b dev)" "tps ?s = tps s" "devs ?s = (devs s)(a \<mapsto> bump_traced b dev)" by (simp_all add: put_dev_def)
  from trace_checked_fine [OF traced_write_checked [OF assms] same(1) fine] obtain t tp c where
    "tp_dev tp = a" "tp_orig_bio tp = b" "tp_sects tp \<noteq> []" "tp_refs tp = int (length (tp_sects tp))"
    "covers (clone_start dev b) (PAGE_SIZE * clone_pages_of dev b) (tp_sects tp)" "dev' = (bump_traced b dev)\<lparr>sd_submitted_cnt := c\<rparr>"
    "tps s' = (tps ?s)(t \<mapsto> tp)" "devs s' = (devs ?s)(a \<mapsto> dev')" by blast
  then show thesis by (intro that [of t tp c]) (simp_all add: same)
qed

lemma snap_trace_checked:
  assumes "devs s a = Some dev" "bio_needs_cow b dev" "tracer_read_fail_state dev = 0" "sd_base_dev dev = Some q"
    "memory_is_too_low K dev (world s) = Some (0, dev)" "bio_sectors b \<le> queue_max_sectors K q"
  shows "snap_trace_bio K a b s = trace_checked K a b dev (put_dev a (bump_traced b dev) (put_dev a dev s))"
  using assms by (simp add: snap_trace_bio_def trace_checked_def Let_def)

lemma trace_checked_pages:
  "trace_checked K a b dev s2 =
           (case tp_alloc K a b s2 of
              (ret, None, s3) \<Rightarrow> do { s4 \<leftarrow> set_fail a ret s3; Some (0, s4) }
            | (ret, Some t, s3) \<Rightarrow> do {
                (ret, s4) \<leftarrow> trace_clones K a t b (clone_start dev b) (clone_pages_of dev b) s3;
                s5 \<leftarrow> (if ret \<noteq> 0 then set_fail a ret s4 else Some s4);
                s6 \<leftarrow> tp_put t s5;
                Some (0, s6) })"
  by (simp only: trace_checked_def clone_pages_of_def Let_def)

section \<open>Properties\<close>

text \<open>C6: A write that needs copying is held back: the clones made for it read, one after the other,
  the whole blocks around it, and no sooner than the last of them has completed, in whatever
  order and with whatever errors, the write joins the released ones, exactly once; each clone
  that completed without an error is queued for the cow thread.\<close>

theorem traced_write_waits_for_clones:
  assumes run: "snap_trace_bio K a b s = Some (r, s')" and dev: "devs s a = Some dev" "bio_needs_cow b dev"
    and small: "\<forall>q. bio_sectors b \<le> queue_max_sectors K q" "bio_sectors b < 2 ^ 32"
    and range: "sd_sect_off dev \<le> bi_sector b" "bi_sector b + bio_sectors b + 8 < 2 ^ 64"
    and fine: "devs s' a = Some dev'" "tracer_read_fail_state dev' = 0"
  shows "\<exists>t tp n. tps s' t = Some tp \<and> tp_orig_bio tp = b \<and> tp_sects tp \<noteq> [] \<and>
     covers (clone_start dev b) (PAGE_SIZE * n) (tp_sects tp) \<and> clone_start dev b \<le> bi_sector b \<and>
     bi_sector b + bio_sectors b \<le> clone_start dev b + SECTORS_PER_PAGE * n \<and>
     (\<forall>cs. length cs \<le> length (tp_sects tp) \<and> (\<forall>c \<in> set cs. bi_private (fst c) = t) \<longrightarrow>
        (\<exists>u d. complete_clones cs s' = Some u \<and> devs u a = Some d \<and>
           sd_orig_bios d = sd_orig_bios dev @ (if length cs = length (tp_sects tp) then [b] else []) \<and>
           sd_cow_bios d = sd_cow_bios dev @ clones_to_save tp dev' cs))"
proof -
  have "\<forall>q. sd_base_dev dev = Some q \<longrightarrow> bio_sectors b \<le> queue_max_sectors K q" using small(1) by blast
  from traced_write [OF run dev this fine] obtain t tp c where tps: "tps s' = (tps s)(t \<mapsto> tp)"
    and tp: "tp_dev tp = a" "tp_orig_bio tp = b" "tp_sects tp \<noteq> []" "tp_refs tp = int (length (tp_sects tp))"
      "covers (clone_start dev b) (PAGE_SIZE * clone_pages_of dev b) (tp_sects tp)"
    and dev': "dev' = (bump_traced b dev)\<lparr>sd_submitted_cnt := c\<rparr>" by metis
  have keep: "sd_orig_bios dev' = sd_orig_bios dev" "sd_cow_bios dev' = sd_cow_bios dev" by (simp_all add: dev' bump_traced_def)
  have at: "tps s' t = Some tp" using tps by simp
  have "\<exists>u d. complete_clones cs s' = Some u \<and> devs u a = Some d \<and>
           sd_orig_bios d = sd_orig_bios dev @ (if length cs = length (tp_sects tp) then [b] else []) \<and>
           sd_cow_bios d = sd_cow_bios dev @ clones_to_save tp dev' cs"
    if "length cs \<le> length (tp_sects tp)" "\<forall>c \<in> set cs. bi_private (fst c) = t" for cs
    using complete_all [OF at, of dev' cs] that tp keep fine(1) by (auto simp: progressed_def)
  with at tp clone_range [OF range small(2)] show ?thesis by (intro exI [of _ t] exI [of _ tp] exI [of _ "clone_pages_of dev b"]) auto
qed

text \<open>C29: When no page can be had for the first clone the write is lost: the device fails, but the
  write is neither passed on nor released, and its tracing parameters keep a reference that
  nobody drops.\<close>

theorem write_lost_without_pages:
  fixes K :: "('w, 'k) blk_kern_scheme"
  assumes dev: "devs s a = Some dev" "bio_needs_cow b dev" "tracer_read_fail_state dev = 0" "sd_base_dev dev = Some q"
    and memory: "memory_is_too_low K dev (world s) = Some (0, dev)" "bio_sectors b \<le> queue_max_sectors K q" "clone_pages_of dev b > 0"
    and kern: "\<forall>w. kmalloc K PAGE_SIZE w = (None, w)" "\<forall>w. kmalloc K sizeof_tracing_params w = (Some g, w)" "\<forall>w. bio_alloc K w = (True, w)"
  shows "\<exists>s' dev' tp. snap_trace_bio K a b s = Some (0, s') \<and> world s' = world s \<and> devs s' a = Some dev' \<and>
     tracer_read_fail_state dev' = - ENOMEM \<and> sd_orig_bios dev' = sd_orig_bios dev \<and>
     tps s' (fresh s) = Some tp \<and> tp_orig_bio tp = b \<and> tp_refs tp = 1 \<and> tp_sects tp = []"
proof -
  define n where "n = min (clone_pages_of dev b) BIO_MAX_PAGES"
  obtain m where n: "n = Suc m" using memory(3) by (cases n) (auto simp: n_def BIO_MAX_PAGES_def)
  have pages: "clone_pages K n [] w = (- ENOMEM, [], w)" for w using kern(1) by (simp add: n)
  have clones: "trace_clones K a t b sect (clone_pages_of dev b) u =
      Some (- ENOMEM, u\<lparr>tps := (tps u)(t \<mapsto> tp\<lparr>tp_refs := tp_refs tp + 1\<rparr>), fresh := Suc (fresh u)\<rparr>)"
    if "tps u t = Some tp" for t sect tp and u :: "'w drv"
    using kern(3) that by (subst trace_clones.simps) (simp add: bio_make_read_clone_def n_def [symmetric] pages tp_get_def)
  define s2 where "s2 = put_dev a (bump_traced b dev) (put_dev a dev s)"
  have s2: "fresh s2 = fresh s" "world s2 = world s" "devs s2 = (devs s)(a \<mapsto> bump_traced b dev)" by (simp_all add: s2_def)
  have "snap_trace_bio K a b s = trace_checked K a b dev s2"
    using dev memory(1,2) by (simp add: snap_trace_checked s2_def)
  moreover have "tp_alloc K a b s2 = (0, Some (fresh s), s2\<lparr>tps := (tps s2)(fresh s \<mapsto> \<lparr>tp_orig_bio = b, tp_dev = a, tp_refs = 1, tp_sects = []\<rparr>),
      fresh := Suc (fresh s)\<rparr>)" using kern(2) by (simp add: tp_alloc_def s2)
  moreover have "sd_fail_code (bump_traced b dev) = 0" "sd_orig_bios (bump_traced b dev) = sd_orig_bios dev"
    using dev(3) by (simp_all add: bump_traced_def tracer_read_fail_state_def)
  ultimately show ?thesis
    by (simp add: trace_checked_pages clones set_fail_def tp_put_def s2 tracer_set_fail_state_def
        tracer_read_fail_state_def)
qed

section \<open>Concrete writes\<close>

definition demo_write :: bio where
  "demo_write = demo_bio 1 REQ_OP_WRITE 43"

lemma demo_write_pages: "clone_start demo_snap demo_write = 40" "clone_pages_of demo_snap demo_write = 2" "bio_sectors demo_write = 8"
  "bi_sector demo_write = 43" "sd_sect_off demo_snap = 0"
  by (simp_all add: clone_pages_of_def clone_end_def clone_start_def demo_snap_def zero_dev_def demo_write_def demo_bio_def ROUND_UP_def
      ROUND_DOWN_def sub64_def wrap64_def bio_sectors_def)

lemma demo_write_ready: "bio_needs_cow demo_write demo_snap" "memory_is_too_low ram_blk demo_snap w = Some (0, demo_snap)"
  "tracer_read_fail_state demo_snap = 0" "sd_base_dev demo_snap = Some 2" "devs (demo_drv demo_snap demo_saved_cm ram1) 0 = Some demo_snap"
  by (simp_all add: bio_needs_cow_def on_bdev_def demo_snap_def zero_dev_def memory_is_too_low_def tracer_read_fail_state_def wrap64_def
        LOW_MEMORY_FAIL_PERCENT_def demo_drv_def)

lemma demo_fields: "sd_fail_code demo_snap = 0" "sd_orig_mrf demo_snap = Some NullMrf"
  by (simp_all add: demo_snap_def zero_dev_def)

lemma demo_write_traced: "\<exists>s' dev'. snap_trace_bio ram_blk 0 demo_write (demo_drv demo_snap demo_saved_cm ram1) = Some (0, s') \<and>
    devs s' 0 = Some dev' \<and> tracer_read_fail_state dev' = 0"
proof -
  have "snap_trace_bio ram_blk 0 demo_write (demo_drv demo_snap demo_saved_cm ram1) = trace_checked ram_blk 0 demo_write demo_snap
      (put_dev 0 (bump_traced demo_write demo_snap) (put_dev 0 demo_snap (demo_drv demo_snap demo_saved_cm ram1)))" (is "?l = ?r")
    by (rule snap_trace_checked) (simp_all add: demo_write_pages demo_write_ready)
  moreover have "\<exists>s' dev'. ?r = Some (0, s') \<and> devs s' 0 = Some dev' \<and> tracer_read_fail_state dev' = 0"
    by (simp add: trace_checked_pages tp_alloc_def demo_write_pages trace_clones.simps bio_make_read_clone_def tp_get_def BIO_MAX_PAGES_def
       numeral_2_eq_2 tp_add_def demo_drv_def Let_def tp_put_def bump_traced_def tracer_read_fail_state_def demo_fields)
  ultimately show ?thesis by simp
qed

theorem traced_write_waits_for_clones_witness:
  "\<exists>s' t tp n. snap_trace_bio ram_blk 0 demo_write (demo_drv demo_snap demo_saved_cm ram1) = Some (0, s') \<and> tps s' t = Some tp \<and>
     tp_sects tp \<noteq> [] \<and> covers 40 (PAGE_SIZE * n) (tp_sects tp) \<and> 51 \<le> 40 + 8 * n"
proof -
  obtain s' dev' where r: "snap_trace_bio ram_blk 0 demo_write (demo_drv demo_snap demo_saved_cm ram1) = Some (0, s')"
    "devs s' 0 = Some dev'" "tracer_read_fail_state dev' = 0" using demo_write_traced by blast
  from traced_write_waits_for_clones [OF r(1) demo_write_ready(5,1) _ _ _ _ r(2,3)] obtain t tp n where
    "tps s' t = Some tp" "tp_sects tp \<noteq> []" "covers 40 (PAGE_SIZE * n) (tp_sects tp)" "51 \<le> 40 + 8 * n"
    by (auto simp: demo_write_pages)
  with r(1) show ?thesis by blast
qed

text \<open>A machine that has memory for small structures only.\<close>

definition no_pages :: "ram blk_kern" where
  "no_pages = ram_blk\<lparr>kmalloc := (\<lambda>n w. (if n < PAGE_SIZE then Some (\<lambda>_. 0) else None, w))\<rparr>"

theorem write_lost_without_pages_witness:
  "\<exists>s' dev'. snap_trace_bio no_pages 0 demo_write (demo_drv demo_snap demo_saved_cm ram1) = Some (0, s') \<and>
     devs s' 0 = Some dev' \<and> tracer_read_fail_state dev' = - ENOMEM \<and> sd_orig_bios dev' = []"
proof -
  have k: "\<forall>w. kmalloc no_pages PAGE_SIZE w = (None, w)" "\<forall>w. kmalloc no_pages sizeof_tracing_params w = (Some (\<lambda>_. 0), w)"
    "\<forall>w. bio_alloc no_pages w = (True, w)" "memory_is_too_low no_pages demo_snap w = Some (0, demo_snap)" "queue_max_sectors no_pages q = 2560" for w q
    by (simp_all add: no_pages_def ram_blk_def kern.defs blk_kern.defs ram_kern_def sizeof_tracing_params_def memory_is_too_low_def
        demo_write_ready(3) wrap64_def LOW_MEMORY_FAIL_PERCENT_def)
  have "sd_orig_bios demo_snap = []" by (simp add: demo_snap_def zero_dev_def)
  with write_lost_without_pages [OF demo_write_ready(5,1,3,4) k(4) _ _ k(1-3)] show ?thesis by (auto simp: k(5) demo_write_pages)
qed

end
