(* ===== verification/Snap_System.thy ===== *)
theory Snap_System
  imports Clone_Image Trace_Release
begin

text \<open>
  The snapshot as a whole: the interception of writes (\<^verbatim>\<open>snap_trace_bio\<close>), the completions of
  the read clones (\<^verbatim>\<open>__on_bio_read_complete\<close>), the threads (\<^verbatim>\<open>snap_cow_thread\<close>,
  \<^verbatim>\<open>snap_mrf_thread\<close>), the reads of the snapshot (\<^verbatim>\<open>snap_mrf\<close>) and the rest of the machine
  interleave in any order, and the image of the base device at the start stays what the
  snapshot shows. Reads that are under way are kept beside the driver's state, per tracing
  parameters; everything else is the state of the driver.
\<close>

section \<open>What the block layer promises\<close>

text \<open>The blocks a request covers, numbered from the start \<open>off\<close> of the traced device.\<close>

definition touches :: "nat \<Rightarrow> bio \<Rightarrow> nat \<Rightarrow> bool" where
  "touches off b q \<longleftrightarrow> (\<exists>x. bi_sector b \<le> x \<and> x < bi_sector b + bio_sectors b \<and> (x - off) div 8 = q)"

text \<open>Passing on a read changes nothing, passing on a write changes only blocks of the base device \<open>d\<close>
  that the write covers; allocating a bio changes nothing.\<close>

definition issue_laws :: "('w, 'k) blk_kern_scheme \<Rightarrow> ('w \<Rightarrow> nat \<Rightarrow> buf) \<Rightarrow> nat \<Rightarrow> nat \<Rightarrow> bool" where
  "issue_laws K fd d off \<longleftrightarrow>
     (\<forall>w. fd (snd (bio_alloc K w)) = fd w) \<and>
     (\<forall>b w. bi_op b = REQ_OP_READ \<longrightarrow> fd (snd (submit_bio_noacct K b w)) = fd w) \<and>
     (\<forall>m b w. bi_op b = REQ_OP_READ \<longrightarrow> fd (snd (call_mrf K m b w)) = fd w) \<and>
     (\<forall>m b w g. g \<noteq> d \<longrightarrow> fd (snd (call_mrf K m b w)) g = fd w g) \<and>
     (\<forall>m b w p. fd (snd (call_mrf K m b w)) d p = fd w d p \<or> touches off b (p div 4096))"

lemma issue_lawsD:
  assumes "issue_laws K fd d off"
  shows "bio_alloc K w = (x, w') \<Longrightarrow> fd w' = fd w"
    "submit_bio_noacct K b w = (r, w') \<Longrightarrow> bi_op b = REQ_OP_READ \<Longrightarrow> fd w' = fd w"
    "call_mrf K m b w = (r, w') \<Longrightarrow> bi_op b = REQ_OP_READ \<Longrightarrow> fd w' = fd w"
    "call_mrf K m b w = (r, w') \<Longrightarrow> g \<noteq> d \<Longrightarrow> fd w' g = fd w g"
    "call_mrf K m b w = (r, w') \<Longrightarrow> \<not> touches off b (p div 4096) \<Longrightarrow> fd w' d p = fd w d p"
  using assms unfolding issue_laws_def by (metis snd_conv)+

text \<open>The contents of the base device appear under its number in \<open>fd\<close>, at the blocks \<open>Q\<close>; the others
  are the blocks of the cow file, when it lies on the base device.\<close>

definition base_in :: "('w \<Rightarrow> nat \<Rightarrow> buf) \<Rightarrow> ('w \<Rightarrow> nat \<Rightarrow> nat \<Rightarrow> byte) \<Rightarrow> nat \<Rightarrow> (nat \<Rightarrow> bool) \<Rightarrow> bool" where
  "base_in fd base d Q \<longleftrightarrow> (\<forall>w p. Q (p div 4096) \<longrightarrow> base w d p = fd w d p)"

section \<open>Tracing touches no data\<close>

definition same_store :: "('w \<Rightarrow> nat \<Rightarrow> buf) \<Rightarrow> 'w drv \<Rightarrow> 'w drv \<Rightarrow> bool" where
  "same_store fd s s' \<longleftrightarrow> fd (world s') = fd (world s) \<and> cows s' = cows s"

lemma clone_pages_frame: "file_laws K fd \<Longrightarrow> clone_pages K n vs w = (r, us, w') \<Longrightarrow> fd w' = fd w"
proof (induction K n vs w rule: clone_pages.induct)
  case (2 K n vs w)
  then show ?case by (auto dest: alloc_lawD split: prod.splits option.splits if_splits)
qed simp

lemma read_clone_frame:
  assumes "file_laws K fd" "issue_laws K fd d off" "bio_make_read_clone K t ob sect n s = Some (r, nb, bytes, s')"
  shows "same_store fd s s' \<and> (\<forall>b. nb = Some b \<longrightarrow> bi_op b = REQ_OP_READ)"
proof -
  obtain x w1 where al: "bio_alloc K (world s) = (x, w1)" by fastforce
  note e1 = issue_lawsD(1) [OF assms(2) al]
  show ?thesis
  proof (cases x)
    case True
    with assms(3) al obtain s1 ret vs w2 where s1: "tp_get t (s\<lparr>world := w1\<rparr>) = Some s1"
      "clone_pages K (min n BIO_MAX_PAGES) [] (world s1) = (ret, vs, w2)"
      and res: "same_store fd (s1\<lparr>world := w2\<rparr>) s'" "\<forall>b. nb = Some b \<longrightarrow> bi_op b = REQ_OP_READ"
      by (auto simp: bio_make_read_clone_def same_store_def Let_def split: bind_splits prod.splits if_splits)
    from s1(1) have "same_store fd (s\<lparr>world := w1\<rparr>) s1" by (auto simp: tp_get_def same_store_def split: bind_splits)
    with res clone_pages_frame [OF assms(1) s1(2)] e1 show ?thesis by (simp add: same_store_def)
  qed (use assms(3) al e1 in \<open>auto simp: bio_make_read_clone_def same_store_def\<close>)
qed

lemma trace_clones_frame:
  fixes K :: "('w, 'k) blk_kern_scheme"
  assumes laws: "file_laws K fd" "issue_laws K fd d off" and "trace_clones K a t ob sect n s = Some x"
  shows "same_store fd s (snd x)"
proof (rule trace_clones.raw_induct [where P = "\<lambda>K a t ob sect n s x. file_laws K fd \<longrightarrow> issue_laws K fd d off \<longrightarrow> same_store fd s (snd x)",
      OF _ assms(3), rule_format, OF _ laws], goal_cases)
  case (1 tc K a t ob sect n s x)
  note IH = 1(1) and laws = 1(3,4)
  from 1(2) obtain r nb bytes s1 where rc: "bio_make_read_clone K t ob sect n s = Some (r, nb, bytes, s1)"
    by (auto split: bind_splits)
  from read_clone_frame [OF laws rc] have s1: "same_store fd s s1" and rd: "\<forall>b. nb = Some b \<longrightarrow> bi_op b = REQ_OP_READ" by auto
  show ?case
  proof (cases nb)
    case (Some b)
    with 1(2) rc obtain r2 s2 where add: "tp_add K t b s1 = Some (r2, s2)" by (auto split: bind_splits)
    then have s2: "same_store fd s1 s2"
      by (auto simp: tp_add_def same_store_def dest: alloc_lawD [OF laws(1)] split: option.splits prod.splits bind_splits)
    show ?thesis
    proof (cases "r2 = 0")
      case True
      with 1(2) rc add Some obtain dev where dev: "devs s2 a = Some dev" by (auto split: bind_splits)
      let ?s3 = "put_dev a (dev\<lparr>sd_submitted_cnt := Suc (sd_submitted_cnt dev)\<rparr>) s2"
      let ?s4 = "?s3\<lparr>world := snd (case sd_orig_mrf dev of Some mrf \<Rightarrow> call_mrf K mrf b (world ?s3) | None \<Rightarrow> submit_bio_noacct K b (world ?s3))\<rparr>"
      have "fd (snd (case sd_orig_mrf dev of Some mrf \<Rightarrow> call_mrf K mrf b w | None \<Rightarrow> submit_bio_noacct K b w)) = fd w" for w
        using rd Some laws(2) by (cases "sd_orig_mrf dev") (simp_all add: issue_laws_def)
      with s1 s2 have s4: "same_store fd s ?s4" by (simp add: same_store_def put_dev_def)
      from 1(2) rc add Some True dev have "(if bytes div PAGE_SIZE < n
          then tc K a t ob (sect + bytes div SECTOR_SIZE) (n - bytes div PAGE_SIZE) ?s4 else Some (0, ?s4)) = Some x"
        by (simp add: Let_def)
      with IH [of K a t ob "sect + bytes div SECTOR_SIZE" "n - bytes div PAGE_SIZE" ?s4 x] laws s4 show ?thesis
        by (auto simp: same_store_def split: if_splits)
    qed (use 1(2) rc add Some s1 s2 in \<open>auto simp: same_store_def\<close>)
  qed (use 1(2) rc s1 in auto)
qed

lemma trace_checked_frame:
  assumes laws: "file_laws K fd" "issue_laws K fd d off" and run: "trace_checked K a b dev s = Some (r, s')"
  shows "same_store fd s s'"
proof -
  have put: "same_store fd x y" if "tp_put t x = Some y" for t x y
    using that by (auto simp: tp_put_def same_store_def put_dev_def split: bind_splits if_splits)
  have fl: "same_store fd x y" if "set_fail a e x = Some y" for e x y
    using that by (auto simp: set_fail_def same_store_def put_dev_def split: bind_splits)
  obtain r1 x s3 where al: "tp_alloc K a b s = (r1, x, s3)" by (metis prod_cases3)
  then have s3: "same_store fd s s3"
    by (auto simp: tp_alloc_def same_store_def dest: alloc_lawD [OF laws(1)] split: option.splits prod.splits)
  show ?thesis
  proof (cases x)
    case None
    with run al s3 show ?thesis by (auto simp: trace_checked_def Let_def same_store_def dest!: fl split: bind_splits)
  next
    case (Some t)
    with run al obtain ret s4 s5 where "trace_clones K a t b (clone_start dev b) (clone_pages_of dev b) s3 = Some (ret, s4)"
      "(if ret \<noteq> 0 then set_fail a ret s4 else Some s4) = Some s5" "tp_put t s5 = Some s'"
      by (auto simp: trace_checked_def Let_def clone_pages_of_def split: bind_splits)
    from trace_clones_frame [OF laws this(1)] put [OF this(3)] fl [of ret s4 s5] this(2) s3 show ?thesis
      by (auto simp: same_store_def split: if_splits)
  qed
qed

section \<open>The system\<close>

text \<open>The blocks a read under way was asked for.\<close>

definition map_block :: "nat \<Rightarrow> bio_sector_map \<Rightarrow> nat" where
  "map_block off m = sub64 (map_sect m) off div SECTORS_PER_BLOCK"

definition map_covers :: "nat \<Rightarrow> bio_sector_map \<Rightarrow> nat \<Rightarrow> bool" where
  "map_covers off m q \<longleftrightarrow> map_block off m \<le> q \<and> q < map_block off m + map_size m div COW_BLOCK_SIZE"

text \<open>A completed read has the pages it was made with and, at the blocks \<open>P\<close>, has filled them with
  the contents \<open>x\<close> of the base device.\<close>

definition clone_read :: "nat \<Rightarrow> bio_sector_map \<Rightarrow> (nat \<Rightarrow> bool) \<Rightarrow> (nat \<Rightarrow> byte) \<Rightarrow> bio_vec list \<Rightarrow> bool" where
  "clone_read off m P x vs \<longleftrightarrow>
     clone_pages_ok vs \<and> (\<forall>v\<in>set vs. bv_offset v = 0) \<and> length vs = map_size m div COW_BLOCK_SIZE \<and>
     pages_hold (\<lambda>p. P (p div 4096)) x (4096 * map_block off m) vs"

text \<open>A write the device traces: it lies in the device and need not be split, and if it is not
  copied it lies in the cow file.\<close>

definition traced_ok :: "('w, 'k) blk_kern_scheme \<Rightarrow> nat \<Rightarrow> nat \<Rightarrow> nat \<Rightarrow> (nat \<Rightarrow> bool) \<Rightarrow> snap_device \<Rightarrow> bio \<Rightarrow> bool" where
  "traced_ok K T d off Q dev b \<longleftrightarrow>
     off \<le> bi_sector b \<and> bi_sector b + bio_sectors b \<le> off + 8 * (4096 * T) \<and>
     bio_sectors b \<le> queue_max_sectors K d \<and> bio_sectors b < 2 ^ 32 \<and>
     (bio_needs_cow b dev \<or> (\<forall>q. touches off b q \<longrightarrow> \<not> Q q))"

text \<open>The reads that have been handed to the block layer after tracing a write.\<close>

definition new_reads :: "'w drv \<Rightarrow> 'w drv \<Rightarrow> (nat \<Rightarrow> bio_sector_map list) \<Rightarrow> nat \<Rightarrow> bio_sector_map list" where
  "new_reads s s' pend t =
     (if tps s' t = tps s t then pend t else case tps s' t of Some tp \<Rightarrow> tp_sects tp | None \<Rightarrow> [])"

text \<open>One step: the driver traces a write, a read clone comes back (its size, which the block layer has
  counted down, is 32 bits wide), a round of the cow thread, a round of the thread that
  releases writes, a request arrives at the snapshot, or blocks change of which the driver
  has a version or which belong to the cow file. The step also says at which blocks a newer
  clone has overtaken an older one, which only a round of the cow thread can do.\<close>

inductive snap_step :: "('w, 'k) blk_kern_scheme \<Rightarrow> ('w \<Rightarrow> nat \<Rightarrow> buf) \<Rightarrow> ('w \<Rightarrow> nat \<Rightarrow> nat \<Rightarrow> byte) \<Rightarrow> nat \<Rightarrow> nat \<Rightarrow> nat \<Rightarrow> nat \<Rightarrow> (nat \<Rightarrow> bool)
    \<Rightarrow> (nat \<Rightarrow> bio_sector_map list) \<Rightarrow> bool \<Rightarrow> 'w drv \<Rightarrow> nat set \<Rightarrow> (nat \<Rightarrow> bio_sector_map list) \<Rightarrow> bool \<Rightarrow> 'w drv \<Rightarrow> bool"
  for K fd base T a d off Q where
  traces: "devs s a = Some dev \<Longrightarrow> traced_ok K T d off Q dev b \<Longrightarrow> snap_trace_bio K a b s = Some (r, s') \<Longrightarrow>
     snap_step K fd base T a d off Q pend f s {} (new_reads s s' pend) f s'"
| comes_back: "devs s a = Some dev \<Longrightarrow> tps s t = Some tp \<Longrightarrow> tp_dev tp = a \<Longrightarrow> bi_private b = t \<Longrightarrow>
     find (\<lambda>m. map_bio m = bi_id b) (tp_sects tp) = Some m \<Longrightarrow> m \<in> set (pend t) \<Longrightarrow>
     err = 0 \<Longrightarrow> bi_size b < 2 ^ 32 \<Longrightarrow> clone_read off m (\<lambda>q. Q q \<and> \<not> covered (cow_saved fd s dev) (sd_cow_bios dev) q) (base (world s) d) (bi_io_vec b) \<Longrightarrow>
     on_bio_read_complete b err s = Some s' \<Longrightarrow>
     snap_step K fd base T a d off Q pend f s {} (pend(t := remove1 m (pend t))) f s'"
| fails: "tps s t = Some tp \<Longrightarrow> tp_dev tp = a \<Longrightarrow> bi_private b = t \<Longrightarrow> err \<noteq> 0 \<Longrightarrow> on_bio_read_complete b err s = Some s' \<Longrightarrow>
     snap_step K fd base T a d off Q pend f s {} pend f s'"
| works: "devs s a = Some dev \<Longrightarrow>
     snap_cow_thread_step K a f s = Some (f', s') \<Longrightarrow>
     snap_step K fd base T a d off Q pend f s {q. overtaken (cow_saved fd s dev) (sd_cow_bios dev) q} pend f' s'"
| releases: "snap_mrf_thread_step K a s = Some s' \<Longrightarrow>
     snap_step K fd base T a d off Q pend f s {} pend f s'"
| asks: "bio_data_dir b \<or> req_ok T b \<Longrightarrow> snap_mrf K a b s = Some s' \<Longrightarrow>
     snap_step K fd base T a d off Q pend f s {} pend f s'"
| changes: "devs s a = Some dev \<Longrightarrow> \<forall>g. g \<noteq> d \<longrightarrow> fd w g = fd (world s) g \<Longrightarrow>
     \<forall>p. fd w d p = fd (world s) d p \<or> \<not> Q (p div 4096) \<or> covered (cow_saved fd s dev) (sd_cow_bios dev) (p div 4096) \<Longrightarrow>
     snap_step K fd base T a d off Q pend f s {} pend f (s\<lparr>world := w\<rparr>)"

text \<open>No error has been recorded and the thread has seen none.\<close>

definition healthy :: "nat \<Rightarrow> bool \<Rightarrow> 'w drv \<Rightarrow> bool" where
  "healthy a f s \<longleftrightarrow> \<not> f \<and> (\<exists>dev. devs s a = Some dev \<and> sd_fail_code dev = 0)"

text \<open>What is reached, and the blocks that have been overtaken on the way.\<close>

inductive snap_reach :: "('w, 'k) blk_kern_scheme \<Rightarrow> ('w \<Rightarrow> nat \<Rightarrow> buf) \<Rightarrow> ('w \<Rightarrow> nat \<Rightarrow> nat \<Rightarrow> byte) \<Rightarrow> nat \<Rightarrow> nat \<Rightarrow> nat \<Rightarrow> nat \<Rightarrow> (nat \<Rightarrow> bool)
    \<Rightarrow> 'w drv \<Rightarrow> nat set \<Rightarrow> (nat \<Rightarrow> bio_sector_map list) \<Rightarrow> bool \<Rightarrow> 'w drv \<Rightarrow> bool"
  for K fd base T a d off Q s0 where
  starts: "snap_reach K fd base T a d off Q s0 {} (\<lambda>_. []) False s0"
| goes_on: "snap_reach K fd base T a d off Q s0 V pend f s \<Longrightarrow> healthy a f s \<Longrightarrow>
     snap_step K fd base T a d off Q pend f s U pend' f' s' \<Longrightarrow> snap_reach K fd base T a d off Q s0 (V \<union> U) pend' f' s'"

lemma goes_on_quietly:
  "snap_reach K fd base T a d off Q s0 V pend f s \<Longrightarrow> healthy a f s \<Longrightarrow>
     snap_step K fd base T a d off Q pend f s {} pend' f' s' \<Longrightarrow> snap_reach K fd base T a d off Q s0 V pend' f' s'"
  using goes_on [of K fd base T a d off Q s0 V pend f s "{}"] by simp

text \<open>A clone in the queue starts at a block and has a 32-bit size.\<close>

definition queued_ok :: "bio \<Rightarrow> bool" where
  "queued_ok b \<longleftrightarrow> (bio_data_dir b \<longrightarrow> 8 dvd bi_sector b \<and> bi_size b < 2 ^ 32)"

text \<open>A snapshot device at the moment the snapshot is taken.\<close>

definition snap_device_ok :: "('w \<Rightarrow> nat \<Rightarrow> buf) \<Rightarrow> nat \<Rightarrow> nat \<Rightarrow> nat \<Rightarrow> nat \<Rightarrow> 'w drv \<Rightarrow> snap_device \<Rightarrow> bool" where
  "snap_device_ok fd T a d off s dev \<longleftrightarrow>
     devs s a = Some dev \<and> store_ready fd T dev s \<and> (\<forall>c cm. sd_cow dev = Some c \<and> cows s c = Some cm \<longrightarrow> cow_file cm \<noteq> d) \<and>
     sd_base_dev dev = Some d \<and> sd_sect_off dev = off \<and>
     (\<forall>b\<in>set (sd_cow_bios dev). req_ok T b \<and> queued_ok b)"

definition snap_start :: "('w \<Rightarrow> nat \<Rightarrow> buf) \<Rightarrow> nat \<Rightarrow> nat \<Rightarrow> nat \<Rightarrow> nat \<Rightarrow> 'w drv \<Rightarrow> bool" where
  "snap_start fd T a d off s \<longleftrightarrow>
     (\<exists>dev. snap_device_ok fd T a d off s dev \<and> sd_cow_bios dev = [] \<and> sd_orig_bios dev = [] \<and>
        cow_saved fd s dev = (\<lambda>_. None)) \<and>
     (\<forall>t tp. tps s t = Some tp \<longrightarrow> tp_dev tp \<noteq> a) \<and> off + 8 * (4096 * T) + 8 < 2 ^ 55"

section \<open>The invariant\<close>

definition map_fits :: "nat \<Rightarrow> nat \<Rightarrow> bio_sector_map \<Rightarrow> bool" where
  "map_fits T off m \<longleftrightarrow> 8 dvd sub64 (map_sect m) off \<and> map_block off m + map_size m div COW_BLOCK_SIZE \<le> 4096 * T"

text \<open>A write that is held back: one reference per read under way, and each of its blocks has a version
  or is being read.\<close>

definition waits :: "nat \<Rightarrow> nat \<Rightarrow> (nat \<Rightarrow> bool) \<Rightarrow> (nat \<Rightarrow> bool) \<Rightarrow> tracing_params \<Rightarrow> bio_sector_map list \<Rightarrow> bool" where
  "waits off T Q C tp ms \<longleftrightarrow>
     tp_refs tp = int (length ms) \<and> (\<forall>m\<in>set ms. map_fits T off m) \<and>
     (\<forall>q. Q q \<and> touches off (tp_orig_bio tp) q \<longrightarrow> C q \<or> (\<exists>m\<in>set ms. map_covers off m q))"

abbreviation versioned :: "('w \<Rightarrow> nat \<Rightarrow> buf) \<Rightarrow> 'w drv \<Rightarrow> snap_device \<Rightarrow> nat \<Rightarrow> bool" where
  "versioned fd s dev \<equiv> covered (cow_saved fd s dev) (sd_cow_bios dev)"

abbreviation shown :: "('w \<Rightarrow> nat \<Rightarrow> buf) \<Rightarrow> ('w \<Rightarrow> nat \<Rightarrow> nat \<Rightarrow> byte) \<Rightarrow> nat \<Rightarrow> 'w drv \<Rightarrow> snap_device \<Rightarrow> nat \<Rightarrow> byte list" where
  "shown fd base d s dev \<equiv> seen (cow_saved fd s dev) (sd_cow_bios dev) (base (world s) d)"

abbreviation moved :: "('w \<Rightarrow> nat \<Rightarrow> buf) \<Rightarrow> ('w \<Rightarrow> nat \<Rightarrow> nat \<Rightarrow> byte) \<Rightarrow> nat \<Rightarrow> (nat \<Rightarrow> bool) \<Rightarrow> 'w drv \<Rightarrow> snap_device \<Rightarrow> 'w drv \<Rightarrow> snap_device \<Rightarrow> bool" where
  "moved fd base d Q s dev s' dev' \<equiv>
     progress Q (cow_saved fd s dev) (sd_cow_bios dev) (base (world s) d) (cow_saved fd s' dev') (sd_cow_bios dev') (base (world s') d)"

definition image_inv :: "('w \<Rightarrow> nat \<Rightarrow> buf) \<Rightarrow> ('w \<Rightarrow> nat \<Rightarrow> nat \<Rightarrow> byte) \<Rightarrow> nat \<Rightarrow> nat \<Rightarrow> nat \<Rightarrow> nat \<Rightarrow> (nat \<Rightarrow> bool) \<Rightarrow> (nat \<Rightarrow> byte)
    \<Rightarrow> nat set \<Rightarrow> (nat \<Rightarrow> bio_sector_map list) \<Rightarrow> 'w drv \<Rightarrow> snap_device \<Rightarrow> bool" where
  "image_inv fd base T a d off Q I V pend s dev \<longleftrightarrow>
     snap_device_ok fd T a d off s dev \<and>
     (\<forall>q. Q q \<and> q \<notin> V \<longrightarrow> shown fd base d s dev q = block_of (\<lambda>i. I (4096 * q + i))) \<and>
     (\<forall>b\<in>set (sd_orig_bios dev). \<forall>q. Q q \<and> touches off b q \<longrightarrow> versioned fd s dev q) \<and>
     (\<forall>t tp. tps s t = Some tp \<and> tp_dev tp = a \<longrightarrow> waits off T Q (versioned fd s dev) tp (pend t))"

lemma waits_mono: "waits off T Q C tp ms \<Longrightarrow> (\<And>q. Q q \<Longrightarrow> C q \<Longrightarrow> C' q) \<Longrightarrow> waits off T Q C' tp ms"
  unfolding waits_def by blast

text \<open>A step keeps the invariant when it is progress at the blocks not overtaken and loses no version,
  what it adds to the released writes has versions, and what it changes in the tracing
  parameters still waits.\<close>

lemma image_inv_move:
  assumes inv: "image_inv fd base T a d off Q I V pend s dev" and ok: "snap_device_ok fd T a d off s' dev'" and V: "V \<subseteq> V'"
    and mv: "moved fd base d (\<lambda>q. Q q \<and> q \<notin> V') s dev s' dev'"
    and cov: "\<And>q. Q q \<Longrightarrow> versioned fd s dev q \<Longrightarrow> versioned fd s' dev' q"
    and orig: "\<And>b q. b \<in> set (sd_orig_bios dev') \<Longrightarrow> b \<notin> set (sd_orig_bios dev) \<Longrightarrow> Q q \<Longrightarrow> touches off b q \<Longrightarrow> versioned fd s' dev' q"
    and held: "\<And>t tp. tps s' t = Some tp \<Longrightarrow> tp_dev tp = a \<Longrightarrow>
       tps s t = Some tp \<and> pend' t = pend t \<or> waits off T Q (versioned fd s' dev') tp (pend' t)"
  shows "image_inv fd base T a d off Q I V' pend' s' dev'"
proof -
  have "waits off T Q (versioned fd s' dev') tp (pend' t)" if "tps s' t = Some tp" "tp_dev tp = a" for t tp
  proof -
    from held [OF that] show ?thesis
    proof (elim disjE conjE)
      assume "tps s t = Some tp" "pend' t = pend t"
      with inv that(2) have "waits off T Q (versioned fd s dev) tp (pend' t)" by (simp add: image_inv_def)
      then show ?thesis by (rule waits_mono) (rule cov)
    qed
  qed
  moreover have "versioned fd s' dev' q" if "b \<in> set (sd_orig_bios dev')" "Q q" "touches off b q" for b q
    using inv orig [OF that(1) _ that(2,3)] that cov by (cases "b \<in> set (sd_orig_bios dev)") (auto simp: image_inv_def)
  moreover have "shown fd base d s' dev' q = block_of (\<lambda>i. I (4096 * q + i))" if "Q q" "q \<notin> V'" for q
    using inv mv that V by (auto simp: image_inv_def progress_def)
  ultimately show ?thesis using ok by (simp add: image_inv_def)
qed

lemma image_inv_step:
  assumes inv: "image_inv fd base T a d off Q I V pend s dev" and ok: "snap_device_ok fd T a d off s' dev'"
    and mv: "moved fd base d Q s dev s' dev'"
    and orig: "\<And>b q. b \<in> set (sd_orig_bios dev') \<Longrightarrow> b \<notin> set (sd_orig_bios dev) \<Longrightarrow> Q q \<Longrightarrow> touches off b q \<Longrightarrow> versioned fd s' dev' q"
    and held: "\<And>t tp. tps s' t = Some tp \<Longrightarrow> tp_dev tp = a \<Longrightarrow>
       tps s t = Some tp \<and> pend' t = pend t \<or> waits off T Q (versioned fd s' dev') tp (pend' t)"
  shows "image_inv fd base T a d off Q I V pend' s' dev'"
  by (rule image_inv_move [OF inv ok order_refl _ _ orig held]) (use mv in \<open>auto simp: progress_def\<close>)

text \<open>The store depends on the file of the manager only.\<close>

lemma store_same_file:
  assumes "fd w' (cow_file cm) = fd w (cow_file cm)"
  shows "saved fd cm w' = saved fd cm w" "data_ok fd cm w' = data_ok fd cm w"
proof -
  have b: "cow_bytes fd cm w' = cow_bytes fd cm w" using assms by (simp add: cow_bytes_def)
  then have v: "mapping_view fd cm w' = mapping_view fd cm w" by (intro ext) (simp add: mapping_view_def)
  show "saved fd cm w' = saved fd cm w" by (intro ext) (simp add: saved_def Let_def b v)
  show "data_ok fd cm w' = data_ok fd cm w" by (simp add: data_ok_def v)
qed

lemma device_okE:
  assumes "snap_device_ok fd T a d off s dev"
  obtains c cm where "sd_cow dev = Some c" "cows s c = Some cm" "devs s (cm_dev cm) \<noteq> None" "data_ok fd cm (world s)" "total_sects cm = T"
    "cow_file cm \<noteq> d" "cow_saved fd s dev = saved fd cm (world s)" "devs s a = Some dev" "sd_base_dev dev = Some d" "sd_sect_off dev = off"
    "\<forall>b\<in>set (sd_cow_bios dev). req_ok T b \<and> queued_ok b"
  using assms unfolding snap_device_ok_def store_ready_def cow_saved_def by (auto simp del: op_write_simps)

lemma device_ok_same:
  assumes ok: "snap_device_ok fd T a d off s dev" and dev': "devs s' a = Some dev'" "\<And>e. devs s e \<noteq> None \<Longrightarrow> devs s' e \<noteq> None"
    and same: "cows s' = cows s" "\<And>g. g \<noteq> d \<Longrightarrow> fd (world s') g = fd (world s) g"
      "sd_cow dev' = sd_cow dev" "sd_base_dev dev' = sd_base_dev dev" "sd_sect_off dev' = sd_sect_off dev"
    and queue: "\<And>b. b \<in> set (sd_cow_bios dev') \<Longrightarrow> b \<notin> set (sd_cow_bios dev) \<Longrightarrow> req_ok T b \<and> queued_ok b"
  shows "snap_device_ok fd T a d off s' dev'" and "cow_saved fd s' dev' = cow_saved fd s dev"
proof -
  from ok obtain c cm where c: "sd_cow dev = Some c" "cows s c = Some cm" "devs s (cm_dev cm) \<noteq> None" "data_ok fd cm (world s)" "total_sects cm = T"
    "cow_file cm \<noteq> d" "cow_saved fd s dev = saved fd cm (world s)" "sd_base_dev dev = Some d" "sd_sect_off dev = off"
    "\<forall>b\<in>set (sd_cow_bios dev). req_ok T b \<and> queued_ok b" by (rule device_okE)
  note st = store_same_file [where fd = fd, OF same(2) [OF c(6)]]
  from c queue have "\<forall>b\<in>set (sd_cow_bios dev'). req_ok T b \<and> queued_ok b" by blast
  moreover have "devs s' (cm_dev cm) \<noteq> None" using dev'(2) c(3) .
  ultimately show "snap_device_ok fd T a d off s' dev'" using c dev'(1) same st
    unfolding snap_device_ok_def store_ready_def by (auto simp del: op_write_simps)
  show "cow_saved fd s' dev' = cow_saved fd s dev" using c same st by (simp add: cow_saved_def)
qed

section \<open>Tracing a write\<close>

lemma covers_maps:
  assumes "covers s (4096 * l) ms" "off \<le> s" "s - off = 8 * k" "k + l \<le> 4096 * T" "off + 8 * (4096 * T) + 8 < 2 ^ 55"
  shows "(\<forall>m\<in>set ms. map_fits T off m) \<and> (\<forall>q. k \<le> q \<and> q < k + l \<longrightarrow> (\<exists>m\<in>set ms. map_covers off m q))"
  using assms(1-4)
proof (induction ms arbitrary: s k l)
  case (Cons m ms)
  from Cons.prems(1) obtain j where j: "map_size m = 4096 * j" by (auto simp: dvd_def)
  from Cons.prems(1) j have m: "map_sect m = s" "j \<le> l" "covers (s + 8 * j) (4096 * (l - j)) ms"
    by (simp_all add: diff_mult_distrib2)
  have "s < 2 ^ 64" using Cons.prems(2-4) assms(5) by simp
  then have sub: "sub64 (map_sect m) off = 8 * k" using m(1) Cons.prems(2,3) by (simp add: sub64_ge)
  then have blk: "map_block off m = k" by (simp add: map_block_def)
  have "s + 8 * j - off = 8 * (k + j)" "k + j + (l - j) = k + l" using Cons.prems(2,3) m(2) by simp_all
  from Cons.IH [OF m(3) _ this(1)] this(2) Cons.prems(2,4) have
    "\<forall>m\<in>set ms. map_fits T off m" "\<forall>q. k + j \<le> q \<and> q < k + l \<longrightarrow> (\<exists>m\<in>set ms. map_covers off m q)" by simp_all
  moreover have "map_fits T off m" using sub blk j m(2) Cons.prems(4) by (simp add: map_fits_def)
  moreover have "map_covers off m q" if "k \<le> q" "q < k + j" for q using that blk j by (simp add: map_covers_def)
  ultimately show ?case by (auto simp: not_less [symmetric])
qed simp

text \<open>The reads made for a write cover all its blocks.\<close>

lemma traced_maps:
  assumes ok: "traced_ok K T d off Q dev b" and off: "sd_sect_off dev = off" "off + 8 * (4096 * T) + 8 < 2 ^ 55"
    and cov: "covers (clone_start dev b) (PAGE_SIZE * clone_pages_of dev b) ms"
  shows "(\<forall>m\<in>set ms. map_fits T off m) \<and> (\<forall>q. touches off b q \<longrightarrow> (\<exists>m\<in>set ms. map_covers off m q))"
proof -
  have b: "off \<le> bi_sector b" "bi_sector b + bio_sectors b \<le> off + 8 * (4096 * T)" "bio_sectors b < 2 ^ 32"
    using ok by (auto simp: traced_ok_def)
  define k where "k = (bi_sector b - off) div 8"
  define l where "l = (bi_sector b - off + bio_sectors b + 7) div 8 - k"
  have kl: "8 * k \<le> bi_sector b - off" "bi_sector b - off < 8 * k + 8" "k \<le> (bi_sector b - off + bio_sectors b + 7) div 8"
    unfolding k_def by (auto intro: div_le_mono)
  have "bi_sector b < 2 ^ 64" "wrap64 (bi_sector b + bio_sectors b) = bi_sector b + bio_sectors b" using b off by simp_all
  then have start: "clone_start dev b = off + 8 * k"
    using b off kl(1) by (simp add: clone_start_def sub64_ge ROUND_DOWN_def k_def [symmetric] mult.commute add.commute)
  have fin: "clone_end dev b = off + 8 * ((bi_sector b - off + bio_sectors b + 7) div 8)"
  proof -
    have "sub64 (bi_sector b + bio_sectors b) off = bi_sector b - off + bio_sectors b" using b off by (simp add: sub64_ge)
    moreover have "bi_sector b - off + bio_sectors b + 8 - 1 = bi_sector b - off + bio_sectors b + 7" by simp
    moreover have "8 * ((bi_sector b - off + bio_sectors b + 7) div 8) \<le> bi_sector b - off + bio_sectors b + 7" by simp
    ultimately show ?thesis using b off
      by (simp add: clone_end_def ROUND_UP_def bio_sectors_def [symmetric] mult.commute add.commute)
  qed
  have "clone_end dev b - clone_start dev b = 8 * l" "clone_start dev b \<le> clone_end dev b"
    using start fin kl(3) by (simp_all add: l_def diff_mult_distrib2)
  moreover have last: "(bi_sector b - off + bio_sectors b + 7) div 8 \<le> 4096 * T"
  proof -
    have "bi_sector b - off + bio_sectors b + 7 < 8 * (4096 * T) + 8" using b(1,2) by linarith
    then show ?thesis by linarith
  qed
  moreover have "clone_end dev b < 2 ^ 64" using fin last off(2) by simp
  moreover have "l < 2 ^ 32"
  proof -
    have "8 * ((bi_sector b - off + bio_sectors b + 7) div 8) \<le> bi_sector b - off + bio_sectors b + 7" by simp
    moreover have "bio_sectors b < 4294967296" using b(3) by simp
    ultimately have "(bi_sector b - off + bio_sectors b + 7) div 8 < k + 4294967296" using kl(2) by linarith
    then show ?thesis using kl(3) unfolding l_def by simp
  qed
  ultimately have pages: "clone_pages_of dev b = l" by (simp add: clone_pages_of_def sub64_ge)
  have "k + l = (bi_sector b - off + bio_sectors b + 7) div 8" using kl(3) by (simp add: l_def)
  with last have bnd: "k + l \<le> 4096 * T" by simp
  have "k \<le> q \<and> q < k + l" if "touches off b q" for q
  proof -
    from that obtain x where x: "bi_sector b \<le> x" "x < bi_sector b + bio_sectors b" "(x - off) div 8 = q" by (auto simp: touches_def)
    have "k \<le> q" using x(1,3) unfolding k_def by (auto intro: div_le_mono diff_le_mono)
    moreover have "x - off + 8 \<le> bi_sector b - off + bio_sectors b + 7" using x(2) b(1) x(1) by linarith
    then have "(x - off + 8) div 8 \<le> k + l" using \<open>k + l = _\<close> by (metis div_le_mono)
    ultimately show ?thesis using x(3) by simp
  qed
  with covers_maps [of "clone_start dev b" l ms off k T] cov pages start bnd off(2) show ?thesis by auto
qed

lemma progress_same:
  assumes "cow_saved fd s' dev' = cow_saved fd s dev" "sd_cow_bios dev' = sd_cow_bios dev" "base_in fd base d Q"
    and "\<And>p. Q (p div 4096) \<Longrightarrow> \<not> versioned fd s dev (p div 4096) \<Longrightarrow> fd (world s') d p = fd (world s) d p"
  shows "moved fd base d Q s dev s' dev'"
  unfolding assms(1,2)
proof (rule progress_base)
  fix q i :: nat assume q: "Q q" "\<not> versioned fd s dev q" "i < 4096"
  then have "(4096 * q + i) div 4096 = q" by simp
  with q assms(3) assms(4) [of "4096 * q + i"] show "base (world s') d (4096 * q + i) = base (world s) d (4096 * q + i)"
    by (simp add: base_in_def)
qed

lemma traces_keeps:
  fixes K :: "('w, 'k) blk_kern_scheme"
  assumes laws: "snap_laws K fd base" "issue_laws K fd d off" "base_in fd base d Q" and bnd: "off + 8 * (4096 * T) + 8 < 2 ^ 55"
    and inv: "image_inv fd base T a d off Q I V pend s dev" and ok: "traced_ok K T d off Q dev b"
    and run: "snap_trace_bio K a b s = Some (r, s')" and fine: "devs s' a = Some dev'" "sd_fail_code dev' = 0"
  shows "image_inv fd base T a d off Q I V (new_reads s s' pend) s' dev'"
proof -
  from inv have dok: "snap_device_ok fd T a d off s dev" by (simp add: image_inv_def)
  then have dev: "devs s a = Some dev" "sd_base_dev dev = Some d" "sd_sect_off dev = off" by (auto simp: snap_device_ok_def)
  show ?thesis
  proof (cases "bio_needs_cow b dev")
    case False
    with run dev have "call_orig_mrf K a b s = Some (r, s')" by (simp add: snap_trace_bio_def)
    then obtain m w1 where w1: "call_mrf K m b (world s) = (r, w1)" and s': "s' = s\<lparr>world := w1\<rparr>"
      by (auto simp: call_orig_mrf_def split: bind_splits prod.splits)
    note il = issue_lawsD(4,5) [OF laws(2) w1]
    have dev': "dev' = dev" using fine(1) s' dev(1) by simp
    have same: "snap_device_ok fd T a d off s' dev" "cow_saved fd s' dev = cow_saved fd s dev"
      using device_ok_same [OF dok, of s' dev] dev(1) s' il(1) by auto
    have "\<not> touches off b q" if "Q q" for q using ok False that by (auto simp: traced_ok_def)
    then have "moved fd base d Q s dev s' dev" by (intro progress_same [OF same(2) refl laws(3)]) (simp add: s' il(2))
    then show ?thesis unfolding dev' by (rule image_inv_step [OF inv same(1)]) (auto simp: s' new_reads_def)
  next
    case True
    have small: "\<forall>q. sd_base_dev dev = Some q \<longrightarrow> bio_sectors b \<le> queue_max_sectors K q" using ok dev by (simp add: traced_ok_def)
    have fine': "tracer_read_fail_state dev' = 0" using fine(2) by (simp add: tracer_read_fail_state_def)
    have frame: "same_store fd s s'"
      using trace_checked_frame [OF snap_lawsD(1) [OF laws(1)] laws(2) traced_write_checked [OF run dev(1) True small fine(1) fine']]
      by (simp add: same_store_def put_dev_def)
    from traced_write [OF run dev(1) True small fine(1) fine'] obtain t tp c where tps: "tps s' = (tps s)(t \<mapsto> tp)"
      and tp: "tp_orig_bio tp = b" "tp_refs tp = int (length (tp_sects tp))" and devs': "devs s' = (devs s)(a \<mapsto> dev')"
      and cov: "covers (clone_start dev b) (PAGE_SIZE * clone_pages_of dev b) (tp_sects tp)"
      and dev': "dev' = (bump_traced b dev)\<lparr>sd_submitted_cnt := c\<rparr>" by blast
    have keep: "sd_cow dev' = sd_cow dev" "sd_base_dev dev' = sd_base_dev dev" "sd_sect_off dev' = sd_sect_off dev"
      "sd_cow_bios dev' = sd_cow_bios dev" "sd_orig_bios dev' = sd_orig_bios dev" by (simp_all add: dev' bump_traced_def)
    have same: "snap_device_ok fd T a d off s' dev'" "cow_saved fd s' dev' = cow_saved fd s dev"
      using device_ok_same [OF dok fine(1) _ _ _ keep(1-3)] frame devs' keep(4) by (auto simp: same_store_def)
    have "moved fd base d Q s dev s' dev'"
      by (rule progress_same [OF same(2) keep(4) laws(3)]) (use frame in \<open>simp add: same_store_def\<close>)
    moreover have "waits off T Q C tp (tp_sects tp)" for C
      using traced_maps [OF ok dev(3) bnd cov] tp by (auto simp: waits_def)
    ultimately show ?thesis
      by (intro image_inv_step [OF inv same(1)]) (auto simp: tps new_reads_def keep(5) split: if_splits)
  qed
qed

end
