(* ===== verification/Point_In_Time.thy ===== *)
theory Point_In_Time
  imports Snap_System
begin

text \<open>
  A snapshot shows one point in time: every step of the system keeps the image, whatever is
  interleaved, at every block that is not overtaken, and a read the snapshot answers without an
  error holds it at the blocks whose clones the queue can see.
\<close>

section \<open>A clone comes back\<close>

lemma came_back_block:
  assumes "clone_read off m P x (bi_io_vec b)" "bio_data_dir b" "bi_sector b = sub64 (map_sect m) off"
  shows "clone_block b q \<noteq> None \<longleftrightarrow> map_covers off m q"
    and "clone_block b q = Some v \<Longrightarrow> P q \<Longrightarrow> v = block_of (\<lambda>i. x (4096 * q + i))"
proof -
  have vec: "clone_pages_ok (bi_io_vec b)" "\<forall>v\<in>set (bi_io_vec b). bv_offset v = 0" "length (bi_io_vec b) = map_size m div COW_BLOCK_SIZE"
    "pages_hold (\<lambda>p. P (p div 4096)) x (4096 * map_block off m) (bi_io_vec b)" using assms(1) by (auto simp: clone_read_def)
  have sect: "bi_sector b div 8 = map_block off m" using assms(3) by (simp add: map_block_def)
  show "clone_block b q \<noteq> None \<longleftrightarrow> map_covers off m q"
    using assms(2) sect vec(3) by (simp add: clone_block_def map_covers_def del: op_write_simps)
  show "v = block_of (\<lambda>i. x (4096 * q + i))" if c: "clone_block b q = Some v" and P: "P q"
  proof -
    have q: "map_block off m \<le> q" "q < map_block off m + length (bi_io_vec b)"
      and v: "v = block_of (page_bufs (bi_io_vec b) ! (q - map_block off m))" using c sect by (auto simp: clone_block_def split: if_splits)
    have "(page_bufs (bi_io_vec b) ! (q - map_block off m)) j = x (4096 * q + j)" if "j < 4096" for j
    proof -
      have a: "map_block off m + (q - map_block off m) = q" "(4096 * q + j) div 4096 = q" "q - map_block off m < length (bi_io_vec b)"
        using q that by auto
      show ?thesis using pages_hold_block [OF vec(4,1,2) a(3) that, unfolded a(1)] a(2) P by simp
    qed
    with v show ?thesis by (simp add: block_of_eq)
  qed
qed

lemma completion_effect:
  assumes run: "on_bio_read_complete b 0 s = Some s'" and tp: "tps s (bi_private b) = Some tp" "tp_dev tp = a" and dev: "devs s a = Some dev"
    and m: "find (\<lambda>m. map_bio m = bi_id b) (tp_sects tp) = Some m"
  defines "b' \<equiv> b\<lparr>bi_op := REQ_OP_WRITE, bi_passthrough := False, bi_sector := sub64 (map_sect m) (sd_sect_off dev), bi_idx := 0, bi_private := a\<rparr>"
  obtains dev' where "devs s' = (devs s)(a \<mapsto> dev')" "cows s' = cows s" "world s' = world s"
    "sd_cow dev' = sd_cow dev" "sd_base_dev dev' = sd_base_dev dev" "sd_sect_off dev' = sd_sect_off dev"
    "sd_cow_bios dev' = sd_cow_bios dev @ [b']"
    "tps s' = (tps s)(bi_private b := if tp_refs tp = 1 then None else Some (tp\<lparr>tp_refs := tp_refs tp - 1\<rparr>))"
    "sd_orig_bios dev' = sd_orig_bios dev @ (if tp_refs tp = 1 then [tp_orig_bio tp] else [])"
proof -
  let ?d1 = "dev\<lparr>sd_cow_bios := sd_cow_bios dev @ [b'], sd_received_cnt := Suc (sd_received_cnt dev)\<rparr>"
  from run tp dev m have put: "tp_put (bi_private b) (put_dev a ?d1 s) = Some s'"
    by (simp add: on_bio_read_complete_def b'_def Let_def)
  show thesis
  proof (cases "tp_refs tp = 1")
    case True
    let ?d2 = "?d1\<lparr>sd_orig_bios := sd_orig_bios dev @ [tp_orig_bio tp]\<rparr>"
    from put True tp have "s' = (put_dev a ?d2 (put_dev a ?d1 s))\<lparr>tps := (tps s)(bi_private b := None)\<rparr>"
      by (simp add: tp_put_def put_dev_def)
    with True show thesis by (intro that [of ?d2]) (simp_all add: put_dev_def)
  next
    case False
    with put tp have "s' = (put_dev a ?d1 s)\<lparr>tps := (tps s)(bi_private b \<mapsto> tp\<lparr>tp_refs := tp_refs tp - 1\<rparr>)\<rparr>"
      by (simp add: tp_put_def put_dev_def)
    with False show thesis by (intro that [of ?d1]) (simp_all add: put_dev_def)
  qed
qed

lemma comes_back_keeps:
  assumes inv: "image_inv fd base T a d off Q I V pend s dev"
    and tp: "tps s t = Some tp" "tp_dev tp = a" "bi_private b = t"
    and m: "find (\<lambda>m. map_bio m = bi_id b) (tp_sects tp) = Some m" "m \<in> set (pend t)"
    and rd: "clone_read off m (\<lambda>q. Q q \<and> \<not> versioned fd s dev q) (base (world s) d) (bi_io_vec b)" and size: "bi_size b < 2 ^ 32"
    and run: "on_bio_read_complete b 0 s = Some s'" and dev'': "devs s' a = Some dev''"
  shows "image_inv fd base T a d off Q I V (pend(t := remove1 m (pend t))) s' dev''"
proof -
  from inv have dok: "snap_device_ok fd T a d off s dev" by (simp add: image_inv_def)
  then have dev: "devs s a = Some dev" "sd_sect_off dev = off" by (auto simp: snap_device_ok_def)
  define b' where "b' = b\<lparr>bi_op := REQ_OP_WRITE, bi_passthrough := False, bi_sector := sub64 (map_sect m) off, bi_idx := 0, bi_private := a\<rparr>"
  have tpb: "tps s (bi_private b) = Some tp" using tp(1,3) by simp
  obtain dev' where e: "devs s' = (devs s)(a \<mapsto> dev')" "cows s' = cows s" "world s' = world s"
    "sd_cow dev' = sd_cow dev" "sd_base_dev dev' = sd_base_dev dev" "sd_sect_off dev' = off"
    "sd_cow_bios dev' = sd_cow_bios dev @ [b']"
    "tps s' = (tps s)(t := if tp_refs tp = 1 then None else Some (tp\<lparr>tp_refs := tp_refs tp - 1\<rparr>))"
    "sd_orig_bios dev' = sd_orig_bios dev @ (if tp_refs tp = 1 then [tp_orig_bio tp] else [])"
    by (rule completion_effect [OF run tpb tp(2) dev(1) m(1), unfolded tp(3) dev(2), folded b'_def])
  from e(1) dev'' have "dev' = dev''" by simp
  note eff = e [unfolded this]
  have off': "sd_sect_off dev'' = sd_sect_off dev" using eff(6) dev(2) by simp
  have w: "waits off T Q (versioned fd s dev) tp (pend t)" using inv tp by (auto simp: image_inv_def)
  then have fits: "map_fits T off m" using m(2) by (auto simp: waits_def)
  have b': "bi_sector b' = sub64 (map_sect m) off" "bio_data_dir b'" "bi_io_vec b' = bi_io_vec b" by (simp_all add: b'_def)
  note blk = came_back_block [OF rd [folded b'(3)] b'(2,1)]
  have "bi_size b' = bi_size b" by (simp add: b'_def)
  then have "req_ok T b' \<and> queued_ok b'"
    using fits rd b' size by (simp add: req_ok_def queued_ok_def map_fits_def clone_read_def map_block_def del: op_write_simps)
  then have same: "snap_device_ok fd T a d off s' dev''" "cow_saved fd s' dev'' = cow_saved fd s dev"
    using device_ok_same [OF dok dev'' _ _ _ eff(4,5) off'] eff(1,2,3,7) by (auto simp del: op_write_simps)
  have mv: "moved fd base d Q s dev s' dev''" unfolding same(2) eff(3,7)
    by (rule progress_append) (use blk(2) in blast)
  have here: "versioned fd s' dev'' q" if "Q q" "versioned fd s dev q \<or> map_covers off m q" for q
    using that mv blk(1) [of q] by (auto simp: progress_def covered_def eff(7) queued_append split: option.split)
  have len: "tp_refs tp = int (length (pend t))" and maps: "\<forall>m\<in>set (pend t). map_fits T off m"
    and all: "\<And>q. Q q \<Longrightarrow> touches off (tp_orig_bio tp) q \<Longrightarrow> versioned fd s dev q \<or> (\<exists>m\<in>set (pend t). map_covers off m q)"
    using w by (auto simp: waits_def)
  show ?thesis
  proof (rule image_inv_step [OF inv same(1) mv])
    fix b q assume b: "b \<in> set (sd_orig_bios dev'')" "b \<notin> set (sd_orig_bios dev)" "Q q" "touches off b q"
    with eff(9) have "tp_refs tp = 1" "b = tp_orig_bio tp" by (auto split: if_splits)
    with len m(2) have "set (pend t) = {m}" by (cases "pend t") auto
    with all [OF b(3)] b(4) here [OF b(3)] \<open>b = _\<close> show "versioned fd s' dev'' q" by auto
  next
    fix u tp' assume u: "tps s' u = Some tp'" "tp_dev tp' = a"
    show "tps s u = Some tp' \<and> (pend(t := remove1 m (pend t))) u = pend u \<or>
        waits off T Q (versioned fd s' dev'') tp' ((pend(t := remove1 m (pend t))) u)"
    proof (cases "u = t")
      case True
      with u eff(8) have tp': "tp' = tp\<lparr>tp_refs := tp_refs tp - 1\<rparr>" by (auto split: if_splits)
      have "1 \<le> length (pend t)" using m(2) by (cases "pend t") auto
      moreover have "length (remove1 m (pend t)) = length (pend t) - 1" using m(2) by (simp add: length_remove1)
      ultimately have "int (length (remove1 m (pend t))) = int (length (pend t)) - 1" by linarith
      then have "tp_refs tp' = int (length (remove1 m (pend t)))" using len by (simp add: tp')
      moreover have "versioned fd s' dev'' q \<or> (\<exists>n\<in>set (remove1 m (pend t)). map_covers off n q)" if "Q q" "touches off (tp_orig_bio tp) q" for q
        using all [OF that] here [OF that(1)] by (metis in_set_remove1)
      moreover have "\<forall>n\<in>set (remove1 m (pend t)). map_fits T off n" using maps by (auto dest: notin_set_remove1)
      ultimately have "waits off T Q (versioned fd s' dev'') tp' (remove1 m (pend t))" by (simp add: waits_def tp')
      with True show ?thesis by simp
    qed (use u eff(8) in auto)
  qed
qed

section \<open>Releasing writes, requests and outside changes\<close>

lemma releases_keeps:
  assumes laws: "issue_laws K fd d off" "base_in fd base d Q" and inv: "image_inv fd base T a d off Q I V pend s dev"
    and run: "snap_mrf_thread_step K a s = Some s'" and dev': "devs s' a = Some dev'"
  shows "image_inv fd base T a d off Q I V pend s' dev'"
proof -
  from inv have dok: "snap_device_ok fd T a d off s dev" by (simp add: image_inv_def)
  then have dev: "devs s a = Some dev" by (simp add: snap_device_ok_def)
  show ?thesis
  proof (cases "sd_orig_bios dev")
    case Nil
    with run dev dev' have "s' = s" "dev' = dev" by (auto simp: snap_mrf_thread_step_def)
    with inv show ?thesis by simp
  next
    case (Cons b rest)
    with run dev obtain m r w1 where w1: "call_mrf K m (b\<lparr>bi_passthrough := True\<rparr>) (world s) = (r, w1)"
      and s': "s' = put_dev a (dev\<lparr>sd_orig_bios := rest\<rparr>) (s\<lparr>world := w1\<rparr>)"
      by (auto simp: snap_mrf_thread_step_def split: bind_splits prod.splits)
    have d': "dev' = dev\<lparr>sd_orig_bios := rest\<rparr>" using dev' s' by (simp add: put_dev_def)
    note il = issue_lawsD(4,5) [OF laws(1) w1]
    have same: "snap_device_ok fd T a d off s' dev'" "cow_saved fd s' dev' = cow_saved fd s dev"
      using device_ok_same [OF dok dev'] s' d' il(1) by (auto simp: put_dev_def)
    have cov: "versioned fd s dev q" if "Q q" "touches off b q" for q using inv Cons that by (auto simp: image_inv_def)
    have "touches off (b\<lparr>bi_passthrough := True\<rparr>) q \<longleftrightarrow> touches off b q" for q by (simp add: touches_def bio_sectors_def)
    with il(2) cov have "moved fd base d Q s dev s' dev'"
      by (intro progress_same [OF same(2) _ laws(2)]) (auto simp: d' s' put_dev_def)
    then show ?thesis by (rule image_inv_step [OF inv same(1)]) (auto simp: d' s' put_dev_def Cons)
  qed
qed

lemma asks_keeps:
  assumes laws: "snap_laws K fd base" "base_in fd base d Q" and inv: "image_inv fd base T a d off Q I V pend s dev"
    and b: "bio_data_dir b \<or> req_ok T b" and run: "snap_mrf K a b s = Some s'" and dev': "devs s' a = Some dev'"
  shows "image_inv fd base T a d off Q I V pend s' dev'"
proof -
  from inv have dok: "snap_device_ok fd T a d off s dev" by (simp add: image_inv_def)
  then have dev: "devs s a = Some dev" by (simp add: snap_device_ok_def)
  from run dev consider (ended) e where "s' = s\<lparr>world := bio_endio K b e (world s)\<rparr>"
    | (queued) "\<not> bio_data_dir b" "s' = put_dev a (dev\<lparr>sd_cow_bios := sd_cow_bios dev @ [b]\<rparr>) s"
    by (auto simp: snap_mrf_def Let_def simp del: op_write_simps split: if_splits)
  then show ?thesis
  proof cases
    case ended
    with dev dev' have d': "dev' = dev" by simp
    have fd: "fd (world s') = fd (world s)" using ended snap_lawsD(3) [OF laws(1)] by simp
    have same: "snap_device_ok fd T a d off s' dev" "cow_saved fd s' dev = cow_saved fd s dev"
      using device_ok_same [OF dok, of s' dev] dev ended fd by auto
    have "moved fd base d Q s dev s' dev" by (rule progress_same [OF same(2) refl laws(2)]) (simp add: fd)
    then show ?thesis unfolding d' by (rule image_inv_step [OF inv same(1)]) (auto simp: ended)
  next
    case queued
    then have d': "dev' = dev\<lparr>sd_cow_bios := sd_cow_bios dev @ [b]\<rparr>" using dev' by (simp add: put_dev_def)
    have same: "snap_device_ok fd T a d off s' dev'" "cow_saved fd s' dev' = cow_saved fd s dev"
      using device_ok_same [OF dok dev'] d' queued b by (auto simp: put_dev_def queued_ok_def simp del: op_write_simps)
    have w: "world s' = world s" "sd_cow_bios dev' = sd_cow_bios dev @ [b]" using queued d' by (simp_all add: put_dev_def)
    have "moved fd base d Q s dev s' dev'" unfolding same(2) w by (rule progress_append) (simp add: queued(1) del: op_write_simps)
    then show ?thesis by (rule image_inv_step [OF inv same(1)]) (auto simp: d' queued(2) put_dev_def)
  qed
qed

lemma changes_keeps:
  assumes laws: "base_in fd base d Q" and inv: "image_inv fd base T a d off Q I V pend s dev"
    and w: "\<And>g. g \<noteq> d \<Longrightarrow> fd w g = fd (world s) g"
      "\<And>p. fd w d p = fd (world s) d p \<or> \<not> Q (p div 4096) \<or> versioned fd s dev (p div 4096)"
  shows "image_inv fd base T a d off Q I V pend (s\<lparr>world := w\<rparr>) dev"
proof -
  from inv have dok: "snap_device_ok fd T a d off s dev" by (simp add: image_inv_def)
  then have dev: "devs s a = Some dev" by (simp add: snap_device_ok_def)
  have same: "snap_device_ok fd T a d off (s\<lparr>world := w\<rparr>) dev" "cow_saved fd (s\<lparr>world := w\<rparr>) dev = cow_saved fd s dev"
    using device_ok_same [OF dok, of "s\<lparr>world := w\<rparr>" dev] dev w(1) by auto
  have "moved fd base d Q s dev (s\<lparr>world := w\<rparr>) dev"
    by (rule progress_same [OF same(2) refl laws]) (use w(2) in auto)
  then show ?thesis by (rule image_inv_step [OF inv same(1)]) auto
qed

section \<open>A round of the cow thread\<close>

lemma device_ok_cow:
  assumes ok: "snap_device_ok fd T a d off s dev" and c: "sd_cow dev = Some c" "cows s c = Some cm"
    and s': "devs s' = (devs s)(a \<mapsto> dev')" "cows s' = (cows s)(c \<mapsto> cm')"
    and cm': "data_ok fd cm' (world s')" "total_sects cm' = total_sects cm" "cm_dev cm' = cm_dev cm" "cow_file cm' = cow_file cm"
    and dev': "sd_cow dev' = Some c" "sd_base_dev dev' = sd_base_dev dev" "sd_sect_off dev' = sd_sect_off dev"
      "set (sd_cow_bios dev') \<subseteq> set (sd_cow_bios dev)"
  shows "snap_device_ok fd T a d off s' dev'" and "cow_saved fd s' dev' = saved fd cm' (world s')"
  using assms unfolding snap_device_ok_def store_ready_def cow_saved_def by (auto simp del: op_write_simps)

text \<open>The step on a queue that is not empty, while no error has been recorded: the handler runs on the
  store, and what it says decides whether the device fails.\<close>

definition after_handler :: "snap_device \<Rightarrow> bio list \<Rightarrow> int \<Rightarrow> snap_device" where
  "after_handler dev rest r =
     (if r \<noteq> 0 then tracer_set_fail_state (dev\<lparr>sd_cow_bios := rest\<rparr>) r else dev\<lparr>sd_cow_bios := rest\<rparr>)"

lemma thread_store:
  assumes dok: "snap_device_ok fd T a d off s dev" and fine: "sd_fail_code dev = 0" and c: "sd_cow dev = Some c" "cows s c = Some cm"
  obtains cdev where "cow_of (put_dev a (dev\<lparr>sd_cow_bios := rest\<rparr>) s) (dev\<lparr>sd_cow_bios := rest\<rparr>) = Some (c, cm, cdev)"
    "thread_check_failed K a False s = Some (False, s)"
proof -
  let ?dev = "dev\<lparr>sd_cow_bios := rest\<rparr>"
  from dok have dev: "devs s a = Some dev" and e: "devs s (cm_dev cm) \<noteq> None"
    using c by (auto simp: snap_device_ok_def store_ready_def)
  then obtain cdev where "devs (put_dev a ?dev s) (cm_dev cm) = Some cdev" by (cases "cm_dev cm = a") (auto simp: put_dev_def)
  with c have "cow_of (put_dev a ?dev s) ?dev = Some (c, cm, cdev)" by (simp add: cow_of_def put_dev_def)
  moreover have "thread_check_failed K a False s = Some (False, s)"
    using dev fine by (simp add: thread_check_failed_def tracer_read_fail_state_def)
  ultimately show thesis by (rule that)
qed

lemma thread_saves:
  assumes dok: "snap_device_ok fd T a d off s dev" and fine: "sd_fail_code dev = 0" and c: "sd_cow dev = Some c" "cows s c = Some cm"
    and q: "sd_cow_bios dev = b0 # bs" "delay_read range_of b0 bs = (b, rest)" "bio_data_dir b"
    and run: "snap_cow_thread_step K a False s = Some (f', s')"
  obtains cdev :: snap_device and r cm1 w1 dev' where "snap_handle_write_bio K cdev b cm (world s) = Some (r, cm1, w1)" "\<not> f'"
    "dev' = (after_handler dev rest r)\<lparr>sd_processed_cnt := Suc (sd_processed_cnt (after_handler dev rest r))\<rparr>"
    "s' = s\<lparr>devs := (devs s)(a \<mapsto> dev'), cows := (cows s)(c \<mapsto> cm1), world := w1\<rparr>"
proof -
  have dev: "devs s a = Some dev" using dok by (simp add: snap_device_ok_def)
  from thread_store [OF dok fine c] obtain cdev where co: "cow_of (put_dev a (dev\<lparr>sd_cow_bios := rest\<rparr>) s) (dev\<lparr>sd_cow_bios := rest\<rparr>) = Some (c, cm, cdev)"
    and chk: "thread_check_failed K a False s = Some (False, s)" by metis
  from run obtain r cm1 w1 where wr: "snap_handle_write_bio K cdev b cm (world s) = Some (r, cm1, w1)"
    using dev q chk co fine
    by (auto simp: snap_cow_thread_step_def tracer_read_fail_state_def put_dev_def Let_def simp del: op_write_simps split: bind_splits)
  from run show thesis
    by (intro that [OF wr])
       (use dev q chk co fine wr in \<open>auto simp: snap_cow_thread_step_def tracer_read_fail_state_def after_handler_def put_dev_def put_cow_def
          Let_def simp del: op_write_simps\<close>)
qed

lemma thread_answers:
  assumes dok: "snap_device_ok fd T a d off s dev" and fine: "sd_fail_code dev = 0" and c: "sd_cow dev = Some c" "cows s c = Some cm"
    and q: "sd_cow_bios dev = b0 # bs" "delay_read range_of b0 bs = (b, rest)" "\<not> bio_data_dir b"
    and run: "snap_cow_thread_step K a False s = Some (f', s')"
  obtains cdev :: snap_device and r b1 cm1 w1 where "snap_handle_read_bio K cdev (dev\<lparr>sd_cow_bios := rest\<rparr>) b cm (world s) = Some (r, b1, cm1, w1)" "\<not> f'"
    "s' = s\<lparr>devs := (devs s)(a \<mapsto> after_handler dev rest r), cows := (cows s)(c \<mapsto> cm1),
            world := bio_endio K b1 (if r \<noteq> 0 then wrap_err_io (after_handler dev rest r) else 0) w1\<rparr>"
proof -
  have dev: "devs s a = Some dev" using dok by (simp add: snap_device_ok_def)
  from thread_store [OF dok fine c] obtain cdev where co: "cow_of (put_dev a (dev\<lparr>sd_cow_bios := rest\<rparr>) s) (dev\<lparr>sd_cow_bios := rest\<rparr>) = Some (c, cm, cdev)"
    and chk: "thread_check_failed K a False s = Some (False, s)" by metis
  from run obtain r b1 cm1 w1 where rd: "snap_handle_read_bio K cdev (dev\<lparr>sd_cow_bios := rest\<rparr>) b cm (world s) = Some (r, b1, cm1, w1)"
    using dev q chk co by (auto simp: snap_cow_thread_step_def put_dev_def Let_def simp del: op_write_simps split: bind_splits)
  from run show thesis
    by (intro that [OF rd])
       (use dev q chk co rd in \<open>auto simp: snap_cow_thread_step_def after_handler_def put_dev_def put_cow_def Let_def simp del: op_write_simps\<close>)
qed

lemma after_handler_fields:
  "sd_cow (after_handler dev rest r) = sd_cow dev" "sd_base_dev (after_handler dev rest r) = sd_base_dev dev"
  "sd_sect_off (after_handler dev rest r) = sd_sect_off dev" "sd_cow_bios (after_handler dev rest r) = rest"
  "sd_orig_bios (after_handler dev rest r) = sd_orig_bios dev"
  "sd_fail_code dev = 0 \<Longrightarrow> sd_fail_code (after_handler dev rest r) = r"
  by (simp_all add: after_handler_def tracer_set_fail_state_def)

lemma thread_leaves:
  assumes dok: "snap_device_ok fd T a d off s dev" and fine: "sd_fail_code dev = 0"
    and q: "sd_cow_bios dev = b0 # bs" "delay_read range_of b0 bs = (b, rest)"
    and run: "snap_cow_thread_step K a False s = Some (f', s')" and dev': "devs s' a = Some dev'"
  shows "sd_cow_bios dev' = rest"
proof -
  obtain c cm where c: "sd_cow dev = Some c" "cows s c = Some cm" by (rule device_okE [OF dok])
  show ?thesis
  proof (cases "bio_data_dir b")
    case True
    show ?thesis by (rule thread_saves [OF dok fine c q True run]) (use dev' in \<open>auto simp: after_handler_fields\<close>)
  next
    case False
    show ?thesis by (rule thread_answers [OF dok fine c q False run]) (use dev' in \<open>auto simp: after_handler_fields\<close>)
  qed
qed

text \<open>What a round of the cow thread leaves: progress, and for a read the answer.\<close>

lemma works_keeps:
  fixes K :: "('w, 'k) blk_kern_scheme"
  assumes laws: "snap_laws K fd base" "base_in fd base d Q" and bnd: "off + 8 * (4096 * T) + 8 < 2 ^ 55"
    and inv: "image_inv fd base T a d off Q I V pend s dev" and fine: "sd_fail_code dev = 0"
    and q: "sd_cow_bios dev = b0 # bs" "delay_read range_of b0 bs = (b, rest)"
    and run: "snap_cow_thread_step K a False s = Some (f', s')" and dev': "devs s' a = Some dev'" "sd_fail_code dev' = 0"
  shows "image_inv fd base T a d off Q I (V \<union> {q. overtaken (cow_saved fd s dev) (sd_cow_bios dev) q}) pend s' dev'"
    (is "image_inv _ _ _ _ _ _ _ _ (V \<union> ?O) _ _ _")
proof -
  from inv have dok: "snap_device_ok fd T a d off s dev" by (simp add: image_inv_def)
  from dok obtain c cm where c: "sd_cow dev = Some c" "cows s c = Some cm" and ok: "data_ok fd cm (world s)" "total_sects cm = T"
    "cow_file cm \<noteq> d" "cow_saved fd s dev = saved fd cm (world s)" and dev: "sd_base_dev dev = Some d"
    and reqs: "\<forall>b\<in>set (sd_cow_bios dev). req_ok T b \<and> queued_ok b" by (rule device_okE)
  note took = delay_read_took [OF q(2)]
  have req: "req_ok T b" and rest: "set rest \<subseteq> set (sd_cow_bios dev)" using reqs took q(1) by auto
  note files = snap_lawsD(1) [OF laws(1)]
  have goal: "image_inv fd base T a d off Q I (V \<union> ?O) pend s' dev'"
    if d': "devs s' = (devs s)(a \<mapsto> dev')" "cows s' = (cows s)(c \<mapsto> cm1)" "tps s' = tps s"
      and f: "sd_cow dev' = sd_cow dev" "sd_base_dev dev' = sd_base_dev dev" "sd_sect_off dev' = sd_sect_off dev"
        "sd_cow_bios dev' = rest" "sd_orig_bios dev' = sd_orig_bios dev"
      and cm1: "data_ok fd cm1 (world s')" "total_sects cm1 = T" "cm_dev cm1 = cm_dev cm" "cow_file cm1 = cow_file cm"
      and frame: "fd (world s') d = fd (world s) d"
      and store: "\<And>q. saved fd cm1 (world s') q = (case saved fd cm (world s) q of Some v \<Rightarrow> Some v | None \<Rightarrow> clone_block b q)" for cm1
  proof -
    have same: "snap_device_ok fd T a d off s' dev'" "cow_saved fd s' dev' = saved fd cm1 (world s')"
      using device_ok_cow [OF dok c d'(1,2)] cm1 f c(1) ok(2) rest by auto
    note st = progress_store [OF q(2), of "saved fd cm1 (world s')" "saved fd cm (world s)", OF store, folded ok(4) q(1) same(2) f(4)]
    have "moved fd base d (\<lambda>q. Q q \<and> q \<notin> V \<union> ?O) s dev s' dev'"
    proof (rule progress_trans)
      show "progress (\<lambda>q. Q q \<and> q \<notin> V \<union> ?O) (cow_saved fd s dev) (sd_cow_bios dev) (base (world s) d)
          (cow_saved fd s' dev') (sd_cow_bios dev') (base (world s) d)"
        by (rule progress_weaken [OF st(1)]) simp
      show "progress (\<lambda>q. Q q \<and> q \<notin> V \<union> ?O) (cow_saved fd s' dev') (sd_cow_bios dev') (base (world s) d)
          (cow_saved fd s' dev') (sd_cow_bios dev') (base (world s') d)"
        by (rule progress_base) (use laws(2) frame in \<open>simp add: base_in_def\<close>)
    qed
    then show ?thesis using st(2) by (rule image_inv_move [OF inv same(1) Un_upper1]) (auto simp: f(5) d'(3))
  qed
  show ?thesis
  proof (cases "bio_data_dir b")
    case True
    obtain cdev :: snap_device and r cm1 w1 where
      wr: "snap_handle_write_bio K cdev b cm (world s) = Some (r, cm1, w1)"
      and s': "s' = s\<lparr>devs := (devs s)(a \<mapsto> (after_handler dev rest r)\<lparr>sd_processed_cnt := Suc (sd_processed_cnt (after_handler dev rest r))\<rparr>),
        cows := (cows s)(c \<mapsto> cm1), world := w1\<rparr>"
      using thread_saves [OF dok fine c q True run] by metis
    have r: "r = 0" using dev' s' after_handler_fields(6) [OF fine, of rest r] by auto
    have vec: "clone_pages_ok (bi_io_vec b)" "bi_sector b div 8 + length (bi_io_vec b) \<le> 4096 * total_sects cm"
      using req True ok(2) by (simp_all add: req_ok_def del: op_write_simps)
    note fr = write_bio_frame [OF files ok(1) vec wr]
    from write_bio_run [OF files ok(1) vec, of cdev] wr r have res: "total_sects cm1 = total_sects cm" "cm_dev cm1 = cm_dev cm" "data_ok fd cm1 w1"
      and sv: "saved fd cm1 w1 q = (case saved fd cm (world s) q of Some v \<Rightarrow> Some v | None \<Rightarrow> clone_block b q)" for q
      by (auto intro!: stored_clone [OF True] simp del: op_write_simps)
    show ?thesis
      by (rule goal [of cm1]) (use s' dev'(1) res sv fr ok(2,3) in \<open>auto simp: after_handler_fields\<close>)
  next
    case False
    obtain cdev :: snap_device and r b1 cm1 w1 where
      rd: "snap_handle_read_bio K cdev (dev\<lparr>sd_cow_bios := rest\<rparr>) b cm (world s) = Some (r, b1, cm1, w1)"
      and s': "s' = s\<lparr>devs := (devs s)(a \<mapsto> after_handler dev rest r), cows := (cows s)(c \<mapsto> cm1),
            world := bio_endio K b1 (if r \<noteq> 0 then wrap_err_io (after_handler dev rest r) else 0) w1\<rparr>"
      using thread_answers [OF dok fine c q False run] by metis
    have b: "bio_whole b" "512 * bi_sector b + bi_size b \<le> 4096 * (4096 * total_sects cm)" "512 * bi_sector b + bi_size b < 2 ^ 64"
      using req False ok(2) by (simp_all add: req_ok_def del: op_write_simps)
    have "sd_base_dev (dev\<lparr>sd_cow_bios := rest\<rparr>) = Some d" using dev by simp
    from snap_handle_read_bio_spec [OF files snap_lawsD(2) [OF laws(1)] ok(1) b(1) this b(2,3), of cdev] rd
    have qt: "quiet fd cm (world s) cm1 w1" by auto
    have w: "fd (world s') = fd w1" using s' snap_lawsD(3) [OF laws(1)] by simp
    have st: "data_ok fd cm1 (world s') = data_ok fd cm1 w1" "saved fd cm1 (world s') = saved fd cm1 w1"
      using store_same_files [OF w] by simp_all
    show ?thesis
      by (rule goal [of cm1])
         (use s' dev'(1) qt ok(2,3) False st w in \<open>auto simp: after_handler_fields quiet_def same_outside_index_def
            simp del: op_write_simps split: option.split\<close>)
  qed
qed

section \<open>Every step keeps the image\<close>

lemma failed_read_fails:
  assumes "tps s (bi_private b) = Some tp" "tp_dev tp = a" "err \<noteq> 0" "on_bio_read_complete b err s = Some s'" "devs s' a = Some dev'"
  shows "sd_fail_code dev' \<noteq> 0"
proof -
  from assms obtain dev where put: "tp_put (bi_private b) (put_dev a (tracer_set_fail_state dev err) s) = Some s'"
    by (auto simp: on_bio_read_complete_def Let_def split: bind_splits)
  have d: "devs (put_dev a (tracer_set_fail_state dev err) s) a = Some (tracer_set_fail_state dev err)" by (simp add: put_dev_def)
  from tp_put_keeps_failure [OF put d assms(5)] fail_not_zero [OF assms(3), of dev] show ?thesis
    by (simp add: tracer_read_fail_state_def)
qed

lemma step_keeps:
  fixes K :: "('w, 'k) blk_kern_scheme"
  assumes laws: "snap_laws K fd base" "issue_laws K fd d off" "base_in fd base d Q" and bnd: "off + 8 * (4096 * T) + 8 < 2 ^ 55"
    and inv: "image_inv fd base T a d off Q I V pend s dev" and fine: "\<not> f" "sd_fail_code dev = 0"
    and step: "snap_step K fd base T a d off Q pend f s U pend' f' s'" and fine': "devs s' a = Some dev'" "sd_fail_code dev' = 0"
  shows "image_inv fd base T a d off Q I (V \<union> U) pend' s' dev'"
proof -
  have dev: "devs s a = Some dev" using inv by (simp add: image_inv_def snap_device_ok_def)
  from step show ?thesis
  proof cases
    case (traces dev1 b r)
    with dev traces_keeps [OF laws bnd inv _ _ fine', of b r] show ?thesis by simp
  next
    case (comes_back dev1 t tp b m err)
    with dev comes_back_keeps [OF inv, of t tp b m s' dev'] fine'(1) show ?thesis by simp
  next
    case (fails t tp b err)
    with failed_read_fails [of s b tp a err s' dev'] fine' show ?thesis by simp
  next
    case (works dev1)
    show ?thesis
    proof (cases "sd_cow_bios dev")
      case Nil
      have "thread_check_failed K a f s = Some (f, s)"
        using dev fine by (simp add: thread_check_failed_def tracer_read_fail_state_def)
      with works Nil dev fine' inv show ?thesis by (auto simp: snap_cow_thread_step_def)
    next
      case (Cons b0 bs)
      obtain b rest where dr: "delay_read range_of b0 bs = (b, rest)" by fastforce
      with works_keeps [OF laws(1,3) bnd inv fine(2) Cons dr _ fine', of f'] works fine(1) dev show ?thesis by simp
    qed
  next
    case releases
    with releases_keeps [OF laws(2,3) inv _ fine'(1)] show ?thesis by simp
  next
    case (asks b)
    with asks_keeps [OF laws(1,3) inv _ _ fine'(1), of b] show ?thesis by simp
  next
    case (changes dev1 w)
    with dev changes_keeps [OF laws(3) inv, of w] fine'(1) show ?thesis by simp
  qed
qed

lemma starts_inv:
  assumes "snap_start fd T a d off s" "devs s a = Some dev"
  shows "image_inv fd base T a d off Q (base (world s) d) {} pend s dev"
proof -
  from assms have ok: "snap_device_ok fd T a d off s dev" and "sd_cow_bios dev = []" "sd_orig_bios dev = []" "cow_saved fd s dev = (\<lambda>_. None)"
    and "\<forall>t tp. tps s t = Some tp \<longrightarrow> tp_dev tp \<noteq> a" by (auto simp: snap_start_def snap_device_ok_def)
  then show ?thesis by (auto simp: image_inv_def seen_def)
qed

lemma reach_inv:
  fixes K :: "('w, 'k) blk_kern_scheme"
  assumes laws: "snap_laws K fd base" "issue_laws K fd d off" "base_in fd base d Q" and start: "snap_start fd T a d off s0"
    and reach: "snap_reach K fd base T a d off Q s0 V pend f s" and dev: "devs s a = Some dev" "sd_fail_code dev = 0"
  shows "image_inv fd base T a d off Q (base (world s0) d) V pend s dev"
  using reach dev
proof (induction arbitrary: dev rule: snap_reach.induct)
  case starts
  with starts_inv [OF start] show ?case by simp
next
  case (goes_on V pend f s U pend' f' s')
  then obtain dev1 where "devs s a = Some dev1" "sd_fail_code dev1 = 0" "\<not> f" by (auto simp: healthy_def)
  moreover have "off + 8 * (4096 * T) + 8 < 2 ^ 55" using start by (simp add: snap_start_def)
  ultimately show ?case using step_keeps [OF laws _ _ _ _ goes_on.hyps(3) goes_on.prems] goes_on.IH by blast
qed

section \<open>Answers\<close>

lemma pages_hold_restrict:
  "pages_hold (\<lambda>_. True) g a vs \<Longrightarrow> (\<And>p. a \<le> p \<Longrightarrow> p < a + vec_len vs \<Longrightarrow> P p \<Longrightarrow> g p = g' p) \<Longrightarrow> pages_hold P g' a vs"
  by (induction vs arbitrary: a) (auto split: option.splits)

text \<open>What the image holds at a byte none of the queued clones covers.\<close>

lemma shown_byte:
  assumes "seen S bs x q = block_of (\<lambda>i. I (4096 * q + i))" "queued bs q = None" "p div 4096 = q"
  shows "snap_byte S p (x p) = I p"
proof -
  have p: "4096 * q + p mod 4096 = p" "p mod 4096 < 4096" using assms(3) by auto
  show ?thesis
  proof (cases "S q")
    case None
    with assms(1,2) have "x (4096 * q + p mod 4096) = I (4096 * q + p mod 4096)" using p(2) by (simp add: seen_def block_of_eq)
    with None assms(3) p(1) show ?thesis by (simp add: snap_byte_def)
  next
    case (Some v)
    with assms(1) have "v = block_of (\<lambda>i. I (4096 * q + i))" by (simp add: seen_def)
    with Some assms(3) p show ?thesis by (simp add: snap_byte_def block_of_def)
  qed
qed

text \<open>A clone of a block is out of the way of a read: by its size it ends before the read starts, so the
  queue does not find it.\<close>

definition unseen_clone :: "bio \<Rightarrow> bio \<Rightarrow> nat \<Rightarrow> bool" where
  "unseen_clone b y q \<longleftrightarrow> clone_block y q \<noteq> None \<and> bi_sector y + bi_size y div 512 < bi_sector b"

text \<open>With the size of its pages a clone is never out of the way of a read of one of its blocks.\<close>

lemma whole_clone_is_seen:
  assumes "bi_size y = 4096 * length (bi_io_vec y)" "8 dvd bi_sector y" "512 * bi_sector b \<le> p"
  shows "\<not> unseen_clone b y (p div 4096)"
proof
  assume u: "unseen_clone b y (p div 4096)"
  obtain k where k: "bi_sector y = 8 * k" using assms(2) by blast
  have "p div 4096 < k + length (bi_io_vec y)" using u k by (auto simp: unseen_clone_def clone_block_def split: if_splits)
  then have "p < 4096 * (k + length (bi_io_vec y))" by (simp add: div_less_iff_less_mult mult.commute)
  moreover have "bi_size y div 512 = 8 * length (bi_io_vec y)" using assms(1) by simp
  ultimately show False using u assms(3) k by (simp add: unseen_clone_def)
qed

text \<open>A read is only taken out when the clones left of its blocks are out of its way.\<close>

lemma no_clone_left:
  assumes dr: "delay_read range_of b0 bs = (b, rest)" and rd: "\<not> bio_data_dir b" "bio_whole b"
    and p: "512 * bi_sector b \<le> p" "p < 512 * bi_sector b + bi_size b"
    and clones: "\<forall>y\<in>set rest. bio_data_dir y \<longrightarrow> 8 dvd bi_sector y \<and> bi_sector y + bi_size y div 512 < 2 ^ 64"
    and seen: "\<forall>y\<in>set rest. \<not> unseen_clone b y (p div 4096)"
    and bnd: "512 * bi_sector b + bi_size b < 2 ^ 64"
  shows "queued (b0 # bs) (p div 4096) = None"
proof -
  have "clone_block y (p div 4096) = None" if "y \<in> set rest" for y
  proof (rule ccontr)
    assume c: "clone_block y (p div 4096) \<noteq> None"
    then have "bio_data_dir y" by (auto simp: clone_block_def simp del: op_write_simps split: if_splits)
    with clones that have y: "bio_data_dir y" "8 dvd bi_sector y" "bi_sector y + bi_size y div 512 < 2 ^ 64" by blast+
    have "bi_sector b \<le> bi_sector y + bi_size y div 512" using seen that c by (auto simp: unseen_clone_def not_less)
    have "\<not> (is_write (range_of y) \<and> bio_overlap (range_of b) (range_of y))"
      using delay_read_read [of range_of b0 bs] dr rd(1) that by (simp add: range_of_def del: op_write_simps)
    with shared_block_overlaps [OF rd p y(1,2) \<open>bi_sector b \<le> _\<close> c bnd y(3)] show False by blast
  qed
  then have "queued rest (p div 4096) = None" by (induction rest) auto
  with delay_read_queued [OF dr clone_block_read [OF rd(1)]] show ?thesis by simp
qed

lemma answer_holds_image:
  fixes K :: "('w, 'k) blk_kern_scheme"
  assumes laws: "snap_laws K fd base" "base_in fd base d Q" and bnd: "off + 8 * (4096 * T) + 8 < 2 ^ 55"
    and inv: "image_inv fd base T a d off Q I V pend s dev" and fine: "sd_fail_code dev = 0"
    and q: "sd_cow_bios dev = b0 # bs" "delay_read range_of b0 bs = (b, rest)" "\<not> bio_data_dir b"
    and run: "snap_cow_thread_step K a False s = Some (f', s')" and dev': "devs s' a = Some dev'" "sd_fail_code dev' = 0"
  shows "\<exists>b' w'. world s' = bio_endio K b' 0 w' \<and> bi_private b' = bi_private b \<and> bi_end_io b' = bi_end_io b \<and>
     same_shape (bi_io_vec b) (bi_io_vec b') \<and> pages_hold (\<lambda>p. Q (p div 4096) \<and> p div 4096 \<notin> V \<and> (\<forall>y\<in>set rest. \<not> unseen_clone b y (p div 4096))) I
       (512 * bi_sector b) (bi_io_vec b')"
    (is "\<exists>b' w'. _ \<and> _ \<and> _ \<and> _ \<and> pages_hold ?P _ _ _")
proof -
  from inv have dok: "snap_device_ok fd T a d off s dev" by (simp add: image_inv_def)
  from dok obtain c cm where c: "sd_cow dev = Some c" "cows s c = Some cm" and ok: "data_ok fd cm (world s)" "total_sects cm = T"
    "cow_file cm \<noteq> d" "cow_saved fd s dev = saved fd cm (world s)" and dev: "sd_base_dev dev = Some d"
    and reqs: "\<forall>b\<in>set (sd_cow_bios dev). req_ok T b \<and> queued_ok b" by (rule device_okE)
  note took = delay_read_took [OF q(2)] and files = snap_lawsD(1) [OF laws(1)]
  have rest: "\<forall>y\<in>set rest. req_ok T y \<and> queued_ok y" and "req_ok T b" using reqs took q(1) by auto
  then have b: "bio_whole b" "512 * bi_sector b + bi_size b \<le> 4096 * (4096 * total_sects cm)" "512 * bi_sector b + bi_size b < 2 ^ 64"
    using q(3) ok(2) by (simp_all add: req_ok_def del: op_write_simps)
  have clones: "\<forall>y\<in>set rest. bio_data_dir y \<longrightarrow> 8 dvd bi_sector y \<and> bi_sector y + bi_size y div 512 < 2 ^ 64"
  proof (intro ballI impI conjI)
    fix y assume y: "y \<in> set rest" "bio_data_dir y"
    then have "8 dvd bi_sector y" and sz: "bi_size y < 2 ^ 32" using rest by (auto simp: queued_ok_def)
    then show "8 dvd bi_sector y" by simp
    from rest y have "bi_sector y div 8 + length (bi_io_vec y) \<le> 4096 * T" by (auto simp: req_ok_def simp del: op_write_simps)
    then have "bi_sector y \<le> 8 * (4096 * T)" using \<open>8 dvd bi_sector y\<close> by (auto simp: dvd_def)
    moreover have "bi_size y div 512 < 2 ^ 32" using sz by (simp add: div_less_iff_less_mult)
    ultimately show "bi_sector y + bi_size y div 512 < 2 ^ 64" using bnd by simp
  qed
  obtain cdev :: snap_device and r b1 cm1 w1 where
    rd: "snap_handle_read_bio K cdev (dev\<lparr>sd_cow_bios := rest\<rparr>) b cm (world s) = Some (r, b1, cm1, w1)"
    and s': "s' = s\<lparr>devs := (devs s)(a \<mapsto> after_handler dev rest r), cows := (cows s)(c \<mapsto> cm1),
            world := bio_endio K b1 (if r \<noteq> 0 then wrap_err_io (after_handler dev rest r) else 0) w1\<rparr>"
      using thread_answers [OF dok fine c q run] by metis
  have r: "r = 0" using dev' s' after_handler_fields(6) [OF fine, of rest r] by auto
  have "sd_base_dev (dev\<lparr>sd_cow_bios := rest\<rparr>) = Some d" using dev by simp
  from snap_handle_read_bio_spec [OF files snap_lawsD(2) [OF laws(1)] ok(1) b(1) this b(2,3), of cdev] rd r
  obtain r1 mode cm2 w2 where gm: "snap_read_bio_get_mode K cdev (to_base d b) cm (world s) = Some (r1, mode, cm2, w2)"
    and b1: "bi_private b1 = bi_private b" "bi_end_io b1 = bi_end_io b" "same_shape (bi_io_vec b) (bi_io_vec b1)"
    and hold: "pages_hold (\<lambda>_. True) (\<lambda>p. snap_byte (saved fd cm (world s)) p (base w2 d p)) (512 * bi_sector b) (bi_io_vec b1)"
    by auto
  from snap_read_bio_get_mode_spec [OF files ok(1) b, of cdev d] gm have "quiet fd cm (world s) cm2 w2" by auto
  then have w2: "fd w2 d = fd (world s) d" using ok(3) by (auto simp: quiet_def same_outside_index_def)
  have "vec_len (bi_io_vec b1) = bi_size b" using same_shape_vec [OF b1(3)] b(1) by (simp add: bio_whole_def)
  have "pages_hold ?P I (512 * bi_sector b) (bi_io_vec b1)"
  proof (rule pages_hold_restrict [OF hold])
    fix p assume p: "512 * bi_sector b \<le> p" "p < 512 * bi_sector b + vec_len (bi_io_vec b1)" "?P p"
    then have "queued (sd_cow_bios dev) (p div 4096) = None"
      using no_clone_left [OF q(2,3) b(1) p(1) _ clones _ b(3)] \<open>vec_len _ = _\<close> q(1) by simp
    moreover have "shown fd base d s dev (p div 4096) = block_of (\<lambda>i. I (4096 * (p div 4096) + i))" using inv p(3) by (simp add: image_inv_def)
    ultimately have "snap_byte (cow_saved fd s dev) p (base (world s) d p) = I p" by (intro shown_byte) auto
    then show "snap_byte (saved fd cm (world s)) p (base w2 d p) = I p" using laws(2) w2 p(3) ok(4) by (simp add: base_in_def)
  qed
  with s' r b1 show ?thesis by auto
qed

section \<open>Concrete runs\<close>

lemma disk_snap_laws: "snap_laws disk_blk (\<lambda>w. w) (\<lambda>w. w)"
  using ram_snap_laws
  by (simp add: snap_laws_def endio_law_def file_laws_def read_law_def write_law_def alloc_law_def base_law_def)

lemma disk_issue_laws: "issue_laws disk_blk (\<lambda>w. w) 2 0"
proof -
  have "disk_write b w 2 p = w 2 p \<or> touches 0 b (p div 4096)" for b w p
  proof (cases "512 * bi_sector b \<le> p \<and> p < 512 * bi_sector b + 512 * bio_sectors b")
    case True
    then have "bi_sector b \<le> p div 512" "p div 512 < bi_sector b + bio_sectors b" by auto
    moreover have "p div 512 div 8 = p div 4096" by (simp add: div_mult2_eq [symmetric])
    ultimately show ?thesis unfolding touches_def by (intro disjI2 exI [of _ "p div 512"]) simp
  next
    case False
    then show ?thesis by (auto simp: disk_write_def ram_write_def)
  qed
  then show ?thesis by (auto simp: issue_laws_def disk_write_def ram_write_def)
qed

lemma base_in_ram: "base_in (\<lambda>w. w) (\<lambda>w. w) d Q"
  by (simp add: base_in_def)

definition demo_empty :: cow_manager where
  "demo_empty = demo_at (\<lambda>_. 0) 9 0 0"

definition demo_s0 :: "ram drv" where
  "demo_s0 = demo_drv demo_snap demo_empty ram1"

lemma demo_empty_fields: "cm_dev demo_empty = 0" "total_sects demo_empty = 1" "cow_file demo_empty = 1" "data_ok (\<lambda>w. w) demo_empty w"
    "saved (\<lambda>w. w) demo_empty w = (\<lambda>_. None)"
  using demo_at_ok demo_at_saved
  by (simp_all add: demo_empty_def) (simp_all add: demo_at_def demo_saved_cm_def demo_cm_def cow_file_def)

lemma demo_starts: "snap_start (\<lambda>w. w) 1 0 2 0 demo_s0"
proof -
  have d: "devs demo_s0 0 = Some demo_snap" "cows demo_s0 = (\<lambda>_. None)(50 := Some demo_empty)" "tps demo_s0 = (\<lambda>_. None)"
    by (simp_all add: demo_s0_def demo_drv_def)
  have f: "sd_cow demo_snap = Some 50" "sd_base_dev demo_snap = Some 2" "sd_sect_off demo_snap = 0" "sd_cow_bios demo_snap = []" "sd_orig_bios demo_snap = []"
    by (simp_all add: demo_snap_def zero_dev_def)
  show ?thesis
    unfolding snap_start_def snap_device_ok_def store_ready_def cow_saved_def
    by (simp add: d f demo_empty_fields)
qed

text \<open>The write of sectors 43 to 50 is traced: one read of blocks 5 and 6.\<close>

definition demo_dev1 :: snap_device where
  "demo_dev1 = (bump_traced demo_write demo_snap)\<lparr>sd_submitted_cnt := 1\<rparr>"

definition demo_tp1 :: tracing_params where
  "demo_tp1 = \<lparr>tp_orig_bio = demo_write, tp_dev = 0, tp_refs = 1, tp_sects = [\<lparr>map_bio = 101, map_sect = 40, map_size = 8192\<rparr>]\<rparr>"

definition demo_s1 :: "ram drv" where
  "demo_s1 = demo_s0\<lparr>devs := (\<lambda>_. None)(0 := Some demo_dev1), tps := (\<lambda>_. None)(100 := Some demo_tp1), fresh := 102\<rparr>"

lemma demo_traces: "snap_trace_bio disk_blk 0 demo_write demo_s0 = Some (0, demo_s1)"
proof -
  have mem: "memory_is_too_low disk_blk demo_snap w = Some (0, demo_snap)" for w
    using demo_fields by (simp add: memory_is_too_low_def tracer_read_fail_state_def LOW_MEMORY_FAIL_PERCENT_def wrap64_def)
  have demo_sent: "sd_submitted_cnt demo_snap = 0" by (simp add: demo_snap_def zero_dev_def)
  have d: "devs demo_s0 = (\<lambda>_. None)(0 := Some demo_snap)" "tps demo_s0 = (\<lambda>_. None)" "fresh demo_s0 = 100"
    by (simp_all add: demo_s0_def demo_drv_def)
  have "snap_trace_bio disk_blk 0 demo_write demo_s0 =
      trace_checked disk_blk 0 demo_write demo_snap (put_dev 0 (bump_traced demo_write demo_snap) (put_dev 0 demo_snap demo_s0))"
    by (rule snap_trace_checked) (simp_all add: demo_write_pages demo_write_ready mem d)
  also have "\<dots> = Some (0, demo_s1)"
    by (simp add: trace_checked_pages tp_alloc_def demo_write_pages trace_clones.simps bio_make_read_clone_def tp_get_def BIO_MAX_PAGES_def
       numeral_2_eq_2 tp_add_def Let_def tp_put_def disk_write_def put_dev_def d demo_s1_def demo_dev1_def demo_tp1_def
       bump_traced_def demo_fields demo_sent)
  finally show ?thesis .
qed

lemma demo_s0_fields: "devs demo_s0 = (\<lambda>_. None)(0 := Some demo_snap)" "tps demo_s0 = (\<lambda>_. None)" "world demo_s0 = ram1"
  "cows demo_s0 = (\<lambda>_. None)(50 := Some demo_empty)"
  by (simp_all add: demo_s0_def demo_drv_def)

lemma demo_snap_fields: "sd_sect_off demo_snap = 0" "sd_cow_bios demo_snap = []" "sd_orig_bios demo_snap = []" "sd_fail_code demo_snap = 0"
  "sd_orig_mrf demo_snap = Some NullMrf" "sd_cow demo_snap = Some 50" "sd_base_dev demo_snap = Some 2"
  by (simp_all add: demo_snap_def zero_dev_def)

text \<open>The read comes back and is queued, the write is released and reaches the disk.\<close>

definition demo_back :: bio where
  "demo_back = (demo_clone 101 56 2 1)\<lparr>bi_op := REQ_OP_READ, bi_private := 100\<rparr>"

definition demo_s3 :: "ram drv" where
  "demo_s3 = demo_s1\<lparr>tps := (\<lambda>_. None), world := disk_write (demo_write\<lparr>bi_passthrough := True\<rparr>) ram1,
     devs := (\<lambda>_. None)(0 := Some (demo_dev1\<lparr>
       sd_cow_bios := [demo_back\<lparr>bi_op := REQ_OP_WRITE, bi_passthrough := False, bi_sector := 40, bi_idx := 0, bi_private := 0\<rparr>],
       sd_received_cnt := Suc (sd_received_cnt demo_dev1), sd_orig_bios := []\<rparr>))\<rparr>"

lemma demo_dev1_fields: "sd_sect_off demo_dev1 = 0" "sd_cow_bios demo_dev1 = []" "sd_orig_bios demo_dev1 = []" "sd_fail_code demo_dev1 = 0"
  "sd_orig_mrf demo_dev1 = Some NullMrf" "sd_cow demo_dev1 = Some 50" "sd_base_dev demo_dev1 = Some 2"
  by (simp_all add: demo_dev1_def bump_traced_def demo_snap_fields)

lemma sub64_0: "x < 2 ^ 64 \<Longrightarrow> sub64 x 0 = x"
  by (simp add: sub64_ge)

lemma demo_back_releases:
  obtains s2 where "on_bio_read_complete demo_back 0 demo_s1 = Some s2" "snap_mrf_thread_step disk_blk 0 s2 = Some demo_s3" "healthy 0 False s2"
proof -
  have b: "bi_private demo_back = 100" "bi_id demo_back = 101" by (simp_all add: demo_back_def demo_clone_def demo_bio_def)
  have s1: "tps demo_s1 = (\<lambda>_. None)(100 := Some demo_tp1)" "devs demo_s1 = (\<lambda>_. None)(0 := Some demo_dev1)" "world demo_s1 = ram1"
    by (simp_all add: demo_s1_def demo_s0_fields)
  let ?c = "demo_back\<lparr>bi_op := REQ_OP_WRITE, bi_passthrough := False, bi_sector := 40, bi_idx := 0, bi_private := 0\<rparr>"
  let ?dev2 = "demo_dev1\<lparr>sd_cow_bios := [?c], sd_received_cnt := Suc (sd_received_cnt demo_dev1), sd_orig_bios := [demo_write]\<rparr>"
  let ?s2 = "demo_s1\<lparr>devs := (\<lambda>_. None)(0 := Some ?dev2), tps := (\<lambda>_. None)\<rparr>"
  have "on_bio_read_complete demo_back 0 demo_s1 = Some ?s2"
    by (simp add: on_bio_read_complete_def b s1 demo_tp1_def demo_dev1_fields sub64_0 tp_put_def put_dev_def Let_def)
  moreover have "snap_mrf_thread_step disk_blk 0 ?s2 = Some demo_s3"
    by (simp add: snap_mrf_thread_step_def demo_dev1_fields s1 put_dev_def demo_s3_def)
  moreover have "healthy 0 False ?s2" by (simp add: healthy_def demo_dev1_fields)
  ultimately show thesis by (rule that)
qed

lemma demo_reach: "\<exists>pend. snap_reach disk_blk (\<lambda>w. w) (\<lambda>w. w) 1 0 2 0 (\<lambda>_. True) demo_s0 {} pend False demo_s3"
proof -
  let ?reach = "snap_reach disk_blk (\<lambda>w. w) (\<lambda>w. w) 1 0 2 0 (\<lambda>_. True) demo_s0"
  let ?step = "snap_step disk_blk (\<lambda>w. w) (\<lambda>w. w) 1 0 2 0 (\<lambda>_. True)"
  let ?m = "\<lparr>map_bio = 101, map_sect = 40, map_size = 8192\<rparr>"
  let ?pend = "new_reads demo_s0 demo_s1 (\<lambda>_. [])"
  have s1: "tps demo_s1 = (\<lambda>_. None)(100 := Some demo_tp1)" "devs demo_s1 = (\<lambda>_. None)(0 := Some demo_dev1)" "world demo_s1 = ram1"
    by (simp_all add: demo_s1_def demo_s0_fields)
  have pend: "?pend 100 = [?m]" by (simp add: new_reads_def s1 demo_s0_fields demo_tp1_def)
  have "traced_ok disk_blk 1 2 0 (\<lambda>_. True) demo_snap demo_write"
    by (simp add: traced_ok_def demo_write_pages demo_write_ready)
  then have st1: "?step (\<lambda>_. []) False demo_s0 {} ?pend False demo_s1"
    by (intro traces [where dev = demo_snap and r = 0 and b = demo_write]) (simp_all add: demo_s0_fields demo_traces)
  have r1: "?reach {} ?pend False demo_s1" by (rule goes_on_quietly [OF starts _ st1]) (simp add: healthy_def demo_s0_fields demo_snap_fields)
  obtain s2 where s2: "on_bio_read_complete demo_back 0 demo_s1 = Some s2" "snap_mrf_thread_step disk_blk 0 s2 = Some demo_s3" "healthy 0 False s2"
    by (rule demo_back_releases)
  have vec: "bi_io_vec demo_back = replicate 2 \<lparr>bv_page = Some (demo_page\<lparr>pg_data := (\<lambda>_. 1)\<rparr>), bv_len = 4096, bv_offset = 0\<rparr>"
    by (simp add: demo_back_def demo_clone_def)
  have rd: "clone_read 0 ?m P (ram1 2) (bi_io_vec demo_back)" for P
    unfolding vec by (simp add: clone_read_def clone_pages_ok_def numeral_2_eq_2 ram1_def)
  have st2: "?step ?pend False demo_s1 {} (?pend(100 := remove1 ?m (?pend 100))) False s2"
    by (rule comes_back [where dev = demo_dev1 and tp = demo_tp1 and b = demo_back and err = 0])
       (use s2(1) rd in \<open>simp_all add: s1 pend demo_tp1_def\<close>, simp_all add: demo_back_def demo_clone_def demo_bio_def)
  have "?reach {} (?pend(100 := remove1 ?m (?pend 100))) False s2" by (rule goes_on_quietly [OF r1 _ st2]) (simp add: healthy_def s1 demo_dev1_fields)
  from goes_on_quietly [OF this s2(3) releases [OF s2(2)]] show ?thesis by blast
qed

text \<open>The clone is stored, a read of block 5 of the snapshot arrives.\<close>

lemma disk_file_io: "filp cm = Some f \<Longrightarrow> file_write disk_blk dev cm b off n w = Some (0, ram_write f b off n w)"
  by (simp add: file_write_open ram_kern_def)

lemma demo_at_lookup:
  "p < 4096 \<Longrightarrow> u < 1000 \<Longrightarrow> cow_read_mapping K dev (demo_at m k u n) p w = Some (0, m p, demo_at m k (Suc u) n, w)"
  by (simp add: cow_read_mapping_def demo_at_def demo_saved_cm_def demo_cm_def sect_at_def set_sect_def)

lemma demo_at_write:
  assumes "p < 4096" "k < 200" "u < 1000" "n < 1000" "m p = 0"
  shows "cow_write_current disk_blk dev (demo_at m k u n) p b w =
     Some (0, demo_at (m(p := k)) (Suc k) (Suc (Suc u)) (Suc n), ram_write 1 b (4096 * k) 4096 w)"
proof -
  have wm: "cow_write_mapping disk_blk dev (demo_at m k (Suc u) n) p k w =
      Some (0, demo_at (m(p := k)) k (Suc (Suc u)) (Suc n), w)"
    using assms by (simp add: cow_write_mapping_def demo_at_def demo_saved_cm_def demo_cm_def sect_at_def set_sect_def)
  have wd: "cow_write_data disk_blk dev (demo_at (m(p := k)) k (Suc (Suc u)) (Suc n)) b w =
      Some (0, demo_at (m(p := k)) (Suc k) (Suc (Suc u)) (Suc n), ram_write 1 b (4096 * k) 4096 w)"
    using assms by (simp add: cow_write_data_def demo_at_def demo_saved_cm_def demo_cm_def disk_file_io [where f = 1] mult.commute)
  have "curr_pos (demo_at m k (Suc u) n) = k" by (simp add: demo_at_def)
  with demo_at_lookup [of p u disk_blk dev m k n w] wm wd assms show ?thesis by (simp add: cow_write_current_def cow_write_current_mapping_def)
qed

lemma demo_at_fetch:
  "v \<noteq> 0 \<Longrightarrow> v < 1000 \<Longrightarrow> block_off + n \<le> 4096 \<Longrightarrow> 0 < n \<Longrightarrow>
     cow_read_data disk_blk dev (demo_at m k u c) b off v block_off n w = Some (0, splice b off n (\<lambda>i. w 1 (4096 * v + (block_off + i))), w)"
  by (simp add: cow_read_data_def demo_at_def demo_saved_cm_def demo_cm_def file_read_open [where f = 1] ram_kern_def mult.commute)

definition demo_read :: bio where
  "demo_read = demo_bio 0 REQ_OP_READ 40"

definition demo_stored :: cow_manager where
  "demo_stored = demo_at ((\<lambda>_. 0)(5 := 9, 6 := 10)) 11 (Suc (Suc (Suc (Suc 0)))) (Suc (Suc 0))"

definition demo_dev4 :: snap_device where
  "demo_dev4 = demo_dev1\<lparr>sd_cow_bios := [], sd_received_cnt := Suc (sd_received_cnt demo_dev1), sd_orig_bios := [],
     sd_processed_cnt := Suc (sd_processed_cnt demo_dev1)\<rparr>"

lemma demo_stores:
  obtains s4 where "snap_cow_thread_step disk_blk 0 False demo_s3 = Some (False, s4)"
    "devs s4 = (\<lambda>_. None)(0 := Some demo_dev4)" "cows s4 50 = Some demo_stored" "world s4 2 22016 = 0"
proof -
  let ?c = "demo_back\<lparr>bi_op := REQ_OP_WRITE, bi_passthrough := False, bi_sector := 40, bi_idx := 0, bi_private := 0\<rparr>"
  let ?dev3 = "demo_dev1\<lparr>sd_cow_bios := [?c], sd_received_cnt := Suc (sd_received_cnt demo_dev1), sd_orig_bios := []\<rparr>"
  let ?dev = "demo_dev1\<lparr>sd_cow_bios := [], sd_received_cnt := Suc (sd_received_cnt demo_dev1), sd_orig_bios := []\<rparr>"
  let ?w3 = "disk_write (demo_write\<lparr>bi_passthrough := True\<rparr>) ram1"
  let ?w4 = "ram_write 1 (\<lambda>_. 1) 40960 4096 (ram_write 1 (\<lambda>_. 1) 36864 4096 ?w3)"
  let ?s4 = "put_dev 0 demo_dev4 (put_cow 50 demo_stored ((put_dev 0 ?dev demo_s3)\<lparr>world := ?w4\<rparr>))"
  have s3: "devs demo_s3 = (\<lambda>_. None)(0 := Some ?dev3)" "world demo_s3 = ?w3" "cows demo_s3 = (\<lambda>_. None)(50 := Some demo_empty)"
    by (simp_all add: demo_s3_def demo_s1_def demo_s0_fields)
  have vec: "clone_pages_ok (bi_io_vec ?c)" "length (bi_io_vec ?c) = 2" "page_bufs (bi_io_vec ?c) = [\<lambda>_. 1, \<lambda>_. 1]"
    by (simp_all add: clone_pages_ok_def demo_back_def demo_clone_def page_bufs_def numeral_2_eq_2)
  have up: "[5 ..< 5 + 2] = [5 :: nat, 6]" by (simp add: upt_rec)
  have sect: "SECTOR_TO_BLOCK (bi_sector ?c) = 5" by (simp add: SECTOR_TO_BLOCK_def)
  have run: "snap_handle_write_bio disk_blk ?dev ?c demo_empty ?w3 = Some (0, demo_stored, ?w4)"
    unfolding snap_handle_write_bio_def save_segments_run [OF vec(1)] vec sect up demo_empty_def demo_stored_def
    by (simp add: demo_at_write)
  have q: "delay_read range_of ?c [] = (?c, [])" by (simp add: delay_read_def)
  have co: "cow_of (put_dev 0 ?dev demo_s3) ?dev = Some (50, demo_empty, ?dev)"
    using s3 by (simp add: cow_of_def put_dev_def demo_dev1_fields demo_empty_fields)
  have wr: "bio_data_dir ?c" by simp
  have chk: "thread_check_failed disk_blk 0 False demo_s3 = Some (False, demo_s3)"
    using s3 by (simp add: thread_check_failed_def tracer_read_fail_state_def demo_dev1_fields)
  have dev: "devs demo_s3 0 = Some ?dev3" "sd_cow_bios ?dev3 = [?c]" "?dev3\<lparr>sd_cow_bios := []\<rparr> = ?dev" "sd_fail_code ?dev = 0"
    "?dev\<lparr>sd_processed_cnt := Suc (sd_processed_cnt ?dev)\<rparr> = demo_dev4"
    using s3(1) by (simp_all add: demo_dev1_fields demo_dev4_def)
  have wd: "world (put_dev 0 ?dev demo_s3) = ?w3" using s3(2) by (simp add: put_dev_def)
  have "snap_cow_thread_step disk_blk 0 False demo_s3 = Some (False, ?s4)"
    unfolding snap_cow_thread_step_def chk
    using q wr co run
    by (simp only: option.sel Option.bind.simps prod.case dev list.case Let_def wd if_True if_False not_True_eq_False not_False_eq_True
        tracer_read_fail_state_def simp_thms refl)
  moreover have "devs ?s4 = (\<lambda>_. None)(0 := Some demo_dev4)" using s3 by (simp add: put_dev_def put_cow_def)
  moreover have "cows ?s4 50 = Some demo_stored" by (simp add: put_dev_def put_cow_def)
  moreover have "world ?s4 2 22016 = 0"
    by (simp add: put_dev_def put_cow_def disk_write_def demo_write_def demo_bio_def bio_sectors_def ram_write_def demo_page_def)
  ultimately show thesis by (rule that)
qed

lemma demo_dev4_fields: "sd_cow_bios demo_dev4 = []" "sd_fail_code demo_dev4 = 0" "sd_cow demo_dev4 = Some 50" "sd_base_dev demo_dev4 = Some 2"
  by (simp_all add: demo_dev4_def demo_dev1_fields)

definition demo_asked :: "ram drv \<Rightarrow> ram drv" where
  "demo_asked s = put_dev 0 (demo_dev4\<lparr>sd_cow_bios := [demo_read]\<rparr>) s"

lemma demo_asks:
  obtains s4 pend where "snap_reach disk_blk (\<lambda>w. w) (\<lambda>w. w) 1 0 2 0 (\<lambda>_. True) demo_s0 {} pend False (demo_asked s4)"
    "cows s4 50 = Some demo_stored" "world s4 2 22016 = 0"
proof -
  obtain s4 where s4: "snap_cow_thread_step disk_blk 0 False demo_s3 = Some (False, s4)"
    "devs s4 = (\<lambda>_. None)(0 := Some demo_dev4)" "cows s4 50 = Some demo_stored" "world s4 2 22016 = 0" by (rule demo_stores)
  obtain pend where r3: "snap_reach disk_blk (\<lambda>w. w) (\<lambda>w. w) 1 0 2 0 (\<lambda>_. True) demo_s0 {} pend False demo_s3"
    using demo_reach by blast
  let ?c = "demo_back\<lparr>bi_op := REQ_OP_WRITE, bi_passthrough := False, bi_sector := 40, bi_idx := 0, bi_private := 0\<rparr>"
  let ?dev3 = "demo_dev1\<lparr>sd_cow_bios := [?c], sd_received_cnt := Suc (sd_received_cnt demo_dev1), sd_orig_bios := []\<rparr>"
  have d3: "devs demo_s3 0 = Some ?dev3" "healthy 0 False demo_s3" by (simp_all add: demo_s3_def healthy_def demo_dev1_fields)
  have none: "overtaken S [b] q = False" if "bio_data_dir b" for S b q
    using that by (simp add: overtaken_def delay_read_def split: option.split del: op_write_simps)
  have "Collect (overtaken (cow_saved (\<lambda>w. w) demo_s3 ?dev3) (sd_cow_bios ?dev3)) = {}" by (simp add: none)
  with works [OF d3(1) s4(1), of "\<lambda>w. w" "\<lambda>w. w" 1 2 0 "\<lambda>_. True" pend]
  have "snap_step disk_blk (\<lambda>w. w) (\<lambda>w. w) 1 0 2 0 (\<lambda>_. True) pend False demo_s3 {} pend False s4" by simp
  from goes_on_quietly [OF r3 d3(2) this] have r4: "snap_reach disk_blk (\<lambda>w. w) (\<lambda>w. w) 1 0 2 0 (\<lambda>_. True) demo_s0 {} pend False s4" .
  have "test_flag ACTIVE demo_dev4" "sd_ignore_requests demo_dev4 = 0"
    by (simp_all add: test_flag_def demo_dev4_def demo_dev1_def bump_traced_def demo_snap_def zero_dev_def bit_set_bit_iff)
  then have run: "snap_mrf disk_blk 0 demo_read s4 = Some (demo_asked s4)"
    by (simp add: snap_mrf_def Let_def s4(2) demo_dev4_fields tracer_read_fail_state_def elastio_snap_request_queue_stopped_def
        demo_read_def demo_bio_def demo_asked_def)
  have "req_ok 1 demo_read" using demo_bio_whole [of 0 REQ_OP_READ 40] by (simp add: req_ok_def demo_read_def) (simp add: demo_bio_def)
  with run have "snap_step disk_blk (\<lambda>w. w) (\<lambda>w. w) 1 0 2 0 (\<lambda>_. True) pend False s4 {} pend False (demo_asked s4)"
    by (intro asks) simp_all
  from goes_on_quietly [OF r4 _ this] s4 show thesis by (intro that) (simp_all add: healthy_def demo_dev4_fields)
qed

lemma demo_answered:
  assumes "cows s4 50 = Some demo_stored"
  shows "\<exists>s' dev'. snap_cow_thread_step disk_blk 0 False (demo_asked s4) = Some (False, s') \<and> devs s' 0 = Some dev' \<and> sd_fail_code dev' = 0"
proof -
  let ?dev = "demo_dev4\<lparr>sd_cow_bios := []\<rparr>"
  have d: "devs (demo_asked s4) 0 = Some (demo_dev4\<lparr>sd_cow_bios := [demo_read]\<rparr>)" "world (demo_asked s4) = world s4" "cows (demo_asked s4) 50 = Some demo_stored"
    using assms by (simp_all add: demo_asked_def put_dev_def)
  have "\<exists>b' cm' w'. snap_handle_read_bio disk_blk ?dev ?dev demo_read demo_stored w = Some (0, b', cm', w')" for w
    unfolding demo_stored_def demo_read_def
    by (simp add: snap_handle_read_bio_def Let_def demo_dev4_fields demo_bio_def snap_read_bio_get_mode_def bio_segments_def
        mode_of_segment.simps fill_segment.simps demo_at_lookup demo_at_fetch demo_page_def)
  then obtain b' cm' w' where "snap_handle_read_bio disk_blk ?dev ?dev demo_read demo_stored (world s4) = Some (0, b', cm', w')" by blast
  moreover have "delay_read range_of demo_read [] = (demo_read, [])" by (simp add: delay_read_def)
  moreover have "cm_dev demo_stored = 0" by (simp add: demo_stored_def demo_at_def demo_saved_cm_def demo_cm_def)
  then have "cow_of (put_dev 0 ?dev (demo_asked s4)) ?dev = Some (50, demo_stored, ?dev)"
    using d by (simp add: cow_of_def put_dev_def demo_dev4_fields)
  ultimately show ?thesis
    using d by (simp add: snap_cow_thread_step_def thread_check_failed_def tracer_read_fail_state_def demo_dev4_fields Let_def put_dev_def put_cow_def)
       (simp add: demo_read_def demo_bio_def)
qed

section \<open>Properties\<close>

text \<open>C1: A snapshot shows one point in time. From the moment a snapshot device is ready, with an empty
  store, writes to the traced device are intercepted, read clones come back in any order, are
  queued and stored, the writes are released and reach the disk, requests for the snapshot
  arrive and are answered, in any interleaving; as long as no error has been recorded, every
  block outside the cow file still has the contents the base device had at the start, taken
  from the cow file, else from the first queued clone that covers the block, else from the base
  device, except the blocks for which the queue, delaying a read, has given out a newer clone
  with other contents before an older one (\<open>newer_clone_overtakes\<close> is such a run); and a write is in the queue of
  released writes only when each of its blocks, overtaken or not, is in the cow file or in a
  queued clone.\<close>

theorem snapshot_point_in_time:
  fixes K :: "('w, 'k) blk_kern_scheme"
  assumes "snap_laws K fd base" and "issue_laws K fd d off" and "base_in fd base d Q" and "snap_start fd T a d off s0"
    and "snap_reach K fd base T a d off Q s0 V pend f s" and "devs s a = Some dev" and "sd_fail_code dev = 0" and "Q q"
  shows "(q \<notin> V \<longrightarrow>
        seen (cow_saved fd s dev) (sd_cow_bios dev) (base (world s) d) q = block_of (\<lambda>i. base (world s0) d (4096 * q + i))) \<and>
     (\<forall>b\<in>set (sd_orig_bios dev). touches off b q \<longrightarrow> covered (cow_saved fd s dev) (sd_cow_bios dev) q)"
  using reach_inv [OF assms(1-7)] assms(8) by (auto simp: image_inv_def)

theorem snapshot_point_in_time_witness:
  "\<exists>dev. devs demo_s3 0 = Some dev \<and> sd_orig_bios dev = [] \<and> world demo_s3 2 22016 = 0 \<and>
     seen (cow_saved (\<lambda>w. w) demo_s3 dev) (sd_cow_bios dev) (world demo_s3 2) 5 = block_of (\<lambda>_. 1)"
proof -
  obtain dev where dev: "devs demo_s3 0 = Some dev" "sd_fail_code dev = 0" "sd_orig_bios dev = []" by (simp add: demo_s3_def demo_dev1_fields)
  obtain pend where "snap_reach disk_blk (\<lambda>w. w) (\<lambda>w. w) 1 0 2 0 (\<lambda>_. True) demo_s0 {} pend False demo_s3" using demo_reach by blast
  from snapshot_point_in_time [OF disk_snap_laws disk_issue_laws base_in_ram demo_starts this dev(1,2), of 5]
  have "seen (cow_saved (\<lambda>w. w) demo_s3 dev) (sd_cow_bios dev) (world demo_s3 2) 5 = block_of (\<lambda>_. 1)"
    by (simp add: demo_s0_fields ram1_def)
  moreover have "world demo_s3 2 22016 = 0"
    by (simp add: demo_s3_def disk_write_def demo_write_def demo_bio_def bio_sectors_def ram_write_def demo_page_def)
  ultimately show ?thesis using dev by blast
qed

text \<open>C2: What the snapshot answers is that point in time: a round of the cow thread that records no error
  takes one request out of the queue, and if that is a read it is ended with pages that hold,
  byte for byte, what the base device held at the start, at every block outside the cow file
  that has not been overtaken (C1) and of which no clone is left in the queue that ends, by the
  size the block layer has left it, before the read starts (\<open>sizeless_clone_is_missed\<close> has such
  a clone).\<close>

theorem snapshot_reads_point_in_time:
  fixes K :: "('w, 'k) blk_kern_scheme"
  assumes "snap_laws K fd base" and "issue_laws K fd d off" and "base_in fd base d Q" and "snap_start fd T a d off s0"
    and "snap_reach K fd base T a d off Q s0 V pend False s" and "devs s a = Some dev" and "sd_fail_code dev = 0"
    and "sd_cow_bios dev \<noteq> []"
    and "snap_cow_thread_step K a False s = Some (f', s')" and "devs s' a = Some dev'" and "sd_fail_code dev' = 0"
  shows "\<exists>b. mset (sd_cow_bios dev) = mset (b # sd_cow_bios dev') \<and>
     (\<not> bio_data_dir b \<longrightarrow> (\<exists>b' w'. world s' = bio_endio K b' 0 w' \<and> bi_private b' = bi_private b \<and> bi_end_io b' = bi_end_io b \<and>
        same_shape (bi_io_vec b) (bi_io_vec b') \<and>
        pages_hold (\<lambda>p. Q (p div 4096) \<and> p div 4096 \<notin> V \<and> (\<forall>y\<in>set (sd_cow_bios dev'). \<not> unseen_clone b y (p div 4096)))
          (base (world s0) d) (512 * bi_sector b) (bi_io_vec b')))"
proof -
  obtain b0 bs b rest where q: "sd_cow_bios dev = b0 # bs" "delay_read range_of b0 bs = (b, rest)"
    using assms(8) by (cases "sd_cow_bios dev") (auto, metis prod.exhaust)
  note took = delay_read_took [OF q(2)]
  have bnd: "off + 8 * (4096 * T) + 8 < 2 ^ 55" using assms(4) by (simp add: snap_start_def)
  note inv = reach_inv [OF assms(1-7)]
  have "snap_device_ok fd T a d off s dev" using inv unfolding image_inv_def by blast
  from thread_leaves [OF this assms(7) q assms(9,10)] have "sd_cow_bios dev' = rest" .
  then show ?thesis
    using took(1) q(1) answer_holds_image [OF assms(1,3) bnd inv assms(7) q _ assms(9-11)]
    by (intro exI [of _ b]) (simp del: op_write_simps)
qed

theorem snapshot_reads_point_in_time_witness:
  "\<exists>s s' (b' :: bio). world s 2 22016 = 0 \<and> snap_cow_thread_step disk_blk 0 False (demo_asked s) = Some (False, s') \<and>
     same_shape (bi_io_vec demo_read) (bi_io_vec b') \<and> pages_hold (\<lambda>_. True) (\<lambda>_. 1) 20480 (bi_io_vec b')"
proof -
  obtain s4 pend where reach: "snap_reach disk_blk (\<lambda>w. w) (\<lambda>w. w) 1 0 2 0 (\<lambda>_. True) demo_s0 {} pend False (demo_asked s4)"
    and s4: "cows s4 50 = Some demo_stored" "world s4 2 22016 = 0" by (rule demo_asks)
  obtain s' dev' where run: "snap_cow_thread_step disk_blk 0 False (demo_asked s4) = Some (False, s')" "devs s' 0 = Some dev'" "sd_fail_code dev' = 0"
    using demo_answered [OF s4(1)] by blast
  have d: "devs (demo_asked s4) 0 = Some (demo_dev4\<lparr>sd_cow_bios := [demo_read]\<rparr>)" "sd_fail_code (demo_dev4\<lparr>sd_cow_bios := [demo_read]\<rparr>) = 0"
    "sd_cow_bios (demo_dev4\<lparr>sd_cow_bios := [demo_read]\<rparr>) \<noteq> []"
    by (simp_all add: demo_asked_def put_dev_def demo_dev4_fields)
  have r: "\<not> bio_data_dir demo_read" by (simp add: demo_read_def demo_bio_def)
  note spec = snapshot_reads_point_in_time [OF disk_snap_laws disk_issue_laws base_in_ram demo_starts reach d run]
  have "\<exists>b' :: bio. same_shape (bi_io_vec demo_read) (bi_io_vec b') \<and> pages_hold (\<lambda>_. True) (ram1 2) (512 * bi_sector demo_read) (bi_io_vec b')"
    using spec r by (auto simp: demo_s0_fields simp del: op_write_simps)
  then obtain b' :: bio where shape: "same_shape (bi_io_vec demo_read) (bi_io_vec b')"
    and "pages_hold (\<lambda>_. True) (ram1 2) (512 * bi_sector demo_read) (bi_io_vec b')" by blast
  moreover have "512 * bi_sector demo_read = 20480" "ram1 2 = (\<lambda>_. 1)" by (simp_all add: demo_read_def demo_bio_def ram1_def)
  ultimately have "pages_hold (\<lambda>_. True) (\<lambda>_. 1) 20480 (bi_io_vec b')" by simp
  with run(1) shape s4(2) show ?thesis by blast
qed

section \<open>A clone that comes back without its size\<close>

text \<open>The block layer ends a read with nothing left of its size. On this machine the answer to a
  request is kept in file 9.\<close>

definition log_blk :: "ram blk_kern" where
  "log_blk = disk_blk\<lparr>bio_endio := (\<lambda>b r w. w(9 := vec_bytes (bi_io_vec b)))\<rparr>"

lemma log_blk_simps [simp]:
  "submit_bio_wait log_blk = ram_read_bio" "call_mrf log_blk m b w = (0, disk_write b w)"
  "bio_endio log_blk b r w = w(9 := vec_bytes (bi_io_vec b))"
  by (simp_all add: log_blk_def)

text \<open>A clone of blocks 0 and 1 filled with \<open>v\<close>, a write of sectors 4 to 11 filled with \<open>u\<close>, and a disk
  filled with \<open>v\<close>; file 9 holds \<open>x\<close>.\<close>

definition late_back :: "byte \<Rightarrow> bio" where
  "late_back v = (demo_clone 2 16 2 v)\<lparr>bi_op := REQ_OP_READ, bi_size := 0, bi_private := 77\<rparr>"

definition late_queued :: "byte \<Rightarrow> bio" where
  "late_queued v = (late_back v)\<lparr>bi_op := REQ_OP_WRITE, bi_passthrough := False, bi_sector := 0, bi_idx := 0, bi_private := 0\<rparr>"

definition late_write :: "byte \<Rightarrow> bio" where
  "late_write u = (demo_bio 5 REQ_OP_WRITE 4)\<lparr>bi_io_vec := [\<lparr>bv_page = Some (demo_page\<lparr>pg_data := (\<lambda>_. u)\<rparr>), bv_len = 4096, bv_offset = 0\<rparr>]\<rparr>"

definition late_world :: "byte \<Rightarrow> byte \<Rightarrow> ram" where
  "late_world v x = (\<lambda>f i. if f = 2 then v else if f = 9 then x else 0)"

definition late_start :: "byte \<Rightarrow> byte \<Rightarrow> byte \<Rightarrow> ram drv" where
  "late_start u v x = (demo_drv (demo_snap\<lparr>sd_cow_bios := [demo_bio 0 REQ_OP_READ 8]\<rparr>) demo_empty (late_world v x))
     \<lparr>tps := (\<lambda>_. None)(77 := Some \<lparr>tp_orig_bio = late_write u, tp_dev = 0, tp_refs = 1,
        tp_sects = [\<lparr>map_bio = 2, map_sect = 0, map_size = 8192\<rparr>]\<rparr>)\<rparr>"

lemma late_read:
  assumes "sd_base_dev dev = Some 2" "w 2 4096 = u"
  shows "\<exists>b' cm'. snap_handle_read_bio log_blk cdev dev (demo_bio 0 REQ_OP_READ 8) demo_empty w = Some (0, b', cm', w) \<and> vec_bytes (bi_io_vec b') 0 = u"
  unfolding demo_empty_def
  using assms
  by (simp add: snap_handle_read_bio_def Let_def demo_snap_fields demo_bio_def snap_read_bio_get_mode_def bio_segments_def
        mode_of_segment.simps demo_at_lookup ram_read_bio_def demo_page_def)

lemma late_answer:
  assumes s: "devs s = (\<lambda>_. None)(0 := Some dev)" "cows s 50 = Some demo_empty" "world s 2 4096 = u"
    and dev: "sd_cow_bios dev = [demo_bio 0 REQ_OP_READ 8, late_queued v]" "sd_fail_code dev = 0" "sd_cow dev = Some 50" "sd_base_dev dev = Some 2"
  shows "\<exists>s' dev'. snap_cow_thread_step log_blk 0 False s = Some (False, s') \<and> devs s' 0 = Some dev' \<and> sd_fail_code dev' = 0 \<and>
      sd_cow_bios dev' = [late_queued v] \<and> world s' 9 0 = u"
proof -
  let ?rd = "demo_bio 0 REQ_OP_READ 8" and ?dev = "dev\<lparr>sd_cow_bios := [late_queued v]\<rparr>"
  have q: "delay_read range_of ?rd [late_queued v] = (?rd, [late_queued v])"
    by (simp add: delay_read_def range_of_def bio_overlap_def late_queued_def late_back_def demo_clone_def demo_bio_def)
  from late_read [of ?dev "world s" u ?dev] s(3) dev(4) obtain b' cm' where
    rd: "snap_handle_read_bio log_blk ?dev ?dev ?rd demo_empty (world s) = Some (0, b', cm', world s)" and p: "vec_bytes (bi_io_vec b') 0 = u" by auto
  have co: "cow_of (put_dev 0 ?dev s) ?dev = Some (50, demo_empty, ?dev)"
    using s dev by (simp add: cow_of_def put_dev_def demo_empty_fields)
  have "snap_cow_thread_step log_blk 0 False s =
      Some (False, put_dev 0 ?dev (put_cow 50 cm' ((put_dev 0 ?dev s)\<lparr>world := (world s)(9 := vec_bytes (bi_io_vec b'))\<rparr>)))"
    using q rd co s dev
    by (simp add: snap_cow_thread_step_def thread_check_failed_def tracer_read_fail_state_def Let_def put_dev_def)
       (simp add: demo_bio_def)
  then show ?thesis using p dev(2) by (simp add: put_dev_def put_cow_def)
qed

text \<open>C23: A completed read clone is queued with the size the block layer left it, which is 0, so the queue
  does not find it for a read that starts after its first sector. A read of block 1 is waiting,
  the disk is filled with \<open>v\<close>; the clone of blocks 0 and 1 comes back with that \<open>v\<close> and is queued,
  the write of sectors 4 to 11 is released and fills them with \<open>u\<close>, and the cow thread takes the
  read before the clone and answers it from the base device, with \<open>u\<close> at the start of block 1,
  whatever the reader's slot (file 9) held, although the clone in the queue still has the old
  contents \<open>v\<close> of the block.\<close>

theorem sizeless_clone_is_missed:
  "world (late_start u v x) 2 4096 = v \<and> world (late_start u v x) 9 0 = x \<and>
   (\<exists>s1 s2 s3 dev. on_bio_read_complete (late_back v) 0 (late_start u v x) = Some s1 \<and> snap_mrf_thread_step log_blk 0 s1 = Some s2 \<and>
     world s2 2 4096 = u \<and> world s2 9 0 = x \<and>
     snap_cow_thread_step log_blk 0 False s2 = Some (False, s3) \<and> devs s3 0 = Some dev \<and> sd_fail_code dev = 0 \<and>
     queued (sd_cow_bios dev) 1 = Some (block_of (\<lambda>_. v)) \<and> world s3 9 0 = u)"
proof -
  let ?rd = "demo_bio 0 REQ_OP_READ 8" and ?wr = "late_write u" and ?q = "late_queued v"
  let ?w = "late_world v x"
  let ?w2 = "disk_write (?wr\<lparr>bi_passthrough := True\<rparr>) ?w"
  let ?dev0 = "demo_snap\<lparr>sd_cow_bios := [?rd]\<rparr>"
  let ?dev1 = "demo_snap\<lparr>sd_cow_bios := [?rd, ?q], sd_received_cnt := Suc (sd_received_cnt demo_snap), sd_orig_bios := [?wr]\<rparr>"
  let ?dev2 = "demo_snap\<lparr>sd_cow_bios := [?rd, ?q], sd_received_cnt := Suc (sd_received_cnt demo_snap), sd_orig_bios := []\<rparr>"
  let ?s0 = "late_start u v x"
  let ?s1 = "?s0\<lparr>devs := (\<lambda>_. None)(0 := Some ?dev1), tps := (\<lambda>_. None)\<rparr>"
  let ?s2 = "?s0\<lparr>devs := (\<lambda>_. None)(0 := Some ?dev2), tps := (\<lambda>_. None), world := ?w2\<rparr>"
  have s0: "devs ?s0 = (\<lambda>_. None)(0 := Some ?dev0)" "world ?s0 = ?w" "cows ?s0 = (\<lambda>_. None)(50 := Some demo_empty)"
    "tps ?s0 = (\<lambda>_. None)(77 := Some \<lparr>tp_orig_bio = ?wr, tp_dev = 0, tp_refs = 1, tp_sects = [\<lparr>map_bio = 2, map_sect = 0, map_size = 8192\<rparr>]\<rparr>)"
    by (simp_all add: late_start_def demo_drv_def)
  have b: "bi_private (late_back v) = 77" "bi_id (late_back v) = 2" by (simp_all add: late_back_def demo_clone_def demo_bio_def)
  have "on_bio_read_complete (late_back v) 0 ?s0 = Some ?s1"
    by (simp add: on_bio_read_complete_def b s0 demo_snap_fields sub64_0 tp_put_def put_dev_def Let_def late_queued_def)
  moreover have "snap_mrf_thread_step log_blk 0 ?s1 = Some ?s2"
    by (simp add: snap_mrf_thread_step_def demo_snap_fields s0 put_dev_def)
  moreover have w2: "world ?s2 2 4096 = u" "world ?s2 9 0 = x"
    by (simp_all add: disk_write_def late_write_def demo_bio_def bio_sectors_def ram_write_def late_world_def)
  moreover have "\<exists>s3 dev. snap_cow_thread_step log_blk 0 False ?s2 = Some (False, s3) \<and> devs s3 0 = Some dev \<and> sd_fail_code dev = 0 \<and>
      sd_cow_bios dev = [?q] \<and> world s3 9 0 = u"
  proof (rule late_answer)
    show "devs ?s2 = (\<lambda>_. None)(0 := Some ?dev2)" "cows ?s2 50 = Some demo_empty" by (simp_all add: s0)
    show "world ?s2 2 4096 = u" by (rule w2(1))
  qed (simp_all add: demo_snap_fields)
  moreover have "queued [?q] 1 = Some (block_of (\<lambda>_. v))"
    by (simp add: clone_block_def late_queued_def late_back_def demo_clone_def demo_bio_def page_bufs_def numeral_2_eq_2)
  moreover have "world ?s0 2 4096 = v" "world ?s0 9 0 = x" by (simp_all add: s0 late_world_def)
  ultimately show ?thesis by metis
qed

end
