(* ===== verification/Table.thy ===== *)
theory Table
  imports Steady
begin

text \<open>
  The device table as the module keeps it: every operation of the module, from the ioctl
  commands and the mount hooks to the request paths, keeps the entries of the table, the minor
  numbers of the devices, their tracing state and the minor range consistent.
\<close>

declare split_paired_All [simp del] split_paired_Ex [simp del]

section \<open>The invariant\<close>

text \<open>It is stated on what the operations of \<open>Steady\<close> leave alone.\<close>

type_synonym slot = "nat \<times> mrf option \<times> nat option \<times> bool"
type_synonym slot_view = "nat option list option \<times> nat \<times> nat \<times> nat \<times> (nat \<Rightarrow> slot option)"

definition used :: "nat option list \<Rightarrow> nat set" where
  "used T = {i. i < length T \<and> T ! i \<noteq> None}"

definition low_minor :: "nat option list \<Rightarrow> nat" where
  "low_minor T = Min (insert (length T - 1) (used T))"

definition high_minor :: "nat option list \<Rightarrow> nat" where
  "high_minor T = Max (insert 0 (used T))"

definition idle :: "slot \<Rightarrow> bool" where
  "idle k \<longleftrightarrow> fst (snd k) = None \<and> fst (snd (snd k)) = None"

definition entry_ok :: "nat \<Rightarrow> slot \<Rightarrow> bool" where
  "entry_ok i k \<longleftrightarrow> (case k of (j, m, p, u) \<Rightarrow> j = i \<and> (if u then m = None \<and> p = None else m \<noteq> None \<and> p \<noteq> None))"

text \<open>Every entry of the table is a device that carries the index as its minor and is traced
  unless it is unverified; a device outside the table is not traced, except those in \<open>X\<close>, which
  another device has replaced; the minor range is exact.\<close>

fun view_ok :: "nat set \<Rightarrow> nat \<Rightarrow> slot_view \<Rightarrow> bool" where
  "view_ok X n (To, mx, lo, hi, ks) \<longleftrightarrow>
     (\<exists>T. To = Some T \<and> length T = mx \<and> 0 < mx \<and> lo = low_minor T \<and> hi = high_minor T \<and>
        (\<forall>i a. i < mx \<longrightarrow> T ! i = Some a \<longrightarrow> (\<exists>k. ks a = Some k \<and> entry_ok i k)) \<and>
        (\<forall>a k. a \<notin> X \<longrightarrow> ks a = Some k \<longrightarrow> \<not> idle k \<longrightarrow> fst k < mx \<and> T ! fst k = Some a) \<and>
        (\<forall>a. n \<le> a \<longrightarrow> ks a = None))"

definition table_ok :: "nat set \<Rightarrow> 'w drv \<Rightarrow> bool" where
  "table_ok X s \<longleftrightarrow> view_ok X (fresh s) (table_view s)"

lemma view_okD:
  assumes "view_ok X n (Some T, mx, lo, hi, ks)"
  shows "length T = mx" "0 < mx" "lo = low_minor T" "hi = high_minor T"
    "\<And>i a. i < mx \<Longrightarrow> T ! i = Some a \<Longrightarrow> \<exists>k. ks a = Some k \<and> entry_ok i k"
    "\<And>a k. a \<notin> X \<Longrightarrow> ks a = Some k \<Longrightarrow> \<not> idle k \<Longrightarrow> fst k < mx \<and> T ! fst k = Some a"
    "\<And>a. n \<le> a \<Longrightarrow> ks a = None"
  using assms by simp_all

lemma view_okI:
  assumes "length T = mx" "0 < mx" "lo = low_minor T" "hi = high_minor T"
    "\<And>i a. i < mx \<Longrightarrow> T ! i = Some a \<Longrightarrow> \<exists>k. ks a = Some k \<and> entry_ok i k"
    "\<And>a k. a \<notin> X \<Longrightarrow> ks a = Some k \<Longrightarrow> \<not> idle k \<Longrightarrow> fst k < mx \<and> T ! fst k = Some a"
    "\<And>a. n \<le> a \<Longrightarrow> ks a = None"
  shows "view_ok X n (Some T, mx, lo, hi, ks)"
  using assms by simp

lemma view_ok_table: "view_ok X n v \<Longrightarrow> \<exists>T mx lo hi ks. v = (Some T, mx, lo, hi, ks) \<and> view_ok X n (Some T, mx, lo, hi, ks)"
  by (cases v) auto

lemma view_ok_mono:
  assumes "view_ok X n v" "n \<le> m" "X \<subseteq> Y"
  shows "view_ok Y m v"
proof -
  obtain T mx lo hi ks where v: "v = (Some T, mx, lo, hi, ks)" and ok: "view_ok X n (Some T, mx, lo, hi, ks)"
    using view_ok_table [OF assms(1)] by blast
  note d = view_okD [OF ok]
  show ?thesis unfolding v
    by (rule view_okI) (use d assms(2,3) in \<open>meson le_trans subsetD\<close>)+
qed

lemma steady_table_ok: "steady s t \<Longrightarrow> table_ok X s \<Longrightarrow> table_ok X t"
  by (auto simp: steady_def table_ok_def elim: view_ok_mono)

section \<open>Changes of the table\<close>

fun set_key where "set_key a k (T, mx, lo, hi, ks) = (T, mx, lo, hi, ks(a \<mapsto> k))"
fun set_slot where "set_slot i p (T, mx, lo, hi, ks) = (map_option (\<lambda>T. T[i := p]) T, mx, lo, hi, ks)"
fun widen where "widen i (T, mx, lo, hi, ks) = (T, mx, min i lo, max i hi, ks)"
fun recount where "recount (T, mx, lo, hi, ks) = (T, mx, low_minor (the T), high_minor (the T), ks)"

text \<open>No entry of the table points to the device.\<close>

fun loose :: "nat \<Rightarrow> slot_view \<Rightarrow> bool" where
  "loose a (To, mx, lo, hi, ks) \<longleftrightarrow> (\<forall>T. To = Some T \<longrightarrow> Some a \<notin> set T)"

lemma view_changes [simp]:
  "set_key a k (set_key a k' v) = set_key a k v" "set_key a k (set_slot i p v) = set_slot i p (set_key a k v)"
  "widen i (set_key a k v) = set_key a k (widen i v)" "recount (set_key a k v) = set_key a k (recount v)"
  "recount (widen i v) = recount v" "loose a (set_key b k v) = loose a v" "loose a (widen i v) = loose a v"
  "loose a (recount v) = loose a v"
  by (cases v; simp)+

lemma used_update:
  "i < length T \<Longrightarrow> used (T[i := Some a]) = insert i (used T)" "used (T[i := None]) = used T - {i}"
  by (auto simp: used_def) (metis nth_list_update_eq nth_list_update_neq option.distinct(1) option.inject)+

lemma finite_used [simp]: "finite (used T)"
  by (simp add: used_def)

lemma range_insert:
  "i < length T \<Longrightarrow> low_minor (T[i := Some a]) = min i (low_minor T)"
  "i < length T \<Longrightarrow> high_minor (T[i := Some a]) = max i (high_minor T)"
  by (simp_all add: low_minor_def high_minor_def used_update insert_commute [of _ i])

lemma foldl_min: "foldl min (c :: nat) xs = Min (insert c (set xs))"
proof (induction xs arbitrary: c)
  case (Cons x xs)
  show ?case using Cons [of "min c x"] by (cases "xs = []") (simp_all add: insert_commute min.assoc min.left_commute)
qed simp

lemma foldl_max: "foldl max (c :: nat) xs = Max (insert c (set xs))"
proof (induction xs arbitrary: c)
  case (Cons x xs)
  show ?case using Cons [of "max c x"] by (cases "xs = []") (simp_all add: insert_commute max.assoc max.left_commute)
qed simp

lemma view_ok_recount: "view_ok X n v \<Longrightarrow> recount v = v"
  by (cases v) auto

lemma view_ok_loose: "view_ok X n v \<Longrightarrow> n \<le> a \<Longrightarrow> loose a v"
  by (cases v) (fastforce simp: in_set_conv_nth)

lemma view_ok_set_key:
  assumes "view_ok X n v" "loose a v" "a < n" "idle k \<or> a \<in> X"
  shows "view_ok X n (set_key a k v)"
proof -
  obtain T mx lo hi ks where v: "v = (Some T, mx, lo, hi, ks)" and ok: "view_ok X n (Some T, mx, lo, hi, ks)"
    using view_ok_table [OF assms(1)] by blast
  note d = view_okD [OF ok]
  have na: "\<And>i. i < mx \<Longrightarrow> T ! i \<noteq> Some a" using assms(2) d(1) v by (metis loose.simps nth_mem)
  show ?thesis unfolding v set_key.simps
    by (rule view_okI) (use d na assms(3,4) in \<open>auto simp del: fun_upd_apply simp: fun_upd_def split: if_splits\<close>)
qed

lemma view_ok_install:
  assumes ok: "view_ok X n (Some T, mx, lo, hi, ks)" and l: "Some a \<notin> set T" and a: "a < n" and i: "i < mx"
    and old: "\<forall>b. T ! i = Some b \<longrightarrow> b \<in> X" and k: "entry_ok i k"
  shows "view_ok X n (set_slot i (Some a) (set_key a k (widen i (Some T, mx, lo, hi, ks))))"
proof -
  note d = view_okD [OF ok]
  have na: "T ! j \<noteq> Some a" if "j < mx" for j using that l d(1) by (metis nth_mem)
  have fk: "fst k = i" using k by (cases k) (simp add: entry_ok_def)
  have "\<exists>k'. (ks(a \<mapsto> k)) b = Some k' \<and> entry_ok j k'" if "j < mx" "T[i := Some a] ! j = Some b" for j b
  proof (cases "j = i")
    case True
    with that i d(1) k show ?thesis by auto
  next
    case False
    with that have "T ! j = Some b" by simp
    with that na d(5) show ?thesis by (metis fun_upd_apply)
  qed
  moreover have "fst k' < mx \<and> T[i := Some a] ! fst k' = Some b" if b: "b \<notin> X" "(ks(a \<mapsto> k)) b = Some k'" "\<not> idle k'" for b k'
  proof (cases "b = a")
    case True
    with b(2) fk i d(1) show ?thesis by auto
  next
    case False
    with b have "fst k' < mx \<and> T ! fst k' = Some b" using d(6) by simp
    with old b(1) show ?thesis by (metis nth_list_update_neq)
  qed
  ultimately show ?thesis unfolding widen.simps set_key.simps set_slot.simps option.map
    by (intro view_okI) (use d i a range_insert [of i T a] in auto)
qed

lemma view_ok_remove:
  assumes ok: "view_ok X n (Some T, mx, lo, hi, ks)" and i: "i < mx" "T ! i = Some a" and k: "idle k"
  shows "view_ok X n (recount (set_slot i None (set_key a k (Some T, mx, lo, hi, ks))))"
    "loose a (recount (set_slot i None (set_key a k (Some T, mx, lo, hi, ks))))"
proof -
  note d = view_okD [OF ok]
  obtain ka where ka: "ks a = Some ka" "entry_ok i ka" using d(5) [OF i] by blast
  have only: "j = i" if "j < mx" "T ! j = Some a" for j
    using d(5) [OF that] ka by (auto simp: entry_ok_def split: prod.splits)
  have rest: "j \<noteq> i \<and> T ! j = Some b" if "j < mx" "T[i := None] ! j = Some b" for j b
    using that d(1) by (cases "j = i") auto
  have e: "\<exists>k'. (ks(a \<mapsto> k)) b = Some k' \<and> entry_ok j k'" if "j < mx" "T[i := None] ! j = Some b" for j b
  proof -
    have r: "T ! j = Some b" "j \<noteq> i" using rest [OF that] by auto
    then have "b \<noteq> a" using only that(1) by blast
    with d(5) [OF that(1) r(1)] show ?thesis by simp
  qed
  have f: "fst k' < mx \<and> T[i := None] ! fst k' = Some b" if b: "b \<notin> X" "(ks(a \<mapsto> k)) b = Some k'" "\<not> idle k'" for b k'
  proof -
    have "b \<noteq> a" using b(2,3) k by auto
    with b d(6) have "fst k' < mx \<and> T ! fst k' = Some b" by simp
    with \<open>b \<noteq> a\<close> i show ?thesis by (metis nth_list_update_neq option.inject)
  qed
  have "a < n" using d(7) ka by (metis not_le_imp_less option.distinct(1))
  then have g: "(ks(a \<mapsto> k)) b = None" if "n \<le> b" for b using that d(7) by simp
  show "view_ok X n (recount (set_slot i None (set_key a k (Some T, mx, lo, hi, ks))))"
    unfolding set_key.simps set_slot.simps option.map recount.simps option.sel
    by (rule view_okI [OF _ d(2) refl refl e f g]) (simp_all add: d(1))
  show "loose a (recount (set_slot i None (set_key a k (Some T, mx, lo, hi, ks))))"
  proof -
    have "T[i := None] ! j \<noteq> Some a" if "j < mx" for j using rest [OF that, of a] only [OF that] by blast
    with d(1) show ?thesis by (fastforce simp: in_set_conv_nth)
  qed
qed

section \<open>Effects\<close>

fun key_of :: "nat \<Rightarrow> slot_view \<Rightarrow> slot option" where "key_of a (T, mx, lo, hi, ks) = ks a"
fun entries :: "slot_view \<Rightarrow> nat option list option" where "entries (T, mx, lo, hi, ks) = T"

lemma key_of_changes [simp]:
  "key_of a (set_key b k v) = (if a = b then Some k else key_of a v)" "key_of a (set_slot i p v) = key_of a v"
  "key_of a (widen i v) = key_of a v" "key_of a (recount v) = key_of a v"
  "entries (set_key b k v) = entries v" "entries (set_slot i p v) = map_option (\<lambda>T. T[i := p]) (entries v)"
  "entries (widen i v) = entries v" "entries (recount v) = entries v"
  by (cases v; simp)+

lemma view_parts [simp]: "key_of a (table_view s) = map_option slot_key (devs s a)" "entries (table_view s) = snap_devices s"
  by (simp_all add: table_view_def)

lemma view_of_entries: "view_ok X n v \<Longrightarrow> entries v = Some T \<Longrightarrow> \<exists>mx lo hi ks. v = (Some T, mx, lo, hi, ks) \<and> view_ok X n (Some T, mx, lo, hi, ks)"
  by (cases v) auto

lemma put_dev_key: "table_view (put_dev a d s) = set_key a (slot_key d) (table_view s)"
  by (auto simp: table_view_def put_dev_def)

lemma free_mrf_effect:
  "free_mrf_and_ops a s = Some t \<Longrightarrow> \<exists>d. devs s a = Some d \<and>
     table_view t = set_key a (sd_minor d, None, None, test_flag UNVERIFIED d) (table_view s) \<and> fresh t = fresh s"
  by (auto simp: free_mrf_and_ops_def upd_dev_def put_dev_key tracing_ops_put_def key_defs
      split: bind_splits option.splits simp del: put_dev_view)

lemma recalculate_effect:
  assumes "minor_range_recalculate s = Some t" "snap_devices s = Some T" "length T = max_snap_devices s"
  shows "table_view t = recount (table_view s)" "fresh t = fresh s"
proof -
  let ?u = "filter (\<lambda>i. T ! i \<noteq> None) (tracer_for_each_full s)"
  have u: "set ?u = used T" using assms(3) by (auto simp: tracer_for_each_full_def used_def)
  have "t = s\<lparr>lowest_minor := foldl min (max_snap_devices s - 1) ?u, highest_minor := foldl max 0 ?u\<rparr>"
    using assms by (simp add: minor_range_recalculate_def Let_def)
  then have t: "t = s\<lparr>lowest_minor := low_minor T, highest_minor := high_minor T\<rparr>"
    using u assms(3) by (simp only: foldl_min foldl_max low_minor_def high_minor_def)
  show "table_view t = recount (table_view s)" "fresh t = fresh s"
    unfolding t by (simp_all add: table_view_def assms(2))
qed

lemma verified_devs_member:
  assumes "verified_devs s = Some ds" "(a, d) \<in> set ds"
  shows "\<exists>i. table s i = Some (Some a) \<and> devs s a = Some d \<and> \<not> test_flag UNVERIFIED d"
proof -
  let ?step = "\<lambda>i acc. do { p \<leftarrow> table s i; rest \<leftarrow> acc;
        (case p of None \<Rightarrow> Some rest
         | Some a \<Rightarrow> do { dev \<leftarrow> devs s a; Some (if test_flag UNVERIFIED dev then rest else (a, dev) # rest) }) }"
  have "\<forall>ds. foldr ?step xs (Some []) = Some ds \<longrightarrow> (a, d) \<in> set ds \<longrightarrow>
     (\<exists>i. table s i = Some (Some a) \<and> devs s a = Some d \<and> \<not> test_flag UNVERIFIED d)" for xs
    by (induction xs) (fastforce split: bind_splits option.splits if_splits)+
  with assms show ?thesis unfolding verified_devs_def Let_def by blast
qed

lemma find_same_ops_member: "find_same_ops K s ops ds = Some (Some d) \<Longrightarrow> \<exists>a. (a, d) \<in> set ds"
  by (induction ds) (auto split: bind_splits if_splits)

text \<open>The tracing state of a device found to share the disk is complete.\<close>

fun entries_ok :: "slot_view \<Rightarrow> bool" where
  "entries_ok (To, mx, lo, hi, ks) \<longleftrightarrow>
     (\<forall>T i b. To = Some T \<longrightarrow> i < length T \<longrightarrow> T ! i = Some b \<longrightarrow> (\<exists>k. ks b = Some k \<and> entry_ok i k))"

lemma entries_ok_widen [simp]: "entries_ok (widen i v) = entries_ok v"
  by (cases v) simp

lemma entries_ok_set_key: "loose a v \<Longrightarrow> entries_ok (set_key a k v) = entries_ok v"
proof (cases v)
  case (fields To mx lo hi ks)
  assume "loose a v"
  with fields have "b \<noteq> a" if "To = Some T" "i < length T" "T ! i = Some b" for T i b using that by (metis loose.simps nth_mem)
  with fields show ?thesis by simp
qed

lemma view_ok_entries: "view_ok X n v \<Longrightarrow> entries_ok v"
  by (cases v) auto

lemma hit_traced:
  assumes ok: "entries_ok (table_view s)" and v: "verified_devs s = Some ds" and h: "find_same_ops K s ops ds = Some (Some d)"
  shows "sd_orig_mrf d \<noteq> None \<and> sd_tracing_ops d \<noteq> None"
proof -
  obtain a where "(a, d) \<in> set ds" using find_same_ops_member [OF h] by blast
  from verified_devs_member [OF v this] obtain i where i: "table s i = Some (Some a)" "devs s a = Some d" "\<not> test_flag UNVERIFIED d" by blast
  then obtain T where T: "snap_devices s = Some T" "i < length T" "T ! i = Some a" by (auto simp: table_def split: bind_splits if_splits)
  with ok have "\<exists>k. map_option slot_key (devs s a) = Some k \<and> entry_ok i k" by (simp add: table_view_def)
  with i show ?thesis by (auto simp: entry_ok_def slot_key_def)
qed

lemma find_orig_fops_effect:
  assumes ok: "entries_ok (table_view s)" and d: "devs s a = Some d" "sd_orig_mrf d = None" "sd_tracing_ops d = None"
    and res: "find_orig_fops K a b s = Some (r, t)"
  shows "\<exists>e. devs t a = Some e \<and> table_view t = set_key a (slot_key e) (table_view s) \<and> fresh t = fresh s \<and>
     sd_minor e = sd_minor d \<and> test_flag UNVERIFIED e = test_flag UNVERIFIED d \<and> (if r = 0 then sd_orig_mrf e \<noteq> None else idle (slot_key e))"
proof -
  let ?s = "put_dev a (d\<lparr>sd_tracing_ops := None\<rparr>) s"
  have ok': "entries_ok (table_view ?s)" using ok d by (simp add: slot_key_def test_flag_def)
  obtain ops where ops: "bdev_ops K ?s b = Some ops" using res d by (auto simp: find_orig_fops_def upd_dev_def split: bind_splits)
  note defs = find_orig_fops_def upd_dev_def put_dev_key key_defs idle_def Let_def
  show ?thesis
  proof (cases "ops_submit_bio K ops = Some TracingMrf")
    case False
    with res d ops show ?thesis
      by (cases "ops_submit_bio K ops") (auto simp: defs simp del: put_dev_view split: if_splits)
  next
    case True
    with res d ops obtain ds h where ds: "verified_devs ?s = Some ds" "find_same_ops K ?s ops ds = Some h"
      by (auto simp: defs simp del: put_dev_view split: bind_splits)
    show ?thesis
    proof (cases h)
      case None
      with True res d ops ds show ?thesis by (auto simp: defs simp del: put_dev_view)
    next
      case (Some e)
      with hit_traced [OF ok' ds(1), of K ops e] ds(2) have "sd_orig_mrf e \<noteq> None" by simp
      with Some True res d ops ds show ?thesis
        by (auto simp: defs tracing_ops_get_def simp del: put_dev_view split: bind_splits option.splits)
    qed
  qed
qed

lemma tracing_ops_alloc_effect:
  "tracing_ops_alloc K a s = Some (r, t) \<Longrightarrow> fresh s \<le> fresh t \<and>
     (if r = 0 then \<exists>d e. devs s a = Some d \<and> devs t a = Some e \<and> table_view t = set_key a (slot_key e) (table_view s) \<and> sd_minor e = sd_minor d \<and>
         sd_orig_mrf e = sd_orig_mrf d \<and> sd_tracing_ops e \<noteq> None \<and> test_flag UNVERIFIED e = test_flag UNVERIFIED d
      else devs t = devs s \<and> table_view t = table_view s)"
  by (auto simp: tracing_ops_alloc_def put_dev_key key_defs Let_def simp del: put_dev_view split: bind_splits option.splits prod.splits)

lemma transition_effect:
  "tracer_transition_tracing K a b ops i start s = Some (r, t) \<Longrightarrow> fresh t = fresh s \<and>
     table_view t = (if r = 0 then set_slot i (if start then Some a else None) (table_view s) else table_view s)"
  by (auto simp: tracer_transition_tracing_def set_table_def Let_def table_view_def
      split: bind_splits option.splits prod.splits if_splits)

section \<open>Starting to trace\<close>

text \<open>A device outside the table, not traced.\<close>

definition detached :: "nat \<Rightarrow> 'w drv \<Rightarrow> bool" where
  "detached a s \<longleftrightarrow> loose a (table_view s) \<and> (\<exists>k. key_of a (table_view s) = Some k \<and> idle k)"

lemma table_ok_table:
  assumes "table_ok X s"
  obtains T where "snap_devices s = Some T" "length T = max_snap_devices s" "0 < max_snap_devices s"
    "table_view s = (Some T, max_snap_devices s, lowest_minor s, highest_minor s, \<lambda>a. map_option slot_key (devs s a))"
    "view_ok X (fresh s) (Some T, max_snap_devices s, lowest_minor s, highest_minor s, \<lambda>a. map_option slot_key (devs s a))"
  using assms by (auto simp: table_ok_def table_view_def)

lemma table_ok_bound: "table_ok X s \<Longrightarrow> devs s a = Some d \<Longrightarrow> a < fresh s"
  by (erule table_ok_table) (auto dest!: view_okD(7) [where a = a] simp: not_less [symmetric])

lemma widen_view: "table_view (minor_range_include i s) = widen i (table_view s)" "devs (minor_range_include i s) = devs s"
  "fresh (minor_range_include i s) = fresh s"
  by (simp_all add: minor_range_include_def table_view_def)

text \<open>The middle of \<^verbatim>\<open>__tracer_setup_tracing\<close>.\<close>

definition start_tracing :: "('w, 'k) drv_kern_scheme \<Rightarrow> nat \<Rightarrow> nat \<Rightarrow> nat \<Rightarrow> 'w drv \<Rightarrow> (int \<times> 'w drv) option" where
  "start_tracing K a b i s =
     and_then (find_orig_fops K a b s) (\<lambda>s3.
            and_then (do { d3 \<leftarrow> devs s3 a; (if sd_tracing_ops d3 = None then tracing_ops_alloc K a s3 else Some (0, s3)) }) (\<lambda>s4. do {
              d4 \<leftarrow> devs s4 a;
              t \<leftarrow> sd_tracing_ops d4;
              x \<leftarrow> trops s4 t;
              tracer_transition_tracing K a b (Some (to_bd_ops x)) i True s4 }))"

lemma setup_tracing_start:
  assumes "setup_tracing K a i s = Some (r, t)" "devs s a = Some d" "sd_tracing_ops d = None"
  obtains b r1 s6 where "start_tracing K a b i (minor_range_include i (put_dev a (d\<lparr>sd_minor := i\<rparr>) s)) = Some (r1, s6)"
    "(if r1 \<noteq> 0 then do {
          s7 \<leftarrow> upd_dev a (\<lambda>d. d\<lparr>sd_minor := 0\<rparr>) s6;
          s8 \<leftarrow> free_mrf_and_ops a s7;
          s9 \<leftarrow> minor_range_recalculate s8;
          Some (r1, s9) } else Some (0, s6)) = Some (r, t)"
proof -
  let ?s = "minor_range_include i (put_dev a (d\<lparr>sd_minor := i\<rparr>) s)"
  have s: "devs ?s a = Some (d\<lparr>sd_minor := i\<rparr>)" by (simp add: widen_view)
  have "do { (r1, s6) \<leftarrow> do { b \<leftarrow> sd_base_dev d; start_tracing K a b i ?s };
     (if r1 \<noteq> 0 then do {
          s7 \<leftarrow> upd_dev a (\<lambda>d. d\<lparr>sd_minor := 0\<rparr>) s6;
          s8 \<leftarrow> free_mrf_and_ops a s7;
          s9 \<leftarrow> minor_range_recalculate s8;
          Some (r1, s9) } else Some (0, s6)) } = Some (r, t)"
    using assms s by (simp add: setup_tracing_def start_tracing_def upd_dev_def [of a "\<lambda>d. d\<lparr>sd_minor := i\<rparr>"] Let_def)
  then show ?thesis using that by (auto split: bind_splits)
qed

lemma start_tracing_effect:
  assumes ent: "entries_ok (table_view s)" and d: "devs s a = Some d" "sd_orig_mrf d = None" "sd_tracing_ops d = None"
    and l: "loose a (table_view s)"
    and res: "start_tracing K a b i s = Some (r, t)"
  shows "fresh s \<le> fresh t \<and> (\<exists>k. table_view t = (if r = 0 then set_slot i (Some a) (set_key a k (table_view s)) else set_key a k (table_view s)) \<and>
     fst k = sd_minor d \<and> snd (snd (snd k)) = test_flag UNVERIFIED d \<and> (r = 0 \<longrightarrow> fst (snd k) \<noteq> None \<and> fst (snd (snd k)) \<noteq> None))"
proof -
  note res = res [unfolded start_tracing_def]
  from res obtain r1 s3 where f: "find_orig_fops K a b s = Some (r1, s3)" by (auto simp: and_then_eq_Some)
  from find_orig_fops_effect [OF ent d f] obtain e where e: "devs s3 a = Some e" "table_view s3 = set_key a (slot_key e) (table_view s)"
    "fresh s3 = fresh s" "sd_minor e = sd_minor d" "test_flag UNVERIFIED e = test_flag UNVERIFIED d" "r1 = 0 \<longrightarrow> sd_orig_mrf e \<noteq> None"
    by (auto split: if_splits simp del: not_None_eq)
  show ?thesis
  proof (cases "r1 = 0")
    case False
    with res f e show ?thesis by (auto simp: slot_key_def intro!: exI [of _ "slot_key e"])
  next
    case True
    with res f e(1) obtain r2 s4 where al: "(if sd_tracing_ops e = None then tracing_ops_alloc K a s3 else Some (0, s3)) = Some (r2, s4)"
      by (auto simp: and_then_eq_Some)
    have s4: "fresh s3 \<le> fresh s4 \<and> (\<exists>g. devs s4 a = Some g \<and> table_view s4 = set_key a (slot_key g) (table_view s) \<and> sd_minor g = sd_minor e \<and>
        sd_orig_mrf g = sd_orig_mrf e \<and> test_flag UNVERIFIED g = test_flag UNVERIFIED e \<and> (r2 = 0 \<longrightarrow> sd_tracing_ops g \<noteq> None))"
      using al e tracing_ops_alloc_effect [of K a s3 r2 s4] by (auto split: if_splits)
    then obtain g where g: "fresh s3 \<le> fresh s4" "devs s4 a = Some g" "table_view s4 = set_key a (slot_key g) (table_view s)" "sd_minor g = sd_minor e"
      "sd_orig_mrf g = sd_orig_mrf e" "test_flag UNVERIFIED g = test_flag UNVERIFIED e" "r2 = 0 \<longrightarrow> sd_tracing_ops g \<noteq> None" by blast
    show ?thesis
    proof (cases "r2 = 0")
      case False
      with res f True e al g show ?thesis by (auto simp: slot_key_def intro!: exI [of _ "slot_key g"])
    next
      case r2: True
      with res f True e(1) al g(2) obtain ops where "tracer_transition_tracing K a b ops i True s4 = Some (r, t)"
        by (auto split: bind_splits)
      from transition_effect [OF this] e g True r2 show ?thesis by (auto simp: slot_key_def intro!: exI [of _ "slot_key g"])
    qed
  qed
qed

lemma setup_tracing_ok:
  assumes ok: "table_ok X s" and a: "detached a s" and v: "\<forall>d. devs s a = Some d \<longrightarrow> \<not> test_flag UNVERIFIED d"
    and T: "snap_devices s = Some T" and i: "i < max_snap_devices s" and old: "\<forall>b. T ! i = Some b \<longrightarrow> b \<in> X"
    and res: "setup_tracing K a i s = Some (r, t)"
  shows "fresh s \<le> fresh t \<and> (if r = 0 then table_ok X t \<and> snap_devices t = Some (T[i := Some a])
     else table_ok X t \<and> detached a t \<and> snap_devices t = Some T)"
proof -
  from a obtain d where d: "devs s a = Some d" "sd_orig_mrf d = None" "sd_tracing_ops d = None" and l: "loose a (table_view s)"
    by (auto simp: detached_def idle_def slot_key_def)
  let ?v = "table_view s"
  have vok: "view_ok X (fresh s) ?v" using ok by (simp add: table_ok_def)
  obtain lo hi ks where v3: "?v = (Some T, max_snap_devices s, lo, hi, ks)" using T by (simp add: table_view_def)
  have lT: "length T = max_snap_devices s" using vok v3 by simp
  have af: "a < fresh s" using table_ok_bound [OF ok d(1)] .
  let ?d = "d\<lparr>sd_minor := i\<rparr>" and ?s2 = "minor_range_include i (put_dev a (d\<lparr>sd_minor := i\<rparr>) s)"
  have s2: "table_view ?s2 = set_key a (i, None, None, test_flag UNVERIFIED d) (widen i ?v)" "fresh ?s2 = fresh s" "devs ?s2 a = Some ?d"
    using d by (simp_all add: widen_view put_dev_key del: put_dev_view) (simp add: slot_key_def test_flag_def)
  have ent: "entries_ok (table_view ?s2)" using view_ok_entries [OF vok] l by (simp add: s2 entries_ok_set_key)
  have l2: "loose a (table_view ?s2)" using l by (simp add: s2)
  from setup_tracing_start [OF res d(1,3)] obtain b r1 s6 where mid: "start_tracing K a b i ?s2 = Some (r1, s6)"
    and rest: "(if r1 \<noteq> 0 then do {
          s7 \<leftarrow> upd_dev a (\<lambda>d. d\<lparr>sd_minor := 0\<rparr>) s6;
          s8 \<leftarrow> free_mrf_and_ops a s7;
          s9 \<leftarrow> minor_range_recalculate s8;
          Some (r1, s9) } else Some (0, s6)) = Some (r, t)" by blast
  from start_tracing_effect [OF ent s2(3) _ _ l2 mid] d obtain k where fr: "fresh s \<le> fresh s6"
    and tv: "table_view s6 = (if r1 = 0 then set_slot i (Some a) (set_key a k (table_view ?s2)) else set_key a k (table_view ?s2))"
    and k: "fst k = i" "snd (snd (snd k)) = test_flag UNVERIFIED d" "r1 = 0 \<longrightarrow> fst (snd k) \<noteq> None \<and> fst (snd (snd k)) \<noteq> None"
    by (auto simp: s2 test_flag_def)
  show ?thesis
  proof (cases "r1 = 0")
    case True
    have "entry_ok i k" using k True v d(1) by (cases k) (simp add: entry_ok_def)
    then have "view_ok X (fresh s) (set_slot i (Some a) (set_key a k (widen i (Some T, max_snap_devices s, lo, hi, ks))))"
      using view_ok_install [of X "fresh s" T _ lo hi ks a i k] vok v3 l af i old by simp
    moreover have "table_view t = set_slot i (Some a) (set_key a k (widen i (Some T, max_snap_devices s, lo, hi, ks)))"
      using tv s2 True rest v3 by simp
    ultimately have "table_ok X t" using rest True fr by (auto simp: table_ok_def elim: view_ok_mono)
    moreover have "snap_devices t = Some (T[i := Some a])" using \<open>table_view t = _\<close> by (simp add: table_view_def)
    ultimately show ?thesis using rest True fr by auto
  next
    case False
    with rest obtain s7 s8 where s7: "upd_dev a (\<lambda>d. d\<lparr>sd_minor := 0\<rparr>) s6 = Some s7" and s8: "free_mrf_and_ops a s7 = Some s8"
      and s9: "minor_range_recalculate s8 = Some t" and r: "r = r1" by (auto split: bind_splits)
    from s7 obtain e where e: "devs s6 a = Some e" "s7 = put_dev a (e\<lparr>sd_minor := 0\<rparr>) s6" by (auto simp: upd_dev_def split: bind_splits)
    from free_mrf_effect [OF s8] e have tv8: "table_view s8 = set_key a (0, None, None, test_flag UNVERIFIED e) (widen i ?v)" "fresh s8 = fresh s6"
      using False tv s2 by (auto simp: put_dev_key test_flag_def simp del: put_dev_view)
    have T8: "snap_devices s8 = Some T" "length T = max_snap_devices s8" using tv8 v3 lT by (simp_all add: table_view_def)
    from recalculate_effect [OF s9 T8] tv8 have tvt: "table_view t = set_key a (0, None, None, test_flag UNVERIFIED e) ?v" "fresh t = fresh s6"
      by (simp_all add: view_ok_recount [OF vok])
    have "table_ok X t" unfolding table_ok_def tvt using view_ok_set_key [OF view_ok_mono [OF vok fr subset_refl] l] af fr
      by (simp add: idle_def)
    moreover have "detached a t" using l unfolding detached_def tvt by (simp add: idle_def)
    moreover have "snap_devices t = Some T" using tvt v3 by (simp add: table_view_def)
    ultimately show ?thesis using r False tvt fr by simp
  qed
qed

section \<open>Ceasing to trace\<close>

text \<open>The block device can be frozen.\<close>

definition freezes :: "('w, 'k) drv_kern_scheme \<Rightarrow> bool" where
  "freezes K \<longleftrightarrow> (\<forall>b w. fst (freeze_bdev K b w) = 0)"

lemma transition_freezes: "freezes K \<Longrightarrow> tracer_transition_tracing K a b ops i start s = Some (r, t) \<Longrightarrow> r = 0"
  by (auto simp: tracer_transition_tracing_def freezes_def Let_def split: bind_splits prod.splits if_splits) (metis fst_conv)+

lemma steady_dev: "steady s t \<Longrightarrow> devs t a = Some e \<Longrightarrow> \<exists>d. devs s a = Some d \<and> slot_key d = slot_key e"
proof -
  assume "steady s t" "devs t a = Some e"
  have "key_of a (table_view t) = key_of a (table_view s)" using \<open>steady s t\<close> by (simp only: steady_def)
  with \<open>devs t a = Some e\<close> show ?thesis by (cases "devs s a") auto
qed

lemma should_reset_own: "tracer_should_reset_mrf K a s = Some True \<Longrightarrow> devs s a = Some d \<Longrightarrow> table s (sd_minor d) = Some (Some a)"
  by (auto simp: tracer_should_reset_mrf_def split: bind_splits if_splits)

definition unlist :: "nat \<Rightarrow> nat option list \<Rightarrow> nat option list" where
  "unlist a T = map (\<lambda>p. if p = Some a then None else p) T"

lemma unlist_loose: "Some a \<notin> set T \<Longrightarrow> unlist a T = T"
  by (auto simp: unlist_def intro!: map_idI)

lemma unlist_slot:
  assumes "\<And>j. j < length T \<Longrightarrow> T ! j = Some a \<Longrightarrow> j = i" "i < length T" "T ! i = Some a"
  shows "unlist a T = T[i := None]"
proof (rule nth_equalityI)
  fix j assume j: "j < length (unlist a T)"
  then have "j < length T" by (simp add: unlist_def)
  then have "T ! j = Some a \<longleftrightarrow> j = i" using assms by blast
  with j show "unlist a T ! j = T[i := None] ! j" by (cases "j = i") (simp_all add: unlist_def)
qed (simp add: unlist_def)

text \<open>The last steps of \<^verbatim>\<open>__tracer_destroy_tracing\<close>, once the entry is cleared.\<close>

lemma destroy_tracing_end:
  assumes tv: "table_view s4 = set_slot i None (set_key a k v)" and ok: "view_ok X n v" "n \<le> fresh s4"
    and v: "v = (Some T, mx, lo, hi, ks)" and i: "i < mx" "T ! i = Some a" and k: "idle k"
    and s5: "upd_dev a (\<lambda>d. d\<lparr>sd_minor := 0\<rparr>) s4 = Some s5" and t: "minor_range_recalculate s5 = Some t"
  shows "table_ok X t \<and> detached a t \<and> snap_devices t = Some (T[i := None]) \<and> fresh t = fresh s4"
proof -
  have "key_of a (table_view s4) = Some k" unfolding tv by simp
  then have ks4: "map_option slot_key (devs s4 a) = Some k" by simp
  with s5 obtain e where e: "devs s4 a = Some e" "slot_key e = k" "s5 = put_dev a (e\<lparr>sd_minor := 0\<rparr>) s4"
    by (auto simp: upd_dev_def split: bind_splits)
  let ?k = "slot_key (e\<lparr>sd_minor := 0\<rparr>)"
  have k0: "idle ?k" using e(2) k by (auto simp: idle_def slot_key_def)
  have tv5: "table_view s5 = set_slot i None (set_key a ?k v)" "fresh s5 = fresh s4" using e(3) tv by (simp_all add: put_dev_key del: put_dev_view)
  have lT: "length T = mx" using ok(1) v by simp
  have "entries (table_view s5) = Some (T[i := None])" using v by (simp add: tv5 del: view_parts)
  then have T5: "snap_devices s5 = Some (T[i := None])" by simp
  then have T5': "length (T[i := None]) = max_snap_devices s5" using tv5(1) v lT by (simp add: table_view_def)
  from recalculate_effect [OF t T5 T5'] tv5 have tvt: "table_view t = recount (set_slot i None (set_key a ?k v))" "fresh t = fresh s4" by simp_all
  note rm = view_ok_remove [OF view_ok_mono [OF ok(1)[unfolded v] ok(2) subset_refl] i k0]
  have "detached a t" using rm(2) v k0 unfolding detached_def tvt by simp
  moreover have "table_ok X t" using rm(1) tvt v by (simp add: table_ok_def)
  moreover have "snap_devices t = Some (T[i := None])" using view_parts(2) [of t] unfolding tvt by (simp add: v)
  ultimately show ?thesis using tvt by simp
qed


text \<open>How \<^verbatim>\<open>__tracer_destroy_tracing\<close> takes the device out of the table.\<close>

definition clear_entry :: "('w, 'k) drv_kern_scheme \<Rightarrow> nat \<Rightarrow> snap_device \<Rightarrow> bool \<Rightarrow> 'w drv \<Rightarrow> 'w drv option" where
  "clear_entry K a dev reset s =
     (if reset then do {
               s1 \<leftarrow> (if test_flag ACTIVE dev then Some s
                     else do {
                       (_, t1) \<leftarrow> setup_cow_thread K (kthread_create K) a (test_flag SNAPSHOT dev) s;
                       t2 \<leftarrow> wake_up_cow_thread a t1;
                       destroy_cow_thread K a t2 });
               dev1 \<leftarrow> devs s1 a;
               base \<leftarrow> sd_base_dev dev1;
               (_, s2) \<leftarrow> tracer_transition_tracing K a base (sd_orig_ops dev1) (sd_minor dev1) False s1;
               Some s2 }
             else do {
               base \<leftarrow> sd_base_dev dev;
               (_, s2) \<leftarrow> tracer_transition_tracing K a base None (sd_minor dev) False s;
               Some s2 })"

lemma destroy_tracing_alt:
  "destroy_tracing K a s = do {
     dev \<leftarrow> devs s a;
     s4 \<leftarrow>
       (if sd_orig_mrf dev \<noteq> None then do {
          reset \<leftarrow> tracer_should_reset_mrf K a s;
          s2 \<leftarrow> clear_entry K a dev reset s;
          free_mrf_and_ops a s2 }
        else do {
          p \<leftarrow> table s (sd_minor dev);
          (if p = Some a then set_table (sd_minor dev) None s else Some s) });
     s5 \<leftarrow> upd_dev a (\<lambda>d. d\<lparr>sd_minor := 0\<rparr>) s4;
     minor_range_recalculate s5 }"
  by (simp only: destroy_tracing_def clear_entry_def)

lemma clear_entry_effect:
  assumes fz: "freezes K" and d: "devs s a = Some d" and res: "clear_entry K a d reset s = Some t"
  shows "fresh s \<le> fresh t \<and> table_view t = set_slot (sd_minor d) None (table_view s)"
proof (cases reset)
  case True
  define pre where "pre = (if test_flag ACTIVE d then Some s
                     else do {
                       (_, t1) \<leftarrow> setup_cow_thread K (kthread_create K) a (test_flag SNAPSHOT d) s;
                       t2 \<leftarrow> wake_up_cow_thread a t1;
                       destroy_cow_thread K a t2 })"
  have "clear_entry K a d reset s = do {
               s1 \<leftarrow> pre; dev1 \<leftarrow> devs s1 a; base \<leftarrow> sd_base_dev dev1;
               (_, s2) \<leftarrow> tracer_transition_tracing K a base (sd_orig_ops dev1) (sd_minor dev1) False s1;
               Some s2 }"
    using True by (simp only: clear_entry_def pre_def if_True)
  with res obtain s1 d1 b r where s1: "pre = Some s1" and d1: "devs s1 a = Some d1"
    and tr: "tracer_transition_tracing K a b (sd_orig_ops d1) (sd_minor d1) False s1 = Some (r, t)"
    by (auto split: bind_splits)
  have st1: "steady s s1" using s1 unfolding pre_def by (auto split: bind_splits if_splits
    dest!: setup_cow_thread_steady wake_steady destroy_cow_thread_steady) (blast intro: steady_trans)
  with steady_dev [OF this d1] d have "sd_minor d1 = sd_minor d" by (auto simp: slot_key_def)
  with transition_effect [OF tr] transition_freezes [OF fz tr] st1 show ?thesis by (auto simp: steady_def)
next
  case False
  with res obtain b r where tr: "tracer_transition_tracing K a b None (sd_minor d) False s = Some (r, t)"
    by (auto simp: clear_entry_def split: bind_splits)
  with transition_effect [OF tr] transition_freezes [OF fz tr] show ?thesis by auto
qed

lemma destroy_tracing_ok:
  assumes ok: "table_ok X s" and X: "a \<notin> X" and fz: "freezes K" and T: "snap_devices s = Some T"
    and res: "destroy_tracing K a s = Some t"
  shows "table_ok X t \<and> detached a t \<and> snap_devices t = Some (unlist a T) \<and> fresh s \<le> fresh t"
proof -
  have vok: "view_ok X (fresh s) (table_view s)" using ok by (simp add: table_ok_def)
  obtain lo hi ks where v: "table_view s = (Some T, max_snap_devices s, lo, hi, ks)" using T by (simp add: table_view_def)
  let ?n = "max_snap_devices s"
  note D = view_okD [OF vok[unfolded v]]
  from res obtain d where d: "devs s a = Some d" by (auto simp: destroy_tracing_def split: bind_splits)
  have ka: "ks a = Some (slot_key d)" using v d by (auto simp: table_view_def)
  let ?i = "sd_minor d"
  have only: "j = ?i" if "j < length T" "T ! j = Some a" for j
    using D(5) [of j a] that ka D(1) by (auto simp: entry_ok_def slot_key_def split: if_splits)
  define u where "u = test_flag UNVERIFIED d"
  show ?thesis
  proof (cases "sd_orig_mrf d = None")
    case False
    then have "\<not> idle (slot_key d)" by (simp add: idle_def slot_key_def)
    from D(6) [OF X ka this] have i: "?i < ?n" "T ! ?i = Some a" by (simp_all add: slot_key_def)
    from res d False obtain s2 s4 s5 where
      s2: "fresh s \<le> fresh s2" "table_view s2 = set_slot ?i None (table_view s)"
      and s4: "free_mrf_and_ops a s2 = Some s4" and s5: "upd_dev a (\<lambda>d. d\<lparr>sd_minor := 0\<rparr>) s4 = Some s5"
      and t: "minor_range_recalculate s5 = Some t"
      unfolding destroy_tracing_alt by (auto split: bind_splits dest!: clear_entry_effect [OF fz])
    from free_mrf_effect [OF s4] s2(2) obtain k where k: "idle k" "table_view s4 = set_slot ?i None (set_key a k (table_view s))" "fresh s4 = fresh s2"
      by (auto simp: idle_def)
    from destroy_tracing_end [OF k(2) vok _ v i k(1) s5 t] s2(1) k(3) have
      "table_ok X t \<and> detached a t \<and> snap_devices t = Some (T[?i := None]) \<and> fresh t = fresh s4" by simp
    moreover have "unlist a T = T[?i := None]" by (rule unlist_slot [OF only]) (simp_all add: i D(1))
    ultimately show ?thesis using s2(1) k(3) by simp
  next
    case True
    from res d True obtain p s4 s5 where p: "table s ?i = Some p"
      and s4: "(if p = Some a then set_table ?i None s else Some s) = Some s4"
      and s5: "upd_dev a (\<lambda>d. d\<lparr>sd_minor := 0\<rparr>) s4 = Some s5" and t: "minor_range_recalculate s5 = Some t"
      unfolding destroy_tracing_alt by (auto split: bind_splits)
    from p T have pT: "?i < length T" "p = T ! ?i" by (auto simp: table_def split: if_splits)
    have idl: "idle (slot_key d)"
    proof (rule ccontr)
      assume n: "\<not> idle (slot_key d)"
      from D(6) [OF X ka this] have "?i < ?n" "T ! ?i = Some a" by (simp_all add: slot_key_def)
      from D(5) [OF this] ka n True show False by (auto simp: entry_ok_def slot_key_def idle_def split: if_splits)
    qed
    show ?thesis
    proof (cases "p = Some a")
      case True
      with s4 T pT have s4': "table_view s4 = set_slot ?i None (set_key a (slot_key d) (table_view s))" "fresh s4 = fresh s"
        using ka v by (auto simp: set_table_def table_view_def fun_eq_iff d)
      from pT True D(1) have i: "?i < ?n" "T ! ?i = Some a" by auto
      from destroy_tracing_end [OF s4'(1) vok _ v i idl s5 t] s4'(2) have
        "table_ok X t \<and> detached a t \<and> snap_devices t = Some (T[?i := None]) \<and> fresh t = fresh s4" by simp
      moreover have "unlist a T = T[?i := None]" by (rule unlist_slot [OF only]) (simp_all add: i D(1))
      ultimately show ?thesis using s4' by simp
    next
      case False
      with s4 have s4': "s4 = s" by simp
      have l: "Some a \<notin> set T" using only pT False by (auto simp: in_set_conv_nth)
      then have lv: "loose a (table_view s)" by (simp add: v)
      let ?k = "slot_key (d\<lparr>sd_minor := 0\<rparr>)"
      from s5 s4' d have s5': "table_view s5 = set_key a ?k (table_view s)" "fresh s5 = fresh s" "snap_devices s5 = Some T" "max_snap_devices s5 = ?n"
        using T by (auto simp: upd_dev_def put_dev_key simp del: put_dev_view) (simp_all add: put_dev_def)
      from recalculate_effect [OF t s5'(3)] s5' D(1) have tv: "table_view t = set_key a ?k (table_view s)" "fresh t = fresh s"
        by (simp_all add: view_ok_recount [OF vok])
      have k: "idle ?k" using idl by (simp add: idle_def slot_key_def)
      have "table_ok X t" using view_ok_set_key [OF vok lv table_ok_bound [OF ok d]] k by (simp add: table_ok_def tv)
      moreover have "detached a t" using lv k by (simp add: detached_def tv del: view_parts)
      moreover have "snap_devices t = Some T" using view_parts(2) [of t] unfolding tv by (simp add: v)
      ultimately show ?thesis by (simp add: unlist_loose [OF l] tv)
    qed
  qed
qed

section \<open>Whole operations\<close>

lemma steady_keeps:
  assumes "steady s t"
  shows "snap_devices t = snap_devices s" "max_snap_devices t = max_snap_devices s" "detached a s \<Longrightarrow> detached a t"
    "table_ok X s \<Longrightarrow> table_ok X t" "fresh s \<le> fresh t" "key_of a (table_view t) = key_of a (table_view s)"
    "loose a (table_view t) = loose a (table_view s)"
  using assms steady_table_ok [OF assms, of X] by (auto simp: steady_def detached_def simp del: view_parts) (simp_all add: table_view_def)

lemma and_then_chain:
  assumes "and_then m k = Some (r, t)" and "\<And>r s'. m = Some (r, s') \<Longrightarrow> steady s s'"
  obtains (stop) "r \<noteq> 0" "steady s t" | (go) s1 where "steady s s1" "k s1 = Some (r, t)"
  using assms by (cases "r = 0") (auto simp: and_then_eq_Some split: if_splits)

lemma with_dev_steady: "with_dev a f s = Some (r, t) \<Longrightarrow> (\<And>d. f d s = Some (r, t) \<Longrightarrow> steady s t) \<Longrightarrow> steady s t"
  by (auto simp: with_dev_def split: bind_splits)

lemma tracer_destroy_ok:
  assumes "table_ok X s" "a \<notin> X" "freezes K" "snap_devices s = Some T" "tracer_destroy K a s = Some t"
  shows "table_ok X t \<and> detached a t \<and> snap_devices t = Some (unlist a T) \<and> fresh s \<le> fresh t"
proof -
  from assms(5) obtain s1 where d: "destroy_tracing K a s = Some s1" and st: "steady s1 t"
    by (auto simp: tracer_destroy_def split: bind_splits dest!: destroy_cow_thread_steady destroy_snap_steady cow_path_steady(1) destroy_cow_steady
        destroy_base_dev_steady) (meson steady_trans)
  from destroy_tracing_ok [OF assms(1-4) d] show ?thesis using steady_keeps [OF st] by auto
qed

lemma kfree_view: "table_view (kfree_dev a s) = (case table_view s of (T, mx, lo, hi, ks) \<Rightarrow> (T, mx, lo, hi, ks(a := None)))"
  "fresh (kfree_dev a s) = fresh s" "snap_devices (kfree_dev a s) = snap_devices s" "max_snap_devices (kfree_dev a s) = max_snap_devices s"
  by (auto simp: table_view_def kfree_dev_def)

lemma kfree_ok:
  assumes ok: "table_ok X s" and l: "loose a (table_view s)"
  shows "table_ok (X - {a}) (kfree_dev a s)"
proof -
  obtain T mx lo hi ks where v: "table_view s = (Some T, mx, lo, hi, ks)" and vok: "view_ok X (fresh s) (Some T, mx, lo, hi, ks)"
    using ok view_ok_table unfolding table_ok_def by blast
  note D = view_okD [OF vok]
  have na: "\<And>i. i < mx \<Longrightarrow> T ! i \<noteq> Some a" using l v D(1) by (metis loose.simps nth_mem)
  have "view_ok (X - {a}) (fresh s) (Some T, mx, lo, hi, ks(a := None))"
  proof (rule view_okI)
    fix i b assume "i < mx" "T ! i = Some b"
    then show "\<exists>k. (ks(a := None)) b = Some k \<and> entry_ok i k" using D(5) na by (metis fun_upd_other)
  next
    fix b k assume "b \<notin> X - {a}" "(ks(a := None)) b = Some k" "\<not> idle k"
    then show "fst k < mx \<and> T ! fst k = Some b" using D(6) by (auto split: if_splits)
  qed (use D in auto)
  then show ?thesis by (simp add: table_ok_def kfree_view v)
qed

lemma tracer_alloc_ok:
  assumes "tracer_alloc K s = (r, x, t)" "table_ok X s"
  shows "table_ok X t \<and> snap_devices t = snap_devices s \<and> max_snap_devices t = max_snap_devices s \<and> fresh s \<le> fresh t \<and>
     (\<forall>a. x = Some a \<longrightarrow> a = fresh s \<and> detached a t \<and> (\<forall>b. b \<noteq> a \<longrightarrow> devs t b = devs s b) \<and> r = 0) \<and> (x = None \<longrightarrow> r \<noteq> 0)"
proof (cases x)
  case None
  with assms have st: "steady s t" and r: "r \<noteq> 0" by (auto simp: tracer_alloc_def steady_def split: prod.splits option.splits)
  show ?thesis using None r steady_keeps(1,2,4,5) [OF st] assms(2) by blast
next
  case (Some a)
  obtain g w where al: "kmalloc K sizeof_snap_device (world s) = (g, w)" by fastforce
  have ta: "if g = None then x = None else r = 0 \<and> x = Some (fresh s) \<and> t = put_dev (fresh s) (tracer_init zero_dev) (s\<lparr>fresh := Suc (fresh s), world := w\<rparr>)"
    using assms(1) by (cases g) (auto simp: tracer_alloc_def al)
  with Some have t: "t = put_dev (fresh s) (tracer_init zero_dev) (s\<lparr>fresh := Suc (fresh s), world := w\<rparr>)" and a: "a = fresh s" "r = 0"
    by (simp_all split: if_splits)
  have vok: "view_ok X (fresh s) (table_view s)" using assms(2) by (simp add: table_ok_def)
  have l: "loose a (table_view s)" using view_ok_loose [OF vok] a by simp
  let ?k = "slot_key (tracer_init zero_dev)"
  have k: "idle ?k" by (simp add: idle_def slot_key_def tracer_init_def zero_dev_def)
  have tv: "table_view t = set_key a ?k (table_view s)" "fresh t = Suc (fresh s)" unfolding t a by (simp_all add: put_dev_key del: put_dev_view)
  have "table_ok X t" using view_ok_set_key [OF view_ok_mono [OF vok, of "Suc (fresh s)" X] l] k by (simp add: table_ok_def tv a)
  moreover have "detached a t" using l k by (simp add: detached_def tv del: view_parts)
  moreover have "snap_devices t = snap_devices s" "max_snap_devices t = max_snap_devices s" "\<forall>b. b \<noteq> a \<longrightarrow> devs t b = devs s b"
    by (simp_all add: t a) (simp_all add: put_dev_def)
  ultimately show ?thesis using Some a tv by auto
qed

text \<open>Changes of a detached device other than its tracing state.\<close>

lemma upd_detached:
  assumes "upd_dev a f s = Some t" "table_ok X s" "detached a s"
    and "\<And>d. sd_orig_mrf (f d) = sd_orig_mrf d \<and> sd_tracing_ops (f d) = sd_tracing_ops d"
  shows "table_ok X t \<and> detached a t \<and> snap_devices t = snap_devices s \<and> max_snap_devices t = max_snap_devices s \<and> fresh t = fresh s \<and>
     (\<forall>b. b \<noteq> a \<longrightarrow> devs t b = devs s b) \<and> (\<exists>d. devs s a = Some d \<and> devs t a = Some (f d))"
proof -
  from assms(1) obtain d where d: "devs s a = Some d" and t: "t = put_dev a (f d) s" by (auto simp: upd_dev_def split: bind_splits)
  have l: "loose a (table_view s)" and "idle (slot_key d)" using assms(3) d by (auto simp: detached_def)
  then have k: "idle (slot_key (f d))" using assms(4) [of d] by (simp add: idle_def slot_key_def)
  have vok: "view_ok X (fresh s) (table_view s)" using assms(2) by (simp add: table_ok_def)
  have tv: "table_view t = set_key a (slot_key (f d)) (table_view s)" "fresh t = fresh s" unfolding t by (simp_all add: put_dev_key del: put_dev_view)
  have "table_ok X t" using view_ok_set_key [OF vok l table_ok_bound [OF assms(2) d]] k by (simp add: table_ok_def tv)
  moreover have "detached a t" using l k by (simp add: detached_def tv del: view_parts)
  ultimately show ?thesis using d t by (simp add: put_dev_def)
qed

section \<open>Setting up\<close>

text \<open>A device ready to be traced under minor \<open>i\<close>, and what setting it up leads to.\<close>

definition ready :: "nat set \<Rightarrow> nat \<Rightarrow> nat \<Rightarrow> nat option list \<Rightarrow> 'w drv \<Rightarrow> bool" where
  "ready X a i T s \<longleftrightarrow> table_ok X s \<and> detached a s \<and> (\<forall>d. devs s a = Some d \<longrightarrow> \<not> test_flag UNVERIFIED d) \<and> snap_devices s = Some T \<and>
     i < length T \<and> (\<forall>b. T ! i = Some b \<longrightarrow> b \<in> X)"

definition outcome :: "nat set \<Rightarrow> nat \<Rightarrow> nat \<Rightarrow> nat option list \<Rightarrow> int \<Rightarrow> 'w drv \<Rightarrow> bool" where
  "outcome X a i T r t \<longleftrightarrow> table_ok X t \<and> (if r = 0 then snap_devices t = Some (T[i := Some a]) else detached a t \<and> snap_devices t = Some T)"

lemma steady_ready: "steady s t \<Longrightarrow> ready X a i T s \<Longrightarrow> ready X a i T t"
proof -
  assume st: "steady s t" and rd: "ready X a i T s"
  have "\<not> test_flag UNVERIFIED e" if e: "devs t a = Some e" for e
  proof -
    obtain d where d: "devs s a = Some d" and key: "slot_key d = slot_key e" using steady_dev [OF st e] by blast
    have "\<not> test_flag UNVERIFIED d" using rd d by (simp add: ready_def)
    then show ?thesis using key by (simp add: slot_key_def)
  qed
  then show ?thesis using rd steady_keeps(1,3,4) [OF st] by (simp add: ready_def)
qed

lemma ready_max: "ready X a i T s \<Longrightarrow> i < max_snap_devices s"
  unfolding ready_def by (metis option.inject table_ok_table)

lemma chain_outcome:
  assumes "and_then m k = Some (r, t)" "\<And>r s'. m = Some (r, s') \<Longrightarrow> steady s s'" "ready X a i T s"
    and "\<And>s1. k s1 = Some (r, t) \<Longrightarrow> ready X a i T s1 \<Longrightarrow> outcome X a i T r t"
  shows "outcome X a i T r t"
  using assms(1,2)
proof (rule and_then_chain)
  assume "r \<noteq> 0" "steady s t"
  with steady_ready [OF this(2) assms(3)] show ?thesis by (simp add: ready_def outcome_def)
next
  fix s1 assume "steady s s1" "k s1 = Some (r, t)"
  with steady_ready [OF this(1) assms(3)] assms(4) show ?thesis by blast
qed

lemma setup_tracing_outcome: "setup_tracing K a i s = Some (r, t) \<Longrightarrow> ready X a i T s \<Longrightarrow> outcome X a i T r t"
  using setup_tracing_ok [of X s a T i K r t] ready_max [of X a i T s] by (auto simp: ready_def outcome_def split: if_splits)

lemma with_dev_call_steady:
  "with_dev a (\<lambda>d s. do { b \<leftarrow> sd_base_dev d; setup_cow K a b u p (f d) n (c d) uu q m s }) s = Some (r, t) \<Longrightarrow> steady s t"
  "with_dev a (\<lambda>d. setup_snap K a i (f d)) s = Some (r, t) \<Longrightarrow> steady s t"
  "with_dev a (\<lambda>d. setup_cow_thread K cr a (g d)) s = Some (r, t) \<Longrightarrow> steady s t"
  by (auto simp: with_dev_def split: bind_splits dest: setup_cow_steady setup_snap_steady setup_cow_thread_steady)

lemmas chain_steady = setup_base_dev_steady with_dev_call_steady cow_path_steady(2) setup_cow_thread_steady wake_steady(2) setup_snap_steady

lemma unlist_detached: "detached a s \<Longrightarrow> snap_devices s = Some T \<Longrightarrow> unlist a T = T"
  by (rule unlist_loose) (auto simp: detached_def table_view_def)

text \<open>The error path of a set-up.\<close>

lemma outcome_destroy:
  assumes "outcome X a i T r s" "r \<noteq> 0" "a \<notin> X" "freezes K" "tracer_destroy K a s = Some t"
  shows "outcome X a i T r t"
  using assms(1,2) tracer_destroy_ok [OF _ assms(3,4) _ assms(5), of T] unlist_detached [of a s T] by (auto simp: outcome_def)

lemma active_snap_outcome:
  assumes ok: "table_ok X s" "detached a s" "a \<notin> X" and T: "snap_devices s = Some T" "i < length T" "T ! i = None" and fz: "freezes K"
    and res: "tracer_setup_active_snap K a i bp cp fs cs ig s = Some (r, t)"
  shows "outcome X a i T r t"
proof -
  from res obtain s0 where up: "upd_dev a (\<lambda>d. (set_flags True True False d)\<lparr>sd_ignore_snap_errors := ig\<rparr>) s = Some s0"
    by (auto simp: tracer_setup_active_snap_def split: bind_splits)
  from upd_detached [OF up ok(1,2)] T have rd: "ready X a i T s0"
    by (auto simp: ready_def set_flags_def test_flag_def bit_unset_bit_iff)
  from res up obtain r1 s1 where ch: "and_then (setup_base_dev K a bp s0) (\<lambda>s.
       and_then (with_dev a (\<lambda>d s. do { b \<leftarrow> sd_base_dev d; setup_cow K a b None cp (sd_size d) fs cs None 1 0 s }) s) (\<lambda>s.
       and_then (setup_cow_path K a s) (\<lambda>s.
       and_then (with_dev a (\<lambda>d. setup_snap K a i (sd_size d)) s) (\<lambda>s.
       and_then (setup_cow_thread K (kthread_create K) a True s) (\<lambda>s.
       and_then (wake a s) (\<lambda>s.
       setup_tracing K a i s)))))) = Some (r1, s1)"
    and rest: "(if r1 \<noteq> 0 then do { s2 \<leftarrow> tracer_destroy K a s1; Some (r1, s2) } else Some (0, s1)) = Some (r, t)"
    unfolding tracer_setup_active_snap_def by (auto simp del: and_then_Some split: bind_splits)
  from ch rd have "outcome X a i T r1 s1"
    by - ((erule chain_outcome, erule chain_steady, assumption)+, erule setup_tracing_outcome)
  with rest show ?thesis using outcome_destroy [OF _ _ ok(3) fz] by (auto split: if_splits bind_splits)
qed

lemma setup_tracing_unverified_ok:
  assumes ok: "table_ok X s" "detached a s" and u: "\<forall>d. devs s a = Some d \<longrightarrow> test_flag UNVERIFIED d"
    and T: "snap_devices s = Some T" "i < length T" "\<forall>b. T ! i = Some b \<longrightarrow> b \<in> X"
    and res: "setup_tracing_unverified a i s = Some t"
  shows "table_ok X t \<and> snap_devices t = Some (T[i := Some a])"
proof -
  have vok: "view_ok X (fresh s) (table_view s)" using ok(1) by (simp add: table_ok_def)
  have l: "loose a (table_view s)" using ok(2) by (simp add: detached_def)
  from res obtain s1 s2 where s1: "free_mrf_and_ops a s = Some s1" and s2: "upd_dev a (\<lambda>d. d\<lparr>sd_minor := i\<rparr>) (minor_range_include i s1) = Some s2"
    and t: "set_table i (Some a) s2 = Some t" by (auto simp: setup_tracing_unverified_def split: bind_splits)
  from free_mrf_effect [OF s1] obtain d where d: "devs s a = Some d" and
    v1: "table_view s1 = set_key a (sd_minor d, None, None, True) (table_view s)" "fresh s1 = fresh s" using u by auto
  have "key_of a (table_view s1) = Some (sd_minor d, None, None, True)" unfolding v1 by simp
  then have "map_option slot_key (devs s1 a) = Some (sd_minor d, None, None, True)" by simp
  moreover from s2 obtain x where x: "devs s1 a = Some x" "s2 = put_dev a (x\<lparr>sd_minor := i\<rparr>) (minor_range_include i s1)"
    by (auto simp: upd_dev_def widen_view split: bind_splits)
  ultimately have e: "slot_key (x\<lparr>sd_minor := i\<rparr>) = (i, None, None, True)" by (simp add: slot_key_def test_flag_def)
  have v2: "table_view s2 = set_key a (i, None, None, True) (widen i (table_view s))" "fresh s2 = fresh s"
    unfolding x(2) by (simp_all add: put_dev_key e widen_view v1 del: put_dev_view)
  have tv: "table_view t = set_slot i (Some a) (table_view s2)" "fresh t = fresh s2"
    using t by (auto simp: set_table_def table_view_def split: bind_splits if_splits)
  from view_of_entries [OF vok, of T] T(1) obtain mx lo hi ks where v: "table_view s = (Some T, mx, lo, hi, ks)" by auto
  have mx: "length T = mx" using vok v by simp
  from view_ok_install [OF vok[unfolded v] _ table_ok_bound [OF ok(1) d] _ T(3), of "(i, None, None, True)"] l T(2) mx v have
    "view_ok X (fresh s) (set_slot i (Some a) (set_key a (i, None, None, True) (widen i (table_view s))))"
    by (simp add: entry_ok_def)
  then have "table_ok X t" by (simp add: table_ok_def tv v2)
  moreover have "snap_devices t = Some (T[i := Some a])" using view_parts(2) [of t] T(1) unfolding tv v2 by simp
  ultimately show ?thesis by simp
qed

lemma setup_unverified_outcome:
  assumes ok: "table_ok X s" "detached a s" "a \<notin> X" and T: "snap_devices s = Some T" "i < length T" "T ! i = None" and fz: "freezes K"
    and res: "setup_unverified K a i bp cp cs ig sn s = Some (r, t)"
  shows "outcome X a i T r t"
proof -
  from res obtain s0 where up: "upd_dev a (\<lambda>d. (set_flags sn False True d)\<lparr>sd_cache_size := cs, sd_ignore_snap_errors := ig\<rparr>) s = Some s0"
    by (auto simp: setup_unverified_def split: bind_splits)
  from upd_detached [OF up ok(1,2)] T have s0: "table_ok X s0" "detached a s0" "snap_devices s0 = Some T"
    and u0: "\<forall>d. devs s0 a = Some d \<longrightarrow> test_flag UNVERIFIED d"
    by (auto simp: set_flags_def test_flag_def bit_set_bit_iff)
  have end_ok: "outcome X a i T (- ENOMEM) t'" if "tracer_destroy K a s' = Some t'" "steady s0 s'" for s' t'
    using outcome_destroy [of X a i T "- ENOMEM" s', OF _ _ ok(3) fz that(1)] steady_keeps [OF that(2)] s0
    by (simp add: outcome_def)
  have fine: "outcome X a i T 0 t'" if "setup_tracing_unverified a i s' = Some t'" "steady s0 s'" for s' t'
  proof -
    have "\<forall>d. devs s' a = Some d \<longrightarrow> test_flag UNVERIFIED d" using steady_dev [OF that(2)] u0 by (metis prod.inject slot_key_def)
    with setup_tracing_unverified_ok [OF _ _ this _ T(2) _ that(1), of X] steady_keeps [OF that(2)] s0 T(3) show ?thesis
      by (simp add: outcome_def)
  qed
  show ?thesis using res up
    by (auto simp: setup_unverified_def upd_dev_def split: bind_splits option.splits prod.splits elim!: end_ok fine)
       (simp_all add: key_defs)
qed

end
