(* ===== verification/Table_Ops.thy ===== *)
theory Table_Ops
  imports Table
begin

text \<open>
  The operations above the tracer keep the device table: the mode transitions, which put a new
  device in the place of the old one, the ioctl handlers, the mount hooks, the threads and the
  loading of the module. Together they make the table an invariant of every run.
\<close>

section \<open>Replacing a device\<close>

lemma table_entry: "table s i = Some (Some a) \<Longrightarrow> snap_devices s = Some T \<Longrightarrow> i < length T \<and> T ! i = Some a"
  by (auto simp: table_def split: if_splits)

lemma entry_dev:
  assumes "table_ok X s" "table s i = Some (Some a)"
  obtains d T where "snap_devices s = Some T" "i < length T" "T ! i = Some a" "devs s a = Some d" "sd_minor d = i" "a < fresh s"
proof -
  obtain T where T: "snap_devices s = Some T" "length T = max_snap_devices s"
    "view_ok X (fresh s) (Some T, max_snap_devices s, lowest_minor s, highest_minor s, \<lambda>a. map_option slot_key (devs s a))"
    using assms(1) by (rule table_ok_table)
  from table_entry [OF assms(2) T(1)] view_okD(5) [OF T(3), of i a] T(2) obtain d where
    d: "i < length T" "T ! i = Some a" "devs s a = Some d" "entry_ok i (slot_key d)" by auto
  from d(4) have "sd_minor d = i" by (simp add: entry_ok_def slot_key_def)
  with that T(1) d table_ok_bound [OF assms(1) d(3)] show ?thesis by blast
qed

text \<open>While the old device is still in its place, nothing is excused.\<close>

lemma table_ok_back:
  assumes ok: "table_ok {old} s" and "table s i = Some (Some old)"
  shows "table_ok {} s"
proof -
  obtain T where T: "snap_devices s = Some T" "length T = max_snap_devices s" 
    "table_view s = (Some T, max_snap_devices s, lowest_minor s, highest_minor s, \<lambda>a. map_option slot_key (devs s a))"
    "view_ok {old} (fresh s) (Some T, max_snap_devices s, lowest_minor s, highest_minor s, \<lambda>a. map_option slot_key (devs s a))"
    using ok by (rule table_ok_table)
  note D = view_okD [OF T(4)]
  obtain d T' where d: "snap_devices s = Some T'" "i < length T'" "T' ! i = Some old" "devs s old = Some d" "sd_minor d = i"
    using entry_dev [OF assms] by metis
  have "view_ok {} (fresh s) (Some T, max_snap_devices s, lowest_minor s, highest_minor s, \<lambda>a. map_option slot_key (devs s a))"
  proof (rule view_okI [OF D(1-5)])
    fix b k assume b: "map_option slot_key (devs s b) = Some k" "\<not> idle k"
    show "fst k < max_snap_devices s \<and> T ! fst k = Some b"
    proof (cases "b = old")
      case True
      with b d T show ?thesis by (auto simp: slot_key_def)
    qed (use D(6) b in blast)
  qed (use D(7) in auto)
  then show ?thesis by (simp add: table_ok_def T(3))
qed

lemma replaced_loose:
  assumes ok: "table_ok X s" and T: "snap_devices s = Some T" "i < length T" "T ! i = Some old" and a: "a \<noteq> old"
    and t: "snap_devices t = Some (T[i := Some a])"
  shows "loose old (table_view t)"
proof -
  obtain T' where T': "snap_devices s = Some T'" "length T' = max_snap_devices s" 
    "view_ok X (fresh s) (Some T', max_snap_devices s, lowest_minor s, highest_minor s, \<lambda>a. map_option slot_key (devs s a))"
    using ok by (rule table_ok_table)
  note D = view_okD(5) [OF T'(3)]
  have only: "j = i" if j: "j < length T" "T ! j = Some old" for j
  proof -
    have TT: "T' = T" using T(1) T'(1) by simp
    obtain k where k: "map_option slot_key (devs s old) = Some k" "entry_ok j k"
      using D [of j old] j TT T'(2) by (metis)
    moreover obtain k' where "map_option slot_key (devs s old) = Some k'" "entry_ok i k'"
      using D [of i old] T TT T'(2) by (metis)
    ultimately have "entry_ok j k" "entry_ok i k" by simp_all
    then show ?thesis by (cases k) (simp add: entry_ok_def)
  qed
  have "T[i := Some a] ! j \<noteq> Some old" if "j < length T" for j
    using only [OF that] that a by (cases "j = i") auto
  then show ?thesis using t by (auto simp: table_view_def in_set_conv_nth)
qed

text \<open>The end of both transitions.\<close>

lemma replaced_ok:
  assumes ok: "table_ok {} s0" and T: "snap_devices s0 = Some T" "i < length T" "T ! i = Some old" and a: "a \<noteq> old"
    and out: "outcome {old} a i T r s" and st: "steady s t"
  shows "r = 0 \<Longrightarrow> table_ok {} (kfree_dev old t)" "r \<noteq> 0 \<Longrightarrow> table_ok {} (kfree_dev a t)"
proof -
  note keep = steady_keeps [OF st]
  show "table_ok {} (kfree_dev old t)" if "r = 0"
  proof -
    have "snap_devices t = Some (T[i := Some a])" using out that keep(1) by (simp add: outcome_def)
    from replaced_loose [OF ok T a this] kfree_ok [of "{old}" t old] out keep(4) show ?thesis by (simp add: outcome_def)
  qed
  show "table_ok {} (kfree_dev a t)" if "r \<noteq> 0"
  proof -
    have "detached a t" "table_ok {old} t" "snap_devices t = Some T" using out that keep by (simp_all add: outcome_def)
    then have "table_ok {old} (kfree_dev a t)" using kfree_ok [of "{old}" t a] a by (simp add: detached_def)
    moreover have "table (kfree_dev a t) i = Some (Some old)" using \<open>snap_devices t = Some T\<close> T by (simp add: table_def kfree_view)
    ultimately show ?thesis by (rule table_ok_back)
  qed
qed

lemma ready_replace:
  assumes "table_ok {} s" "detached a s" "\<forall>d. devs s a = Some d \<longrightarrow> \<not> test_flag UNVERIFIED d" "snap_devices s = Some T" "i < length T" "T ! i = Some old"
  shows "ready {old} a i T s"
  using assms view_ok_mono [of "{}" "fresh s" "table_view s" "fresh s" "{old}"] by (simp add: ready_def table_ok_def)

text \<open>The last part of the transition to incremental mode, once the new device is in the table.\<close>

definition finish_inc :: "('w, 'k) drv_kern_scheme \<Rightarrow> nat \<Rightarrow> nat \<Rightarrow> 'w drv \<Rightarrow> (int \<times> 'w drv) option" where
  "finish_inc K a old s3 = do {
     s4 \<leftarrow> destroy_cow_thread K old s3;
     old1 \<leftarrow> devs s4 old;
     (let err = tracer_read_fail_state old1 in
      if err \<noteq> 0 then do {
        s5 \<leftarrow> upd_dev a (\<lambda>d. tracer_set_fail_state d err) s4;
        s6 \<leftarrow> wake_up_cow_thread a s5;
        s7 \<leftarrow> destroy_snap K old s6;
        Some (err, kfree_dev old s7) }
      else do {
        s5 \<leftarrow> wake_up_cow_thread a s4;
        dev \<leftarrow> devs s5 a;
        c \<leftarrow> sd_cow dev;
        cm \<leftarrow> cows s5 c;
        (ret, cm1, w1) \<leftarrow> cow_truncate_to_index K cm (world s5);
        s6 \<leftarrow> (if ret \<noteq> 0 then do {
                f \<leftarrow> filp cm1;
                (_, _, w2) \<leftarrow> file_get_absolute_pathname K f True w1;
                Some (put_cow c cm1 (s5\<lparr>world := w2\<rparr>)) }
              else Some (put_cow c cm1 (s5\<lparr>world := w1\<rparr>)));
        s7 \<leftarrow> destroy_snap K old s6;
        Some (0, kfree_dev old s7) }) }"

lemma snap_to_inc_alt:
  "tracer_active_snap_to_inc K old s0 =
     (case tracer_alloc K s0 of
        (ret, None, s) \<Rightarrow> Some (ret, s)
      | (ret, Some a, s) \<Rightarrow> do {
          old_dev \<leftarrow> devs s old;
          s1 \<leftarrow> upd_dev a (\<lambda>d. (copy_base_dev old_dev (set_flags False True False d))\<lparr>sd_cow_path := sd_cow_path old_dev\<rparr>) s;
          s2 \<leftarrow> copy_cow old a s1;
          (ret, s3) \<leftarrow> and_then (setup_cow_thread K (kthread_create K) a False s2) (\<lambda>s. setup_tracing K a (sd_minor old_dev) s);
          (if ret \<noteq> 0 then do {
             s4 \<leftarrow> destroy_cow_thread K a s3;
             Some (ret, kfree_dev a s4) }
           else finish_inc K a old s3) })"
  by (simp only: tracer_active_snap_to_inc_def finish_inc_def)

lemma finish_inc_end: "finish_inc K a old s = Some (r, t) \<Longrightarrow> \<exists>t'. t = kfree_dev old t' \<and> steady s t'"
proof -
  assume fin: "finish_inc K a old s = Some (r, t)"
  note ops = destroy_cow_thread_steady wake_steady destroy_snap_steady
  from fin obtain s4 old1 where s4: "destroy_cow_thread K old s = Some s4" and o: "devs s4 old = Some old1"
    by (auto simp: finish_inc_def split: bind_splits)
  show ?thesis
  proof (cases "tracer_read_fail_state old1 = 0")
    case True
    with fin s4 o obtain s5 where s5: "wake_up_cow_thread a s4 = Some s5"
      by (auto simp: finish_inc_def Let_def split: bind_splits prod.splits if_splits)
    have "\<exists>s6. steady s5 s6 \<and> (\<exists>s7. destroy_snap K old s6 = Some s7 \<and> t = kfree_dev old s7)"
    proof -
      from fin s4 o True s5 obtain c cm1 w s6 s7 where "s6 = put_cow c cm1 (s5\<lparr>world := w\<rparr>)" "destroy_snap K old s6 = Some s7" "t = kfree_dev old s7"
        by (auto simp: finish_inc_def Let_def split: bind_splits prod.splits if_splits)
      moreover from this(1) have "steady s5 s6" by (simp add: steady_def table_view_def put_cow_def)
      ultimately show ?thesis by blast
    qed
    then obtain s6 s7 where e: "steady s5 s6" "destroy_snap K old s6 = Some s7" "t = kfree_dev old s7" by blast
    have "steady s s7" using ops(1) [OF s4] ops(2) [OF s5] e(1) ops(4) [OF e(2)] by (meson steady_trans)
    with e(3) show ?thesis by blast
  next
    case False
    with fin s4 o obtain s5 s6 s7 where e: "upd_dev a (\<lambda>d. tracer_set_fail_state d (tracer_read_fail_state old1)) s4 = Some s5"
      "wake_up_cow_thread a s5 = Some s6" "destroy_snap K old s6 = Some s7" "t = kfree_dev old s7"
      by (auto simp: finish_inc_def Let_def split: bind_splits)
    have "steady s4 s5" using e(1) by (auto simp: upd_dev_def key_defs split: bind_splits)
    then have "steady s s7" using ops(1) [OF s4] ops(2) [OF e(2)] ops(4) [OF e(3)] by (meson steady_trans)
    with e(4) show ?thesis by blast
  qed
qed

lemma snap_to_inc_ok:
  assumes ok: "table_ok {} s" and e: "table s i = Some (Some old)" and res: "tracer_active_snap_to_inc K old s = Some (r, t)"
  shows "table_ok {} t"
proof -
  obtain r0 x s1 where al: "tracer_alloc K s = (r0, x, s1)" by (metis prod_cases3)
  note A = tracer_alloc_ok [OF al ok]
  obtain d T where d: "snap_devices s = Some T" "i < length T" "T ! i = Some old" "devs s old = Some d" "sd_minor d = i" "old < fresh s"
    using entry_dev [OF ok e] by metis
  show ?thesis
  proof (cases x)
    case None
    with res al A show ?thesis by (simp add: tracer_active_snap_to_inc_def)
  next
    case (Some a)
    with A d(6) have a: "a \<noteq> old" "table_ok {} s1" "detached a s1" "snap_devices s1 = Some T" "devs s1 old = Some d" using d by auto
    from res al Some a(5) obtain s2 s3 r3 s4 where
      s2: "upd_dev a (\<lambda>e. (copy_base_dev d (set_flags False True False e))\<lparr>sd_cow_path := sd_cow_path d\<rparr>) s1 = Some s2"
      and s3: "copy_cow old a s2 = Some s3"
      and ch: "and_then (setup_cow_thread K (kthread_create K) a False s3) (\<lambda>s. setup_tracing K a i s) = Some (r3, s4)"
      and rest: "(if r3 \<noteq> 0 then do { s4 \<leftarrow> destroy_cow_thread K a s4; Some (r3, kfree_dev a s4) } else finish_inc K a old s4) = Some (r, t)"
      unfolding snap_to_inc_alt d(5) [symmetric] by (auto simp del: and_then_Some split: bind_splits)
    from upd_detached [OF s2 a(2,3)] have "table_ok {} s2" "detached a s2" "snap_devices s2 = Some T"
      and u: "\<forall>e. devs s2 a = Some e \<longrightarrow> \<not> test_flag UNVERIFIED e"
      using a(4) by (auto simp: copy_base_dev_def set_flags_def test_flag_def bit_unset_bit_iff)
    then have "ready {old} a i T s2" using d by (intro ready_replace)
    then have "ready {old} a i T s3" by (rule steady_ready [OF copy_cow_steady [OF s3]])
    with ch have out: "outcome {old} a i T r3 s4"
      by - ((erule chain_outcome, erule chain_steady, assumption)+, erule setup_tracing_outcome)
    have "\<exists>t'. steady s4 t' \<and> t = kfree_dev (if r3 = 0 then old else a) t'"
      using rest finish_inc_end [of K a old s4 r t] by (auto split: bind_splits if_splits dest!: destroy_cow_thread_steady)
    then obtain t' where "steady s4 t'" "t = kfree_dev (if r3 = 0 then old else a) t'" by blast
    with replaced_ok [OF ok d(1-3) a(1) out this(1)] show ?thesis by (cases "r3 = 0") simp_all
  qed
qed

text \<open>The last part of the transition to snapshot mode.\<close>

definition finish_snap :: "('w, 'k) drv_kern_scheme \<Rightarrow> nat \<Rightarrow> nat \<Rightarrow> int \<times> 'w drv \<Rightarrow> (int \<times> 'w drv) option" where
  "finish_snap K a old = (\<lambda>(ret, s2).
     (if ret \<noteq> 0 then do {
             s3 \<leftarrow> destroy_cow_thread K a s2;
             s4 \<leftarrow> destroy_snap K a s3;
             s5 \<leftarrow> destroy_cow_path a s4;
             (_, s6) \<leftarrow> destroy_cow K a 0 s5;
             Some (ret, kfree_dev a s6) }
           else do {
             s3 \<leftarrow> destroy_cow_thread K old s2;
             s4 \<leftarrow> wake_up_cow_thread a s3;
             s5 \<leftarrow> destroy_cow_path old s4;
             (_, s6) \<leftarrow> destroy_cow K old 1 s5;
             Some (0, kfree_dev old s6) }))"

lemma inc_to_snap_alt:
  "tracer_active_inc_to_snap K old cow_path fallocated_space s0 =
     (case tracer_alloc K s0 of
        (ret, None, s) \<Rightarrow> Some (ret, s)
      | (ret, Some a, s) \<Rightarrow> do {
          old_dev \<leftarrow> devs s old;
          s1 \<leftarrow> upd_dev a (\<lambda>d. copy_base_dev old_dev (set_flags True True False d)) s;
          oc \<leftarrow> sd_cow old_dev;
          ocm \<leftarrow> cows s1 oc;
          x \<leftarrow>
            and_then (with_dev a (\<lambda>d s. do { b \<leftarrow> sd_base_dev d;
                setup_cow K a b None cow_path (sd_size d) fallocated_space (sd_cache_size d)
                  (Some (uuid ocm)) (wrap64 (Suc (seqid ocm))) 0 s }) s1) (\<lambda>s.
            and_then (setup_cow_path K a s) (\<lambda>s.
            and_then (with_dev a (\<lambda>d. setup_snap K a (sd_minor old_dev) (sd_size d)) s) (\<lambda>s.
            and_then (setup_cow_thread K (kthread_create K) a True s) (\<lambda>s.
            setup_tracing K a (sd_minor old_dev) s))));
          finish_snap K a old x })"
  by (simp only: tracer_active_inc_to_snap_def finish_snap_def)

lemma steady_end: "steady s u \<Longrightarrow> t = kfree_dev b u \<Longrightarrow> \<exists>t'. steady s t' \<and> t = kfree_dev b t'"
  by blast

lemma finish_snap_end: "finish_snap K a old (r3, s4) = Some (r, t) \<Longrightarrow> \<exists>t'. steady s4 t' \<and> t = kfree_dev (if r3 = 0 then old else a) t'"
  by (cases "r3 = 0"; auto simp: finish_snap_def split: bind_splits dest!: destroy_cow_thread_steady destroy_snap_steady
        cow_path_steady(1) destroy_cow_steady wake_steady(1); rule steady_end [OF _ refl]; meson steady_trans)

lemma inc_to_snap_ok:
  assumes ok: "table_ok {} s" and e: "table s i = Some (Some old)" and res: "tracer_active_inc_to_snap K old cp fs s = Some (r, t)"
  shows "table_ok {} t"
proof -
  obtain r0 x s1 where al: "tracer_alloc K s = (r0, x, s1)" by (metis prod_cases3)
  note A = tracer_alloc_ok [OF al ok]
  obtain d T where d: "snap_devices s = Some T" "i < length T" "T ! i = Some old" "devs s old = Some d" "sd_minor d = i" "old < fresh s"
    using entry_dev [OF ok e] by metis
  show ?thesis
  proof (cases x)
    case None
    with res al A show ?thesis by (simp add: tracer_active_inc_to_snap_def)
  next
    case (Some a)
    with A d(6) have a: "a \<noteq> old" "table_ok {} s1" "detached a s1" "snap_devices s1 = Some T" "devs s1 old = Some d" using d by auto
    from res al Some a(5) obtain s2 r3 s4 and ocm :: cow_manager where
      s2: "upd_dev a (\<lambda>e. copy_base_dev d (set_flags True True False e)) s1 = Some s2"
      and ch: "and_then (with_dev a (\<lambda>d s. do { b \<leftarrow> sd_base_dev d;
                setup_cow K a b None cp (sd_size d) fs (sd_cache_size d) (Some (uuid ocm)) (wrap64 (Suc (seqid ocm))) 0 s }) s2) (\<lambda>s.
            and_then (setup_cow_path K a s) (\<lambda>s.
            and_then (with_dev a (\<lambda>d. setup_snap K a i (sd_size d)) s) (\<lambda>s.
            and_then (setup_cow_thread K (kthread_create K) a True s) (\<lambda>s.
            setup_tracing K a i s)))) = Some (r3, s4)"
      and rest: "finish_snap K a old (r3, s4) = Some (r, t)"
      unfolding inc_to_snap_alt d(5) [symmetric] by (auto simp del: and_then_Some split: bind_splits)
    from upd_detached [OF s2 a(2,3)] have "table_ok {} s2" "detached a s2" "snap_devices s2 = Some T"
      and u: "\<forall>e. devs s2 a = Some e \<longrightarrow> \<not> test_flag UNVERIFIED e"
      using a(4) by (auto simp: copy_base_dev_def set_flags_def test_flag_def bit_unset_bit_iff)
    then have "ready {old} a i T s2" using d by (intro ready_replace)
    with ch have out: "outcome {old} a i T r3 s4"
      by - ((erule chain_outcome, erule chain_steady, assumption)+, erule setup_tracing_outcome)
    from finish_snap_end [OF rest] obtain t' where "steady s4 t'" "t = kfree_dev (if r3 = 0 then old else a) t'" by blast
    with replaced_ok [OF ok d(1-3) a(1) out this(1)] show ?thesis by (cases "r3 = 0") simp_all
  qed
qed

section \<open>Verification of an unverified device\<close>

lemma unlist_entry:
  assumes ok: "table_ok X s" and T: "snap_devices s = Some T" "i < length T" "T ! i = Some a"
  shows "unlist a T = T[i := None]"
proof (rule unlist_slot [OF _ T(2,3)])
  obtain T' where T': "snap_devices s = Some T'" "length T' = max_snap_devices s" 
    "view_ok X (fresh s) (Some T', max_snap_devices s, lowest_minor s, highest_minor s, \<lambda>a. map_option slot_key (devs s a))"
    using ok by (rule table_ok_table)
  note D = view_okD(5) [OF T'(3)]
  fix j assume j: "j < length T" "T ! j = Some a"
  have TT: "T' = T" using T(1) T'(1) by simp
  obtain k where k: "map_option slot_key (devs s a) = Some k" "entry_ok j k"
    using D [of j a] j TT T'(2) by (metis)
  moreover obtain k' where "map_option slot_key (devs s a) = Some k'" "entry_ok i k'"
    using D [of i a] T TT T'(2) by (metis)
  ultimately have "entry_ok j k" "entry_ok i k" by simp_all
  then show "j = i" by (cases k) (simp add: entry_ok_def)
qed

lemma back_to_unverified_ok:
  assumes out: "outcome {} a i T r s" "r \<noteq> 0" and T: "i < length T" "T ! i = None" and fz: "freezes K"
    and res: "back_to_unverified K a i bp rp cs sn e s = Some t"
  shows "table_ok {} t"
proof -
  from res obtain s1 r2 s2 and d :: snap_device where s1: "tracer_destroy K a s = Some s1" and s2: "setup_unverified K a i bp rp cs (sd_ignore_snap_errors d) sn s1 = Some (r2, s2)"
    and t: "upd_dev a (\<lambda>d. tracer_set_fail_state d e) s2 = Some t"
    by (auto simp: back_to_unverified_def split: bind_splits)
  from outcome_destroy [OF out _ fz s1] have "table_ok {} s1" "detached a s1" "snap_devices s1 = Some T" using out(2) by (auto simp: outcome_def)
  from setup_unverified_outcome [OF this(1,2) _ this(3) T fz s2] have "table_ok {} s2" by (simp add: outcome_def)
  moreover have "steady s2 t" using t by (auto simp: upd_dev_def key_defs split: bind_splits)
  ultimately show ?thesis by (rule steady_table_ok [rotated])
qed

text \<open>Taking the entry of an unverified device away, before it is set up again.\<close>

lemma unverified_ready:
  assumes ok: "table_ok {} s" and T: "snap_devices s = Some T" "i < length T" "T ! i = Some a" and fz: "freezes K"
    and s1: "destroy_tracing K a s = Some s1"
    and s2: "upd_dev a (\<lambda>d. d\<lparr>sd_state := unset_bit UNVERIFIED (set_bit ACTIVE (sd_state d)), sd_bdev_path := None, sd_cow_path := None\<rparr>) s1 = Some s2"
  shows "ready {} a i (T[i := None]) s2"
  using destroy_tracing_ok [OF ok _ fz T(1) s1] unlist_entry [OF ok T] upd_detached [OF s2, of "{}"] T(2)
  by (auto simp: ready_def test_flag_def bit_unset_bit_iff)

lemma unverified_snap_ok:
  assumes ok: "table_ok {} s" and e: "table s i = Some (Some a)" and fz: "freezes K" and res: "tracer_unverified_snap_to_active K a u s = Some t"
  shows "table_ok {} t"
proof -
  obtain d T where d: "snap_devices s = Some T" "i < length T" "T ! i = Some a" "devs s a = Some d" "sd_minor d = i"
    using entry_dev [OF ok e] by metis
  from res d(4) obtain bp rp s1 s2 r s3 where s1: "destroy_tracing K a s = Some s1"
    and s2: "upd_dev a (\<lambda>d. d\<lparr>sd_state := unset_bit UNVERIFIED (set_bit ACTIVE (sd_state d)), sd_bdev_path := None, sd_cow_path := None\<rparr>) s1 = Some s2"
    and ch: "and_then (setup_base_dev K a bp s2) (\<lambda>s.
         and_then (with_dev a (\<lambda>d s. do { b \<leftarrow> sd_base_dev d;
                     setup_cow K a b u rp (sd_size d) 0 (sd_cache_size d) None 0 1 s }) s) (\<lambda>s.
         and_then (setup_cow_path K a s) (\<lambda>s.
         and_then (with_dev a (\<lambda>d. setup_snap K a i (sd_size d)) s) (\<lambda>s.
         and_then (setup_cow_thread K (kthread_create K) a True s) (\<lambda>s.
         and_then (wake a s) (\<lambda>s.
         setup_tracing K a i s)))))) = Some (r, s3)"
    and rest: "(if r \<noteq> 0 then back_to_unverified K a i bp rp (sd_cache_size d) True r s3 else Some s3) = Some t"
    unfolding tracer_unverified_snap_to_active_def d(5) [symmetric] by (auto simp: Let_def simp del: and_then_Some One_nat_def split: bind_splits)
  from ch unverified_ready [OF ok d(1-3) fz s1 s2] have out: "outcome {} a i (T[i := None]) r s3"
    by - ((erule chain_outcome, erule chain_steady, assumption)+, erule setup_tracing_outcome)
  show ?thesis
  proof (cases "r = 0")
    case True with rest out show ?thesis by (simp add: outcome_def)
  next
    case False with rest back_to_unverified_ok [OF out False _ _ fz] d(2) show ?thesis by simp
  qed
qed

lemma unverified_inc_ok:
  assumes ok: "table_ok {} s" and e: "table s i = Some (Some a)" and fz: "freezes K" and res: "tracer_unverified_inc_to_active K a u s = Some t"
  shows "table_ok {} t"
proof -
  obtain d T where d: "snap_devices s = Some T" "i < length T" "T ! i = Some a" "devs s a = Some d" "sd_minor d = i"
    using entry_dev [OF ok e] by metis
  from res d(4) obtain bp rp s1 s2 r s3 where s1: "destroy_tracing K a s = Some s1"
    and s2: "upd_dev a (\<lambda>d. d\<lparr>sd_state := unset_bit UNVERIFIED (set_bit ACTIVE (sd_state d)), sd_bdev_path := None, sd_cow_path := None\<rparr>) s1 = Some s2"
    and ch: "and_then (setup_base_dev K a bp s2) (\<lambda>s.
         and_then (with_dev a (\<lambda>d s. do { b \<leftarrow> sd_base_dev d;
                     setup_cow K a b u rp (sd_size d) 0 (sd_cache_size d) None 0 2 s }) s) (\<lambda>s.
         and_then (setup_cow_path K a s) (\<lambda>s.
         and_then (setup_cow_thread K (kthread_create K) a False s) (\<lambda>s.
         and_then (wake a s) (\<lambda>s.
         setup_tracing K a i s))))) = Some (r, s3)"
    and rest: "(if r \<noteq> 0 then back_to_unverified K a i bp rp (sd_cache_size d) False r s3 else Some s3) = Some t"
    unfolding tracer_unverified_inc_to_active_def d(5) [symmetric] by (auto simp: Let_def simp del: and_then_Some One_nat_def split: bind_splits)
  from ch unverified_ready [OF ok d(1-3) fz s1 s2] have out: "outcome {} a i (T[i := None]) r s3"
    by - ((erule chain_outcome, erule chain_steady, assumption)+, erule setup_tracing_outcome)
  show ?thesis
  proof (cases "r = 0")
    case True with rest out show ?thesis by (simp add: outcome_def)
  next
    case False with rest back_to_unverified_ok [OF out False _ _ fz] d(2) show ?thesis by simp
  qed
qed

section \<open>Mount events\<close>

lemma active_to_dormant_steady: "tracer_active_to_dormant K a s = Some t \<Longrightarrow> steady s t"
  by (auto simp: tracer_active_to_dormant_def upd_dev_def key_defs bit_unset_bit_iff ACTIVE_def UNVERIFIED_def split: bind_splits if_splits
      dest!: destroy_cow_thread_steady destroy_cow_steady)

lemma dormant_to_active_steady:
  assumes res: "tracer_dormant_to_active K a u s = Some t" and d: "devs s a = Some d" "\<not> test_flag UNVERIFIED d"
  shows "steady s t"
proof -
  from res obtain r s1 where ch: "and_then (with_dev a (\<lambda>d s. do { b \<leftarrow> sd_base_dev d; path \<leftarrow> sd_cow_path d;
                   setup_cow K a b u path 0 0 0 None 0 3 s }) s) (\<lambda>s.
       and_then (with_dev a (\<lambda>d. setup_cow_thread K (kthread_create K) a (test_flag SNAPSHOT d)) s) (\<lambda>s.
       wake a s)) = Some (r, s1)"
    and up: "upd_dev a (\<lambda>d. if r \<noteq> 0 then tracer_set_fail_state d r
                    else d\<lparr>sd_state := unset_bit UNVERIFIED (set_bit ACTIVE (sd_state d))\<rparr>) s1 = Some t"
    unfolding tracer_dormant_to_active_def by (auto simp del: and_then_Some split: bind_splits)
  have st: "steady s s1" using ch
    by (auto simp: and_then_eq_Some with_dev_def split: bind_splits if_splits dest!: setup_cow_steady setup_cow_thread_steady wake_steady(2))
       (meson steady_trans)+
  from up obtain x where x: "devs s1 a = Some x"
    "t = put_dev a (if r \<noteq> 0 then tracer_set_fail_state x r else x\<lparr>sd_state := unset_bit UNVERIFIED (set_bit ACTIVE (sd_state x))\<rparr>) s1"
    by (auto simp: upd_dev_def split: bind_splits)
  moreover have "\<not> test_flag UNVERIFIED x" using steady_dev [OF st x(1)] d by (auto simp: slot_key_def)
  ultimately have "steady s1 t" by (simp add: key_defs bit_unset_bit_iff)
  with st show ?thesis by (rule steady_trans)
qed

lemma to_active_ok:
  assumes "auto_transition_active K i u s = Some t" "freezes K" "table_ok {} s"
  shows "table_ok {} t"
  using assms(1) unverified_snap_ok [OF assms(3) _ assms(2)] unverified_inc_ok [OF assms(3) _ assms(2)]
    steady_table_ok [OF dormant_to_active_steady assms(3)]
  by (auto simp: auto_transition_active_def split: bind_splits if_splits)

lemma nowrite_steady: "nowrite_loop K b is s = Some (r, i, t) \<Longrightarrow> steady s t"
  by (induction K b "is" s rule: nowrite_loop.induct)
     (auto simp: auto_transition_dormant_def split: bind_splits option.splits if_splits dest: active_to_dormant_steady)

lemma world_table_ok: "table_ok X (s\<lparr>world := w\<rparr>) = table_ok X s"
  by (simp add: table_ok_def)

lemma table_ok_world: "table_ok X s \<Longrightarrow> table_ok X (s\<lparr>world := w\<rparr>)"
  by (simp add: world_table_ok)

lemma writable_ok: "writable_loop K u b is s = Some (r, i, t) \<Longrightarrow> freezes K \<Longrightarrow> table_ok {} s \<Longrightarrow> table_ok {} t"
proof (induction "is" arbitrary: s)
  case (Cons j "is")
  show ?case using Cons.prems
    by (auto simp: world_table_ok split: bind_splits option.splits if_splits prod.splits sum.splits intro: Cons.IH to_active_ok table_ok_world)
qed simp

lemma mount_event_ok:
  "handle_bdev_mount_event K u fl wr s = Some (r, i, t) \<Longrightarrow> freezes K \<Longrightarrow> table_ok {} s \<Longrightarrow> table_ok {} t"
  by (auto simp: handle_bdev_mount_event_def handle_bdev_mount_nowrite_def handle_bdev_mount_writable_def
      split: bind_splits option.splits if_splits prod.splits sum.splits intro: writable_ok steady_table_ok dest: nowrite_steady)

lemma upd_fail_ok: "upd_dev a (\<lambda>d. tracer_set_fail_state d e) s = Some t \<Longrightarrow> table_ok X s \<Longrightarrow> table_ok X t"
  by (rule steady_table_ok) (auto simp: upd_dev_def key_defs split: bind_splits)

lemma post_umount_ok: "post_umount_check K e r i u s = Some t \<Longrightarrow> freezes K \<Longrightarrow> table_ok {} s \<Longrightarrow> table_ok {} t"
  by (auto simp: post_umount_check_def Let_def world_table_ok
      split: bind_splits option.splits if_splits prod.splits sum.splits intro: upd_fail_ok to_active_ok table_ok_world)

lemma hooks_ok:
  "mount_hook K p u fl s = Some (r, t) \<Longrightarrow> freezes K \<Longrightarrow> table_ok {} s \<Longrightarrow> table_ok {} t"
  "umount_hook K u fl s = Some (r, t) \<Longrightarrow> freezes K \<Longrightarrow> table_ok {} s \<Longrightarrow> table_ok {} t"
  by (auto simp: mount_hook_def umount_hook_def Let_def world_table_ok
      split: bind_splits option.splits if_splits prod.splits dest!: mount_event_ok post_umount_ok)

section \<open>Commands\<close>

lemma verify_minor_free: "verify_minor i 0 s = Some 0 \<Longrightarrow> i < max_snap_devices s \<and> table s i = Some None"
  by (auto simp: verify_minor_def split: bind_splits if_splits)

lemma table_free: "table s i = Some None \<Longrightarrow> \<exists>T. snap_devices s = Some T \<and> i < length T \<and> T ! i = None"
  by (auto simp: table_def split: bind_splits if_splits)

lemma outcome_freed:
  assumes out: "outcome {} a i T r s"
  shows "table_ok {} (if r \<noteq> 0 then kfree_dev a s else s)"
  using out kfree_ok [of "{}" s a] by (auto simp: outcome_def detached_def)

text \<open>The part of \<^verbatim>\<open>__ioctl_setup\<close> after the allocation.\<close>

definition setup_device :: "('w, 'k) drv_kern_scheme \<Rightarrow> nat \<Rightarrow> string \<Rightarrow> string \<Rightarrow> nat \<Rightarrow> nat \<Rightarrow> bool \<Rightarrow> bool \<Rightarrow> bool \<Rightarrow> nat \<Rightarrow> 'w drv
    \<Rightarrow> (int \<times> 'w drv) option" where
  "setup_device K minor bdev_path cow_path fallocated_space cache_size ignore_snap_errors is_snap is_mounted a s2 = do {
              (ret, s3) \<leftarrow>
                (if is_snap then
                   (if is_mounted then tracer_setup_active_snap K a minor bdev_path cow_path fallocated_space cache_size ignore_snap_errors s2
                    else setup_unverified K a minor bdev_path cow_path cache_size ignore_snap_errors True s2)
                 else if \<not> is_mounted then setup_unverified K a minor bdev_path cow_path cache_size ignore_snap_errors False s2
                 else Some (- EINVAL, s2));
              Some (ret, if ret \<noteq> 0 then kfree_dev a s3 else s3) }"

lemma ioctl_setup_alt:
  "ioctl_setup K minor bdev_path cow_path fallocated_space cache_size ignore_snap_errors is_snap is_reload s = do {
     ret \<leftarrow> verify_minor minor 0 s;
     (if ret \<noteq> 0 then Some (ret, s)
      else (case verify_bdev_writable K bdev_path (world s) of (ret, is_mounted, w1) \<Rightarrow>
        let s1 = s\<lparr>world := w1\<rparr> in
        if ret \<noteq> 0 then Some (ret, s1)
        else if is_mounted \<and> is_reload then Some (- EINVAL, s1)
        else if \<not> is_mounted \<and> \<not> is_reload then Some (- EINVAL, s1)
        else (case tracer_alloc K s1 of
            (ret, None, s2) \<Rightarrow> Some (ret, s2)
          | (_, Some a, s2) \<Rightarrow>
              setup_device K minor bdev_path cow_path fallocated_space cache_size ignore_snap_errors is_snap is_mounted a s2))) }"
  by (simp only: ioctl_setup_def setup_device_def)

lemma setup_device_ok:
  assumes ok: "table_ok {} s" "detached a s" and T: "snap_devices s = Some T" "i < length T" "T ! i = None" and fz: "freezes K"
    and res: "setup_device K i bp cp fs cs ig sn mt a s = Some (r, t)"
  shows "table_ok {} t"
proof -
  have "a \<notin> {}" by simp
  note outs = active_snap_outcome [OF ok this T fz] setup_unverified_outcome [OF ok this T fz]
  from res obtain s3 where "outcome {} a i T r s3" "t = (if r \<noteq> 0 then kfree_dev a s3 else s3)"
    using ok T by (auto simp: setup_device_def outcome_def [of _ _ _ _ "- EINVAL"] split: bind_splits if_splits dest!: outs)
  with outcome_freed show ?thesis by metis
qed

lemma ioctl_setup_ok:
  assumes ok: "table_ok {} s" and fz: "freezes K" and res: "ioctl_setup K i bp cp fs cs ig sn rl s = Some (r, t)"
  shows "table_ok {} t"
proof -
  have al: "table_ok {} u" if "tracer_alloc K (s\<lparr>world := w\<rparr>) = (r, x, u)" for r x u w
    using tracer_alloc_ok [OF that, of "{}"] ok by (simp add: world_table_ok)
  have dev: "table_ok {} t" if "verify_minor i 0 s = Some 0" "tracer_alloc K (s\<lparr>world := w\<rparr>) = (r0, Some a, s2)"
    "setup_device K i bp cp fs cs ig sn mt a s2 = Some (r, t)" for w r0 a s2 mt
  proof -
    from table_free [OF conjunct2 [OF verify_minor_free [OF that(1)]]] obtain T where T: "snap_devices s = Some T" "i < length T" "T ! i = None"
      by blast
    from tracer_alloc_ok [OF that(2)] ok T(1) have "table_ok {} s2" "detached a s2" "snap_devices s2 = Some T" by (auto simp: world_table_ok)
    with setup_device_ok [OF _ _ _ T(2,3) fz that(3)] show ?thesis by blast
  qed
  show ?thesis using res ok
    by (auto simp: ioctl_setup_alt Let_def world_table_ok split: bind_splits prod.splits option.splits if_splits intro: al dev)
qed

lemma destroy_kfree_ok:
  assumes "table_ok {} s" "freezes K" "tracer_destroy K a s = Some t"
  shows "table_ok {} (kfree_dev a t)"
proof -
  obtain T where "snap_devices s = Some T" using assms(1) by (rule table_ok_table)
  with tracer_destroy_ok [OF assms(1) _ assms(2) _ assms(3)] kfree_ok [of "{}" t a] show ?thesis by (auto simp: detached_def)
qed

lemma handlers_ok:
  "ioctl_destroy K i s = Some (r, t) \<Longrightarrow> freezes K \<Longrightarrow> table_ok {} s \<Longrightarrow> table_ok {} t"
  "ioctl_transition_inc K i s = Some (r, t) \<Longrightarrow> table_ok {} s \<Longrightarrow> table_ok {} t"
  "ioctl_transition_snap K i cp fs s = Some (r, t) \<Longrightarrow> table_ok {} s \<Longrightarrow> table_ok {} t"
  "ioctl_reconfigure i c s = Some (r, t) \<Longrightarrow> table_ok {} s \<Longrightarrow> table_ok {} t"
  by (auto simp: ioctl_destroy_def ioctl_transition_inc_def ioctl_transition_snap_def ioctl_reconfigure_def split: bind_splits if_splits
      intro: destroy_kfree_ok snap_to_inc_ok inc_to_snap_ok elim: steady_table_ok [OF reconfigure_steady])

lemma wait_same: "wait_for_release p s = Some t \<Longrightarrow> t = s"
  by (auto simp: wait_for_release_def split: bind_splits)

lemma setup_wait:
  "and_then m (\<lambda>s1. do { p \<leftarrow> table s1 i; s2 \<leftarrow> wait_for_release p s1; Some (0, s2) }) = Some (r, t) \<Longrightarrow> \<exists>r'. m = Some (r', t)"
  by (cases m) (auto simp: and_then_eq_Some wait_for_release_def bind_eq_Some_conv split: if_splits)

lemma ctrl_ioctl_ok:
  assumes "ctrl_ioctl K cmd arg s = Some (r, t)" "freezes K" "table_ok {} s"
  shows "table_ok {} t"
proof (cases cmd)
  case IOCTL_TRANSITION_INC
  with assms show ?thesis
    by (auto simp: ctrl_ioctl_def split: bind_splits sum.splits if_splits dest!: wait_same intro: handlers_ok)
next
  case IOCTL_SETUP_SNAP
  with assms show ?thesis
    by (auto simp: ctrl_ioctl_def split: sum.splits prod.splits dest!: setup_wait intro: ioctl_setup_ok)
qed (use assms in \<open>auto simp: ctrl_ioctl_def world_table_ok split: bind_splits sum.splits if_splits prod.splits option.splits
       intro: handlers_ok ioctl_setup_ok\<close>)

section \<open>Loading\<close>

lemma used_empty: "used (replicate n None) = {}"
  by (auto simp: used_def)

lemma agent_init_ok:
  assumes "agent_init K h (drv_loaded mx mem pct eb fo hs w) = Some (0, s)"
  shows "table_ok {} s"
proof -
  from assms obtain n w' where "0 < n" "s = (drv_loaded mx mem pct eb fo hs w)\<lparr>max_snap_devices := n, highest_minor := 0, lowest_minor := n - 1,
     snap_devices := Some (replicate n None), world := w'\<rparr>"
    by (auto simp: agent_init_def drv_loaded_def Let_def ELASTIO_SNAP_DEFAULT_SNAP_DEVICES_def ELASTIO_SNAP_MAX_SNAP_DEVICES_def
        split: prod.splits option.splits if_splits bind_splits)
  then show ?thesis by (simp add: table_ok_def table_view_def drv_loaded_def low_minor_def high_minor_def used_empty)
qed

end
