(* ===== verification/Module_Run.thy ===== *)
theory Module_Run
  imports Table_Ops Machine
begin

text \<open>
  The runs of the loaded module: the ioctl commands, the hooked system calls, the requests on the
  traced and the snapshot devices, the completions of the clones, the kernel threads, opens and
  releases, in any order, with the world outside changing in between. The device table is
  consistent in every state such a run reaches.
\<close>

section \<open>Steps\<close>

text \<open>\<^verbatim>\<open>ioctl_mutex\<close> serialises the commands and the transitions of one device that a mount event
  makes, the queue locks the rest, so a run is a sequence of these steps. A mount or umount
  event is a step of its own (\<open>mount\<close>, \<open>umount\<close>), but the code holds the mutex only around each
  transition; the transitions are therefore steps too (\<open>dormant\<close>, \<open>active\<close>, \<open>post_umount\<close>), so that
  the other steps may come between those of one event.\<close>

inductive module_step :: "('w, 'k) module_kern_scheme \<Rightarrow> 'w drv \<Rightarrow> 'w drv \<Rightarrow> bool" for K where
  ioctl: "ctrl_ioctl K cmd arg s = Some (r, t) \<Longrightarrow> module_step K s t"
| mount: "mount_hook K dev_name dir_name fl s = Some (r, t) \<Longrightarrow> module_step K s t"
| umount: "umount_hook K name fl s = Some (r, t) \<Longrightarrow> module_step K s t"
| dormant: "auto_transition_dormant K i s = Some t \<Longrightarrow> module_step K s t"
| active: "auto_transition_active K i u s = Some t \<Longrightarrow> module_step K s t"
| post_umount: "post_umount_check K e r i u s = Some t \<Longrightarrow> module_step K s t"
| request: "tracing_mrf K b s = Some (r, t) \<Longrightarrow> module_step K s t"
| read_complete: "on_bio_read_complete b e s = Some t \<Longrightarrow> module_step K s t"
| snap_request: "snap_mrf K a b s = Some t \<Longrightarrow> module_step K s t"
| cow_thread: "snap_cow_thread K a n f s = Some (f', t) \<Longrightarrow> module_step K s t"
| inc_thread: "inc_sset_thread K a n f s = Some (f', t) \<Longrightarrow> module_step K s t"
| mrf_thread: "snap_mrf_thread K a n s = Some t \<Longrightarrow> module_step K s t"
| open_snap: "snap_open p s = Some (r, t) \<Longrightarrow> module_step K s t"
| release_snap: "snap_release p s = Some (r, t) \<Longrightarrow> module_step K s t"
| outside: "module_step K s (s\<lparr>world := w\<rparr>)"

inductive reachable :: "('w, 'k) module_kern_scheme \<Rightarrow> 'w drv \<Rightarrow> bool" for K where
  loaded: "agent_init K h (drv_loaded mx mem pct eb fo hs w) = Some (0, s) \<Longrightarrow> reachable K s"
| step: "reachable K s \<Longrightarrow> module_step K s t \<Longrightarrow> reachable K t"

lemma to_dormant_ok: "auto_transition_dormant K i s = Some t \<Longrightarrow> table_ok {} s \<Longrightarrow> table_ok {} t"
  by (auto simp: auto_transition_dormant_def split: bind_splits dest!: active_to_dormant_steady elim: steady_table_ok)

lemma module_step_ok: "module_step K s t \<Longrightarrow> freezes K \<Longrightarrow> table_ok {} s \<Longrightarrow> table_ok {} t"
  by (induction rule: module_step.induct)
     (auto simp: snap_open_def snap_release_def world_table_ok intro: ctrl_ioctl_ok hooks_ok to_active_ok post_umount_ok to_dormant_ok
       elim: steady_table_ok [OF request_steady(1)] steady_table_ok [OF request_steady(2)] steady_table_ok [OF request_steady(3)]
         steady_table_ok [OF cow_thread_steady] steady_table_ok [OF inc_thread_steady] steady_table_ok [OF mrf_thread_steady]
         steady_table_ok [OF add_ref_steady])

lemma reachable_ok: "reachable K s \<Longrightarrow> freezes K \<Longrightarrow> table_ok {} s"
  by (induction rule: reachable.induct) (auto intro: agent_init_ok module_step_ok)

text \<open>What the invariant says of the devices.\<close>

lemma minor_range:
  assumes "table_ok {} s" "snap_devices s = Some T" "i < length T" "T ! i = Some a"
  shows "i \<in> set (tracer_for_each s)"
proof -
  obtain T' where T: "snap_devices s = Some T'" 
    "view_ok {} (fresh s) (Some T', max_snap_devices s, lowest_minor s, highest_minor s, \<lambda>a. map_option slot_key (devs s a))"
    using assms(1) by (rule table_ok_table)
  have "i \<in> used T" using assms by (simp add: used_def)
  then have "low_minor T \<le> i" "i \<le> high_minor T" by (simp_all add: low_minor_def high_minor_def)
  then show ?thesis using view_okD(3,4) [OF T(2)] T(1) assms(2) by (simp add: tracer_for_each_def less_Suc_eq_le del: upt_Suc)
qed

lemma table_device:
  assumes ok: "table_ok {} s" and T: "snap_devices s = Some T" "i < length T" "T ! i = Some a"
  obtains d where "devs s a = Some d" "sd_minor d = i" 
    "if test_flag UNVERIFIED d then sd_orig_mrf d = None \<and> sd_tracing_ops d = None else sd_orig_mrf d \<noteq> None \<and> sd_tracing_ops d \<noteq> None"
proof -
  obtain T' where T': "snap_devices s = Some T'" "length T' = max_snap_devices s"
    "view_ok {} (fresh s) (Some T', max_snap_devices s, lowest_minor s, highest_minor s, \<lambda>a. map_option slot_key (devs s a))"
    using ok by (rule table_ok_table)
  have "\<exists>k. map_option slot_key (devs s a) = Some k \<and> entry_ok i k" using view_okD(5) [OF T'(3), of i a] T T'(1,2) by simp
  then obtain d where "devs s a = Some d" "entry_ok i (slot_key d)" by blast
  then show ?thesis using that by (simp add: entry_ok_def slot_key_def)
qed

lemma traced_listed:
  assumes ok: "table_ok {} s" and T: "snap_devices s = Some T" and d: "devs s a = Some d" "sd_orig_mrf d \<noteq> None \<or> sd_tracing_ops d \<noteq> None"
  shows "sd_minor d < length T \<and> T ! sd_minor d = Some a"
proof -
  obtain T' where T': "snap_devices s = Some T'" "length T' = max_snap_devices s"
    "view_ok {} (fresh s) (Some T', max_snap_devices s, lowest_minor s, highest_minor s, \<lambda>a. map_option slot_key (devs s a))"
    using ok by (rule table_ok_table)
  from view_okD(6) [OF T'(3), of a "slot_key d"] d T T' show ?thesis by (auto simp: idle_def slot_key_def)
qed

section \<open>A file system that does not freeze\<close>

definition stuck :: "('w, 'k) drv_kern_scheme \<Rightarrow> bool" where
  "stuck K \<longleftrightarrow> (\<forall>b w. get_super K b w \<noteq> None \<and> fst (freeze_bdev K b w) \<noteq> 0)"

abbreviation slots :: "'w drv \<Rightarrow> nat option list option \<times> nat" where
  "slots s \<equiv> (snap_devices s, max_snap_devices s)"

lemma steady_slots: "steady s t \<Longrightarrow> slots t = slots s"
  by (simp add: steady_def table_view_def)

lemma transition_stuck: "stuck K \<Longrightarrow> tracer_transition_tracing K a b ops i start s = Some (r, t) \<Longrightarrow> slots t = slots s"
  by (auto simp: tracer_transition_tracing_def stuck_def Let_def split: prod.splits if_splits) (metis fst_conv)+

lemma clear_entry_stuck: "stuck K \<Longrightarrow> clear_entry K a d reset s = Some t \<Longrightarrow> slots t = slots s"
  by (cases reset; cases "test_flag ACTIVE d")
     (auto simp: clear_entry_def split: bind_splits
        dest!: transition_stuck setup_cow_thread_steady [THEN steady_slots] wake_steady [THEN steady_slots] destroy_cow_thread_steady [THEN steady_slots])

lemma destroy_stuck:
  assumes st: "stuck K" and d: "devs s a = Some d" "sd_orig_mrf d \<noteq> None" and res: "tracer_destroy K a s = Some t"
  shows "slots t = slots s"
proof -
  from res obtain s1 where s1: "destroy_tracing K a s = Some s1" and "steady s1 t"
    by (auto simp: tracer_destroy_def split: bind_splits dest!: destroy_cow_thread_steady destroy_snap_steady cow_path_steady(1) destroy_cow_steady
        destroy_base_dev_steady) (meson steady_trans)
  from s1 d obtain x s2 s3 s4 where "clear_entry K a d x s = Some s2" and s3: "free_mrf_and_ops a s2 = Some s3"
    and s4: "upd_dev a (\<lambda>d. d\<lparr>sd_minor := 0\<rparr>) s3 = Some s4" "minor_range_recalculate s4 = Some s1"
    by (auto simp: destroy_tracing_alt split: bind_splits)
  then have "slots s2 = slots s" using clear_entry_stuck [OF st] by blast
  moreover have "slots s3 = slots s2" using s3
    by (auto simp: free_mrf_and_ops_def upd_dev_def put_dev_def split: bind_splits option.splits dest!: tracing_ops_steady(2) [THEN steady_slots])
  moreover have "slots s1 = slots s3" using s4
    by (auto simp: upd_dev_def put_dev_def minor_range_recalculate_def Let_def split: bind_splits if_splits)
  ultimately show ?thesis using steady_slots [OF \<open>steady s1 t\<close>] by simp
qed

text \<open>What the commands do on a minor whose entry points to a freed device.\<close>

lemma stale_entry:
  assumes "table t i = Some (Some a)" "devs t a = None" "i < max_snap_devices t"
  shows "ioctl_destroy K i t = None" "ioctl_transition_inc K i t = None" "ioctl_transition_snap K i p n t = None"
    "ioctl_reconfigure i c t = None" "info_minor info = i \<Longrightarrow> ioctl_elastio_snap_info info t = None"
    "ioctl_setup K i b p n c ign snap rel t = Some (- EBUSY, t)"
  using assms
  by (simp_all add: ioctl_destroy_def ioctl_transition_inc_def ioctl_transition_snap_def ioctl_reconfigure_def ioctl_elastio_snap_info_def
      ioctl_setup_def verify_minor_def)

section \<open>Properties\<close>

text \<open>C5: In every state the loaded module reaches, the table has \<^verbatim>\<open>max_snap_devices\<close> entries; an
  entry that is not NULL is a live device that carries the index as its minor, is visited by
  \<^verbatim>\<open>tracer_for_each\<close> and is traced unless it is unverified; and every device that is traced is
  in the table at its minor. File systems are assumed to freeze when asked.\<close>

theorem device_table_invariant:
  assumes "reachable K s" "freezes K"
  shows "\<exists>T. snap_devices s = Some T \<and> length T = max_snap_devices s \<and>
    (\<forall>i a. i < length T \<and> T ! i = Some a \<longrightarrow> i \<in> set (tracer_for_each s) \<and>
       (\<exists>d. devs s a = Some d \<and> sd_minor d = i \<and>
          (if test_flag UNVERIFIED d then sd_orig_mrf d = None \<and> sd_tracing_ops d = None else sd_orig_mrf d \<noteq> None \<and> sd_tracing_ops d \<noteq> None))) \<and>
    (\<forall>a d. devs s a = Some d \<and> (sd_orig_mrf d \<noteq> None \<or> sd_tracing_ops d \<noteq> None) \<longrightarrow> sd_minor d < length T \<and> T ! sd_minor d = Some a)"
proof -
  note ok = reachable_ok [OF assms]
  obtain T where T: "snap_devices s = Some T" "length T = max_snap_devices s" using ok by (rule table_ok_table)
  show ?thesis
  proof (intro exI [of _ T] conjI allI impI)
    fix i a assume "i < length T \<and> T ! i = Some a"
    then have i: "i < length T" "T ! i = Some a" by simp_all
    show "i \<in> set (tracer_for_each s)" using minor_range [OF ok T(1) i] .
    show "\<exists>d. devs s a = Some d \<and> sd_minor d = i \<and>
       (if test_flag UNVERIFIED d then sd_orig_mrf d = None \<and> sd_tracing_ops d = None else sd_orig_mrf d \<noteq> None \<and> sd_tracing_ops d \<noteq> None)"
      using table_device [OF ok T(1) i] by metis
  qed (use T traced_listed [OF ok T(1)] in blast)+
qed

text \<open>C27: When freezing the file system fails, destroying a traced device leaves its entry in the
  table although the device is freed: \<^verbatim>\<open>__tracer_destroy_tracing\<close> ignores the error. Every
  later command on that minor that looks at the device (destroy, the two transitions,
  reconfigure, info) follows the stale pointer, and the minor stays taken: setup and reload
  return \<^verbatim>\<open>-EBUSY\<close>.\<close>

theorem failed_freeze_leaves_stale_entry:
  assumes "stuck K" "table s i = Some (Some a)" "devs s a = Some d" "sd_orig_mrf d \<noteq> None" "ioctl_destroy K i s = Some (0, t)"
  shows "table t i = Some (Some a) \<and> devs t a = None \<and>
    ioctl_destroy K i t = None \<and> ioctl_transition_inc K i t = None \<and> ioctl_transition_snap K i p n t = None \<and>
    ioctl_reconfigure i c t = None \<and> ioctl_elastio_snap_info (info\<lparr>info_minor := i\<rparr>) t = None \<and>
    ioctl_setup K i b p n c ign snap rel t = Some (- EBUSY, t)"
proof -
  from assms obtain s1 where s1: "tracer_destroy K a s = Some s1" "t = kfree_dev a s1" and i: "i < max_snap_devices s"
    by (auto simp: ioctl_destroy_def verify_minor_def split: bind_splits if_splits)
  have slots: "slots t = slots s" using destroy_stuck [OF assms(1,3,4) s1(1)] s1(2) by (simp add: kfree_dev_def)
  have stale: "table t i = Some (Some a)" "devs t a = None" "i < max_snap_devices t"
    using slots assms(2) i s1(2) by (simp_all add: table_def kfree_dev_def)
  then show ?thesis by (simp add: stale_entry [OF stale])
qed

section \<open>Concrete runs\<close>

definition ram_module :: "ram module_kern" where
  "ram_module = mount_kern.extend (ioctl_kern.extend (drv_kern.extend (ram_drv\<lparr>get_super := \<lambda>d w. None\<rparr>)
     (ioctl_kern.fields (\<lambda>a w. Some \<lparr>p_bdev = Some 1, p_cow = Some 2, p_fallocated_space = 0, p_cache_size = 0, p_minor = 3, p_ignore_snap_errors = False\<rparr>)
        (\<lambda>a w. Some \<lparr>r_bdev = Some 1, r_cow = Some 2, r_cache_size = 0, r_minor = 3, r_ignore_snap_errors = False\<rparr>)
        (\<lambda>a w. None) (\<lambda>a w. None) (\<lambda>a w. None) (\<lambda>a w. Inr 3) (\<lambda>a i w. (True, w)) (\<lambda>a i w. (True, w))))
     (mount_kern.fields (\<lambda>n b w. Inr (True, Some 2)) (\<lambda>n d f w. (0, w)) (\<lambda>n f w. (0, w))))
     (module_kern.fields (\<lambda>w. (1, w)) (\<lambda>w. (True, w)) (\<lambda>w. (0, w)) (\<lambda>w. (0, w)) (\<lambda>w. w))"

lemmas ram_module_defs = ram_module_def module_kern.defs mount_kern.defs ioctl_kern.defs ram_drv_defs

lemma ram_module_simps [simp]:
  "kmalloc ram_module n w = (Some (\<lambda>_. 0), w)" "register_blkdev ram_module w = (1, w)" "proc_create ram_module w = (True, w)"
  "misc_register ram_module w = (0, w)" "hook_system_call_table ram_module w = (0, w)" "get_super ram_module b w = None"
  "freeze_bdev ram_module b w = (0, w)" "blkdev_get_by_path ram_module p w = (Inr 2, w)" "blkdev_put ram_module b w = w"
  "strndup_user ram_module u w = Inr ''/dev/sda''"
  "copy_reload ram_module a w = Some \<lparr>r_bdev = Some 1, r_cow = Some 2, r_cache_size = 0, r_minor = 3, r_ignore_snap_errors = False\<rparr>"
  by (simp_all add: ram_module_defs)

definition demo_loaded :: "ram drv" where
  "demo_loaded = (drv_loaded 24 1000 10 0 (\<lambda>_. KernelOps 1) (\<lambda>_. True) (\<lambda>_ _. 0))
     \<lparr>max_snap_devices := 24, highest_minor := 0, lowest_minor := 23, snap_devices := Some (replicate 24 None)\<rparr>"

lemma demo_load: "agent_init ram_module True (drv_loaded 24 1000 10 0 (\<lambda>_. KernelOps 1) (\<lambda>_. True) (\<lambda>_ _. 0)) = Some (0, demo_loaded)"
  by (simp add: agent_init_def demo_loaded_def drv_loaded_def ELASTIO_SNAP_MAX_SNAP_DEVICES_def)

lemma demo_reload: "\<exists>t. ctrl_ioctl ram_module IOCTL_RELOAD_SNAP 0 demo_loaded = Some (0, t) \<and> table t 3 = Some (Some 1)"
  by (simp add: ctrl_ioctl_def get_reload_params_def copy_string_from_user_def ioctl_setup_def verify_minor_def verify_bdev_writable_def
      demo_loaded_def drv_loaded_def table_def tracer_alloc_def setup_unverified_def upd_dev_def put_dev_def set_flags_def tracer_init_def
      zero_dev_def setup_tracing_unverified_def free_mrf_and_ops_def minor_range_include_def set_table_def)

text \<open>A traced device on a file system that does not freeze.\<close>

definition stuck_module :: "ram drv_kern" where
  "stuck_module = ram_drv\<lparr>freeze_bdev := \<lambda>b w. (- EBUSY, w)\<rparr>"

lemma stuck_module_stuck: "stuck stuck_module"
  by (simp add: stuck_def stuck_module_def ram_drv_defs)

definition demo_traced :: "ram drv" where
  "demo_traced = demo_loaded
     \<lparr>lowest_minor := 3, highest_minor := 3, snap_devices := Some ((replicate 24 None)[3 := Some 1]), fresh := 3,
      devs := [1 \<mapsto> zero_dev\<lparr>sd_minor := 3, sd_state := 3, sd_base_dev := Some 2, sd_orig_ops := Some (KernelOps 1),
        sd_orig_mrf := Some (OrigMrf 1), sd_tracing_ops := Some 2\<rparr>],
      trops := [2 \<mapsto> \<lparr>to_bd_ops = TracingOps 2, to_has_submit_bio = True, to_refs = 1\<rparr>]\<rparr>"

lemma stuck_module_simps [simp]:
  "freeze_bdev stuck_module b w = (- EBUSY, w)" "get_super stuck_module b w = Some (1, False)" "disk_of stuck_module b = Some b"
  "fops_submit_bio stuck_module n = Some n" "blkdev_put stuck_module b w = w"
  by (simp_all add: stuck_module_def ram_drv_defs)

lemma demo_traced_destroy: "\<exists>t. ioctl_destroy stuck_module 3 demo_traced = Some (0, t)"
proof -
  define d where "d = zero_dev\<lparr>sd_minor := 3, sd_state := 3, sd_base_dev := Some 2, sd_orig_ops := Some (KernelOps 1),
        sd_orig_mrf := Some (OrigMrf 1), sd_tracing_ops := Some 2\<rparr>"
  have d: "sd_minor d = 3" "sd_base_dev d = Some 2" "sd_orig_mrf d = Some (OrigMrf 1)" "sd_tracing_ops d = Some 2" "sd_refs d = 0"
    "sd_cow_thread d = None" "sd_mrf_thread d = False" "sd_gd d = None" "sd_cow d = None"
    by (simp_all add: d_def zero_dev_def)
  have no: "(\<forall>x. x) = False" "(\<exists>x. x) = True" by blast+
  show ?thesis unfolding demo_traced_def d_def [symmetric]
  by (simp add: ioctl_destroy_def verify_minor_def demo_loaded_def drv_loaded_def table_def tracer_destroy_def d no
     destroy_tracing_def tracer_should_reset_mrf_def bdev_ops_def ops_submit_bio_def tracer_transition_tracing_def free_mrf_and_ops_def
     tracing_ops_put_def upd_dev_def put_dev_def minor_range_recalculate_def destroy_cow_thread_def destroy_snap_def stop_mrf_thread_def
     destroy_cow_path_def destroy_cow_def destroy_base_dev_def Let_def)
qed

theorem device_table_invariant_witness:
  "\<exists>s. reachable ram_module s \<and> table s 3 = Some (Some 1) \<and> 3 \<in> set (tracer_for_each s) \<and> (\<exists>d. devs s 1 = Some d \<and> sd_minor d = 3)"
proof -
  obtain t where t: "ctrl_ioctl ram_module IOCTL_RELOAD_SNAP 0 demo_loaded = Some (0, t)" "table t 3 = Some (Some 1)" using demo_reload by blast
  have r: "reachable ram_module t" by (rule reachable.step [OF reachable.loaded [OF demo_load] module_step.ioctl [OF t(1)]])
  have "freezes ram_module" by (simp add: freezes_def)
  from device_table_invariant [OF r this] obtain T where "snap_devices t = Some T"
    and T: "\<forall>i a. i < length T \<and> T ! i = Some a \<longrightarrow> i \<in> set (tracer_for_each t) \<and> (\<exists>d. devs t a = Some d \<and> sd_minor d = i)" by metis
  moreover from this(1) t(2) have "3 < length T" "T ! 3 = Some 1" by (auto simp: table_def split: if_splits)
  ultimately have "3 \<in> set (tracer_for_each t)" "\<exists>d. devs t 1 = Some d \<and> sd_minor d = 3" by blast+
  with r t(2) show ?thesis by blast
qed

theorem failed_freeze_leaves_stale_entry_witness:
  "\<exists>t. ioctl_destroy stuck_module 3 demo_traced = Some (0, t) \<and> table t 3 = Some (Some 1) \<and> devs t 1 = None \<and>
     ioctl_destroy stuck_module 3 t = None"
proof -
  have "table demo_traced 3 = Some (Some 1)" by (simp add: demo_traced_def table_def demo_loaded_def drv_loaded_def)
  moreover obtain d where "devs demo_traced 1 = Some d" "sd_orig_mrf d \<noteq> None" by (simp add: demo_traced_def zero_dev_def)
  ultimately show ?thesis using failed_freeze_leaves_stale_entry [OF stuck_module_stuck] demo_traced_destroy by blast
qed

end
