(* ===== verification/Inc_Trace.thy ===== *)
theory Inc_Trace
  imports Steady Threads
begin

text \<open>
  What tracing a write in incremental mode does as a whole (\<^verbatim>\<open>inc_trace_bio\<close>): the sector sets it
  queues for the thread cover the written sectors, all of them and no others, except those that
  belong to the cow file, and the write goes on to the original function of the device. Once the
  thread has run, the index of the cow file marks the blocks of those sectors.
\<close>

section \<open>The sectors to mark\<close>

definition marked :: "sector_set list \<Rightarrow> nat set" where
  "marked new = (\<Union>ss \<in> set new. {ss_sect ss ..< ss_sect ss + ss_len ss})"

text \<open>The sectors of the segments whose page is not of the cow file, from sector \<open>sect\<close> on.\<close>

fun foreign :: "nat option \<Rightarrow> nat \<Rightarrow> bio_vec list \<Rightarrow> nat set" where
  "foreign ino sect [] = {}"
| "foreign ino sect (v # vs) =
     (if page_get_inode (bv_page v) \<noteq> ino then {sect ..< sect + bv_len v div 512} else {}) \<union> foreign ino (sect + bv_len v div 512) vs"

definition seg_sectors :: "bio_vec list \<Rightarrow> nat" where
  "seg_sectors vs = (\<Sum>v\<leftarrow>vs. bv_len v div 512)"

definition to_mark :: "snap_device \<Rightarrow> bio \<Rightarrow> nat set" where
  "to_mark dev b =
     (if \<not> on_bdev dev \<or> bi_op b = REQ_OP_WRITE_ZEROES then {bi_sector b ..< bi_sector b + bi_size b div 512}
      else if bio_is_discard b then {} else foreign (sd_cow_inode dev) (bi_sector b) (bio_segments b))"

definition queued :: "nat \<Rightarrow> sector_set list \<Rightarrow> 'w drv \<Rightarrow> 'w drv \<Rightarrow> bool" where
  "queued a new s t \<longleftrightarrow> (\<exists>d. devs s a = Some d \<and> devs t = (devs s)(a \<mapsto> d\<lparr>sd_pending_ssets := sd_pending_ssets d @ new\<rparr>)) \<and>
     cows t = cows s \<and> (\<forall>ss \<in> set new. 0 < ss_len ss)"

lemma queued_trans: "queued a xs s t \<Longrightarrow> queued a ys t u \<Longrightarrow> queued a (xs @ ys) s u"
  by (auto simp: queued_def)

lemma queued_refl: "devs s a = Some d \<Longrightarrow> queued a [] s s"
  by (auto simp: queued_def)

lemma queued_dev: "queued a new s t \<Longrightarrow> devs s a = Some d \<Longrightarrow> devs t a = Some (d\<lparr>sd_pending_ssets := sd_pending_ssets d @ new\<rparr>)"
  by (auto simp: queued_def)

lemma marked_simps [simp]: "marked [] = {}" "marked (xs @ ys) = marked xs \<union> marked ys"
  by (auto simp: marked_def)

lemma make_sset_effect:
  assumes "inc_make_sset K a sect len s = Some (r, t)" "devs s a = Some d" "0 < len mod 2 ^ 32"
  shows "r = 0 \<and> queued a [\<lparr>ss_sect = sub64 sect (sd_sect_off d), ss_len = len mod 2 ^ 32\<rparr>] s t \<or> r \<noteq> 0 \<and> devs t a = Some d"
  using assms by (auto simp: inc_make_sset_def queued_def put_dev_def split: prod.splits option.splits)

lemma interval_shift: "(k::nat) \<le> m \<Longrightarrow> {m - k ..< m - k + n} = (\<lambda>x. x - k) ` {m ..< m + n}"
proof -
  assume k: "k \<le> m"
  have "x \<in> (\<lambda>x. x - k) ` {m ..< m + n}" if "x \<in> {m - k ..< m - k + n}" for x
    using that k by (intro image_eqI [of _ _ "x + k"]) auto
  then show ?thesis using k by auto
qed

lemma make_sset_marks:
  assumes "inc_make_sset K a sect len s = Some (0, t)" "devs s a = Some d" "sd_sect_off d \<le> sect" "sect < 2 ^ 64" "0 < len" "len < 2 ^ 32"
  shows "\<exists>new. queued a new s t \<and> marked new = (\<lambda>x. x - sd_sect_off d) ` {sect ..< sect + len}"
  using make_sset_effect [OF assms(1,2)] interval_shift [OF assms(3), of len] assms(3-6)
  by (auto simp: marked_def sub64_ge)

lemma inc_segments_marks:
  "inc_segments K a ino vs opened start stop s = Some (0, t) \<Longrightarrow> devs s a = Some d \<Longrightarrow>
    (if opened then sd_sect_off d \<le> start \<and> start \<le> stop \<and> stop - start + seg_sectors vs < 2 ^ 32 else seg_sectors vs < 2 ^ 32) \<Longrightarrow>
    sd_sect_off d \<le> stop \<Longrightarrow> stop + seg_sectors vs < 2 ^ 64 \<Longrightarrow>
    \<exists>new. queued a new s t \<and> marked new = (\<lambda>x. x - sd_sect_off d) ` ((if opened then {start ..< stop} else {}) \<union> foreign ino stop vs)"
proof (induction vs arbitrary: opened start stop s d)
  case Nil
  show ?case
  proof (cases "opened \<and> start < stop")
    case True
    with Nil have "inc_make_sset K a start (stop - start) s = Some (0, t)" "stop - start < 2 ^ 32" "start < 2 ^ 64"
      by (auto simp: seg_sectors_def sub64_ge)
    with make_sset_marks [of K a start "stop - start" s t d] Nil True show ?thesis by (auto simp: seg_sectors_def)
  next
    case False
    with Nil have "t = s" "opened \<Longrightarrow> start = stop" by (auto simp: seg_sectors_def sub64_ge split: if_splits)
    with queued_refl [OF Nil.prems(2)] show ?thesis by (auto intro!: exI [of _ "[]"])
  qed
next
  case (Cons v vs)
  let ?n = "bv_len v div 512"
  have n: "seg_sectors (v # vs) = ?n + seg_sectors vs" by (simp add: seg_sectors_def)
  then have stop: "wrap64 (stop + ?n) = stop + ?n" "sd_sect_off d \<le> stop + ?n" "stop + ?n + seg_sectors vs < 2 ^ 64"
    using Cons.prems(4,5) by (auto simp: wrap64_id)
  note IH = Cons.IH [OF _ _ _ stop(2,3)]
  show ?case
  proof (cases "page_get_inode (bv_page v) \<noteq> ino")
    case True
    define start' where "start' = (if opened then start else stop)"
    have run: "inc_segments K a ino vs True start' (stop + ?n) s = Some (0, t)"
      using Cons.prems(1) True stop(1) by (simp add: start'_def)
    have "sd_sect_off d \<le> start' \<and> start' \<le> stop + ?n \<and> stop + ?n - start' + seg_sectors vs < 2 ^ 32"
      using Cons.prems(3,4) n by (auto simp: start'_def split: if_splits)
    with Cons.IH [OF run Cons.prems(2) _ stop(2,3)] obtain new where
      new: "queued a new s t" "marked new = (\<lambda>x. x - sd_sect_off d) ` ({start' ..< stop + ?n} \<union> foreign ino (stop + ?n) vs)" by auto
    have "{start' ..< stop + ?n} = (if opened then {start ..< stop} else {}) \<union> {stop ..< stop + ?n}"
      using Cons.prems(3) by (auto simp: start'_def)
    with new True show ?thesis by (auto simp: Un_assoc)
  next
    case False
    show ?thesis
    proof (cases "opened \<and> start < stop")
      case True
      then have lt: "0 < sub64 stop start" "sub64 stop start = stop - start" using Cons.prems(5) by (auto simp: sub64_ge)
      with Cons.prems(1) False True stop(1) obtain s1 where
        mk: "inc_make_sset K a start (stop - start) s = Some (0, s1)" and run: "inc_segments K a ino vs False start (stop + ?n) s1 = Some (0, t)"
        by (auto split: bind_splits if_splits)
      have "sd_sect_off d \<le> start" "start < 2 ^ 64" "0 < stop - start" "stop - start < 2 ^ 32" using Cons.prems(3,5) True by auto
      from make_sset_marks [OF mk Cons.prems(2) this] obtain new where
        new: "queued a new s s1" "marked new = (\<lambda>x. x - sd_sect_off d) ` {start ..< stop}" using True by auto
      from new(1) Cons.prems(2) obtain d1 where d1: "devs s1 a = Some d1" "sd_sect_off d1 = sd_sect_off d" by (auto simp: queued_def)
      have "seg_sectors vs < 2 ^ 32" using Cons.prems(3) n True by auto
      with Cons.IH [OF run d1(1)] stop d1(2) obtain new' where
        "queued a new' s1 t" "marked new' = (\<lambda>x. x - sd_sect_off d) ` foreign ino (stop + ?n) vs" by auto
      with new False True show ?thesis by (intro exI [of _ "new @ new'"]) (auto intro: queued_trans)
    next
      case shut: False
      have run: "inc_segments K a ino vs False start (stop + ?n) s = Some (0, t)"
        using Cons.prems(1,3,5) False shut stop(1) by (auto simp: sub64_ge split: if_splits)
      have "seg_sectors vs < 2 ^ 32" using Cons.prems(3) n by (auto split: if_splits)
      with Cons.IH [OF run Cons.prems(2) _ stop(2,3)] obtain new where
        "queued a new s t" "marked new = (\<lambda>x. x - sd_sect_off d) ` foreign ino (stop + ?n) vs" by auto
      moreover have "(if opened then {start ..< stop} else {}) = {}" using shut by auto
      ultimately show ?thesis using False by auto
    qed
  qed
qed

lemma seg_sectors_take: "seg_sectors (take_segs n vs) \<le> n div 512"
proof (induction n vs rule: take_segs.induct)
  case (2 n v vs)
  then show ?case by (auto simp: seg_sectors_def)
qed (simp add: seg_sectors_def)

lemma inc_trace_effect:
  assumes run: "inc_trace_bio K a b s = Some (r, s')" and dev: "devs s a = Some dev"
    and fine: "devs s' a = Some dev'" "tracer_read_fail_state dev' = 0"
    and range: "sd_sect_off dev \<le> bi_sector b" "0 < bi_size b div 512" "bi_size b < 2 ^ 32" "bi_sector b + bi_size b div 512 < 2 ^ 64"
  obtains new m s1 where "queued a new (put_dev a (bump_traced b dev) s) s1" "marked new = (\<lambda>x. x - sd_sect_off dev) ` to_mark dev b"
    "sd_orig_mrf dev = Some m" "call_mrf K m b (world s1) = (r, world s')" "s' = s1\<lparr>world := world s'\<rparr>"
proof -
  let ?d = "bump_traced b dev" and ?s = "put_dev a (bump_traced b dev) s"
  have d: "devs ?s a = Some ?d" by simp
  have keep: "on_bdev ?d = on_bdev dev" "sd_cow_inode ?d = sd_cow_inode dev" "sd_sect_off ?d = sd_sect_off dev" "sd_orig_mrf ?d = sd_orig_mrf dev"
    by (simp_all add: bump_traced_def on_bdev_def)
  define mark where "mark = (if \<not> on_bdev dev \<or> bi_op b = REQ_OP_WRITE_ZEROES then inc_make_sset K a (bi_sector b) (bi_size b div 512) ?s
      else if bio_is_discard b then Some (0, ?s) else inc_segments K a (sd_cow_inode dev) (bio_segments b) False 0 (bi_sector b) ?s)"
  have eval: "inc_trace_bio K a b s = do { (ret, s1) \<leftarrow> mark; s2 \<leftarrow> (if ret \<noteq> 0 then set_fail a ret s1 else Some s1); call_orig_mrf K a b s2 }"
    by (simp add: inc_trace_bio_def dev keep Let_def mark_def cong: if_cong)
  obtain ret s1 s2 where mk: "mark = Some (ret, s1)" and s2: "(if ret \<noteq> 0 then set_fail a ret s1 else Some s1) = Some s2"
    and call: "call_orig_mrf K a b s2 = Some (r, s')"
    using run unfolding eval by (auto split: bind_splits)
  obtain m w1 where m: "sd_orig_mrf dev' = Some m" "call_mrf K m b (world s2) = (r, w1)" "s' = s2\<lparr>world := w1\<rparr>"
    using call fine(1) by (auto simp: call_orig_mrf_def split: bind_splits prod.splits)
  have ret: "ret = 0"
  proof (rule ccontr)
    assume "ret \<noteq> 0"
    with s2 obtain d1 where "s2 = put_dev a (tracer_set_fail_state d1 ret) s1" by (auto simp: set_fail_def split: bind_splits)
    with m(3) fine \<open>ret \<noteq> 0\<close> show False by (auto simp: tracer_read_fail_state_def fail_state_first)
  qed
  have small: "bi_sector b < 2 ^ 64" "bi_size b div 512 < 2 ^ 32" using range(3,4) by auto
  have segs: "seg_sectors (bio_segments b) \<le> bi_size b div 512" by (simp add: bio_segments_def seg_sectors_take)
  have off: "sd_sect_off ?d \<le> bi_sector b" using range(1) keep by simp
  have "\<exists>new. queued a new ?s s1 \<and> marked new = (\<lambda>x. x - sd_sect_off ?d) ` to_mark dev b"
  proof (cases "\<not> on_bdev dev \<or> bi_op b = REQ_OP_WRITE_ZEROES")
    case True
    with mk ret have "inc_make_sset K a (bi_sector b) (bi_size b div 512) ?s = Some (0, s1)" by (simp add: mark_def)
    from make_sset_marks [OF this d off small(1) range(2) small(2)] show ?thesis using True by (simp add: to_mark_def)
  next
    case whole: False
    show ?thesis
    proof (cases "bio_is_discard b")
      case True
      with whole mk have "s1 = ?s" by (simp add: mark_def)
      with True whole show ?thesis using queued_refl [OF d] by (auto simp: to_mark_def intro!: exI [of _ "[]"])
    next
      case False
      with whole mk ret have "inc_segments K a (sd_cow_inode dev) (bio_segments b) False 0 (bi_sector b) ?s = Some (0, s1)"
        by (simp add: mark_def)
      from inc_segments_marks [OF this d _ off] segs small range(4) show ?thesis using False whole by (simp add: to_mark_def)
    qed
  qed
  then obtain new where new: "queued a new ?s s1" "marked new = (\<lambda>x. x - sd_sect_off ?d) ` to_mark dev b" by blast
  have s1: "s1 = s2" using s2 ret by simp
  have "sd_orig_mrf dev = Some m" using queued_dev [OF new(1) d] m(1,3) fine(1) s1 by (auto simp: bump_traced_def)
  then show ?thesis using that [OF new(1), of m] new(2) m(2,3) s1 keep by simp
qed

text \<open>C11: Tracing a write in incremental mode, when it does not fail, queues sector sets that together
  hold exactly the sectors to mark, counted from the start of the traced area: all sectors of the
  write, without those whose pages belong to the cow file on the same device. A discard on a
  device that holds its own cow file marks nothing, as the code has it. The write is handed to the
  original function of the device unchanged.\<close>

theorem inc_trace_marks_writes:
  assumes run: "inc_trace_bio K a b s = Some (r, s')" and dev: "devs s a = Some dev"
    and fine: "devs s' a = Some dev'" "tracer_read_fail_state dev' = 0"
    and range: "sd_sect_off dev \<le> bi_sector b" "0 < bi_size b div 512" "bi_size b < 2 ^ 32" "bi_sector b + bi_size b div 512 < 2 ^ 64"
  shows "\<exists>new m w. sd_pending_ssets dev' = sd_pending_ssets dev @ new \<and> marked new = (\<lambda>x. x - sd_sect_off dev) ` to_mark dev b \<and>
     sd_orig_mrf dev = Some m \<and> call_mrf K m b w = (r, world s')"
proof -
  obtain new m s1 where new: "queued a new (put_dev a (bump_traced b dev) s) s1" "marked new = (\<lambda>x. x - sd_sect_off dev) ` to_mark dev b"
    "sd_orig_mrf dev = Some m" "call_mrf K m b (world s1) = (r, world s')" "s' = s1\<lparr>world := world s'\<rparr>"
    by (rule inc_trace_effect [OF assms])
  have "devs s' a = devs s1 a" by (subst new(5)) simp
  then have "dev' = (bump_traced b dev)\<lparr>sd_pending_ssets := sd_pending_ssets dev @ new\<rparr>"
    using queued_dev [OF new(1), of "bump_traced b dev"] fine(1) by (simp add: bump_traced_def)
  with new(2-4) show ?thesis by auto
qed

section \<open>A write that passes over the cow file\<close>

text \<open>Three pages from sector 43 on; the second belongs to the cow file, inode 1.\<close>

definition three_pages :: bio where
  "three_pages = (demo_bio 1 REQ_OP_WRITE 43)\<lparr>bi_size := 12288, bi_io_vec :=
     [\<lparr>bv_page = Some demo_page, bv_len = 4096, bv_offset = 0\<rparr>, \<lparr>bv_page = Some (demo_page\<lparr>pg_host := Some 1\<rparr>), bv_len = 4096, bv_offset = 0\<rparr>,
      \<lparr>bv_page = Some demo_page, bv_len = 4096, bv_offset = 0\<rparr>]\<rparr>"

definition inc_dev :: snap_device where
  "inc_dev = demo_snap\<lparr>sd_cow_state := set_bit COW_ON_BDEV 0, sd_state := set_bit ACTIVE 0, sd_sect_off := 40\<rparr>"

lemma three_pages_marked: "to_mark inc_dev three_pages = {43 ..< 51} \<union> {59 ..< 67}"
  by (auto simp: to_mark_def on_bdev_def inc_dev_def demo_snap_def zero_dev_def three_pages_def demo_bio_def bio_is_discard_def bio_segments_def
      page_get_inode_def demo_page_def bit_set_bit_iff possible_bit_def)

lemma inc_dev_fields: "sd_pending_ssets inc_dev = []" "sd_orig_mrf inc_dev = Some NullMrf" "sd_fail_code inc_dev = 0" "sd_sect_off inc_dev = 40"
  "sd_cow_inode inc_dev = Some 1" "on_bdev inc_dev"
  by (simp_all add: inc_dev_def demo_snap_def zero_dev_def on_bdev_def bit_set_bit_iff possible_bit_def)

lemma three_pages_size: "bi_sector three_pages = 43" "bi_size three_pages = 12288"
  by (simp_all add: three_pages_def demo_bio_def)

lemma three_pages_traced:
  "\<exists>s' dev'. inc_trace_bio ram_blk 0 three_pages (demo_drv inc_dev cm w) = Some (0, s') \<and> devs s' 0 = Some dev' \<and> tracer_read_fail_state dev' = 0"
  "\<exists>s' dev'. inc_trace_bio disk_blk 0 three_pages (demo_drv inc_dev cm w) = Some (0, s') \<and> devs s' 0 = Some dev' \<and> tracer_read_fail_state dev' = 0 \<and>
     world s' = disk_write three_pages w"
  using inc_dev_fields
  by (simp_all add: inc_trace_bio_def demo_drv_def three_pages_def demo_bio_def bio_is_discard_def bio_segments_def page_get_inode_def demo_page_def
      inc_make_sset_def sub64_def wrap64_def Let_def bump_traced_def on_bdev_def call_orig_mrf_def tracer_read_fail_state_def put_dev_def)

theorem inc_trace_marks_writes_witness:
  "\<exists>s' dev'. inc_trace_bio ram_blk 0 three_pages (demo_drv inc_dev demo_saved_cm ram1) = Some (0, s') \<and> devs s' 0 = Some dev' \<and>
     5 \<in> marked (sd_pending_ssets dev') \<and> 12 \<notin> marked (sd_pending_ssets dev') \<and> 20 \<in> marked (sd_pending_ssets dev')"
proof -
  have d: "devs (demo_drv inc_dev demo_saved_cm ram1) 0 = Some inc_dev" by (simp add: demo_drv_def)
  obtain s' dev' where r: "inc_trace_bio ram_blk 0 three_pages (demo_drv inc_dev demo_saved_cm ram1) = Some (0, s')" "devs s' 0 = Some dev'"
    "tracer_read_fail_state dev' = 0" using three_pages_traced(1) by blast
  from inc_trace_marks_writes [OF r(1) d r(2,3)]
  have "marked (sd_pending_ssets dev') = (\<lambda>x. x - 40) ` ({43 ..< 51} \<union> {59 ..< 67})"
    by (auto simp: three_pages_marked inc_dev_fields three_pages_size)
  moreover have "\<dots> = {3 ..< 11} \<union> {19 ..< 27}" using interval_shift [of 40 43 8] interval_shift [of 40 59 8] by (simp add: image_Un)
  ultimately show ?thesis using r by auto
qed

section \<open>From the write to the index\<close>

text \<open>Handing the write \<open>b\<close> to a function of the device leaves the contents of the cow file as they are:
  the file system has given the sectors of the cow file to nobody else, and its own writes of
  the cow file store what the file already holds. (A raw write over the cow file is excluded.)\<close>

definition leaves_file :: "('w, 'k) blk_kern_scheme \<Rightarrow> ('w \<Rightarrow> nat \<Rightarrow> buf) \<Rightarrow> bio \<Rightarrow> nat \<Rightarrow> bool" where
  "leaves_file K fd b g \<longleftrightarrow> (\<forall>m w. fd (snd (call_mrf K m b w)) g = fd w g)"

definition leaves_cow_file :: "('w, 'k) blk_kern_scheme \<Rightarrow> ('w \<Rightarrow> nat \<Rightarrow> buf) \<Rightarrow> bio \<Rightarrow> snap_device \<Rightarrow> 'w drv \<Rightarrow> bool" where
  "leaves_cow_file K fd b dev s \<longleftrightarrow> (\<forall>c cm. sd_cow dev = Some c \<and> cows s c = Some cm \<longrightarrow> leaves_file K fd b (cow_file cm))"

lemma leaves_fileD: "leaves_file K fd b g \<Longrightarrow> call_mrf K m b w = (r, w') \<Longrightarrow> fd w' g = fd w g"
  unfolding leaves_file_def by (metis snd_conv)

lemma make_sset_files: "file_laws K fd \<Longrightarrow> inc_make_sset K a n l s = Some (r, t) \<Longrightarrow> fd (world t) = fd (world s)"
  by (auto simp: inc_make_sset_def split: prod.splits option.splits bind_splits dest!: alloc_lawD)

lemma inc_segments_files: "file_laws K fd \<Longrightarrow> inc_segments K a i vs op m n s = Some (r, t) \<Longrightarrow> fd (world t) = fd (world s)"
  by (induction K a i vs op m n s rule: inc_segments.induct) (auto split: bind_splits if_splits dest!: make_sset_files)

lemma inc_trace_files:
  assumes laws: "file_laws K fd" "leaves_file K fd b g" and run: "inc_trace_bio K a b s = Some (r, t)"
  shows "fd (world t) g = fd (world s) g"
  using run
  by (auto simp: inc_trace_bio_def call_orig_mrf_def set_fail_def Let_def split: bind_splits prod.splits if_splits
      dest!: make_sset_files [OF laws(1)] inc_segments_files [OF laws(1)] leaves_fileD [OF laws(2)])

lemma foreign_range: "foreign ino sect vs \<subseteq> {sect ..< sect + seg_sectors vs}"
  by (induction ino sect vs rule: foreign.induct) (auto simp: seg_sectors_def)

lemma to_mark_range: "to_mark dev b \<subseteq> {bi_sector b ..< bi_sector b + bi_size b div 512}"
proof -
  have "seg_sectors (bio_segments b) \<le> bi_size b div 512" by (simp add: bio_segments_def seg_sectors_take)
  with foreign_range [of "sd_cow_inode dev" "bi_sector b" "bio_segments b"]
  have "foreign (sd_cow_inode dev) (bi_sector b) (bio_segments b) \<subseteq> {bi_sector b ..< bi_sector b + bi_size b div 512}" by fastforce
  then show ?thesis by (simp add: to_mark_def)
qed

lemma marked_touched: "(\<exists>ss \<in> set new. touched ss q) \<longleftrightarrow> (\<exists>x \<in> marked new. x div 8 = q)"
  by (auto simp: touched_def marked_def)

lemma new_ssets_ok:
  assumes "marked new = (\<lambda>x. x - k) ` to_mark dev b" "\<forall>ss \<in> set new. 0 < ss_len ss"
    and "bi_sector b + bi_size b div 512 \<le> k + 8 * (4096 * T)" "bi_sector b + bi_size b div 512 < 2 ^ 63" "k \<le> bi_sector b"
  shows "\<forall>ss \<in> set new. sset_ok T ss"
proof
  fix ss assume ss: "ss \<in> set new"
  with assms(2) have len: "0 < ss_len ss" by blast
  then have "ss_sect ss + ss_len ss - 1 \<in> marked new" using ss by (force simp: marked_def)
  then obtain x where x: "x \<in> to_mark dev b" "ss_sect ss + ss_len ss - 1 = x - k" unfolding assms(1) by blast
  from x(1) to_mark_range [of dev b] have "bi_sector b \<le> x" "x < bi_sector b + bi_size b div 512" by auto
  with x(2) len assms(3-5) show "sset_ok T ss" by (auto simp: sset_ok_def)
qed

lemma traced_inv:
  assumes laws: "file_laws K fd" "leaves_cow_file K fd b dev s" and inv: "inc_inv fd T a dev view f s"
    and run: "inc_trace_bio K a b s = Some (r, s')" and fine: "devs s' a = Some dev'" "tracer_read_fail_state dev' = 0"
    and range: "sd_sect_off dev \<le> bi_sector b" "0 < bi_size b div 512" "bi_size b < 2 ^ 32" "bi_sector b + bi_size b div 512 < 2 ^ 63"
      "bi_sector b + bi_size b div 512 \<le> sd_sect_off dev + 8 * (4096 * T)"
  shows "\<exists>new. sd_pending_ssets dev' = sd_pending_ssets dev @ new \<and> marked new = (\<lambda>x. x - sd_sect_off dev) ` to_mark dev b \<and>
    inc_inv fd T a dev' view f s'"
proof -
  have dev: "devs s a = Some dev" using inv by (simp add: inc_inv_def)
  have lt: "bi_sector b + bi_size b div 512 < 2 ^ 64" using range(4) by simp
  obtain new m s1 where new: "queued a new (put_dev a (bump_traced b dev) s) s1" "marked new = (\<lambda>x. x - sd_sect_off dev) ` to_mark dev b"
    "sd_orig_mrf dev = Some m" "call_mrf K m b (world s1) = (r, world s')" "s' = s1\<lparr>world := world s'\<rparr>"
    by (rule inc_trace_effect [OF run dev fine range(1-3) lt])
  have s': "devs s' = devs s1" "cows s' = cows s1" by (subst new(5), simp)+
  let ?d = "(bump_traced b dev)\<lparr>sd_pending_ssets := sd_pending_ssets dev @ new\<rparr>"
  have d': "devs s' = (devs s)(a \<mapsto> ?d)" "cows s' = cows s" and pos: "\<forall>ss \<in> set new. 0 < ss_len ss"
    using new(1) s' by (auto simp: queued_def bump_traced_def)
  have dev': "dev' = ?d" using d' fine(1) by simp
  note ok = new_ssets_ok [OF new(2) pos range(5,4,1)]
  have view: "mapping_view fd cm (world s') = mapping_view fd cm (world s)" if "sd_cow dev = Some c" "cows s c = Some cm" for c cm
  proof -
    from laws(2) that have "leaves_file K fd b (cow_file cm)" by (simp add: leaves_cow_file_def)
    from inc_trace_files [OF laws(1) this run] show ?thesis by (simp add: fun_eq_iff mapping_view_def cow_bytes_def)
  qed
  have same: "sd_fail_code dev' = sd_fail_code dev" "sd_cow dev' = sd_cow dev" by (simp_all add: dev' bump_traced_def)
  have "inc_inv fd T a dev' view f s'"
    using inv ok view by (auto simp: inc_inv_def d' same) (auto simp: dev')
  then show ?thesis using new(2) dev' by auto
qed

text \<open>C7: A write in incremental mode reaches the index of changed blocks: when the write has been
  traced without an error and the thread has worked off the list, and no error has been recorded
  by then, the index marks exactly the blocks it marked before, the blocks of the sets that were
  pending, and the blocks of the sectors of the write that do not belong to the cow file (none for
  a discard on a device that holds its own cow file). What the device does with the write must
  leave the contents of the cow file as they are.\<close>

theorem changed_blocks_recorded:
  assumes "file_laws K fd" "leaves_cow_file K fd b dev s" and "inc_inv fd T a dev view f s"
    and "inc_trace_bio K a b s = Some (r, s')" and "devs s' a = Some dev'" "tracer_read_fail_state dev' = 0"
    and "sd_sect_off dev \<le> bi_sector b" "0 < bi_size b div 512" "bi_size b < 2 ^ 32" "bi_sector b + bi_size b div 512 < 2 ^ 63"
      "bi_sector b + bi_size b div 512 \<le> sd_sect_off dev + 8 * (4096 * T)"
  shows "\<exists>f2 s2 dev2. inc_sset_thread K a (length (sd_pending_ssets dev')) f s' = Some (f2, s2) \<and> devs s2 a = Some dev2 \<and>
     sd_pending_ssets dev2 = [] \<and>
     (sd_fail_code dev2 = 0 \<longrightarrow> (\<exists>c cm. sd_cow dev2 = Some c \<and> cows s2 c = Some cm \<and> mapping_view fd cm (world s2) =
        (\<lambda>q. if (\<exists>x \<in> to_mark dev b. (x - sd_sect_off dev) div 8 = q) \<or> (\<exists>ss \<in> set (sd_pending_ssets dev). touched ss q) then 1 else view q)))"
proof -
  from traced_inv [OF assms] obtain new where new: "sd_pending_ssets dev' = sd_pending_ssets dev @ new"
    "marked new = (\<lambda>x. x - sd_sect_off dev) ` to_mark dev b" and inv: "inc_inv fd T a dev' view f s'" by blast
  obtain f2 s2 dev2 where run: "inc_sset_thread K a (length (sd_pending_ssets dev')) f s' = Some (f2, s2)" "sd_pending_ssets dev2 = []"
    "inc_inv fd T a dev2 (\<lambda>q. if \<exists>ss\<in>set (sd_pending_ssets dev'). touched ss q then 1 else view q) f2 s2"
    using inc_thread_rounds [OF assms(1) inv refl] unfolding fold_mark [abs_def] by blast
  have eq: "(\<exists>ss\<in>set (sd_pending_ssets dev'). touched ss q) \<longleftrightarrow>
      (\<exists>x \<in> to_mark dev b. (x - sd_sect_off dev) div 8 = q) \<or> (\<exists>ss \<in> set (sd_pending_ssets dev). touched ss q)" for q
    using marked_touched [of new q] by (auto simp: new)
  show ?thesis using run unfolding inc_inv_def eq by blast
qed

theorem changed_blocks_recorded_witness:
  "\<exists>s' dev' f2 s2 dev2. inc_trace_bio disk_blk 0 three_pages (demo_drv inc_dev demo_cm (ram0(2 := \<lambda>_. 1))) = Some (0, s') \<and>
     world s' 2 22016 = 0 \<and> devs s' 0 = Some dev' \<and>
     inc_sset_thread disk_blk 0 (length (sd_pending_ssets dev')) False s' = Some (f2, s2) \<and> devs s2 0 = Some dev2 \<and> sd_pending_ssets dev2 = []"
proof -
  let ?w = "ram0(2 := \<lambda>_. 1)"
  have "mapping_view (\<lambda>w. w) demo_cm ?w = (\<lambda>_. 0)"
    by (rule ext) (simp add: mapping_view_def demo_cm_def sect_word_def)
  then have inv: "inc_inv (\<lambda>w. w) 1 0 inc_dev (\<lambda>_. 0) False (demo_drv inc_dev demo_cm ?w)"
    using demo_cm_ok by (simp add: inc_inv_def demo_drv_def inc_dev_def demo_snap_def zero_dev_def sset_ok_def) (simp add: demo_cm_def)
  obtain s' dev' where r: "inc_trace_bio disk_blk 0 three_pages (demo_drv inc_dev demo_cm ?w) = Some (0, s')" "devs s' 0 = Some dev'"
    "tracer_read_fail_state dev' = 0" and w: "world s' = disk_write three_pages ?w" using three_pages_traced(2) by blast
  have "leaves_cow_file disk_blk (\<lambda>w. w) three_pages inc_dev (demo_drv inc_dev demo_cm ?w)"
    by (simp add: leaves_cow_file_def leaves_file_def demo_drv_def cow_file_def demo_cm_def disk_write_def ram_write_def)
  moreover have "world s' 2 22016 = 0"
    by (simp add: w disk_write_def three_pages_def demo_bio_def bio_sectors_def ram_write_def demo_page_def)
  ultimately show ?thesis
    using changed_blocks_recorded [OF disk_blk_file_laws _ inv r] r(1,2) inc_dev_fields three_pages_size by auto
qed

end
