(* ===== verification/Direct_IO.thy ===== *)
theory Direct_IO
  imports Cow_File
begin

text \<open>
  Transfers through the extents. While the cow file is closed (\<^verbatim>\<open>cm->filp\<close> is null) its blocks
  are read and written on the base device itself, at the places fiemap gave
  (\<^verbatim>\<open>file_read_block\<close>, \<^verbatim>\<open>file_write_block\<close>). Such a transfer does to the bytes of the file what a
  transfer through the file system does, and touches no other byte of any device.
\<close>

section \<open>What the block layer promises\<close>

text \<open>\<open>dv w d a\<close> is byte \<open>a\<close> of device \<open>d\<close>. \<^verbatim>\<open>submit_bio_wait\<close> answers 0 or a negative error.\<close>

definition disk_read_law :: "('w, 'k) kern_scheme \<Rightarrow> ('w \<Rightarrow> nat \<Rightarrow> buf) \<Rightarrow> bool" where
  "disk_read_law K dv \<longleftrightarrow> (\<forall>d s n w r b w'. submit_read K d s n w = (r, b, w') \<longrightarrow>
     r \<le> 0 \<and> dv w' = dv w \<and> (r = 0 \<longrightarrow> (\<forall>i<n. b i = dv w d (512 * s + i))))"

definition disk_write_law :: "('w, 'k) kern_scheme \<Rightarrow> ('w \<Rightarrow> nat \<Rightarrow> buf) \<Rightarrow> bool" where
  "disk_write_law K dv \<longleftrightarrow> (\<forall>d s b n w r w'. submit_write K d s b n w = (r, w') \<longrightarrow>
     r \<le> 0 \<and> (\<forall>g a. g \<noteq> d \<or> a < 512 * s \<or> 512 * s + n \<le> a \<longrightarrow> dv w' g a = dv w g a) \<and>
     (r = 0 \<longrightarrow> (\<forall>i<n. dv w' d (512 * s + i) = b i)))"

definition disk_laws :: "('w, 'k) kern_scheme \<Rightarrow> ('w \<Rightarrow> nat \<Rightarrow> buf) \<Rightarrow> bool" where
  "disk_laws K dv \<longleftrightarrow> disk_read_law K dv \<and> disk_write_law K dv \<and>
     (\<forall>w. dv (snd (bio_alloc K w)) = dv w) \<and> (\<forall>n w. dv (snd (kmalloc K n w)) = dv w)"

lemma disk_readD:
  assumes "disk_laws K dv" "submit_read K d s n w = (r, b, w')"
  shows "r \<le> 0" "dv w' = dv w" "r = 0 \<Longrightarrow> i < n \<Longrightarrow> b i = dv w d (512 * s + i)"
  using assms unfolding disk_laws_def disk_read_law_def by blast+

lemma disk_writeD:
  assumes "disk_laws K dv" "submit_write K d s b n w = (r, w')"
  shows "r \<le> 0" "g \<noteq> d \<or> a < 512 * s \<or> 512 * s + n \<le> a \<Longrightarrow> dv w' g a = dv w g a"
    "r = 0 \<Longrightarrow> i < n \<Longrightarrow> dv w' d (512 * s + i) = b i"
  using assms unfolding disk_laws_def disk_write_law_def by blast+

lemma disk_allocD:
  assumes "disk_laws K dv"
  shows "bio_alloc K w = (ok, w') \<Longrightarrow> dv w' = dv w" and "kmalloc K n w = (x, w') \<Longrightarrow> dv w' = dv w"
  using assms unfolding disk_laws_def by (metis snd_conv)+

text \<open>Nothing fails.\<close>

definition io_works :: "('w, 'k) kern_scheme \<Rightarrow> bool" where
  "io_works K \<longleftrightarrow> (\<forall>w. fst (bio_alloc K w)) \<and> (\<forall>d s b n w. fst (submit_write K d s b n w) = 0) \<and>
     (\<forall>d s n w. fst (submit_read K d s n w) = 0) \<and>
     (\<forall>w. fst (kmalloc K PAGE_SIZE w) \<noteq> None) \<and> (\<forall>n w. n \<le> PAGE_SIZE \<longrightarrow> bio_add_page K n w = n)"

lemma io_worksD:
  assumes "io_works K"
  shows "bio_alloc K w = (ok, w') \<Longrightarrow> ok" "submit_write K d s b n w = (r, w') \<Longrightarrow> r = 0" "submit_read K d s n w = (r, c, w') \<Longrightarrow> r = 0"
    "kmalloc K PAGE_SIZE w = (x, w') \<Longrightarrow> x \<noteq> None" "n \<le> 8 \<Longrightarrow> bio_add_page K (n * SECTOR_SIZE) w = n * SECTOR_SIZE" "\<not> starved K PAGE_SIZE"
proof -
  note w = assms [unfolded io_works_def]
  show "bio_alloc K w = (ok, w') \<Longrightarrow> ok" "submit_write K d s b n w = (r, w') \<Longrightarrow> r = 0" "submit_read K d s n w = (r, c, w') \<Longrightarrow> r = 0"
    "kmalloc K PAGE_SIZE w = (x, w') \<Longrightarrow> x \<noteq> None" using w by (metis fst_conv)+
  show "n \<le> 8 \<Longrightarrow> bio_add_page K (n * SECTOR_SIZE) w = n * SECTOR_SIZE" "\<not> starved K PAGE_SIZE" using w by (simp_all add: starved_def)
qed

section \<open>Where the bytes of the file are\<close>

definition extents_of :: "'d devio_scheme \<Rightarrow> fiemap_extent list" where
  "extents_of dev = (case sd_cow_extents dev of None \<Rightarrow> [] | Some es \<Rightarrow> take (sd_cow_ext_cnt dev) es)"

fun place :: "fiemap_extent list \<Rightarrow> nat \<Rightarrow> nat option" where
  "place [] i = None"
| "place (e # es) i =
     (if fe_logical e \<le> i \<and> i < fe_logical e + fe_length e then Some (fe_physical e + (i - fe_logical e)) else place es i)"

definition apart :: "fiemap_extent \<Rightarrow> fiemap_extent \<Rightarrow> bool" where
  "apart e f \<longleftrightarrow> fe_physical e + fe_length e \<le> fe_physical f \<or> fe_physical f + fe_length f \<le> fe_physical e"

definition extent_ok :: "fiemap_extent \<Rightarrow> bool" where
  "extent_ok e \<longleftrightarrow> 512 dvd fe_logical e \<and> 512 dvd fe_physical e \<and> 512 dvd fe_length e \<and>
     fe_logical e + fe_length e < 2 ^ 63 \<and> fe_physical e + fe_length e < 2 ^ 63"

text \<open>Extents of whole sectors that share no sector of the device; the count does not pass the end
  of the array.\<close>

definition extents_ok :: "'d devio_scheme \<Rightarrow> bool" where
  "extents_ok dev \<longleftrightarrow> (\<forall>e \<in> set (extents_of dev). extent_ok e) \<and> sorted_wrt apart (extents_of dev) \<and>
     (case sd_cow_extents dev of None \<Rightarrow> sd_cow_ext_cnt dev = 0 | Some es \<Rightarrow> sd_cow_ext_cnt dev \<le> length es)"

definition file_bytes :: "('w \<Rightarrow> nat \<Rightarrow> buf) \<Rightarrow> 'd devio_scheme \<Rightarrow> nat \<Rightarrow> 'w \<Rightarrow> nat \<Rightarrow> byte option" where
  "file_bytes dv dev bdev w i = map_option (dv w bdev) (place (extents_of dev) i)"

lemma place_member: "place es i = Some a \<Longrightarrow> \<exists>e \<in> set es. fe_logical e \<le> i \<and> i < fe_logical e + fe_length e \<and> a = fe_physical e + (i - fe_logical e)"
  by (induction es) (auto split: if_splits)

lemma place_bound: "place es i = Some a \<Longrightarrow> \<forall>e \<in> set es. extent_ok e \<Longrightarrow> a < 2 ^ 63 \<and> i < 2 ^ 63"
  by (auto dest!: place_member simp: extent_ok_def)

lemma place_inj:
  "sorted_wrt apart es \<Longrightarrow> place es i = Some a \<Longrightarrow> place es j = Some a \<Longrightarrow> i = j"
proof (induction es)
  case (Cons e es)
  have away: "\<not> (fe_physical e \<le> a \<and> a < fe_physical e + fe_length e)" if "place es k = Some a" for k
    using place_member [OF that] Cons.prems(1) by (auto simp: apart_def)
  show ?case using Cons away by (fastforce split: if_splits)
qed simp

text \<open>The bytes of a sector lie together.\<close>

lemma same_sector: "(512::nat) dvd x \<Longrightarrow> 512 dvd k \<Longrightarrow> j < 512 \<Longrightarrow> x \<le> k + j \<longleftrightarrow> x \<le> k"
  "(512::nat) dvd x \<Longrightarrow> 512 dvd k \<Longrightarrow> j < 512 \<Longrightarrow> k + j < x \<longleftrightarrow> k < x"
  by (auto elim!: dvdE)

lemma place_in_sector:
  "\<forall>e \<in> set es. extent_ok e \<Longrightarrow> 512 dvd k \<Longrightarrow> j < 512 \<Longrightarrow> place es (k + j) = map_option (\<lambda>a. a + j) (place es k)"
proof (induction es)
  case (Cons e es)
  have "512 dvd fe_logical e" "512 dvd fe_logical e + fe_length e" using Cons.prems(1) by (auto simp: extent_ok_def)
  then have eq: "fe_logical e \<le> k + j \<and> k + j < fe_logical e + fe_length e \<longleftrightarrow> fe_logical e \<le> k \<and> k < fe_logical e + fe_length e"
    using same_sector Cons.prems(2,3) by blast
  show ?case using eq Cons by auto
qed simp

lemma place_aligned: "place es k = Some a \<Longrightarrow> \<forall>e \<in> set es. extent_ok e \<Longrightarrow> 512 dvd k \<Longrightarrow> 512 dvd a"
  by (auto dest!: place_member simp: extent_ok_def intro!: dvd_add dvd_diff_nat)

lemma sector_scan_place:
  "n \<le> length es \<Longrightarrow> \<forall>e \<in> set (take n es). extent_ok e \<Longrightarrow>
    sector_scan es n k = Some (case place (take n es) k of None \<Rightarrow> SECTOR_INVALID | Some a \<Rightarrow> a div 512)"
proof (induction es n k rule: sector_scan.induct)
  case (3 e es n k)
  from 3(3) have e: "fe_logical e + fe_length e < 2 ^ 63" "fe_physical e + fe_length e < 2 ^ 63" by (auto simp: extent_ok_def)
  show ?case
  proof (cases "fe_logical e \<le> k \<and> k < fe_logical e + fe_length e")
    case True
    with e have "fe_physical e + (k - fe_logical e) < 2 ^ 64" "fe_logical e + fe_length e < 2 ^ 64" by auto
    with True show ?thesis by (simp add: wrap64_id)
  next
    case False
    with 3 e show ?thesis by (auto simp: wrap64_id)
  qed
qed simp_all

lemma sector_by_offset_place:
  assumes "extents_ok dev"
  shows "sector_by_offset dev k = Some (case place (extents_of dev) k of None \<Rightarrow> SECTOR_INVALID | Some a \<Rightarrow> a div 512)"
  using assms sector_scan_place [of "sd_cow_ext_cnt dev" _ k]
  by (auto simp: sector_by_offset_def extents_ok_def extents_of_def split: option.splits)

section \<open>Runs of sectors that lie together\<close>

lemma sector_run:
  assumes ok: "extents_ok dev" and al: "512 dvd k" and j: "j < 512 * n"
    and run: "\<And>m. m < n \<Longrightarrow> place (extents_of dev) (k + 512 * m) = Some (a + 512 * m)"
  shows "place (extents_of dev) (k + j) = Some (a + j)"
proof -
  have "j div 512 < n" using j by simp
  note m = run [OF this]
  have "512 dvd k + 512 * (j div 512)" using al by simp
  from place_in_sector [OF _ this, of "extents_of dev" "j mod 512"] ok m show ?thesis
    by (simp add: extents_ok_def add.assoc)
qed

lemma sector_is:
  assumes ok: "extents_ok dev" and al: "512 dvd k" "512 dvd a" and mapped: "place (extents_of dev) k \<noteq> None"
    and s: "sector_by_offset dev k = Some (a div 512)"
  shows "place (extents_of dev) k = Some a"
proof -
  obtain b where b: "place (extents_of dev) k = Some b" using mapped by auto
  with s sector_by_offset_place [OF ok, of k] have "b div 512 = a div 512" by simp
  moreover have "512 dvd b" using place_aligned [OF b _ al(1)] ok by (simp add: extents_ok_def)
  ultimately show ?thesis using b al(2) by (metis dvd_div_mult_self)
qed

lemma contig_run_places:
  assumes ok: "extents_ok dev" and al: "512 dvd a" "a < 2 ^ 63"
  shows "512 dvd off \<Longrightarrow> p < len \<Longrightarrow> len \<le> 8 \<Longrightarrow> it \<le> p \<Longrightarrow> off + 512 * (len - p) < 2 ^ 63 \<Longrightarrow>
    (\<And>m. m < len - p \<Longrightarrow> place (extents_of dev) (off + 512 * m) \<noteq> None) \<Longrightarrow>
    place (extents_of dev) off = Some (a + 512 * it) \<Longrightarrow>
    \<exists>n. contig_run dev len (a div 512) p it off = Some (p + n, it + n, off + 512 * n) \<and> 0 < n \<and> p + n \<le> len \<and>
      (\<forall>m<n. place (extents_of dev) (off + 512 * m) = Some (a + 512 * (it + m)))"
proof (induction "len - p" arbitrary: p it off)
  case (Suc x)
  have off': "wrap64 (off + SECTOR_SIZE) = off + 512" using Suc.prems(2,5) by (auto simp: wrap64_def)
  have st: "wrap64 (a div 512 + Suc it) = (a + 512 * Suc it) div 512"
    using al Suc.prems(2,3,4) by (auto simp: wrap64_def elim!: dvdE)
  have end_off: "512 dvd off + 512" using Suc.prems(1) by simp
  show ?case
  proof (cases "Suc p < len \<and> sector_by_offset dev (off + 512) = Some ((a + 512 * Suc it) div 512)")
    case False
    obtain s where s: "sector_by_offset dev (off + 512) = Some s" using sector_by_offset_place [OF ok] by blast
    have "contig_run dev len (a div 512) p it off = Some (p + 1, it + 1, off + 512)"
      using False off' st s by (auto simp: contig_run.simps [of dev len "a div 512" p it off] Let_def simp del: SECTOR_SIZE_def)
    then show ?thesis using Suc.prems(2,7) by (intro exI [of _ 1]) simp
  next
    case True
    have here: "place (extents_of dev) (off + 512 * m) \<noteq> None" if "m < len - p" for m using Suc.prems(6) that .
    have a': "512 dvd a + 512 * Suc it" using al by simp
    have "1 < len - p" using True by auto
    from here [OF this] have "place (extents_of dev) (off + 512) \<noteq> None" by simp
    from sector_is [OF ok end_off a' this] True have pl: "place (extents_of dev) (off + 512) = Some (a + 512 * Suc it)" by simp
    have later: "place (extents_of dev) (off + 512 + 512 * m) \<noteq> None" if "m < len - Suc p" for m using here [of "Suc m"] that by (simp add: algebra_simps)
    have x: "x = len - Suc p" and it: "Suc it \<le> Suc p" and le: "off + 512 + 512 * (len - Suc p) < 2 ^ 63"
      using Suc.hyps(2) Suc.prems(2,4,5) by simp_all
    obtain n where n: "contig_run dev len (a div 512) (Suc p) (Suc it) (off + 512) = Some (Suc p + n, Suc it + n, off + 512 + 512 * n)"
      "0 < n" "Suc p + n \<le> len" "\<forall>m<n. place (extents_of dev) (off + 512 + 512 * m) = Some (a + 512 * (Suc it + m))"
      using Suc.hyps(1) [OF x end_off _ Suc.prems(3) it le later pl] True by auto
    have "contig_run dev len (a div 512) p it off = Some (p + Suc n, it + Suc n, off + 512 * Suc n)"
      using True off' st n(1) by (simp add: contig_run.simps [of dev len "a div 512" p it off] Let_def del: SECTOR_SIZE_def)
    moreover have "place (extents_of dev) (off + 512 * m) = Some (a + 512 * (it + m))" if "m < Suc n" for m
      using that n(4) Suc.prems(7) by (cases m) (auto simp: algebra_simps)
    ultimately show ?thesis using n(3) by (intro exI [of _ "Suc n"]) simp
  qed
qed simp

text \<open>The first run of a transfer.\<close>

lemma first_run:
  assumes ok: "extents_ok dev" and off: "512 dvd off" "off + 512 * (len - p) < 2 ^ 63" and len: "p < len" "len \<le> 8"
    and mapped: "\<And>i. i < 512 * (len - p) \<Longrightarrow> place (extents_of dev) (off + i) \<noteq> None"
  obtains a n where "sector_by_offset dev off = Some (a div 512)" "a div 512 \<noteq> SECTOR_INVALID" "512 * (a div 512) = a"
    "contig_run dev len (a div 512) p 0 off = Some (p + n, n, off + 512 * n)" "0 < n" "p + n \<le> len"
    "\<And>i. i < 512 * n \<Longrightarrow> place (extents_of dev) (off + i) = Some (a + i)"
proof -
  have "place (extents_of dev) off \<noteq> None" using mapped [of 0] len by simp
  then obtain a where a: "place (extents_of dev) off = Some a" by auto
  have ext: "\<forall>e \<in> set (extents_of dev). extent_ok e" using ok by (simp add: extents_ok_def)
  have al: "512 dvd a" "a < 2 ^ 63" using place_aligned [OF a ext off(1)] place_bound [OF a ext] by auto
  have "place (extents_of dev) (off + 512 * m) \<noteq> None" if "m < len - p" for m using mapped [of "512 * m"] that by simp
  with contig_run_places [OF ok al off(1) len _ off(2), of 0] a obtain n where
    n: "contig_run dev len (a div 512) p 0 off = Some (p + n, n, off + 512 * n)" "0 < n" "p + n \<le> len"
      "\<forall>m<n. place (extents_of dev) (off + 512 * m) = Some (a + 512 * m)" by auto
  show ?thesis
  proof (rule that [of a n])
    show "sector_by_offset dev off = Some (a div 512)" using sector_by_offset_place [OF ok] a by simp
    show "a div 512 \<noteq> SECTOR_INVALID" using al by (auto simp: SECTOR_INVALID_def)
    show "512 * (a div 512) = a" using al by simp
    show "place (extents_of dev) (off + i) = Some (a + i)" if "i < 512 * n" for i
      using sector_run [OF ok off(1) that] n(4) by blast
  qed (use n in auto)
qed

section \<open>Transfers\<close>

lemma write_loop_places:
  assumes laws: "disk_laws K dv" and ok: "extents_ok dev" and bdev: "sd_base_dev dev = Some bdev"
  shows "p < len \<Longrightarrow> len \<le> 8 \<Longrightarrow> 512 dvd off \<Longrightarrow> off + 512 * (len - p) < 2 ^ 63 \<Longrightarrow>
    (\<forall>i < 512 * (len - p). place (extents_of dev) (off + i) \<noteq> None) \<Longrightarrow>
    file_write_loop K dev block len first p off w = None \<and> starved K PAGE_SIZE \<or>
    (\<exists>r w'. file_write_loop K dev block len first p off w = Some (r, w') \<and> r \<le> 0 \<and>
      (\<forall>g x. g \<noteq> bdev \<or> (\<forall>i < 512 * (len - p). place (extents_of dev) (off + i) \<noteq> Some x) \<longrightarrow> dv w' g x = dv w g x) \<and>
      (r = 0 \<longrightarrow> (\<forall>i < 512 * (len - p). \<forall>x. place (extents_of dev) (off + i) = Some x \<longrightarrow> dv w' bdev x = block (512 * p + i))) \<and>
      (io_works K \<longrightarrow> r = 0))"
proof (induction "len - p" arbitrary: p off first w rule: less_induct)
  case less
  obtain a n where run: "sector_by_offset dev off = Some (a div 512)" "a div 512 \<noteq> SECTOR_INVALID" "512 * (a div 512) = a"
    "contig_run dev len (a div 512) p 0 off = Some (p + n, n, off + 512 * n)" "0 < n" "p + n \<le> len"
    "\<And>i. i < 512 * n \<Longrightarrow> place (extents_of dev) (off + i) = Some (a + i)"
    using first_run [OF ok less.prems(3,4,1,2)] less.prems(5) by metis
  obtain okb w1 where w1: "bio_alloc K w = (okb, w1)" by fastforce
  obtain y w2 where w2: "kmalloc K PAGE_SIZE w1 = (y, w2)" by fastforce
  have dv2: "dv w1 = dv w" "dv w2 = dv w" using disk_allocD [OF laws] w1 w2 by metis+
  let ?added = "bio_add_page K (n * 512) w2 = n * 512"
  obtain r w3 where w3: "submit_write K bdev (a div 512) (\<lambda>i. block (p * 512 + i)) (n * 512) w2 = (r, w3)" by fastforce
  note wr = disk_writeD [OF laws w3, unfolded run(3)]
  have n8: "n \<le> 8" using run(6) less.prems(2) by simp
  have eval: "file_write_loop K dev block len first p off w =
      (if \<not> okb then Some (- ENOMEM, w1) else if y = None then None else if \<not> ?added then Some (- EFAULT, w2)
       else if r \<noteq> 0 then Some (r, w3) else if p + n = len then Some (0, w3)
       else file_write_loop K dev block len False (p + n) (off + 512 * n) w3)"
    using run(1,2,4,6) n8 w1 w2 w3 bdev
    by (cases okb; cases y) (simp_all add: file_write_loop.simps [of K dev block len first p off w])
  have fine: "io_works K \<longrightarrow> okb \<and> y \<noteq> None \<and> ?added \<and> r = 0"
    using io_worksD(1) [OF _ w1] io_worksD(2) [OF _ w3] io_worksD(4) [OF _ w2] io_worksD(5) [OF _ n8, of K w2] by auto
  have starve: "y = None \<Longrightarrow> starved K PAGE_SIZE" using w2 by (blast intro: starvedI)
  have frame: "dv w3 g x = dv w g x" if "g \<noteq> bdev \<or> (\<forall>i < 512 * (len - p). place (extents_of dev) (off + i) \<noteq> Some x)" for g x
  proof -
    have "g \<noteq> bdev \<or> x < a \<or> a + n * 512 \<le> x"
    proof (rule ccontr)
      assume "\<not> ?thesis"
      then have x: "g = bdev" "a \<le> x" "x - a < 512 * n" by auto
      moreover have "x - a < 512 * (len - p)" using x run(6) by linarith
      ultimately show False using run(7) [of "x - a"] that by auto
    qed
    then show ?thesis using wr(2) [of g x] dv2 by auto
  qed
  show ?case
  proof (cases "okb \<and> y \<noteq> None \<and> ?added \<and> r = 0 \<and> p + n \<noteq> len")
    case False
    have "dv w3 bdev x = block (512 * p + i)" if "r = 0" "p + n = len" "i < 512 * (len - p)" "place (extents_of dev) (off + i) = Some x" for i x
      using wr(3) [of i] run(7) [of i] that by (auto simp: mult.commute)
    with False show ?thesis using wr(1) frame dv2 fine starve by (auto simp: eval)
  next
    case True
    then have step: "file_write_loop K dev block len first p off w = file_write_loop K dev block len False (p + n) (off + 512 * n) w3"
      by (auto simp: eval)
    have less': "len - (p + n) < len - p" "p + n < len" using run(5,6) True by auto
    have mapped': "\<forall>i < 512 * (len - (p + n)). place (extents_of dev) (off + 512 * n + i) \<noteq> None"
    proof (intro allI impI)
      fix i assume "i < 512 * (len - (p + n))"
      then have "512 * n + i < 512 * (len - p)" using run(6) by (simp add: algebra_simps)
      from less.prems(5) [rule_format, OF this] show "place (extents_of dev) (off + 512 * n + i) \<noteq> None" by (simp add: add.assoc)
    qed
    have le: "off + 512 * n + 512 * (len - (p + n)) < 2 ^ 63" and al: "512 dvd off + 512 * n"
      using less.prems(3,4) less' run(6) by auto
    from less.hyps [OF less'(1,2) less.prems(2) al le mapped', of False w3]
    consider (fault) "file_write_loop K dev block len False (p + n) (off + 512 * n) w3 = None" "starved K PAGE_SIZE"
      | (ends) r' w' where "file_write_loop K dev block len False (p + n) (off + 512 * n) w3 = Some (r', w')" "r' \<le> 0"
          "\<forall>g x. g \<noteq> bdev \<or> (\<forall>i < 512 * (len - (p + n)). place (extents_of dev) (off + 512 * n + i) \<noteq> Some x) \<longrightarrow> dv w' g x = dv w3 g x"
          "r' = 0 \<longrightarrow> (\<forall>i < 512 * (len - (p + n)). \<forall>x. place (extents_of dev) (off + 512 * n + i) = Some x \<longrightarrow> dv w' bdev x = block (512 * (p + n) + i))"
          "io_works K \<longrightarrow> r' = 0"
      by (elim disjE exE conjE) (rule that; assumption)+
    then show ?thesis
    proof cases
      case fault
      with step show ?thesis by simp
    next
      case ends
      note ih = ends(1,2) and ih_frame = ends(3) and ih_data = ends(4) and works = ends(5)
      have widen: "512 * n + i < 512 * (len - p)" if "i < 512 * (len - (p + n))" for i using that run(6) by (simp add: algebra_simps)
      have frame': "dv w' g x = dv w g x" if away: "g \<noteq> bdev \<or> (\<forall>i < 512 * (len - p). place (extents_of dev) (off + i) \<noteq> Some x)" for g x
      proof -
        have "g \<noteq> bdev \<or> (\<forall>i < 512 * (len - (p + n)). place (extents_of dev) (off + 512 * n + i) \<noteq> Some x)"
          using away widen by (auto simp: add.assoc)
        with ih_frame frame [OF away] show ?thesis by simp
      qed
      have data: "dv w' bdev x = block (512 * p + i)" if "r' = 0" "i < 512 * (len - p)" and pl: "place (extents_of dev) (off + i) = Some x" for i x
      proof (cases "i < 512 * n")
        case True
        then have x: "x = a + i" using run(7) pl by simp
        have "place (extents_of dev) (off + 512 * n + j) \<noteq> Some x" for j
          using place_inj [of "extents_of dev" "off + 512 * n + j" x "off + i"] ok pl True by (auto simp: extents_ok_def)
        then have "dv w' bdev x = dv w3 bdev x" using ih_frame by blast
        moreover have "dv w3 bdev (a + i) = block (512 * p + i)" using wr(3) [of i] True \<open>okb \<and> y \<noteq> None \<and> ?added \<and> r = 0 \<and> p + n \<noteq> len\<close> by (simp add: mult.commute)
        ultimately show ?thesis using x by simp
      next
        case False
        then have "i - 512 * n < 512 * (len - (p + n))" "off + 512 * n + (i - 512 * n) = off + i" "512 * (p + n) + (i - 512 * n) = 512 * p + i"
          using that(2) by (auto simp: algebra_simps)
        with ih_data that(1) pl show ?thesis by metis
      qed
      show ?thesis using step ih frame' data works by auto
    qed
  qed
qed

lemma read_loop_places:
  assumes laws: "disk_laws K dv" and ok: "extents_ok dev" and bdev: "sd_base_dev dev = Some bdev"
  shows "p < len \<Longrightarrow> len \<le> 8 \<Longrightarrow> 512 dvd off \<Longrightarrow> off + 512 * (len - p) < 2 ^ 63 \<Longrightarrow>
    (\<forall>i < 512 * (len - p). place (extents_of dev) (off + i) \<noteq> None) \<Longrightarrow>
    file_read_loop K dev len first p off buf w = None \<and> starved K PAGE_SIZE \<or>
    (\<exists>r b w'. file_read_loop K dev len first p off buf w = Some (r, b, w') \<and> r \<le> 0 \<and> dv w' = dv w \<and>
      (\<forall>i. i < 512 * p \<or> 512 * len \<le> i \<longrightarrow> b i = buf i) \<and>
      (r = 0 \<longrightarrow> (\<forall>i < 512 * (len - p). \<forall>x. place (extents_of dev) (off + i) = Some x \<longrightarrow> b (512 * p + i) = dv w bdev x)) \<and>
      (io_works K \<longrightarrow> r = 0))"
proof (induction "len - p" arbitrary: p off first buf w rule: less_induct)
  case less
  obtain a n where run: "sector_by_offset dev off = Some (a div 512)" "a div 512 \<noteq> SECTOR_INVALID" "512 * (a div 512) = a"
    "contig_run dev len (a div 512) p 0 off = Some (p + n, n, off + 512 * n)" "0 < n" "p + n \<le> len"
    "\<And>i. i < 512 * n \<Longrightarrow> place (extents_of dev) (off + i) = Some (a + i)"
    using first_run [OF ok less.prems(3,4,1,2)] less.prems(5) by metis
  obtain okb w1 where w1: "bio_alloc K w = (okb, w1)" by fastforce
  obtain y w2 where w2: "kmalloc K PAGE_SIZE w1 = (y, w2)" by fastforce
  have dv2: "dv w1 = dv w" "dv w2 = dv w" using disk_allocD [OF laws] w1 w2 by metis+
  let ?added = "bio_add_page K (n * 512) w2 = n * 512"
  obtain r d w3 where w3: "submit_read K bdev (a div 512) (n * 512) w2 = (r, d, w3)" by (metis prod_cases3)
  note rd = disk_readD [OF laws w3, unfolded run(3)]
  have n8: "n \<le> 8" using run(6) less.prems(2) by simp
  let ?buf = "splice buf (p * 512) (n * 512) d"
  have eval: "file_read_loop K dev len first p off buf w =
      (if \<not> okb then Some (- ENOMEM, buf, w1) else if y = None then None else if \<not> ?added then Some (- EFAULT, buf, w2)
       else if r \<noteq> 0 then Some (r, buf, w3) else if p + n = len then Some (0, ?buf, w3)
       else file_read_loop K dev len False (p + n) (off + 512 * n) ?buf w3)"
    using run(1,2,4,6) n8 w1 w2 w3 bdev
    by (cases okb; cases y) (simp_all add: file_read_loop.simps [of K dev len first p off buf w])
  have fine: "io_works K \<longrightarrow> okb \<and> y \<noteq> None \<and> ?added \<and> r = 0"
    using io_worksD(1) [OF _ w1] io_worksD(3) [OF _ w3] io_worksD(4) [OF _ w2] io_worksD(5) [OF _ n8, of K w2] by auto
  have starve: "y = None \<Longrightarrow> starved K PAGE_SIZE" using w2 by (blast intro: starvedI)
  have here: "?buf (512 * p + i) = dv w bdev x" if "r = 0" "i < 512 * n" "place (extents_of dev) (off + i) = Some x" for i x
    using that rd(3) [of i] run(7) [of i] dv2 by (simp add: splice_def mult.commute)
  have out: "?buf i = buf i" if "i < 512 * p \<or> 512 * (p + n) \<le> i" for i using that by (auto simp: splice_def)
  show ?case
  proof (cases "okb \<and> y \<noteq> None \<and> ?added \<and> r = 0 \<and> p + n \<noteq> len")
    case False
    have "?buf (512 * p + i) = dv w bdev x" if "r = 0" "p + n = len" "i < 512 * (len - p)" "place (extents_of dev) (off + i) = Some x" for i x
      using here [of i x] that by auto
    moreover have "?buf i = buf i" if "p + n = len" "i < 512 * p \<or> 512 * len \<le> i" for i using out [of i] that by auto
    ultimately show ?thesis using False rd(1,2) dv2 fine starve by (auto simp: eval)
  next
    case True
    then have step: "file_read_loop K dev len first p off buf w = file_read_loop K dev len False (p + n) (off + 512 * n) ?buf w3"
      by (auto simp: eval)
    have less': "len - (p + n) < len - p" "p + n < len" using run(5,6) True by auto
    have mapped': "\<forall>i < 512 * (len - (p + n)). place (extents_of dev) (off + 512 * n + i) \<noteq> None"
    proof (intro allI impI)
      fix i assume "i < 512 * (len - (p + n))"
      then have "512 * n + i < 512 * (len - p)" using run(6) by (simp add: algebra_simps)
      from less.prems(5) [rule_format, OF this] show "place (extents_of dev) (off + 512 * n + i) \<noteq> None" by (simp add: add.assoc)
    qed
    have le: "off + 512 * n + 512 * (len - (p + n)) < 2 ^ 63" and al: "512 dvd off + 512 * n"
      using less.prems(3,4) less' run(6) by auto
    from less.hyps [OF less'(1,2) less.prems(2) al le mapped', of False ?buf w3]
    consider (fault) "file_read_loop K dev len False (p + n) (off + 512 * n) ?buf w3 = None" "starved K PAGE_SIZE"
      | (ends) r' b w' where "file_read_loop K dev len False (p + n) (off + 512 * n) ?buf w3 = Some (r', b, w')" "r' \<le> 0" "dv w' = dv w3"
          "\<forall>i. i < 512 * (p + n) \<or> 512 * len \<le> i \<longrightarrow> b i = ?buf i"
          "r' = 0 \<longrightarrow> (\<forall>i < 512 * (len - (p + n)). \<forall>x. place (extents_of dev) (off + 512 * n + i) = Some x \<longrightarrow> b (512 * (p + n) + i) = dv w3 bdev x)"
          "io_works K \<longrightarrow> r' = 0"
      by (elim disjE exE conjE) (rule that; assumption)+
    then show ?thesis
    proof cases
      case fault
      with step show ?thesis by simp
    next
      case ends
      note ih = ends(1-3) and ih_out = ends(4) and ih_data = ends(5) and works = ends(6)
      have data: "b (512 * p + i) = dv w bdev x" if "r' = 0" "i < 512 * (len - p)" and pl: "place (extents_of dev) (off + i) = Some x" for i x
      proof (cases "i < 512 * n")
        case True
        with ih_out here [of i x] pl \<open>okb \<and> y \<noteq> None \<and> ?added \<and> r = 0 \<and> p + n \<noteq> len\<close> show ?thesis by simp
      next
        case False
        then have "i - 512 * n < 512 * (len - (p + n))" "off + 512 * n + (i - 512 * n) = off + i" "512 * (p + n) + (i - 512 * n) = 512 * p + i"
          using that(2) by (auto simp: algebra_simps)
        with ih_data that(1) pl rd(2) dv2 show ?thesis by metis
      qed
      have "b i = buf i" if "i < 512 * p \<or> 512 * len \<le> i" for i
        using ih_out [rule_format, of i] out [of i] that less'(2) by auto
      then show ?thesis using step ih rd(2) dv2 data works by auto
    qed
  qed
qed

text \<open>A request of the cow manager: whole sectors, at most a page, in the mapped part of the file.\<close>

definition in_file :: "'d devio_scheme \<Rightarrow> nat \<Rightarrow> nat \<Rightarrow> bool" where
  "in_file dev off n \<longleftrightarrow> 512 dvd off \<and> 512 dvd n \<and> 0 < n \<and> n \<le> PAGE_SIZE \<and> off + n < 2 ^ 63 \<and>
     (\<forall>i \<in> {off ..< off + n}. place (extents_of dev) i \<noteq> None)"

lemma in_fileD:
  assumes "in_file dev off n"
  shows "0 < n div 512" "n div 512 \<le> 8" "512 dvd off" "off + 512 * (n div 512) < 2 ^ 63" "512 * (n div 512) = n"
    "i < n \<Longrightarrow> place (extents_of dev) (off + i) \<noteq> None"
  using assms by (auto simp: in_file_def elim!: dvdE)

lemma file_write_closed:
  assumes laws: "disk_laws K dv" and ok: "extents_ok dev" "in_file dev off n"
    and bdev: "sd_base_dev dev = Some bdev" and closed: "filp cm = None"
  shows "file_write K dev cm buf off n w = None \<and> starved K PAGE_SIZE \<or>
    (\<exists>r w'. file_write K dev cm buf off n w = Some (r, w') \<and>
     (\<forall>g x. g \<noteq> bdev \<or> x \<notin> the ` place (extents_of dev) ` {off ..< off + n} \<longrightarrow> dv w' g x = dv w g x) \<and>
     (r = 0 \<longrightarrow> (\<forall>i<n. \<forall>x. place (extents_of dev) (off + i) = Some x \<longrightarrow> dv w' bdev x = buf i)) \<and> (io_works K \<longrightarrow> r = 0))"
proof -
  note f = in_fileD [OF ok(2)]
  from write_loop_places [OF laws ok(1) bdev f(1-3), of buf True w] f(4-6)
  consider (fault) "file_write_loop K dev buf (n div 512) True 0 off w = None" "starved K PAGE_SIZE"
    | (ends) r w' where "file_write_loop K dev buf (n div 512) True 0 off w = Some (r, w')" "r \<le> 0"
        "\<And>g x. g \<noteq> bdev \<or> (\<forall>i<n. place (extents_of dev) (off + i) \<noteq> Some x) \<Longrightarrow> dv w' g x = dv w g x"
        "r = 0 \<longrightarrow> (\<forall>i<n. \<forall>x. place (extents_of dev) (off + i) = Some x \<longrightarrow> dv w' bdev x = buf i)" "io_works K \<longrightarrow> r = 0" by auto
  then show ?thesis
  proof cases
    case fault
    with closed show ?thesis by (simp add: file_write_def file_io_def elastio_snap_kernel_write_def file_write_block_def)
  next
    case ends
    have "file_write K dev cm buf off n w = Some (r, w')"
      using ends(1,2) closed by (simp add: file_write_def file_io_def elastio_snap_kernel_write_def file_write_block_def)
    moreover have "dv w' g x = dv w g x" if "g \<noteq> bdev \<or> x \<notin> the ` place (extents_of dev) ` {off ..< off + n}" for g x
    proof (rule ends(3))
      have "x \<in> the ` place (extents_of dev) ` {off ..< off + n}" if "i < n" "place (extents_of dev) (off + i) = Some x" for i
        using that by (intro image_eqI [of _ _ "place (extents_of dev) (off + i)"] image_eqI [of _ _ "off + i"]) auto
      with that show "g \<noteq> bdev \<or> (\<forall>i<n. place (extents_of dev) (off + i) \<noteq> Some x)" by blast
    qed
    ultimately show ?thesis using ends(4,5) by blast
  qed
qed

lemma file_read_closed:
  assumes laws: "disk_laws K dv" and ok: "extents_ok dev" "in_file dev off n"
    and bdev: "sd_base_dev dev = Some bdev" and closed: "filp cm = None"
  shows "file_read K dev cm buf off n w = None \<and> starved K PAGE_SIZE \<or>
    (\<exists>r b w'. file_read K dev cm buf off n w = Some (r, b, w') \<and> dv w' = dv w \<and> (\<forall>i. n \<le> i \<longrightarrow> b i = buf i) \<and>
     (r = 0 \<longrightarrow> (\<forall>i<n. \<forall>x. place (extents_of dev) (off + i) = Some x \<longrightarrow> b i = dv w bdev x)) \<and> (io_works K \<longrightarrow> r = 0))"
proof -
  note f = in_fileD [OF ok(2)]
  from read_loop_places [OF laws ok(1) bdev f(1-3), of True buf w] f(4-6)
  consider (fault) "file_read_loop K dev (n div 512) True 0 off buf w = None" "starved K PAGE_SIZE"
    | (ends) r b w' where "file_read_loop K dev (n div 512) True 0 off buf w = Some (r, b, w')" "r \<le> 0" "dv w' = dv w"
        "\<forall>i. n \<le> i \<longrightarrow> b i = buf i" "io_works K \<longrightarrow> r = 0"
        "r = 0 \<longrightarrow> (\<forall>i<n. \<forall>x. place (extents_of dev) (off + i) = Some x \<longrightarrow> b i = dv w bdev x)" by auto
  then show ?thesis
  proof cases
    case fault
    with closed show ?thesis by (simp add: file_read_def file_io_def elastio_snap_kernel_read_def file_read_block_def)
  next
    case ends
    then have "file_read K dev cm buf off n w = Some (r, b, w')"
      using closed by (simp add: file_read_def file_io_def elastio_snap_kernel_read_def file_read_block_def)
    with ends show ?thesis by blast
  qed
qed

lemma file_write_closedE:
  assumes "disk_laws K dv" "extents_ok dev" "in_file dev off n" "sd_base_dev dev = Some bdev" "filp cm = None"
  obtains (fault) "file_write K dev cm buf off n w = None" "starved K PAGE_SIZE"
    | (ends) r w' where "file_write K dev cm buf off n w = Some (r, w')"
        "\<forall>g x. g \<noteq> bdev \<or> x \<notin> the ` place (extents_of dev) ` {off ..< off + n} \<longrightarrow> dv w' g x = dv w g x"
        "r = 0 \<longrightarrow> (\<forall>i<n. \<forall>x. place (extents_of dev) (off + i) = Some x \<longrightarrow> dv w' bdev x = buf i)" "io_works K \<longrightarrow> r = 0"
  using file_write_closed [OF assms, of buf w] by (elim disjE exE conjE) (rule fault ends; assumption)+

lemma file_read_closedE:
  assumes "disk_laws K dv" "extents_ok dev" "in_file dev off n" "sd_base_dev dev = Some bdev" "filp cm = None"
  obtains (fault) "file_read K dev cm buf off n w = None" "starved K PAGE_SIZE"
    | (ends) r b w' where "file_read K dev cm buf off n w = Some (r, b, w')" "dv w' = dv w"
        "r = 0 \<longrightarrow> (\<forall>i<n. \<forall>x. place (extents_of dev) (off + i) = Some x \<longrightarrow> b i = dv w bdev x)" "io_works K \<longrightarrow> r = 0"
  using file_read_closed [OF assms, of buf w] by (elim disjE exE conjE) (rule fault ends; assumption)+

text \<open>The bytes of the file, as the extents show them, after a direct write.\<close>

lemma file_bytes_frame:
  assumes ok: "extents_ok dev" "in_file dev off n" and i: "i \<notin> {off ..< off + n}"
    and frame: "\<forall>g x. g \<noteq> bdev \<or> x \<notin> the ` place (extents_of dev) ` {off ..< off + n} \<longrightarrow> dv w' g x = dv w g x"
  shows "file_bytes dv dev bdev w' i = file_bytes dv dev bdev w i"
proof (cases "place (extents_of dev) i")
  case (Some x)
  have "place (extents_of dev) j \<noteq> Some x" if "j \<in> {off ..< off + n}" for j
    using place_inj [of "extents_of dev" i x j] ok(1) Some that i by (auto simp: extents_ok_def)
  moreover have "place (extents_of dev) j \<noteq> None" if "j \<in> {off ..< off + n}" for j using ok(2) that by (simp add: in_file_def)
  ultimately have "x \<notin> the ` place (extents_of dev) ` {off ..< off + n}" by force
  with frame Some show ?thesis by (simp add: file_bytes_def)
qed (simp add: file_bytes_def)

section \<open>The interface of the cow manager to its file\<close>

text \<open>The cow manager calls \<^verbatim>\<open>file_read\<close> and \<^verbatim>\<open>file_write\<close>; whether the file is open decides which
  of the two providers serves it.\<close>

locale transfer =
  fixes inv :: "'s \<Rightarrow> bool" and fits :: "nat \<Rightarrow> nat \<Rightarrow> bool" and content :: "'s \<Rightarrow> nat \<Rightarrow> byte option" and faults :: bool
    and rd :: "nat \<Rightarrow> nat \<Rightarrow> 's \<Rightarrow> (int \<times> buf \<times> 's) option" and wr :: "buf \<Rightarrow> nat \<Rightarrow> nat \<Rightarrow> 's \<Rightarrow> (int \<times> 's) option"
  assumes rd_law: "inv s \<Longrightarrow> fits off n \<Longrightarrow> rd off n s = None \<and> faults \<or>
      (\<exists>r b s'. rd off n s = Some (r, b, s') \<and> inv s' \<and> content s' = content s \<and> (r = 0 \<longrightarrow> (\<forall>i<n. content s (off + i) = Some (b i))))"
    and wr_law: "inv s \<Longrightarrow> fits off n \<Longrightarrow> wr b off n s = None \<and> faults \<or>
      (\<exists>r s'. wr b off n s = Some (r, s') \<and> inv s' \<and> (\<forall>i. i \<notin> {off ..< off + n} \<longrightarrow> content s' i = content s i) \<and>
        (r = 0 \<longrightarrow> (\<forall>i<n. content s' (off + i) = Some (b i))))"
begin

lemma write_then_read:
  assumes "inv s" "fits off n" "fits p m"
  shows "wr b off n s = None \<and> faults \<or> (\<exists>r s1. wr b off n s = Some (r, s1) \<and> (r = 0 \<longrightarrow>
     rd p m s1 = None \<and> faults \<or> (\<exists>q c s2. rd p m s1 = Some (q, c, s2) \<and> (q = 0 \<longrightarrow>
        (\<forall>i<m. Some (c i) = (if p + i \<in> {off ..< off + n} then Some (b (p + i - off)) else content s (p + i)))))))"
proof (cases "wr b off n s")
  case None
  with wr_law [OF assms(1,2), of b] show ?thesis by simp
next
  case (Some res)
  with wr_law [OF assms(1,2), of b] obtain r s1 where w: "wr b off n s = Some (r, s1)" "inv s1"
    "\<forall>i. i \<notin> {off ..< off + n} \<longrightarrow> content s1 i = content s i" "r = 0 \<longrightarrow> (\<forall>i<n. content s1 (off + i) = Some (b i))" by auto
  have at: "content s1 (p + i) = (if p + i \<in> {off ..< off + n} then Some (b (p + i - off)) else content s (p + i))" if "r = 0" for i
    using w(3) w(4) [rule_format, of "p + i - off"] that by (auto simp: not_less)
  from rd_law [OF w(2) assms(3)] at w(1) show ?thesis by fastforce
qed

end

definition closed_file :: "('w, 'k) kern_scheme \<Rightarrow> ('w \<Rightarrow> nat \<Rightarrow> buf) \<Rightarrow> 'd devio_scheme \<Rightarrow> nat \<Rightarrow> cow_manager \<Rightarrow> bool" where
  "closed_file K dv dev bdev cm \<longleftrightarrow> disk_laws K dv \<and> extents_ok dev \<and> sd_base_dev dev = Some bdev \<and> filp cm = None"

definition open_file :: "('w, 'k) kern_scheme \<Rightarrow> ('w \<Rightarrow> nat \<Rightarrow> buf) \<Rightarrow> nat \<Rightarrow> cow_manager \<Rightarrow> bool" where
  "open_file K fd f cm \<longleftrightarrow> file_laws K fd \<and> filp cm = Some f"

interpretation direct: transfer "\<lambda>_. closed_file K dv dev bdev cm" "in_file dev" "file_bytes dv dev bdev" "starved K PAGE_SIZE"
    "file_read K dev cm buf" "file_write K dev cm"
  for K :: "('w, 'k) kern_scheme" and dv and dev :: "'d devio_scheme" and bdev cm buf
proof (unfold_locales, goal_cases)
  case (1 s off n)
  then have h: "disk_laws K dv" "extents_ok dev" "sd_base_dev dev = Some bdev" "filp cm = None" by (auto simp: closed_file_def)
  from h(1,2) 1(2) h(3,4) show ?case
  proof (cases rule: file_read_closedE [where buf = buf and w = s])
    case (ends r b s')
    have "file_bytes dv dev bdev s (off + i) = Some (b i)" if "r = 0" "i < n" for i
      using in_fileD(6) [OF 1(2) that(2)] ends(3) [THEN mp, OF that(1)] that(2) by (auto simp: file_bytes_def)
    moreover have "file_bytes dv dev bdev s' = file_bytes dv dev bdev s" using ends(2) by (intro ext) (simp add: file_bytes_def)
    ultimately show ?thesis using ends(1) 1(1) by blast
  qed blast
next
  case (2 s off n b)
  then have h: "disk_laws K dv" "extents_ok dev" "sd_base_dev dev = Some bdev" "filp cm = None" by (auto simp: closed_file_def)
  from h(1,2) 2(2) h(3,4) show ?case
  proof (cases rule: file_write_closedE [where buf = b and w = s])
    case (ends r s')
    have "file_bytes dv dev bdev s' (off + i) = Some (b i)" if "r = 0" "i < n" for i
      using in_fileD(6) [OF 2(2) that(2)] ends(3) [THEN mp, OF that(1)] that(2) by (auto simp: file_bytes_def)
    moreover have "file_bytes dv dev bdev s' i = file_bytes dv dev bdev s i" if "i \<notin> {off ..< off + n}" for i
      using file_bytes_frame [OF h(2) 2(2) that ends(2)] .
    ultimately show ?thesis using ends(1) 2(1) by blast
  qed blast
qed

interpretation vfs: transfer "\<lambda>_. open_file K fd f cm" "\<lambda>_ _. True" "\<lambda>w i. Some (fd w f i)" False "file_read K dev cm buf" "file_write K dev cm"
  for K :: "('w, 'k) kern_scheme" and fd f and dev :: "'d devio_scheme" and cm buf
proof (unfold_locales, goal_cases)
  case (1 s off n)
  then have h: "file_laws K fd" "filp cm = Some f" by (auto simp: open_file_def)
  obtain r b s' where r: "file_read K dev cm buf off n s = Some (r, b, s')" using file_read_total [OF h(2), of K dev buf off n s] by blast
  from file_read_laws [OF h r] r 1(1) show ?case by (auto simp: fun_eq_iff)
next
  case (2 s off n b)
  then have h: "file_laws K fd" "filp cm = Some f" by (auto simp: open_file_def)
  obtain r s' where r: "file_write K dev cm b off n s = Some (r, s')" using file_write_total [OF h(2), of K dev b off n s] by blast
  from file_write_laws [OF h r] r 2(1) show ?case by auto
qed

section \<open>Properties\<close>

text \<open>C9: What the cow manager writes to its file it reads back, and a write changes nothing else that
  is read: through the file system while the file is open, and through the extents once it is
  closed. (A transfer through the extents faults when it gets no page.)\<close>

theorem cow_file_reads_back:
  assumes "open_file K fd f cm \<or> closed_file K dv dev bdev cm \<and> in_file dev off n \<and> in_file dev p m"
  shows "file_write K dev cm b off n w = None \<and> filp cm = None \<and> starved K PAGE_SIZE \<or>
    (\<exists>r w1. file_write K dev cm b off n w = Some (r, w1) \<and> (r = 0 \<longrightarrow>
      file_read K dev cm buf p m w1 = None \<and> filp cm = None \<and> starved K PAGE_SIZE \<or>
      (\<exists>q c w2. file_read K dev cm buf p m w1 = Some (q, c, w2) \<and> (q = 0 \<longrightarrow>
        (\<forall>i<m. Some (c i) = (if p + i \<in> {off ..< off + n} then Some (b (p + i - off))
           else if filp cm = None then file_bytes dv dev bdev w (p + i) else Some (fd w f (p + i))))))))"
  using assms
proof
  assume h: "open_file K fd f cm"
  then have opened: "(filp cm = None) = False" by (simp add: open_file_def)
  show ?thesis unfolding opened if_False
    using vfs.write_then_read [OF h TrueI TrueI, of dev b off n w buf p m] by simp
next
  assume h: "closed_file K dv dev bdev cm \<and> in_file dev off n \<and> in_file dev p m"
  then have closed: "(filp cm = None) = True" by (simp add: closed_file_def)
  show ?thesis unfolding closed if_True simp_thms
    by (rule direct.write_then_read) (use h in blast)+
qed


text \<open>C8: Reading and writing the cow file through its extents is equivalent to reading and writing
  it through the file system: when both transfers succeed, the writes leave the same file and the
  reads return the same bytes. The transfer through the file system always ends; the one through
  the extents ends unless the page of a bio cannot be had, and it succeeds when nothing fails. The
  file system is assumed to keep the bytes of the file where fiemap said.\<close>

theorem direct_io_equals_file_io:
  assumes disk: "disk_laws K dv" and files: "file_laws K fd" and ok: "extents_ok dev" "in_file dev off n"
    and bdev: "sd_base_dev dev = Some bdev" and closed: "filp cmc = None" and opened: "filp cmo = Some f"
    and kept: "\<forall>w i. case place (extents_of dev) i of None \<Rightarrow> True | Some x \<Rightarrow> fd w f i = dv w bdev x"
  shows "(\<exists>ro wo. file_write K dev cmo buf off n w = Some (ro, wo) \<and>
       (file_write K dev cmc buf off n w = None \<and> starved K PAGE_SIZE \<or> (\<exists>rc wc. file_write K dev cmc buf off n w = Some (rc, wc) \<and>
         (rc = 0 \<and> ro = 0 \<longrightarrow> (\<forall>i. place (extents_of dev) i \<noteq> None \<longrightarrow> fd wc f i = fd wo f i)) \<and> (io_works K \<longrightarrow> rc = 0)))) \<and>
     (\<exists>ro bo wo. file_read K dev cmo buf off n w = Some (ro, bo, wo) \<and>
       (file_read K dev cmc buf off n w = None \<and> starved K PAGE_SIZE \<or> (\<exists>rc bc wc. file_read K dev cmc buf off n w = Some (rc, bc, wc) \<and>
         (rc = 0 \<and> ro = 0 \<longrightarrow> (\<forall>i<n. bc i = bo i)) \<and> (io_works K \<longrightarrow> rc = 0))))"
    (is "?writes \<and> ?reads")
proof
  have keep: "fd w f i = dv w bdev x" if "place (extents_of dev) i = Some x" for w i x
  proof -
    from kept have "case place (extents_of dev) i of None \<Rightarrow> True | Some x \<Rightarrow> fd w f i = dv w bdev x" by blast
    with that show ?thesis by simp
  qed
  obtain ro wo where o: "file_write K dev cmo buf off n w = Some (ro, wo)" using file_write_total [OF opened, of K dev buf off n w] by blast
  note wr = file_write_laws [OF files opened o]
  have "fd wc f i = fd wo f i" if z: "ro = 0" and x: "place (extents_of dev) i = Some x"
    and frame: "\<forall>g x. g \<noteq> bdev \<or> x \<notin> the ` place (extents_of dev) ` {off ..< off + n} \<longrightarrow> dv wc g x = dv w g x"
    and data: "\<forall>i<n. \<forall>x. place (extents_of dev) (off + i) = Some x \<longrightarrow> dv wc bdev x = buf i" for wc i x
  proof (cases "off \<le> i \<and> i < off + n")
    case True
    then have "place (extents_of dev) (off + (i - off)) = Some x" "i - off < n" using x by auto
    with data have "dv wc bdev x = buf (i - off)" by blast
    moreover have "fd wo f i = buf (i - off)" using wr(2) [of "i - off"] z True by auto
    ultimately show ?thesis using keep [OF x] by simp
  next
    case False
    then have "file_bytes dv dev bdev wc i = file_bytes dv dev bdev w i" by (intro file_bytes_frame [OF ok _ frame]) auto
    moreover have "fd wo f i = fd w f i" using wr(1) [of f i] False by auto
    ultimately show ?thesis using keep [OF x] x by (simp add: file_bytes_def)
  qed
  note same = this
  from disk ok bdev closed show ?writes
  proof (cases rule: file_write_closedE [where buf = buf and w = w])
    case (ends rc wc)
    have "fd wc f i = fd wo f i" if "rc = 0" "ro = 0" "place (extents_of dev) i \<noteq> None" for i
      using same [OF that(2) _ ends(2) ends(3) [THEN mp, OF that(1)]] that(3) by blast
    with o ends(1,4) show ?thesis by blast
  qed (use o in blast)
  obtain ro bo wo where ro: "file_read K dev cmo buf off n w = Some (ro, bo, wo)" using file_read_total [OF opened, of K dev buf off n w] by blast
  from disk ok bdev closed show ?reads
  proof (cases rule: file_read_closedE [where buf = buf and w = w])
    case (ends rc bc wc)
    have "bc i = bo i" if z: "rc = 0" "ro = 0" "i < n" for i
    proof -
      obtain x where x: "place (extents_of dev) (off + i) = Some x" using in_fileD(6) [OF ok(2) z(3)] by blast
      with ends(3) z keep [OF x, of w] file_read_laws(2) [OF files opened ro z(2,3)] show ?thesis by simp
    qed
    with ro ends(1,4) show ?thesis by blast
  qed (use ro in blast)
qed

section \<open>A file in two pieces\<close>

text \<open>Bytes 0 to 4095 of file 1 lie at 8192 of device 2, bytes 4096 to 8191 at 0.\<close>

definition spot :: "nat \<Rightarrow> nat" where
  "spot i = (if i < 4096 then 8192 + i else i - 4096)"

definition unspot :: "nat \<Rightarrow> nat option" where
  "unspot a = (if 8192 \<le> a \<and> a < 12288 then Some (a - 8192) else if a < 4096 then Some (a + 4096) else None)"

definition split_kern :: "ram kern" where
  "split_kern = ram_kern\<lparr>
     kernel_read := (\<lambda>f off n w. if f = 1 \<and> off + n \<le> 8192 then (int n, \<lambda>i. w 2 (spot (off + i)), w) else (- EIO, \<lambda>_. 0, w)),
     kernel_write := (\<lambda>f b off n w. if f = 1 \<and> off + n \<le> 8192
       then (int n, w(2 := (\<lambda>a. case unspot a of Some i \<Rightarrow> if off \<le> i \<and> i < off + n then b (i - off) else w 2 a | None \<Rightarrow> w 2 a)))
       else (- EIO, w))\<rparr>"

definition split_file :: "ram \<Rightarrow> nat \<Rightarrow> buf" where
  "split_file w f i = (if f = 1 \<and> i < 8192 then w 2 (spot i) else 0)"

definition split_dev :: devio where
  "split_dev = \<lparr>sd_base_dev = Some 2, sd_cow_inode = Some 1,
     sd_cow_extents = Some [\<lparr>fe_logical = 0, fe_physical = 8192, fe_length = 4096\<rparr>, \<lparr>fe_logical = 4096, fe_physical = 0, fe_length = 4096\<rparr>],
     sd_cow_ext_cnt = 2\<rparr>"

definition split_cm :: "nat option \<Rightarrow> cow_manager" where
  "split_cm f = \<lparr>filp = f, flags = 0, curr_pos = 9, data_offset = 4096, file_max = 65536, seqid = 1, version = 1,
     nr_changed_blocks = 0, uuid = [], log_sect_pages = 3, sect_size = 4096, allocated_sects = 0, total_sects = 1,
     allowed_sects = 4, sects = [], cm_dev = 0\<rparr>"

lemma split_unspot: "i < 8192 \<Longrightarrow> unspot (spot i) = Some i"
  by (auto simp: spot_def unspot_def)

lemma split_laws: "disk_laws split_kern (\<lambda>w. w)" "file_laws split_kern split_file"
proof -
  show "disk_laws split_kern (\<lambda>w. w)"
    by (auto simp: disk_laws_def disk_read_law_def disk_write_law_def split_kern_def ram_kern_def ram_write_def mult.commute)
  have "write_law split_kern split_file"
    by (auto simp: write_law_def split_kern_def split_file_def split_unspot split: if_splits)
  then show "file_laws split_kern split_file"
    by (auto simp: file_laws_def read_law_def alloc_law_def split_kern_def ram_kern_def split_file_def split: if_splits)
qed

lemma split_dev_ok: "extents_ok split_dev" "in_file split_dev 2048 4096" "sd_base_dev split_dev = Some 2"
  "\<forall>w i. case place (extents_of split_dev) i of None \<Rightarrow> True | Some x \<Rightarrow> split_file w 1 i = w 2 x"
  by (auto simp: split_dev_def extents_ok_def extents_of_def extent_ok_def apart_def in_file_def split_file_def spot_def take_Cons')

lemma split_works: "io_works split_kern"
  by (simp add: io_works_def split_kern_def ram_kern_def)

theorem direct_io_equals_file_io_witness:
  "\<exists>wc wo. file_write split_kern split_dev (split_cm None) (\<lambda>_. 7) 2048 4096 (\<lambda>_ _. 0) = Some (0, wc) \<and>
     file_write split_kern split_dev (split_cm (Some 1)) (\<lambda>_. 7) 2048 4096 (\<lambda>_ _. 0) = Some (0, wo) \<and> split_file wc 1 5000 = split_file wo 1 5000"
proof -
  have "filp (split_cm None) = None" "filp (split_cm (Some 1)) = Some 1" by (simp_all add: split_cm_def)
  from conjunct1 [OF direct_io_equals_file_io [OF split_laws split_dev_ok(1-3) this split_dev_ok(4), of "\<lambda>_. 7" "\<lambda>_ _. 0"]]
  obtain rc wc ro wo where r: "file_write split_kern split_dev (split_cm None) (\<lambda>_. 7) 2048 4096 (\<lambda>_ _. 0) = Some (rc, wc)"
    "file_write split_kern split_dev (split_cm (Some 1)) (\<lambda>_. 7) 2048 4096 (\<lambda>_ _. 0) = Some (ro, wo)"
    and eq: "rc = 0 \<and> ro = 0 \<longrightarrow> (\<forall>i. place (extents_of split_dev) i \<noteq> None \<longrightarrow> split_file wc 1 i = split_file wo 1 i)" "rc = 0"
    using split_works io_worksD(6) [OF split_works] by blast
  have "ro = 0" using r(2) by (simp add: file_write_open split_cm_def split_kern_def)
  moreover have "place (extents_of split_dev) 5000 \<noteq> None" by (simp add: split_dev_def extents_of_def)
  ultimately show ?thesis using r eq by blast
qed

text \<open>The reading back of a transfer at 2048 by one at 4096.\<close>

lemma split_write: "\<exists>w'. file_write split_kern split_dev (split_cm None) b 2048 4096 w = Some (0, w')"
  using file_write_closed [OF split_laws(1) split_dev_ok(1-3), of "split_cm None" b w] split_works io_worksD(6) [OF split_works]
  by (auto simp: split_cm_def)

theorem cow_file_reads_back_witness:
  "\<exists>w1 c w2. file_write split_kern split_dev (split_cm None) (\<lambda>_. 7) 2048 4096 (\<lambda>_ _. 0) = Some (0, w1) \<and>
     file_read split_kern split_dev (split_cm None) (\<lambda>_. 1) 4096 4096 w1 = Some (0, c, w2) \<and> c 0 = 7 \<and> c 4095 = 0"
proof -
  have cl: "closed_file split_kern (\<lambda>w. w) split_dev 2 (split_cm None)" and closed: "filp (split_cm None) = None"
    using split_laws split_dev_ok by (simp_all add: closed_file_def split_cm_def)
  have inf: "in_file split_dev 4096 4096" by (auto simp: in_file_def split_dev_def extents_of_def take_Cons')
  obtain w1 where w1: "file_write split_kern split_dev (split_cm None) (\<lambda>_. 7) 2048 4096 (\<lambda>_ _. 0) = Some (0, w1)"
    using split_write by blast
  with cow_file_reads_back [OF disjI2 [OF conjI [OF cl conjI [OF split_dev_ok(2) inf]]], where fd = split_file and f = 1 and b = "\<lambda>_. 7"
      and w = "\<lambda>_ _. 0" and buf = "\<lambda>_. 1"] io_worksD(6) [OF split_works]
  obtain q c w2 where r: "file_read split_kern split_dev (split_cm None) (\<lambda>_. 1) 4096 4096 w1 = Some (q, c, w2)"
    and bytes: "q = 0 \<longrightarrow> (\<forall>i<4096. Some (c i) = (if 4096 + i \<in> {2048 ..< 2048 + 4096} then Some 7
        else if filp (split_cm None) = None then file_bytes (\<lambda>w. w) split_dev 2 (\<lambda>_ _. 0) (4096 + i) else Some (split_file (\<lambda>_ _. 0) 1 (4096 + i))))" by auto
  have "q = 0" using file_read_closed [OF split_laws(1) split_dev_ok(1) inf split_dev_ok(3) closed, of "\<lambda>_. 1" w1] r split_works by auto
  with bytes closed have "Some (c 0) = Some 7" "Some (c 4095) = file_bytes (\<lambda>w. w) split_dev 2 (\<lambda>_ _. 0) 8191" by simp_all
  moreover have "file_bytes (\<lambda>w. w) split_dev 2 (\<lambda>_ _. 0) 8191 = Some 0" by (simp add: file_bytes_def split_dev_def extents_of_def)
  ultimately show ?thesis using w1 r \<open>q = 0\<close> by auto
qed


end
