(* ===== verification/Cow_Life.thy ===== *)
theory Cow_Life
  imports Cow_Data
begin

text \<open>
  The life of a cow manager: creation, the header that says whether the file was left
  clean, the round trip through the dormant state (\<open>cow_sync_and_close\<close>, \<open>cow_reopen\<close>)
  and the reload after a reboot (\<open>cow_reload\<close>).
\<close>

section \<open>The header\<close>

definition header_ok :: "cow_header \<Rightarrow> bool" where
  "header_ok h \<longleftrightarrow> ch_magic h < 2 ^ 32 \<and> ch_fpos h < 2 ^ 64 \<and> ch_fsize h < 2 ^ 64 \<and> ch_seqid h < 2 ^ 64 \<and>
     length (ch_uuid h) = 16 \<and> ch_version h < 2 ^ 64 \<and> ch_nr_changed_blocks h < 2 ^ 64"

lemma bytes_u64_at:
  "v < 2 ^ 64 \<Longrightarrow> (\<And>k. k < 8 \<Longrightarrow> b k = u64_bytes v k) \<Longrightarrow> bytes_u64 b = v"
  using bytes_u64_cong [of b "u64_bytes v"] by (simp add: bytes_u64_u64_bytes)

lemma bytes_u32_at:
  "v < 2 ^ 32 \<Longrightarrow> (\<And>k. k < 4 \<Longrightarrow> b k = u64_bytes v k) \<Longrightarrow> bytes_u32 b = v"
  using bytes_u32_cong [of b "u64_bytes v"] by (simp add: bytes_u32_u64_bytes)

lemma parse_header_bytes:
  assumes h: "header_ok h" and b: "\<And>i. i < 64 \<Longrightarrow> b i = header_bytes h i"
  shows "parse_header b = h"
proof -
  have "bytes_u32 (\<lambda>k. b (4 + k)) = unat (ch_flags h)"
    by (rule bytes_u32_at) (use unsigned_less [of "ch_flags h"] in \<open>auto simp: b header_bytes_def\<close>)
  then have fl: "word_of_nat (bytes_u32 (\<lambda>k. b (4 + k))) = ch_flags h" by simp
  have "map (\<lambda>k. b (32 + k)) [0..<16] = ch_uuid h"
    using h by (intro nth_equalityI) (auto simp: b header_bytes_def header_ok_def)
  moreover have "bytes_u32 b = ch_magic h"
    by (rule bytes_u32_at) (use h in \<open>auto simp: b header_bytes_def header_ok_def\<close>)
  moreover have "bytes_u64 (\<lambda>k. b (8 + k)) = ch_fpos h"
    by (rule bytes_u64_at) (use h in \<open>auto simp: b header_bytes_def header_ok_def\<close>)
  moreover have "bytes_u64 (\<lambda>k. b (16 + k)) = ch_fsize h"
    by (rule bytes_u64_at) (use h in \<open>auto simp: b header_bytes_def header_ok_def\<close>)
  moreover have "bytes_u64 (\<lambda>k. b (24 + k)) = ch_seqid h"
    by (rule bytes_u64_at) (use h in \<open>auto simp: b header_bytes_def header_ok_def\<close>)
  moreover have "bytes_u64 (\<lambda>k. b (48 + k)) = ch_version h"
    by (rule bytes_u64_at) (use h in \<open>auto simp: b header_bytes_def header_ok_def\<close>)
  moreover have "bytes_u64 (\<lambda>k. b (56 + k)) = ch_nr_changed_blocks h"
    by (rule bytes_u64_at) (use h in \<open>auto simp: b header_bytes_def header_ok_def\<close>)
  ultimately show ?thesis using fl by (simp add: parse_header_def)
qed

text \<open>The manager's own fields fit the header.\<close>

definition fields_ok :: "cow_manager \<Rightarrow> bool" where
  "fields_ok cm \<longleftrightarrow> curr_pos cm < 2 ^ 64 \<and> file_max cm < 2 ^ 64 \<and> seqid cm < 2 ^ 64 \<and> length (uuid cm) = 16 \<and>
     version cm < 2 ^ 64 \<and> nr_changed_blocks cm < 2 ^ 64"

lemma fields_ok_header: "fields_ok cm \<Longrightarrow> header_ok (header_of cm)"
  by (simp add: fields_ok_def header_ok_def header_of_def)

definition mark_clean :: "bool \<Rightarrow> cow_manager \<Rightarrow> cow_manager" where
  "mark_clean c cm = cm\<lparr>flags := (if c then set_bit COW_CLEAN (flags cm) else unset_bit COW_CLEAN (flags cm))\<rparr>"

lemma mark_clean_fields [simp]:
  "filp (mark_clean c cm) = filp cm" "curr_pos (mark_clean c cm) = curr_pos cm"
  "data_offset (mark_clean c cm) = data_offset cm" "file_max (mark_clean c cm) = file_max cm"
  "seqid (mark_clean c cm) = seqid cm" "uuid (mark_clean c cm) = uuid cm" "version (mark_clean c cm) = version cm"
  "nr_changed_blocks (mark_clean c cm) = nr_changed_blocks cm" "sects (mark_clean c cm) = sects cm"
  "total_sects (mark_clean c cm) = total_sects cm" "sect_size (mark_clean c cm) = sect_size cm"
  "cow_file (mark_clean c cm) = cow_file cm" "cm_ok (mark_clean c cm) = cm_ok cm"
  "fields_ok (mark_clean c cm) = fields_ok cm"
  by (simp_all add: mark_clean_def cow_file_def cm_ok_def fields_ok_def)

lemma mark_clean_bit [simp]: "bit (flags (mark_clean c cm)) COW_CLEAN = c"
  by (simp add: mark_clean_def bit_set_bit_iff bit_unset_bit_iff)

lemma mark_clean_index_only [simp]: "bit (flags (mark_clean c cm)) COW_INDEX_ONLY = bit (flags cm) COW_INDEX_ONLY"
  by (simp add: mark_clean_def bit_set_bit_iff bit_unset_bit_iff)

lemma cow_write_header_eq:
  assumes "kmalloc K COW_HEADER_SIZE w = (Some g, w1)"
  shows "cow_write_header K dev cm c w =
     (case file_write K dev (mark_clean c cm) (header_bytes (header_of (mark_clean c cm))) 0 4096 w1 of
        None \<Rightarrow> None | Some (r, w2) \<Rightarrow> Some (r, mark_clean c cm, w2))"
  using assms by (auto simp: cow_write_header_def mark_clean_def Let_def split: option.split)

lemma cow_write_header_spec:
  assumes laws: "file_laws K fd" and f: "filp cm = Some f"
  shows "\<exists>r cm' w'. cow_write_header K dev cm c w = Some (r, cm', w') \<and> (cm' = cm \<and> r = - ENOMEM \<or> cm' = mark_clean c cm) \<and>
     (\<forall>g i. g \<noteq> f \<or> 4096 \<le> i \<longrightarrow> fd w' g i = fd w g i) \<and>
     (r = 0 \<longrightarrow> cm' = mark_clean c cm \<and> (\<forall>i<4096. fd w' f i = header_bytes (header_of cm') i))"
proof -
  obtain g w1 where mem: "kmalloc K COW_HEADER_SIZE w = (g, w1)" by fastforce
  note fd1 = alloc_lawD [OF laws mem]
  show ?thesis
  proof (cases g)
    case None
    with mem fd1 show ?thesis by (simp add: cow_write_header_def)
  next
    case (Some b)
    have f': "filp (mark_clean c cm) = Some f" using f by simp
    obtain r w2 where wr: "file_write K dev (mark_clean c cm) (header_bytes (header_of (mark_clean c cm))) 0 4096 w1 = Some (r, w2)"
      using file_write_total [OF f'] by metis
    note fw = file_write_laws [OF laws f' wr]
    from cow_write_header_eq [OF mem [unfolded Some], of dev cm c] wr
    have "cow_write_header K dev cm c w = Some (r, mark_clean c cm, w2)" by simp
    with fw fd1 show ?thesis by auto
  qed
qed

text \<open>What an attempt to open a header finds: it is refused unless it carries the magic, the
  clean flag and the expected mode; otherwise its fields are taken over.\<close>

definition restore :: "bool \<Rightarrow> cow_header \<Rightarrow> cow_manager \<Rightarrow> cow_manager" where
  "restore reset_vmalloc ch cm =
     cm\<lparr>flags := (if reset_vmalloc then unset_bit COW_VMALLOC_UPPER (ch_flags ch) else ch_flags ch),
        curr_pos := ch_fpos ch, file_max := ch_fsize ch, seqid := ch_seqid ch, uuid := ch_uuid ch,
        version := ch_version ch, nr_changed_blocks := ch_nr_changed_blocks ch\<rparr>"

lemma restore_fields [simp]:
  "filp (restore rv h cm) = filp cm" "sects (restore rv h cm) = sects cm" "total_sects (restore rv h cm) = total_sects cm"
  "data_offset (restore rv h cm) = data_offset cm" "sect_size (restore rv h cm) = sect_size cm"
  "cow_file (restore rv h cm) = cow_file cm" "cm_ok (restore rv h cm) = cm_ok cm"
  "curr_pos (restore rv h cm) = ch_fpos h" "file_max (restore rv h cm) = ch_fsize h"
  by (simp_all add: restore_def cow_file_def cm_ok_def)

lemma cow_open_header_cases:
  assumes laws: "file_laws K fd" and f: "filp cm = Some f"
    and res: "cow_open_header K dev cm io rv w = Some (r, cm', w')"
    and h: "header_ok h" "\<And>i. i < 64 \<Longrightarrow> fd w f i = header_bytes h i"
  shows "r = 0 \<Longrightarrow> ch_magic h = COW_MAGIC \<and> bit (ch_flags h) COW_CLEAN \<and> bit (ch_flags h) COW_INDEX_ONLY = io \<and>
       cm' = mark_clean False (restore rv h cm)"
    and "\<forall>g i. g \<noteq> f \<or> 4096 \<le> i \<longrightarrow> fd w' g i = fd w g i"
    and "r = 0 \<Longrightarrow> \<forall>i<4096. fd w' f i = header_bytes (header_of cm') i"
proof -
  obtain g w1 where mem: "kmalloc K COW_HEADER_SIZE w = (g, w1)" by fastforce
  note fd1 = alloc_lawD [OF laws mem]
  obtain r2 b w2 where rd: "file_read K dev cm (\<lambda>_. 0) 0 4096 w1 = Some (r2, b, w2)"
    using file_read_total [OF f] by metis
  note fr = file_read_laws [OF laws f rd]
  have "parse_header b = h" if "r2 = 0"
    by (rule parse_header_bytes [OF h(1)]) (use fr(2) [OF that] h(2) fd1 in auto)
  moreover have fr': "filp (restore rv h cm) = Some f" using f by simp
  obtain r3 cm3 w3 where wh: "cow_write_header K dev (restore rv h cm) False w2 = Some (r3, cm3, w3)"
    and fr3: "\<forall>g i. g \<noteq> f \<or> 4096 \<le> i \<longrightarrow> fd w3 g i = fd w2 g i"
    and ok3: "r3 = 0 \<longrightarrow> cm3 = mark_clean False (restore rv h cm) \<and> (\<forall>i<4096. fd w3 f i = header_bytes (header_of cm3) i)"
    using cow_write_header_spec [OF laws fr', of dev False w2] by blast
  ultimately have
    cases: "g = None \<and> r = - ENOMEM \<and> w' = w1 \<or> r2 \<noteq> 0 \<and> r = r2 \<and> w' = w2 \<or> r = - EINVAL \<and> w' = w2 \<or>
      ch_magic h = COW_MAGIC \<and> bit (ch_flags h) COW_CLEAN \<and> bit (ch_flags h) COW_INDEX_ONLY = io \<and> r = r3 \<and> cm' = cm3 \<and> w' = w3"
    using res mem rd unfolding cow_open_header_def restore_def [symmetric] Let_def
    by (cases g) (auto split: if_splits simp del: not_None_eq COW_MAGIC_def COW_CLEAN_def COW_INDEX_ONLY_def)
  from cases ok3 show "r = 0 \<Longrightarrow> ch_magic h = COW_MAGIC \<and> bit (ch_flags h) COW_CLEAN \<and> bit (ch_flags h) COW_INDEX_ONLY = io \<and>
       cm' = mark_clean False (restore rv h cm)" by auto
  from cases fd1 fr(1) fr3 show "\<forall>g i. g \<noteq> f \<or> 4096 \<le> i \<longrightarrow> fd w' g i = fd w g i" by auto
  from cases ok3 show "r = 0 \<Longrightarrow> \<forall>i<4096. fd w' f i = header_bytes (header_of cm') i" by auto
qed

end
