(* ===== verification/Cow_Cycle.thy ===== *)
theory Cow_Cycle
  imports Cow_Life Snap_Read
begin

text \<open>
  Whole life cycles of a cow file: creation (\<^verbatim>\<open>cow_init\<close>), the dormant round trip
  (\<^verbatim>\<open>cow_sync_and_close\<close> and \<^verbatim>\<open>cow_reopen\<close>), the clean shut-down
  (\<^verbatim>\<open>cow_sync_and_free\<close>), the reload after a reboot (\<^verbatim>\<open>cow_reload\<close>), and what the clean
  flag of the header protects against. The index that a clean shut-down leaves in the file is
  the one \<^verbatim>\<open>update-img\<close> reads.
\<close>

section \<open>Services that touch no file\<close>

definition life_laws :: "('w, 'k) kern_scheme \<Rightarrow> ('w \<Rightarrow> nat \<Rightarrow> buf) \<Rightarrow> bool" where
  "life_laws K fd \<longleftrightarrow> file_laws K fd \<and>
     (\<forall>f w. fd (filp_close K f w) = fd w) \<and> (\<forall>p w. fd (snd (filp_open K p False w)) = fd w) \<and>
     (\<forall>w. fd (snd (vm_area_alloc K w)) = fd w) \<and> (\<forall>w. fd (snd (insert_vm_struct K w)) = fd w) \<and>
     (\<forall>w. fd (snd (remap_pfn_range K w)) = fd w) \<and> (\<forall>n w. fd (snd (get_unmapped_area K n w)) = fd w) \<and>
     (\<forall>fm f n w. fiemap K = Some fm \<longrightarrow> fd (snd (snd (fm f n w))) = fd w)"

lemma life_lawsD:
  assumes "life_laws K fd"
  shows "file_laws K fd" "fd (filp_close K f w) = fd w" "filp_open K p False w = (r, w1) \<Longrightarrow> fd w1 = fd w"
    "vm_area_alloc K w = (x, w1) \<Longrightarrow> fd w1 = fd w" "insert_vm_struct K w = (y, w1) \<Longrightarrow> fd w1 = fd w"
    "remap_pfn_range K w = (y, w1) \<Longrightarrow> fd w1 = fd w" "get_unmapped_area K n w = (y, w1) \<Longrightarrow> fd w1 = fd w"
    "fiemap K = Some fm \<Longrightarrow> fm g n w = (y, es, w1) \<Longrightarrow> fd w1 = fd w"
  using assms unfolding life_laws_def by (metis snd_conv)+

lemma file_open_fd: "life_laws K fd \<Longrightarrow> file_open K p False w = (r, fp, w1) \<Longrightarrow> fd w1 = fd w"
  by (auto simp: file_open_def life_lawsD(2) split: prod.splits sum.splits option.splits if_splits dest: life_lawsD(3))

lemma file_close_fd: "life_laws K fd \<Longrightarrow> fd (file_close K f w) = fd w"
  by (simp add: file_close_def life_lawsD(2))

lemma extents_fd:
  assumes laws: "life_laws K fd" and res: "elastio_snap_get_cow_file_extents K dev fp n w = Some (r, dev', l, w')"
  shows "fd w' = fd w"
proof -
  have fm: "\<forall>g k v y es v1. m g k v = (y, es, v1) \<longrightarrow> fd v1 = fd v" if "fiemap K = Some m" for m
    using life_lawsD(8) [OF laws that] by blast
  note law = life_lawsD(4-7) [OF laws] and al = alloc_lawD [OF life_lawsD(1) [OF laws]]
  from res show ?thesis
    unfolding elastio_snap_get_cow_file_extents_def Let_def
    by (simp split: if_splits option.splits prod.splits bind_splits)
       (auto split: if_splits option.splits dest!: law al, (metis fm)+)
qed

section \<open>Writing everything back\<close>

text \<open>The pages \<^verbatim>\<open>__cow_file_extents_zero_fill_ahead\<close> writes lie at or after the write head.\<close>

lemma fill_ahead_frame:
  assumes laws: "file_laws K fd" and f: "filp cm = Some f" and pos: "4096 * curr_pos cm < 2 ^ 64"
    and res: "cow_file_extents_zero_fill_ahead K dev cm w = Some (r, w')"
  shows "\<forall>g i. g \<noteq> f \<or> i < 4096 * curr_pos cm \<longrightarrow> fd w' g i = fd w g i"
proof -
  have cs: "wrap64 (curr_pos cm * COW_BLOCK_SIZE) = 4096 * curr_pos cm" using pos by simp
  obtain g w1 where al: "kmalloc K (min (sub64 (file_max cm) (4096 * curr_pos cm)) (COW_BLOCK_SIZE * 1024)) w = (g, w1)" by fastforce
  note fd1 = alloc_lawD [OF laws al]
  show ?thesis
  proof (cases g)
    case None
    with res al fd1 show ?thesis unfolding cow_file_extents_zero_fill_ahead_def Let_def cs by auto
  next
    case (Some b)
    with res al have "file_write K dev cm b (4096 * curr_pos cm) (min (sub64 (file_max cm) (4096 * curr_pos cm)) (COW_BLOCK_SIZE * 1024)) w1 = Some (r, w')"
      unfolding cow_file_extents_zero_fill_ahead_def Let_def cs by simp
    from file_write_laws(1) [OF laws f this] fd1 show ?thesis by auto
  qed
qed

text \<open>Bytes of the index and of the data area up to the write head.\<close>

definition same_store :: "('w \<Rightarrow> nat \<Rightarrow> buf) \<Rightarrow> cow_manager \<Rightarrow> 'w \<Rightarrow> 'w \<Rightarrow> bool" where
  "same_store fd cm w w' \<longleftrightarrow> (\<forall>i. 4096 \<le> i \<and> i < 4096 * curr_pos cm \<longrightarrow> fd w' (cow_file cm) i = fd w (cow_file cm) i)"

lemma same_store_keeps:
  assumes ok: "data_ok fd cm w" and same: "same_store fd cm w w'"
  shows "mapping_view fd cm w' = mapping_view fd cm w" "saved fd cm w' = saved fd cm w" "data_ok fd cm w'"
proof -
  have d: "data_offset cm = 4096 + 32768 * total_sects cm" using data_okD(1) [OF ok] by (simp add: cm_ok_def)
  show view: "mapping_view fd cm w' = mapping_view fd cm w"
  proof (rule ext)
    fix pos
    have "disk_word (cow_bytes fd cm w') pos = disk_word (cow_bytes fd cm w) pos" if "pos < 4096 * total_sects cm"
      by (rule disk_word_cong) (use that d data_okD(2) [OF ok] same in \<open>auto simp: same_store_def cow_bytes_def\<close>)
    then show "mapping_view fd cm w' pos = mapping_view fd cm w pos"
      by (auto simp: mapping_view_def sect_word_def split: option.split)
  qed
  show "saved fd cm w' = saved fd cm w"
    by (rule ext, rule saved_cong [OF ok]) (use view same d in \<open>auto simp: same_store_def\<close>)
  show "data_ok fd cm w'" using ok view by (simp add: data_ok_def)
qed

lemma full_sync:
  assumes laws: "file_laws K fd" and ok: "data_ok fd cm w"
    and res: "cow_sync_and_free_sections K dev cm 0 ahead w = Some (0, cm1, w1)"
  shows "same_but_sects cm cm1" "data_ok fd cm1 w1" "saved fd cm1 w1 = saved fd cm w"
    "mapping_view fd cm1 w1 = mapping_view fd cm w" "\<forall>j<total_sects cm. mappings (sects cm1 ! j) = None"
    "\<forall>i<4096. fd w1 (cow_file cm) i = fd w (cow_file cm) i"
proof -
  have cok: "cm_ok cm" using ok by (rule data_okD)
  have sub: "set [0..<total_sects cm] \<subseteq> {..<total_sects cm}" by auto
  from sync_sections_spec [OF laws cok sub, of dev 0 w] obtain r cm' w' where
    sy: "sync_sections K dev 0 [0..<total_sects cm] cm w = Some (r, cm', w')" and st: "cache_step fd cm w cm' w'"
    and free: "r = 0 \<longrightarrow> (\<forall>j\<in>set [0..<total_sects cm]. mappings (sects cm' ! j) = None)" by blast
  have same: "same_but_sects cm cm'" and view: "mapping_view fd cm' w' = mapping_view fd cm w"
    and out: "same_outside_index fd cm w w'" using st by (auto simp: cache_step_def)
  note flds = same_but_sects_fields [OF same] and keep = saved_cache_step [OF ok st]
  obtain f where f: "filp cm' = Some f" using cok flds by (auto simp: cm_ok_def)
  have r0: "r = 0" and cm1: "cm1 = cm'" using res sy by (auto simp: cow_sync_and_free_sections_def split: if_splits bind_splits)
  have tail: "w1 = w' \<or> (\<exists>r2. cow_file_extents_zero_fill_ahead K dev cm' w' = Some (r2, w1))"
    using res sy r0 by (auto simp: cow_sync_and_free_sections_def split: if_splits bind_splits)
  have pos: "4096 * curr_pos cm' < 2 ^ 64" using data_okD(3) [OF ok] flds by simp
  have low: "fd w1 g i = fd w' g i" if "g \<noteq> f \<or> i < 4096 * curr_pos cm'" for g i
    using tail fill_ahead_frame [OF laws f pos] that by blast
  have ss: "same_store fd cm' w' w1" using low f by (simp add: same_store_def cow_file_def)
  note keep2 = same_store_keeps [OF keep(2) ss]
  show "same_but_sects cm cm1" "data_ok fd cm1 w1" "saved fd cm1 w1 = saved fd cm w" "mapping_view fd cm1 w1 = mapping_view fd cm w"
    using same keep keep2 view cm1 by simp_all
  show "\<forall>j<total_sects cm. mappings (sects cm1 ! j) = None" using free r0 cm1 by simp
  have "4096 \<le> 4096 * curr_pos cm'" using data_okD(2) [OF ok] cok flds by (auto simp: cm_ok_def)
  then show "\<forall>i<4096. fd w1 (cow_file cm) i = fd w (cow_file cm) i"
    using low out by (auto simp: same_outside_index_def)
qed

section \<open>The dormant round trip\<close>

lemma saved_mark_clean [simp]:
  "mapping_view fd (mark_clean c cm) w = mapping_view fd cm w" "saved fd (mark_clean c cm) w = saved fd cm w"
  "data_ok fd (mark_clean c cm) w = data_ok fd cm w"
proof -
  have b: "cow_bytes fd (mark_clean c cm) w = cow_bytes fd cm w" by (simp add: cow_bytes_def)
  show v: "mapping_view fd (mark_clean c cm) w = mapping_view fd cm w" by (intro ext) (simp add: mapping_view_def b)
  show "saved fd (mark_clean c cm) w = saved fd cm w" by (intro ext) (simp add: saved_def Let_def v b)
  show "data_ok fd (mark_clean c cm) w = data_ok fd cm w" by (simp add: data_ok_def v)
qed

lemma header_write_store:
  assumes "data_ok fd cm w" "\<forall>g i. g \<noteq> cow_file cm \<or> 4096 \<le> i \<longrightarrow> fd w' g i = fd w g i"
  shows "saved fd cm w' = saved fd cm w" "mapping_view fd cm w' = mapping_view fd cm w" "data_ok fd cm w'"
  using same_store_keeps [OF assms(1), of w'] assms(2) by (auto simp: same_store_def)

lemma sync_and_close_ok:
  assumes laws: "life_laws K fd" and ok: "data_ok fd cm w" and f: "filp cm = Some f"
    and res: "cow_sync_and_close K buf dev cm w = Some (0, cm', dev', l, w')"
  shows "\<exists>cm1. same_but_sects cm cm1 \<and> cm' = (mark_clean True cm1)\<lparr>filp := None\<rparr> \<and> data_ok fd cm1 w' \<and>
     saved fd cm1 w' = saved fd cm w \<and> mapping_view fd cm1 w' = mapping_view fd cm w \<and>
     (\<forall>j<total_sects cm. mappings (sects cm1 ! j) = None) \<and>
     (\<forall>i<4096. fd w' f i = header_bytes (header_of (mark_clean True cm1)) i)"
proof -
  from res obtain cm1 w1 where sy: "cow_sync_and_free_sections K dev cm 0 True w = Some (0, cm1, w1)"
    by (auto simp: cow_sync_and_close_def split: bind_splits if_splits prod.splits)
  note full = full_sync [OF life_lawsD(1) [OF laws] ok sy]
  have f1: "filp cm1 = Some f" using full(1) f by (simp add: same_but_sects_fields)
  from cow_write_header_spec [OF life_lawsD(1) [OF laws] f1, of dev True w1] obtain r cm2 w2 where
    wh: "cow_write_header K dev cm1 True w1 = Some (r, cm2, w2)"
    and fr: "\<forall>g i. g \<noteq> f \<or> 4096 \<le> i \<longrightarrow> fd w2 g i = fd w1 g i"
    and h: "r = 0 \<longrightarrow> cm2 = mark_clean True cm1 \<and> (\<forall>i<4096. fd w2 f i = header_bytes (header_of cm2) i)" by blast
  from res sy wh have r: "r = 0" by (auto simp: cow_sync_and_close_def split: bind_splits if_splits prod.splits)
  with h have cm2: "cm2 = mark_clean True cm1" by simp
  have f2: "filp cm2 = Some f" using f1 cm2 by simp
  from res sy wh r f2 obtain w3 where ex: "elastio_snap_get_cow_file_extents K dev (Some f) buf w2 = Some (0, dev', l, w3)"
    and out: "cm' = cm2\<lparr>filp := None\<rparr>" "w' = file_close K f w3"
    by (auto simp: cow_sync_and_close_def close_filp_def split: bind_splits if_splits prod.splits)
  have fd': "fd w' = fd w2" using extents_fd [OF laws ex] out(2) file_close_fd [OF laws] by simp
  have cf: "cow_file cm1 = f" using f1 by (simp add: cow_file_def)
  from header_write_store [OF full(2), of w2] fr cf full(3,4) have
    "saved fd cm1 w2 = saved fd cm w" "mapping_view fd cm1 w2 = mapping_view fd cm w" "data_ok fd cm1 w2" by simp_all
  with store_same_files [OF fd', of cm1] have
    "saved fd cm1 w' = saved fd cm w" "mapping_view fd cm1 w' = mapping_view fd cm w" "data_ok fd cm1 w'" by simp_all
  with full(1,5) out(1) cm2 h r fd' show ?thesis by auto
qed

lemma mark_clean_twice: "mark_clean c (mark_clean d cm) = mark_clean c cm"
proof -
  have "unset_bit n (set_bit n a) = unset_bit n a" "set_bit n (unset_bit n a) = set_bit n a"
    "set_bit n (set_bit n a) = set_bit n a" "unset_bit n (unset_bit n a) = unset_bit n a" for n and a :: "32 word"
    by (rule bit_eqI, simp add: bit_set_bit_iff bit_unset_bit_iff, blast?)+
  then show ?thesis by (cases c; cases d) (simp_all add: mark_clean_def del: COW_CLEAN_def)
qed

lemma restore_own_header: "restore False (header_of cm) cm = cm"
  by (simp add: restore_def header_of_def)

lemma reopen_ok:
  assumes laws: "life_laws K fd" and ok: "data_ok fd cm1 w" and f: "filp cm1 = Some f" and fields: "fields_ok cm1"
    and h: "\<forall>i<4096. fd w f i = header_bytes (header_of (mark_clean True cm1)) i"
    and op: "file_open K path False w = (0, Some f, w1)"
    and res: "cow_reopen K dev ((mark_clean True cm1)\<lparr>filp := None\<rparr>) path w = Some (0, cm2, dev', w2)"
  shows "cm2 = mark_clean False cm1" "data_ok fd cm2 w2" "saved fd cm2 w2 = saved fd cm1 w"
    "mapping_view fd cm2 w2 = mapping_view fd cm1 w" "\<forall>i<4096. fd w2 f i = header_bytes (header_of cm2) i"
proof -
  let ?cm = "mark_clean True cm1"
  have same: "?cm\<lparr>filp := Some f\<rparr> = ?cm" using f by simp
  have fd1: "fd w1 = fd w" using file_open_fd [OF laws op] .
  from res op have oh: "cow_open_header K (dev\<lparr>sd_cow_inode := Some (f_inode K f)\<rparr>) ?cm (bit (flags ?cm) COW_INDEX_ONLY) False w1 = Some (0, cm2, w2)"
    by (auto simp: cow_reopen_def same Let_def split: bind_splits if_splits)
  have hok: "header_ok (header_of ?cm)" using fields by (intro fields_ok_header) simp
  have "filp ?cm = Some f" using f by simp
  note cases = cow_open_header_cases [OF life_lawsD(1) [OF laws] this oh hok]
  have "\<And>i. i < 64 \<Longrightarrow> fd w1 f i = header_bytes (header_of ?cm) i" using h fd1 by simp
  note cases = cases [OF this]
  show cm2: "cm2 = mark_clean False cm1" using cases(1) by (simp add: restore_own_header mark_clean_twice)
  have ok1: "data_ok fd cm1 w1" using ok store_same_files [OF fd1, of cm1] by simp
  have "\<forall>g i. g \<noteq> cow_file cm1 \<or> 4096 \<le> i \<longrightarrow> fd w2 g i = fd w1 g i" using cases(2) f by (simp add: cow_file_def)
  note store = header_write_store [OF ok1 this]
  from store store_same_files [OF fd1, of cm1] cm2 show "data_ok fd cm2 w2" "saved fd cm2 w2 = saved fd cm1 w"
    "mapping_view fd cm2 w2 = mapping_view fd cm1 w" by simp_all
  from cases(3) show "\<forall>i<4096. fd w2 f i = header_bytes (header_of cm2) i" by simp
qed

section \<open>Clean shut-down, reload and creation\<close>

text \<open>What the index in the file says when every section is on disk.\<close>

lemma index_on_disk:
  assumes "\<forall>j<total_sects cm. mappings (sects cm ! j) = None" "pos < 4096 * total_sects cm"
  shows "mapping_view fd cm w pos = (if has_data (sects cm ! (pos div 4096)) then disk_word (cow_bytes fd cm w) pos else 0)"
  using assms pos_div_less [OF assms(2)] by (simp add: mapping_view_def sect_word_def)

lemma sync_and_free_ok:
  assumes laws: "life_laws K fd" and ok: "data_ok fd cm w" and f: "filp cm = Some f"
    and res: "cow_sync_and_free K dev cm w = Some (0, w')"
  shows "\<exists>cm1. same_but_sects cm cm1 \<and> mapping_view fd cm1 w' = mapping_view fd cm w \<and> saved fd cm1 w' = saved fd cm w \<and>
     (\<forall>j<total_sects cm. mappings (sects cm1 ! j) = None) \<and>
     (\<forall>i<4096. fd w' f i = header_bytes (header_of (mark_clean True cm1)) i)"
proof -
  from res obtain cm1 w1 where sy: "cow_sync_and_free_sections K dev cm 0 False w = Some (0, cm1, w1)"
    by (auto simp: cow_sync_and_free_def split: bind_splits if_splits)
  note full = full_sync [OF life_lawsD(1) [OF laws] ok sy]
  have f1: "filp cm1 = Some f" using full(1) f by (simp add: same_but_sects_fields)
  from cow_write_header_spec [OF life_lawsD(1) [OF laws] f1, of dev True w1] obtain r cm2 w2 where
    wh: "cow_write_header K dev cm1 True w1 = Some (r, cm2, w2)"
    and fr: "\<forall>g i. g \<noteq> f \<or> 4096 \<le> i \<longrightarrow> fd w2 g i = fd w1 g i"
    and h: "r = 0 \<longrightarrow> cm2 = mark_clean True cm1 \<and> (\<forall>i<4096. fd w2 f i = header_bytes (header_of cm2) i)" by blast
  from res sy wh have r: "r = 0" and w': "w' = close_filp K (filp cm2) w2"
    by (auto simp: cow_sync_and_free_def split: bind_splits if_splits)
  with h f1 have cm2: "cm2 = mark_clean True cm1" "filp cm2 = Some f" by simp_all
  have fd': "fd w' = fd w2" using w' cm2 file_close_fd [OF laws] by (simp add: close_filp_def)
  have cf: "cow_file cm1 = f" using f1 by (simp add: cow_file_def)
  from header_write_store [OF full(2), of w2] fr cf full(3,4) have
    "saved fd cm1 w2 = saved fd cm w" "mapping_view fd cm1 w2 = mapping_view fd cm w" by simp_all
  with store_same_files [OF fd', of cm1] full(1,5) cm2 h r fd' show ?thesis by auto
qed

text \<open>Nothing in the section array says that the file holds an index after a reload.\<close>

lemma fresh_sections_empty:
  assumes "sects cm = replicate (total_sects cm) \<lparr>has_data = False, usage = 0, mappings = None\<rparr>"
  shows "mapping_view fd cm w = (\<lambda>_. 0)"
  using assms by (intro ext) (simp add: mapping_view_def sect_word_def pos_div_less)

lemma cow_alloc_sects_ok:
  "cow_alloc_sects K cm w = (0, cm1, w1) \<Longrightarrow>
     sects cm1 = replicate (total_sects cm) \<lparr>has_data = False, usage = 0, mappings = None\<rparr> \<and> total_sects cm1 = total_sects cm \<and>
     cm1 = cm\<lparr>sects := sects cm1, flags := flags cm1\<rparr> \<and>
     (flags cm1 = flags cm \<or> flags cm1 = set_bit COW_VMALLOC_UPPER (flags cm))"
  by (auto simp: cow_alloc_sects_def Let_def split: prod.splits option.splits)

lemma cow_reload_ok:
  assumes laws: "life_laws K fd" and mem: "kmalloc K sizeof_cow_manager w = (Some g, w1)" and op: "file_open K path False w1 = (0, Some f, w2)"
    and h: "header_ok h" "\<forall>i<64. fd w f i = header_bytes h i"
    and res: "cow_reload K addr dev path elements sectsz cache io w = Some (0, Some cm, dev', w')"
  shows "sects cm = replicate (total_sects cm) \<lparr>has_data = False, usage = 0, mappings = None\<rparr>"
    "curr_pos cm = ch_fpos h" "file_max cm = ch_fsize h" "seqid cm = ch_seqid h" "uuid cm = ch_uuid h"
    "nr_changed_blocks cm = ch_nr_changed_blocks h" "ch_magic h = COW_MAGIC" "bit (ch_flags h) COW_CLEAN"
    "\<forall>g i. 4096 \<le> i \<longrightarrow> fd w' g i = fd w g i"
    "filp cm = Some f" "\<not> bit (ch_flags (parse_header (fd w' f))) COW_CLEAN"
proof -
  let ?cm = "(cow_set_sizes K elements sectsz cache (cow_zero\<lparr>filp := Some f\<rparr>))\<lparr>cm_dev := addr\<rparr>"
  let ?dev = "dev\<lparr>sd_cow_inode := Some (f_inode K f)\<rparr>"
  have f: "filp ?cm = Some f" by (simp add: cow_set_sizes_def Let_def)
  from res mem op obtain r2 cm1 w3 where oh: "cow_open_header K ?dev ?cm io True w2 = Some (r2, cm1, w3)"
    by (auto simp: cow_reload_def Let_def split: bind_splits)
  with res mem op obtain cm2 where r2: "r2 = 0" and al: "cow_alloc_sects K cm1 w3 = (0, cm2, w')" "cm = cm2"
    by (auto simp: cow_reload_def Let_def split: if_splits prod.splits)
  have fd2: "fd w2 = fd w" using file_open_fd [OF laws op] alloc_lawD [OF life_lawsD(1) [OF laws] mem] by simp
  note c = cow_open_header_cases [OF life_lawsD(1) [OF laws] f oh h(1)]
  have "\<And>i. i < 64 \<Longrightarrow> fd w2 f i = header_bytes h i" using h(2) fd2 by simp
  note c = c [OF this]
  have cm1: "cm1 = mark_clean False (restore True h ?cm)" and cl: "ch_magic h = COW_MAGIC" "bit (ch_flags h) COW_CLEAN"
    using c(1) r2 by auto
  have fd': "fd w' = fd w3" using al(1) alloc_lawD [OF life_lawsD(1) [OF laws]]
    by (auto simp: cow_alloc_sects_def Let_def split: prod.splits option.splits)
  from cow_alloc_sects_ok [OF al(1)] have
    sc: "sects cm = replicate (total_sects cm) \<lparr>has_data = False, usage = 0, mappings = None\<rparr>"
    and cm: "cm = cm1\<lparr>sects := sects cm, flags := flags cm\<rparr>" using al(2) by auto
  show "sects cm = replicate (total_sects cm) \<lparr>has_data = False, usage = 0, mappings = None\<rparr>" by (rule sc)
  show "curr_pos cm = ch_fpos h" "file_max cm = ch_fsize h" "seqid cm = ch_seqid h" "uuid cm = ch_uuid h"
    "nr_changed_blocks cm = ch_nr_changed_blocks h"
    by (subst cm, simp add: cm1 restore_def mark_clean_def)+
  have "header_ok (header_of cm1)"
    using h(1) by (simp add: cm1 header_ok_def header_of_def restore_def mark_clean_def)
  moreover have "\<forall>i<4096. fd w' f i = header_bytes (header_of cm1) i" using c(3) r2 fd' by simp
  ultimately have "parse_header (fd w' f) = header_of cm1" by (intro parse_header_bytes) simp_all
  moreover have "\<not> bit (ch_flags (header_of cm1)) COW_CLEAN"
    using mark_clean_bit [of False "restore True h ?cm"] by (simp add: cm1 header_of_def)
  ultimately show "\<not> bit (ch_flags (parse_header (fd w' f))) COW_CLEAN" by simp
  show "filp cm = Some f" by (subst cm) (simp add: cm1 cow_set_sizes_def Let_def)
  show "ch_magic h = COW_MAGIC" "bit (ch_flags h) COW_CLEAN" by (rule cl)+
  show "\<forall>g i. 4096 \<le> i \<longrightarrow> fd w' g i = fd w g i" using c(2) fd2 fd' by simp
qed

lemma cow_open_header_total:
  assumes laws: "file_laws K fd" and f: "filp cm = Some f"
  shows "\<exists>r cm' w'. cow_open_header K dev cm io rv w = Some (r, cm', w')"
proof -
  obtain g w1 where al: "kmalloc K COW_HEADER_SIZE w = (g, w1)" by fastforce
  obtain r b w2 where rd: "file_read K dev cm (\<lambda>_. 0) 0 COW_HEADER_SIZE w1 = Some (r, b, w2)"
    using file_read_total [OF f] by metis
  have "filp (restore rv (parse_header b) cm) = Some f" using f by simp
  from cow_write_header_spec [OF laws this, of dev False w2] obtain r3 cm3 w3 where
    "cow_write_header K dev (restore rv (parse_header b) cm) False w2 = Some (r3, cm3, w3)" by blast
  with al rd show ?thesis
    unfolding cow_open_header_def restore_def [symmetric] Let_def by (cases g) (simp_all add: restore_def)
qed

lemma unclean_reload:
  assumes laws: "life_laws K fd" and mem: "kmalloc K sizeof_cow_manager w = (Some g, w1)" and op: "file_open K path False w1 = (0, Some f, w2)"
    and h: "header_ok h" "\<forall>i<64. fd w f i = header_bytes h i"
    and bad: "ch_magic h \<noteq> COW_MAGIC \<or> \<not> bit (ch_flags h) COW_CLEAN \<or> bit (ch_flags h) COW_INDEX_ONLY \<noteq> io"
  shows "\<exists>r dev' w'. cow_reload K addr dev path elements sectsz cache io w = Some (r, None, dev', w') \<and> r \<noteq> 0"
proof -
  let ?cm = "(cow_set_sizes K elements sectsz cache (cow_zero\<lparr>filp := Some f\<rparr>))\<lparr>cm_dev := addr\<rparr>"
  let ?dev = "dev\<lparr>sd_cow_inode := Some (f_inode K f)\<rparr>"
  have f: "filp ?cm = Some f" by (simp add: cow_set_sizes_def Let_def)
  from cow_open_header_total [OF life_lawsD(1) [OF laws] f, of ?dev io True w2] obtain r cm' w' where
    oh: "cow_open_header K ?dev ?cm io True w2 = Some (r, cm', w')" by blast
  have "fd w2 = fd w" using file_open_fd [OF laws op] alloc_lawD [OF life_lawsD(1) [OF laws] mem] by simp
  then have "\<And>i. i < 64 \<Longrightarrow> fd w2 f i = header_bytes h i" using h(2) by simp
  from cow_open_header_cases(1) [OF life_lawsD(1) [OF laws] f oh h(1) this] bad have "r \<noteq> 0" by blast
  with oh mem op show ?thesis by (simp add: cow_reload_def Let_def)
qed

lemma cow_init_ok:
  assumes laws: "life_laws K fd" and order: "get_order K (4096 * 8) = 3"
    and uuid: "case u of Some l \<Rightarrow> length l = 16 | None \<Rightarrow> \<forall>w. length (fst (generate_random_uuid K w)) = 16"
    and bnd: "elements < 2 ^ 59" "max_size < 2 ^ 63" "sq < 2 ^ 64"
    and res: "cow_init K addr dev path elements 4096 cache max_size u sq w = Some (0, Some cm, dev', w')"
  shows "data_ok fd cm w'" "mapping_view fd cm w' = (\<lambda>_. 0)" "total_sects cm = (elements + 4095) div 4096"
    "fields_ok cm" "\<not> bit (flags cm) COW_CLEAN" "seqid cm = sq" "file_max cm = max_size" "cm_dev cm = addr"
    "\<exists>f. filp cm = Some f \<and> (\<forall>i<4096. fd w' f i = header_bytes (header_of cm) i)"
    "curr_pos cm = 1 + 8 * total_sects cm" "data_offset cm = 4096 * curr_pos cm"
proof -
  let ?n = "(elements + 4095) div 4096"
  have seg: "NUM_SEGMENTS elements (3 + PAGE_SHIFT - 3) = ?n" using bnd(1) by (simp add: NUM_SEGMENTS_def)
  have n: "?n < 2 ^ 47 + 1" using bnd(1) by simp
  have off: "wrap64 (COW_HEADER_SIZE + ?n * (4096 * sizeof_u64)) = 4096 + 32768 * ?n"
    using n by (simp add: sizeof_u64_def mult.commute)
  let ?cm = "\<lambda>f uu. (cow_set_sizes K elements 4096 cache
       (cow_zero\<lparr>filp := Some f, version := COW_VERSION_CHANGED_BLOCKS, file_max := max_size, seqid := sq\<rparr>))
         \<lparr>curr_pos := (4096 + 32768 * ?n) div 4096, cm_dev := addr, uuid := uu\<rparr>"
  have sizes: "cow_set_sizes K elements 4096 cache c = c\<lparr>allocated_sects := 0, sect_size := 4096, log_sect_pages := 3, total_sects := ?n,
      allowed_sects := cow_calculate_allowed_sects cache ?n, data_offset := 4096 + 32768 * ?n\<rparr>" for c
    using off seg order by (simp add: cow_set_sizes_def Let_def)
  obtain g w1 where mem: "kmalloc K sizeof_cow_manager w = (Some g, w1)"
    using res by (cases "kmalloc K sizeof_cow_manager w") (auto simp: cow_init_def split: option.splits)
  obtain r1 fo w2 where op: "file_open K path True w1 = (r1, fo, w2)" by (metis prod_cases3)
  with res mem obtain f where fo: "fo = Some f" by (cases fo) (auto simp: cow_init_def)
  obtain uu w3 where uu: "(case u of Some l \<Rightarrow> (l, w2) | None \<Rightarrow> generate_random_uuid K w2) = (uu, w3)" by fastforce
  then have len: "length uu = 16" using uuid by (auto split: option.splits) (metis fst_conv)
  obtain r2 cm1 w4 where al: "cow_alloc_sects K (?cm f uu) w3 = (r2, cm1, w4)" by (metis prod_cases3)
  have "r2 = 0 \<and> (\<exists>w5. cow_write_header K (dev\<lparr>sd_cow_inode := Some (f_inode K f)\<rparr>) cm1 False w5 = Some (0, cm, w'))"
    using res al by (simp add: cow_init_def mem op fo uu sizes split: bind_splits if_splits)
       (auto simp: Let_def split: bind_splits if_splits prod.splits)
  then obtain w5 where r2: "r2 = 0" and wh: "cow_write_header K (dev\<lparr>sd_cow_inode := Some (f_inode K f)\<rparr>) cm1 False w5 = Some (0, cm, w')" by blast
  from cow_alloc_sects_ok [OF al [unfolded r2]] have
    sc: "sects cm1 = replicate (total_sects cm1) \<lparr>has_data = False, usage = 0, mappings = None\<rparr>"
    and cm1: "cm1 = (?cm f uu)\<lparr>sects := sects cm1, flags := flags cm1\<rparr>" by auto
  have flds: "filp cm1 = Some f" "curr_pos cm1 = (4096 + 32768 * ?n) div 4096" "total_sects cm1 = ?n" "sect_size cm1 = 4096"
    "data_offset cm1 = 4096 + 32768 * ?n" "file_max cm1 = max_size" "seqid cm1 = sq" "uuid cm1 = uu" "version cm1 = 1"
    "nr_changed_blocks cm1 = 0" "cm_dev cm1 = addr"
    by (subst cm1, simp add: sizes cow_zero_def)+
  from cow_write_header_spec [OF life_lawsD(1) [OF laws] flds(1), of "dev\<lparr>sd_cow_inode := Some (f_inode K f)\<rparr>" False w5]
  obtain r cm2 w6 where "cow_write_header K (dev\<lparr>sd_cow_inode := Some (f_inode K f)\<rparr>) cm1 False w5 = Some (r, cm2, w6)"
    and "r = 0 \<longrightarrow> cm2 = mark_clean False cm1 \<and> (\<forall>i<4096. fd w6 f i = header_bytes (header_of cm2) i)" by blast
  with wh have cm: "cm = mark_clean False cm1" and hd: "\<forall>i<4096. fd w' f i = header_bytes (header_of cm) i" by simp_all
  have "(4096 + 32768 * m) div 4096 = 1 + 8 * m" for m :: nat by simp
  note cp = this [of ?n]
  have view: "mapping_view fd cm1 w' = (\<lambda>_. 0)" by (rule fresh_sections_empty [OF sc])
  have "list_all sect_ok (sects cm1)" by (subst sc) (simp add: list_all_iff sect_ok_def)
  moreover have "length (sects cm1) = total_sects cm1" by (subst sc) simp
  ultimately have "cm_ok cm1" using flds n by (simp add: cm_ok_def)
  then have "data_ok fd cm1 w'" using flds n bnd cp by (simp add: data_ok_def view)
  with cm view show "data_ok fd cm w'" "mapping_view fd cm w' = (\<lambda>_. 0)" by simp_all
  have "fields_ok cm1" using flds n bnd len cp by (simp add: fields_ok_def)
  with cm show "fields_ok cm" by simp
  show "\<not> bit (flags cm) COW_CLEAN" "total_sects cm = ?n" "seqid cm = sq" "file_max cm = max_size" "cm_dev cm = addr"
    using cm flds by (simp_all add: mark_clean_def bit_unset_bit_iff)
  show "\<exists>f. filp cm = Some f \<and> (\<forall>i<4096. fd w' f i = header_bytes (header_of cm) i)" using cm flds hd by auto
  show "curr_pos cm = 1 + 8 * total_sects cm" "data_offset cm = 4096 * curr_pos cm" using cm flds cp by (simp_all add: mark_clean_def)
qed


section \<open>Properties\<close>

text \<open>C24: Creating a cow file for a device of \<open>elements\<close> blocks: when \<^verbatim>\<open>cow_init\<close> succeeds the manager is
  a well-formed empty store with just enough sections for the device, nothing is saved, the
  write head is the first block after the index (the header block and eight blocks a section),
  where the data area starts, and the header written to the file is the
  manager's own, marked dirty.\<close>

theorem cow_init_makes_empty_store:
  assumes "life_laws K fd" and "get_order K (4096 * 8) = 3"
    and "case u of Some l \<Rightarrow> length l = 16 | None \<Rightarrow> \<forall>w. length (fst (generate_random_uuid K w)) = 16"
    and "elements < 2 ^ 59" and "max_size < 2 ^ 63" and "sq < 2 ^ 64"
    and "cow_init K addr dev path elements 4096 cache max_size u sq w = Some (0, Some cm, dev', w')"
  shows "data_ok fd cm w' \<and> saved fd cm w' = (\<lambda>_. None) \<and> elements \<le> 4096 * total_sects cm \<and> 4096 * total_sects cm < elements + 4096 \<and>
     curr_pos cm = 1 + 8 * total_sects cm \<and> data_offset cm = 4096 * curr_pos cm \<and>
     \<not> bit (flags cm) COW_CLEAN \<and> seqid cm = sq \<and> file_max cm = max_size \<and>
     (\<exists>f. filp cm = Some f \<and> (\<forall>i<4096. fd w' f i = header_bytes (header_of cm) i))"
proof -
  note ok = cow_init_ok [OF assms]
  have "saved fd cm w' = (\<lambda>_. None)" by (rule ext) (simp add: saved_def ok(2))
  moreover have "elements \<le> 4096 * total_sects cm" "4096 * total_sects cm < elements + 4096" unfolding ok(3) using div_mult_mod_eq [of "elements + 4095" 4096] mod_less_divisor [of 4096 "elements + 4095"] by linarith+
  ultimately show ?thesis using ok by simp
qed

lemma ram_life_laws: "life_laws ram_kern (\<lambda>w. w)"
  by (simp add: life_laws_def ram_kern_file_laws) (simp add: ram_kern_def)

lemma ram_file_ops:
  "filp cm = Some f \<Longrightarrow> file_read ram_kern dev cm b off n w = Some (0, \<lambda>i. w f (off + i), w)"
  "file_open ram_kern p c w = (0, Some 1, w)" "file_close ram_kern f w = w" "kmalloc ram_kern n w = (Some (\<lambda>_. 0), w)"
  "file_allocate ram_kern dev cm f off n w = Some (0, w)" "generate_random_uuid ram_kern w = (replicate 16 0, w)"
  "f_inode ram_kern f = f"
  by (simp_all add: file_read_open file_open_def file_close_def file_allocate_def ram_kern_def)

lemma demo_init:
  "\<exists>cm dev' w'. cow_init ram_kern 0 demo_dev ''/cow'' 5000 4096 1000000 1048576 None 3 ram0 = Some (0, Some cm, dev', w')"
proof -
  have hw: "cow_write_header ram_kern d c False w = Some (0, mark_clean False c, ram_write 1 (header_bytes (header_of (mark_clean False c))) 0 4096 w)"
    if "filp c = Some 1" for d :: devio and c w
    using that cow_write_header_eq [of ram_kern w "\<lambda>_. 0" w d c False]
    by (simp add: ram_file_ops ram_file_write [where f = 1])
  have f: "filp (cow_set_sizes ram_kern a b d c) = filp c" for c :: cow_manager and a b d
    by (simp add: cow_set_sizes_def Let_def)
  show ?thesis
    by (simp add: cow_init_def cow_alloc_sects_def ram_file_ops Let_def hw f del: One_nat_def)
qed

theorem cow_init_makes_empty_store_witness:
  "\<exists>cm dev' w'. cow_init ram_kern 0 demo_dev ''/cow'' 5000 4096 1000000 1048576 None 3 ram0 = Some (0, Some cm, dev', w') \<and>
     data_ok (\<lambda>w. w) cm w' \<and> total_sects cm = 2 \<and> curr_pos cm = 17 \<and> seqid cm = 3"
proof -
  obtain cm dev' w' where i: "cow_init ram_kern 0 demo_dev ''/cow'' 5000 4096 1000000 1048576 None 3 ram0 = Some (0, Some cm, dev', w')"
    using demo_init by blast
  have "get_order ram_kern (4096 * 8) = 3" by (simp add: ram_kern_def)
  moreover have "case None of Some l \<Rightarrow> length (l :: byte list) = 16 | None \<Rightarrow> \<forall>w. length (fst (generate_random_uuid ram_kern w)) = 16"
    by (simp add: ram_kern_def)
  ultimately have ok: "data_ok (\<lambda>w. w) cm w'" "5000 \<le> 4096 * total_sects cm" "4096 * total_sects cm < 5000 + 4096"
    "curr_pos cm = 1 + 8 * total_sects cm" "seqid cm = 3"
    using cow_init_makes_empty_store [OF ram_life_laws _ _ _ _ _ i] by auto
  have "total_sects cm = 2" using ok(2,3) by linarith
  with ok i show ?thesis by auto
qed

text \<open>C16: The dormant round trip: when \<^verbatim>\<open>cow_sync_and_close\<close> (umount) and later \<^verbatim>\<open>cow_reopen\<close> (mount) of
  the same, untouched file both succeed, every mapping, every saved block, the write head,
  sequence number, UUID and change count are as before, all mappings are on disk in between,
  and the header in the file is dirty again.\<close>

theorem dormant_round_trip:
  assumes "life_laws K fd" and "data_ok fd cm w" and "fields_ok cm" and "filp cm = Some f"
    and "cow_sync_and_close K buf dev cm w = Some (0, cm1, dev1, l, w1)"
    and "fd w2 = fd w1" and "file_open K path False w2 = (0, Some f, w3)"
    and "cow_reopen K dev1 cm1 path w2 = Some (0, cm2, dev2, w4)"
  shows "data_ok fd cm2 w4 \<and> mapping_view fd cm2 w4 = mapping_view fd cm w \<and> saved fd cm2 w4 = saved fd cm w \<and>
     curr_pos cm2 = curr_pos cm \<and> seqid cm2 = seqid cm \<and> uuid cm2 = uuid cm \<and> version cm2 = version cm \<and>
     nr_changed_blocks cm2 = nr_changed_blocks cm \<and> (\<forall>j<total_sects cm. mappings (sects cm2 ! j) = None) \<and>
     \<not> bit (flags cm2) COW_CLEAN \<and> (\<forall>i<4096. fd w4 f i = header_bytes (header_of cm2) i)"
proof -
  from sync_and_close_ok [OF assms(1,2,4,5)] obtain cm' where
    same: "same_but_sects cm cm'" and cm1: "cm1 = (mark_clean True cm')\<lparr>filp := None\<rparr>" and ok: "data_ok fd cm' w1"
    and sv: "saved fd cm' w1 = saved fd cm w" "mapping_view fd cm' w1 = mapping_view fd cm w"
    and free: "\<forall>j<total_sects cm. mappings (sects cm' ! j) = None"
    and h: "\<forall>i<4096. fd w1 f i = header_bytes (header_of (mark_clean True cm')) i" by blast
  note flds = same_but_sects_fields [OF same]
  have "filp cm' = Some f" "fields_ok cm'" using assms(3,4) flds by (simp_all add: fields_ok_def)
  note store = store_same_files [OF assms(6), of cm']
  have "data_ok fd cm' w2" "\<forall>i<4096. fd w2 f i = header_bytes (header_of (mark_clean True cm')) i"
    using ok store h assms(6) by simp_all
  from reopen_ok [OF assms(1) this(1) \<open>filp cm' = Some f\<close> \<open>fields_ok cm'\<close> this(2) assms(7) assms(8) [unfolded cm1]]
  show ?thesis using sv store flds free mark_clean_bit [of False cm'] by simp
qed

lemma demo_saved_fields: "fields_ok demo_saved_cm" "filp demo_saved_cm = Some 1"
  by (simp_all add: fields_ok_def demo_saved_cm_def demo_cm_def)

text \<open>C17: A clean shut-down leaves the index in the file: when \<^verbatim>\<open>cow_sync_and_free\<close> succeeds the header is
  marked clean and carries the write head and the number of changed blocks, and word \<open>pos\<close> of
  the index area is the mapping of block \<open>pos\<close>, for every block of a section that was ever
  used; blocks of the other sections have no mapping. This is the layout \<^verbatim>\<open>update-img\<close> reads.\<close>

theorem clean_shutdown_writes_index:
  assumes "life_laws K fd" and "data_ok fd cm w" and "fields_ok cm" and "filp cm = Some f"
    and "cow_sync_and_free K dev cm w = Some (0, w')"
  shows "\<exists>h used. parse_header (fd w' f) = h \<and> bit (ch_flags h) COW_CLEAN \<and> ch_magic h = COW_MAGIC \<and> ch_fpos h = curr_pos cm \<and>
     ch_seqid h = seqid cm \<and> ch_uuid h = uuid cm \<and> ch_nr_changed_blocks h = nr_changed_blocks cm \<and>
     (\<forall>pos<4096 * total_sects cm. mapping_view fd cm w pos = (if used (pos div 4096) then disk_word (fd w' f) pos else 0))"
proof -
  from sync_and_free_ok [OF assms(1,2,4,5)] obtain cm1 where same: "same_but_sects cm cm1"
    and view: "mapping_view fd cm1 w' = mapping_view fd cm w" and free: "\<forall>j<total_sects cm. mappings (sects cm1 ! j) = None"
    and h: "\<forall>i<4096. fd w' f i = header_bytes (header_of (mark_clean True cm1)) i" by blast
  note flds = same_but_sects_fields [OF same]
  let ?h = "header_of (mark_clean True cm1)"
  have "header_ok ?h" using assms(3) flds by (intro fields_ok_header) (simp add: fields_ok_def)
  then have p: "parse_header (fd w' f) = ?h" by (rule parse_header_bytes) (use h in simp)
  have "cow_bytes fd cm1 w' = fd w' f" using assms(4) flds by (simp add: cow_bytes_def cow_file_def)
  then have "\<forall>pos<4096 * total_sects cm. mapping_view fd cm w pos = (if has_data (sects cm1 ! (pos div 4096)) then disk_word (fd w' f) pos else 0)"
    using index_on_disk [of cm1 _ fd w'] free flds view by simp
  moreover have "bit (ch_flags ?h) COW_CLEAN" using mark_clean_bit [of True cm1] by (simp add: header_of_def)
  ultimately show ?thesis using p flds
    by (intro exI [of _ ?h] exI [of _ "\<lambda>j. has_data (sects cm1 ! j)"]) (simp add: header_of_def)
qed

text \<open>C25: A reload takes over the write head, the identity and the number of changed blocks of a
  cleanly closed cow file and marks it as not clean, and leaves its index where it is; but no
  section is marked as having data, so every block reads as unmapped: the changes recorded
  before the reboot are in the file and lost to the driver.\<close>

theorem reload_forgets_mappings:
  assumes "life_laws K fd" and "kmalloc K sizeof_cow_manager w = (Some g, w1)" and "file_open K path False w1 = (0, Some f, w2)"
    and "header_ok h" and "\<forall>i<64. fd w f i = header_bytes h i"
    and "cow_reload K addr dev path elements sectsz cache io w = Some (0, Some cm, dev', w')"
  shows "ch_magic h = COW_MAGIC \<and> bit (ch_flags h) COW_CLEAN \<and> curr_pos cm = ch_fpos h \<and> file_max cm = ch_fsize h \<and>
     seqid cm = ch_seqid h \<and> uuid cm = ch_uuid h \<and> nr_changed_blocks cm = ch_nr_changed_blocks h \<and>
     filp cm = Some f \<and> \<not> bit (ch_flags (parse_header (fd w' f))) COW_CLEAN \<and>
     (\<forall>pos. disk_word (fd w' f) pos = disk_word (fd w f) pos) \<and> mapping_view fd cm w' = (\<lambda>_. 0)"
proof -
  note r = cow_reload_ok [OF assms]
  have "\<forall>pos. disk_word (fd w' f) pos = disk_word (fd w f) pos" using r(9) by (intro allI disk_word_cong) simp
  with r(2-8,10,11) fresh_sections_empty [OF r(1), of fd w'] show ?thesis by (intro conjI)
qed

text \<open>C26: A cow file that was not closed cleanly is never taken over: \<^verbatim>\<open>cow_reload\<close> on a file whose
  header lacks the clean flag, has another magic number or was written in the other mode
  returns an error and no manager.\<close>

theorem unclean_file_refused:
  assumes "life_laws K fd" and "kmalloc K sizeof_cow_manager w = (Some g, w1)" and "file_open K path False w1 = (0, Some f, w2)"
    and "header_ok h" and "\<forall>i<64. fd w f i = header_bytes h i"
    and "ch_magic h \<noteq> COW_MAGIC \<or> \<not> bit (ch_flags h) COW_CLEAN \<or> bit (ch_flags h) COW_INDEX_ONLY \<noteq> io"
  shows "\<exists>r dev' w'. cow_reload K addr dev path elements sectsz cache io w = Some (r, None, dev', w') \<and> r \<noteq> 0"
  by (rule unclean_reload [OF assms])

section \<open>Concrete runs\<close>

text \<open>A manager whose index is on disk: block 5 is mapped to block 9 of file 1.\<close>

definition demo_disk :: cow_manager where
  "demo_disk = demo_cm\<lparr>sects := [\<lparr>has_data = True, usage = 0, mappings = None\<rparr>], curr_pos := 10\<rparr>"

definition ram2 :: ram where
  "ram2 = (\<lambda>f i. if f = 1 \<and> i = 4136 then 9 else 0)"

lemma demo_disk_view: "mapping_view (\<lambda>w. w) demo_disk ram2 = (\<lambda>_. 0)(5 := 9)"
proof (rule ext)
  fix pos
  have zero: "bytes_u64 (\<lambda>_. 0) = 0" by (simp add: bytes_u64_def upt_rec)
  have "disk_word (ram2 1) pos = (if pos = 5 then 9 else 0)"
  proof (cases "pos = 5")
    case True
    then show ?thesis by (simp add: disk_word_def ram2_def bytes_u64_def upt_rec)
  next
    case False
    then have "disk_word (ram2 1) pos = bytes_u64 (\<lambda>_. 0)" unfolding disk_word_def by (intro bytes_u64_cong) (auto simp: ram2_def)
    with False zero show ?thesis by simp
  qed
  then show "mapping_view (\<lambda>w. w) demo_disk ram2 pos = ((\<lambda>_. 0)(5 := 9)) pos"
    by (auto simp: mapping_view_def demo_disk_def demo_cm_def sect_word_def cow_bytes_def cow_file_def less_mult_imp_div_less)
qed

lemma demo_disk_ok: "data_ok (\<lambda>w. w) demo_disk ram2" "fields_ok demo_disk" "filp demo_disk = Some 1"
proof -
  have "cm_ok demo_disk" by (simp add: cm_ok_def demo_disk_def demo_cm_def sect_ok_def)
  then show "data_ok (\<lambda>w. w) demo_disk ram2"
    by (simp add: data_ok_def demo_disk_view) (simp add: demo_disk_def demo_cm_def)
  show "fields_ok demo_disk" "filp demo_disk = Some 1" by (simp_all add: fields_ok_def demo_disk_def demo_cm_def)
qed

lemma ram_write_header:
  assumes "filp c = Some 1"
  shows "cow_write_header ram_kern d c b w = Some (0, mark_clean b c, ram_write 1 (header_bytes (header_of (mark_clean b c))) 0 4096 w)"
  using assms cow_write_header_eq [of ram_kern w "\<lambda>_. 0" w d c b] by (simp add: ram_file_ops ram_file_write [where f = 1])

lemma demo_disk_sync: "sync_sections ram_kern dev 0 [0..<total_sects demo_disk] demo_disk w = Some (0, demo_disk, w)"
  by (simp add: demo_disk_def demo_cm_def sect_at_def set_sect_def)

lemma demo_disk_free: "\<exists>w'. cow_sync_and_free ram_kern dev demo_disk ram2 = Some (0, w')"
  by (simp add: cow_sync_and_free_def cow_sync_and_free_sections_def demo_disk_sync ram_write_header demo_disk_ok del: One_nat_def)

theorem clean_shutdown_writes_index_witness:
  "\<exists>w'. cow_sync_and_free ram_kern demo_dev demo_disk ram2 = Some (0, w') \<and> bit (ch_flags (parse_header (w' 1))) COW_CLEAN \<and>
     disk_word (w' 1) 5 = 9"
proof -
  obtain w' where fr: "cow_sync_and_free ram_kern demo_dev demo_disk ram2 = Some (0, w')" using demo_disk_free by blast
  from clean_shutdown_writes_index [OF ram_life_laws demo_disk_ok fr] obtain h used where
    "parse_header (w' 1) = h" "bit (ch_flags h) COW_CLEAN"
    "\<forall>pos<4096 * total_sects demo_disk. mapping_view (\<lambda>w. w) demo_disk ram2 pos = (if used (pos div 4096) then disk_word (w' 1) pos else 0)"
    by blast
  moreover have "5 < 4096 * total_sects demo_disk" by (simp add: demo_disk_def demo_cm_def)
  ultimately show ?thesis using fr by (auto simp: demo_disk_view split: if_splits dest: spec [of _ 5])
qed

lemma ram_reopen:
  assumes f: "filp c = Some 1" and fields: "fields_ok c" and h: "\<And>i. i < 64 \<Longrightarrow> w 1 i = header_bytes (header_of (mark_clean True c)) i"
  shows "\<exists>w'. cow_reopen ram_kern dev ((mark_clean True c)\<lparr>filp := None\<rparr>) p w = Some (0, mark_clean False c, dev\<lparr>sd_cow_inode := Some 1\<rparr>, w')"
proof -
  let ?c = "mark_clean True c"
  have same: "?c\<lparr>filp := Some 1\<rparr> = ?c" using f by simp
  have "header_ok (header_of ?c)" using fields by (intro fields_ok_header) simp
  from parse_header_bytes [OF this, of "\<lambda>i. w 1 (0 + i)"] h have p: "parse_header (\<lambda>i. w 1 i) = header_of ?c" by simp
  have b: "bit (flags ?c) COW_CLEAN" by (rule mark_clean_bit [THEN iffD2]) simp
  have "cow_open_header ram_kern (dev\<lparr>sd_cow_inode := Some 1\<rparr>) ?c (bit (flags ?c) COW_INDEX_ONLY) False w =
      cow_write_header ram_kern (dev\<lparr>sd_cow_inode := Some 1\<rparr>) (restore False (header_of ?c) ?c) False w"
    unfolding cow_open_header_def restore_def [symmetric] Let_def
    using b p f by (simp add: ram_file_ops) (simp add: header_of_def restore_def)
  also have "\<dots> = Some (0, mark_clean False c, ram_write 1 (header_bytes (header_of (mark_clean False c))) 0 4096 w)"
    using f by (simp add: restore_own_header ram_write_header mark_clean_twice)
  finally show ?thesis by (simp add: cow_reopen_def ram_file_ops same Let_def del: One_nat_def COW_INDEX_ONLY_def)
qed

theorem dormant_round_trip_witness:
  "\<exists>cm1 dev1 l w1 cm2 dev2 w2. cow_sync_and_close ram_kern 4096 demo_dev demo_disk ram2 = Some (0, cm1, dev1, l, w1) \<and>
     cow_reopen ram_kern dev1 cm1 ''/cow'' w1 = Some (0, cm2, dev2, w2) \<and>
     mapping_view (\<lambda>w. w) cm2 w2 = (\<lambda>_. 0)(5 := 9)"
proof -
  obtain w0 where fill: "cow_file_extents_zero_fill_ahead ram_kern demo_dev demo_disk ram2 = Some (0, w0)"
    by (simp add: cow_file_extents_zero_fill_ahead_def ram_file_ops ram_file_write [OF demo_disk_ok(3)] Let_def)
  let ?w = "ram_write 1 (header_bytes (header_of (mark_clean True demo_disk))) 0 4096 w0"
  have ex: "\<exists>dev1 l. elastio_snap_get_cow_file_extents ram_kern demo_dev (Some 1) 4096 ?w = Some (0, dev1, l, ?w)"
    by (auto simp: elastio_snap_get_cow_file_extents_def ram_kern_def Let_def)
  then obtain dev1 l where ex: "elastio_snap_get_cow_file_extents ram_kern demo_dev (Some 1) 4096 ?w = Some (0, dev1, l, ?w)" by blast
  have cl: "cow_sync_and_close ram_kern 4096 demo_dev demo_disk ram2 = Some (0, (mark_clean True demo_disk)\<lparr>filp := None\<rparr>, dev1, l, ?w)"
    by (simp add: cow_sync_and_close_def cow_sync_and_free_sections_def demo_disk_sync fill ram_write_header demo_disk_ok ex
        close_filp_def ram_file_ops del: One_nat_def)
  have "\<exists>w2. cow_reopen ram_kern dev1 ((mark_clean True demo_disk)\<lparr>filp := None\<rparr>) ''/cow'' ?w =
      Some (0, mark_clean False demo_disk, dev1\<lparr>sd_cow_inode := Some 1\<rparr>, w2)"
    by (rule ram_reopen [where c = demo_disk, OF demo_disk_ok(3,2)]) (simp add: ram_write_def)
  then obtain w2 where
    re: "cow_reopen ram_kern dev1 ((mark_clean True demo_disk)\<lparr>filp := None\<rparr>) ''/cow'' ?w =
      Some (0, mark_clean False demo_disk, dev1\<lparr>sd_cow_inode := Some 1\<rparr>, w2)" by blast
  from dormant_round_trip [OF ram_life_laws demo_disk_ok cl refl _ re] have
    "mapping_view (\<lambda>w. w) (mark_clean False demo_disk) w2 = (\<lambda>_. 0)(5 := 9)" by (simp add: ram_file_ops demo_disk_view)
  with cl re show ?thesis by blast
qed

text \<open>File 1 carries the clean header of \<open>demo_disk\<close>, and in its index block 5 is mapped to block 9; the
  other files are empty.\<close>

definition ram3 :: ram where
  "ram3 = (\<lambda>f i. if f \<noteq> 1 then 0 else if i < 4096 then header_bytes (header_of (mark_clean True demo_disk)) i else ram2 1 i)"

theorem reload_forgets_mappings_witness:
  "\<exists>cm dev' w'. cow_reload ram_kern 0 demo_dev ''/cow'' 4096 4096 1000000 False ram3 = Some (0, Some cm, dev', w') \<and>
     disk_word (w' 1) 5 = 9 \<and> mapping_view (\<lambda>w. w) cm w' 5 = 0"
proof -
  let ?h = "header_of (mark_clean True demo_disk)"
  let ?cm = "(cow_set_sizes ram_kern 4096 4096 1000000 (cow_zero\<lparr>filp := Some 1\<rparr>))\<lparr>cm_dev := 0\<rparr>"
  have hok: "header_ok ?h" using demo_disk_ok(2) by (intro fields_ok_header) simp
  have h: "\<forall>i<64. ram3 1 i = header_bytes ?h i" by (simp add: ram3_def)
  have p: "parse_header (\<lambda>i. ram3 1 i) = ?h" by (rule parse_header_bytes [OF hok]) (simp add: ram3_def)
  have f: "filp ?cm = Some 1" by (simp add: cow_set_sizes_def Let_def)
  have b: "bit (ch_flags ?h) COW_CLEAN" "\<not> bit (ch_flags ?h) COW_INDEX_ONLY" "ch_magic ?h = COW_MAGIC"
    by (simp_all add: header_of_def mark_clean_def demo_disk_def demo_cm_def bit_simps)
  obtain w1 where oh: "cow_open_header ram_kern d ?cm False True ram3 = Some (0, mark_clean False (restore True ?h ?cm), w1)" for d :: devio
    unfolding cow_open_header_def restore_def [symmetric] Let_def
    by (simp add: ram_file_ops f p b ram_write_header del: COW_CLEAN_def COW_INDEX_ONLY_def COW_MAGIC_def One_nat_def)
  obtain cm dev' w' where re: "cow_reload ram_kern 0 demo_dev ''/cow'' 4096 4096 1000000 False ram3 = Some (0, Some cm, dev', w')"
    by (simp add: cow_reload_def ram_file_ops Let_def oh cow_alloc_sects_def del: One_nat_def)
  have "disk_word (ram3 1) 5 = 9"
    by (simp add: disk_word_def ram3_def ram2_def bytes_u64_def upt_rec)
  with reload_forgets_mappings [OF ram_life_laws ram_file_ops(4,2) hok h re] re show ?thesis by auto
qed

theorem unclean_file_refused_witness:
  "\<exists>r dev' w'. cow_reload ram_kern 0 demo_dev ''/cow'' 4096 4096 1000000 False
       (\<lambda>f. header_bytes (header_of (mark_clean False demo_disk))) = Some (r, None, dev', w') \<and> r \<noteq> 0"
proof -
  let ?h = "header_of (mark_clean False demo_disk)"
  have "header_ok ?h" using demo_disk_ok(2) by (intro fields_ok_header) simp
  moreover have "\<not> bit (ch_flags ?h) COW_CLEAN" using mark_clean_bit [of False demo_disk] by (simp add: header_of_def)
  ultimately show ?thesis
    by (intro unclean_file_refused [OF ram_life_laws, where f = 1 and h = ?h]) (simp_all add: ram_file_ops)
qed

end
