(* ===== verification/Reactivate.thy ===== *)
theory Reactivate
  imports Steady Cow_Cycle
begin

text \<open>
  What the dormant state leaves behind in a snapshot device: going dormant stops its request
  queue (\<^verbatim>\<open>sd_ignore_requests\<close>), and becoming active again does not start it.
\<close>

section \<open>Operations that leave the stopped queues alone\<close>

definition stopped_queues :: "'w drv \<Rightarrow> nat \<Rightarrow> int option" where
  "stopped_queues s = (\<lambda>a. map_option sd_ignore_requests (devs s a))"

lemma stopped_updates [simp]:
  "stopped_queues (s\<lparr>world := w\<rparr>) = stopped_queues s" "stopped_queues (s\<lparr>cows := cs\<rparr>) = stopped_queues s"
  "stopped_queues (s\<lparr>fresh := n\<rparr>) = stopped_queues s" "stopped_queues (put_cow c cm s) = stopped_queues s"
  by (simp_all add: stopped_queues_def put_cow_def)

lemma put_dev_stopped [simp]:
  "devs s a = Some d0 \<Longrightarrow> sd_ignore_requests d = sd_ignore_requests d0 \<Longrightarrow> stopped_queues (put_dev a d s) = stopped_queues s"
  by (auto simp: stopped_queues_def put_dev_def)

lemma ignore_more: "devio.more d = devio.more e \<Longrightarrow> sd_ignore_requests d = sd_ignore_requests e"
  by (cases d; cases e) simp

lemma fail_ignore [simp]: "sd_ignore_requests (tracer_set_fail_state d e) = sd_ignore_requests d"
  by (simp add: tracer_set_fail_state_def)

lemma check_failed_stopped: "thread_check_failed K a f s = Some (f', t) \<Longrightarrow> stopped_queues t = stopped_queues s"
  by (auto simp: thread_check_failed_def split: bind_splits if_splits option.splits prod.splits)

lemma cow_step_stopped: "snap_cow_thread_step K a f s = Some (f', t) \<Longrightarrow> stopped_queues t = stopped_queues s"
  by (auto simp: snap_cow_thread_step_def cow_of_def Let_def split: bind_splits if_splits option.splits prod.splits list.splits
      dest!: check_failed_stopped)

lemma cow_thread_stopped: "snap_cow_thread K a n f s = Some (f', t) \<Longrightarrow> stopped_queues t = stopped_queues s"
  by (induction n arbitrary: f s) (auto split: bind_splits dest!: cow_step_stopped)

lemma inc_step_stopped: "inc_sset_thread_step K a f s = Some (f', t) \<Longrightarrow> stopped_queues t = stopped_queues s"
  by (auto simp: inc_sset_thread_step_def cow_of_def Let_def split: bind_splits if_splits option.splits prod.splits list.splits
      dest!: check_failed_stopped)

lemma inc_thread_stopped: "inc_sset_thread K a n f s = Some (f', t) \<Longrightarrow> stopped_queues t = stopped_queues s"
  by (induction n arbitrary: f s) (auto split: bind_splits dest!: inc_step_stopped)

lemma stop_cow_thread_stopped: "stop_cow_thread K a s = Some t \<Longrightarrow> stopped_queues t = stopped_queues s"
  by (auto simp: stop_cow_thread_def open_monad split: bind_splits option.splits thread.splits if_splits
      dest!: cow_thread_stopped inc_thread_stopped)

lemma destroy_cow_stopped: "destroy_cow K a m s = Some (r, t) \<Longrightarrow> stopped_queues t = stopped_queues s"
  by (auto simp: destroy_cow_def open_monad split: bind_splits option.splits prod.splits if_splits
      dest!: cow_sync_and_close_more ignore_more)

lemma cow_path_for_stopped: "cow_path_for K u p s = Some (r, q, t) \<Longrightarrow> stopped_queues t = stopped_queues s"
  by (auto simp: cow_path_for_def Let_def split: bind_splits option.splits if_splits)

lemma open_cow_stopped:
  "open_cow_new K a p n f u q s = Some (r, t) \<Longrightarrow> stopped_queues t = stopped_queues s"
  "open_cow_reload K a p n io s = Some (r, t) \<Longrightarrow> stopped_queues t = stopped_queues s"
  "open_cow_reopen K a p s = Some (r, t) \<Longrightarrow> stopped_queues t = stopped_queues s"
  by (auto simp: open_cow_new_def open_cow_reload_def open_cow_reopen_def cow_of_def Let_def
      split: bind_splits option.splits dest!: cow_ops_more cow_reopen_more ignore_more)

lemma setup_cow_stopped: "setup_cow K a b u p n f c uu q m s = Some (r, t) \<Longrightarrow> stopped_queues t = stopped_queues s"
  by (auto simp: setup_cow_def open_monad split: bind_splits if_splits
      dest!: cow_path_for_stopped open_cow_stopped destroy_cow_stopped)

lemma new_thread_stopped: "setup_cow_thread K cr a sn s = Some (0, t) \<Longrightarrow> stopped_queues t = stopped_queues s"
  by (auto simp: setup_cow_thread_def open_monad split: bind_splits prod.splits if_splits)

lemma wake_stopped: "wake a s = Some (r, t) \<Longrightarrow> stopped_queues t = stopped_queues s"
  by (auto simp: wake_def wake_up_cow_thread_def split: bind_splits)

section \<open>Going dormant and back\<close>

lemma dormant_stops_queue:
  assumes "tracer_active_to_dormant K a s = Some t" "devs s a = Some d" "sd_queue d" "sd_cow_thread d \<noteq> None"
  shows "stopped_queues t a = Some 1"
  using assms
  by (auto simp: tracer_active_to_dormant_def destroy_cow_thread_def elastio_snap_stop_request_queue_def upd_dev_def stopped_queues_def
      split: bind_splits if_splits dest!: stop_cow_thread_stopped [THEN fun_cong, of _ _ _ _ a] destroy_cow_stopped [THEN fun_cong, of _ _ _ _ _ _ a])

lemma active_again_stopped:
  assumes "tracer_dormant_to_active K a p s = Some t" "devs t a = Some d" "tracer_read_fail_state d = 0"
  shows "stopped_queues t = stopped_queues s" and "test_flag ACTIVE d"
proof -
  show "stopped_queues t = stopped_queues s" using assms
    by (auto simp: tracer_dormant_to_active_def open_monad tracer_read_fail_state_def fail_state_first
        split: bind_splits if_splits dest!: setup_cow_stopped new_thread_stopped wake_stopped)
  show "test_flag ACTIVE d" using assms(2,3) assms(1) [unfolded tracer_dormant_to_active_def]
    by (auto simp: upd_dev_def tracer_read_fail_state_def fail_state_first test_flag_def bit_unset_bit_iff bit_set_bit_iff possible_bit_def
        split: bind_splits if_splits)
qed

text \<open>C28: A snapshot device that went dormant because its file system was unmounted, and became
  active again without an error, refuses every read of the snapshot with \<^verbatim>\<open>-EBUSY\<close>: the request
  queue that going dormant stopped is never started again.\<close>

theorem reactivated_snapshot_refuses_reads:
  assumes "devs s a = Some d" "sd_queue d" "sd_cow_thread d \<noteq> None"
    and "tracer_active_to_dormant K a s = Some s1" "tracer_dormant_to_active K a p (s1\<lparr>world := w\<rparr>) = Some s2"
    and "devs s2 a = Some d2" "tracer_read_fail_state d2 = 0" "\<not> bio_data_dir b"
  shows "test_flag ACTIVE d2 \<and> snap_mrf K a b s2 = Some (s2\<lparr>world := bio_endio K b (- EBUSY) (world s2)\<rparr>)"
proof -
  note again = active_again_stopped [OF assms(5-7)]
  have "stopped_queues s2 a = Some 1" using dormant_stops_queue [OF assms(4,1-3)] again(1) by simp
  then have "sd_ignore_requests d2 = 1" using assms(6) by (simp add: stopped_queues_def)
  with assms(6-8) again(2) show ?thesis
    by (auto simp: snap_mrf_def elastio_snap_request_queue_stopped_def Let_def)
qed

section \<open>A device that was unmounted and mounted again\<close>

lemma drv_ops:
  "filp cm = Some f \<Longrightarrow> file_write ram_drv dev cm b off n w = Some (0, ram_write f b off n w)"
  "filp cm = Some f \<Longrightarrow> file_read ram_drv dev cm b off n w = Some (0, \<lambda>i. w f (off + i), w)"
  "file_open ram_drv p c w = (0, Some 1, w)" "file_close ram_drv f w = w" "kmalloc ram_drv n w = (Some (\<lambda>_. 0), w)" "f_inode ram_drv f = f"
  "task_work_flush ram_drv w = w" "kthread_create ram_drv w = (0, w)" "file_is_on_bdev ram_drv f d w" "bio_endio ram_drv rq r w = w"
  by (simp_all add: file_write_open file_read_open file_open_def file_close_def file_is_on_bdev_def ram_drv_defs)

lemma drv_write_header:
  assumes "filp c = Some 1"
  shows "cow_write_header ram_drv d c b w = Some (0, mark_clean b c, ram_write 1 (header_bytes (header_of (mark_clean b c))) 0 4096 w)"
  using assms cow_write_header_eq [of ram_drv w "\<lambda>_. 0" w d c b] by (simp add: drv_ops)

lemma drv_sync: "sync_sections ram_drv dev 0 [0..<total_sects demo_disk] demo_disk w = Some (0, demo_disk, w)"
  by (simp add: demo_disk_def demo_cm_def sect_at_def set_sect_def)

lemma drv_close:
  "\<exists>es n l w1. cow_sync_and_close ram_drv 4096 (dev :: 'd devio_scheme) demo_disk w =
       Some (0, (mark_clean True demo_disk)\<lparr>filp := None\<rparr>, dev\<lparr>sd_cow_extents := es, sd_cow_ext_cnt := n\<rparr>, l, w1) \<and>
     (\<forall>i < 64. w1 1 i = header_bytes (header_of (mark_clean True demo_disk)) i)"
proof -
  obtain w0 where fill: "cow_file_extents_zero_fill_ahead ram_drv dev demo_disk w = Some (0, w0)"
    by (simp add: cow_file_extents_zero_fill_ahead_def drv_ops demo_disk_ok(3) Let_def)
  let ?w = "ram_write 1 (header_bytes (header_of (mark_clean True demo_disk))) 0 4096 w0"
  have "\<exists>es n l. elastio_snap_get_cow_file_extents ram_drv dev (Some 1) 4096 ?w = Some (0, dev\<lparr>sd_cow_extents := es, sd_cow_ext_cnt := n\<rparr>, l, ?w)"
    by (auto simp: elastio_snap_get_cow_file_extents_def ram_drv_defs Let_def)
  then obtain es n l where ex: "elastio_snap_get_cow_file_extents ram_drv dev (Some 1) 4096 ?w = Some (0, dev\<lparr>sd_cow_extents := es, sd_cow_ext_cnt := n\<rparr>, l, ?w)" by blast
  have "cow_sync_and_close ram_drv 4096 dev demo_disk w = Some (0, (mark_clean True demo_disk)\<lparr>filp := None\<rparr>, dev\<lparr>sd_cow_extents := es, sd_cow_ext_cnt := n\<rparr>, l, ?w)"
    by (simp add: cow_sync_and_close_def cow_sync_and_free_sections_def drv_sync fill drv_write_header demo_disk_ok ex
        close_filp_def drv_ops del: One_nat_def)
  then show ?thesis by (fastforce simp: ram_write_def)
qed

lemma drv_reopen:
  assumes h: "\<And>i. i < 64 \<Longrightarrow> w 1 i = header_bytes (header_of (mark_clean True demo_disk)) i"
  shows "\<exists>w'. cow_reopen ram_drv dev ((mark_clean True demo_disk)\<lparr>filp := None\<rparr>) p w = Some (0, mark_clean False demo_disk, dev\<lparr>sd_cow_inode := Some 1\<rparr>, w')"
proof -
  let ?c = "mark_clean True demo_disk"
  have same: "?c\<lparr>filp := Some 1\<rparr> = ?c" using demo_disk_ok(3) by simp
  have "header_ok (header_of ?c)" using demo_disk_ok(2) by (intro fields_ok_header) simp
  from parse_header_bytes [OF this, of "\<lambda>i. w 1 (0 + i)"] h have p: "parse_header (\<lambda>i. w 1 i) = header_of ?c" by simp
  have b: "bit (flags ?c) COW_CLEAN" by (rule mark_clean_bit [THEN iffD2]) simp
  have "cow_open_header ram_drv (dev\<lparr>sd_cow_inode := Some 1\<rparr>) ?c (bit (flags ?c) COW_INDEX_ONLY) False w =
      cow_write_header ram_drv (dev\<lparr>sd_cow_inode := Some 1\<rparr>) (restore False (header_of ?c) ?c) False w"
    unfolding cow_open_header_def restore_def [symmetric] Let_def
    using b p demo_disk_ok(3) by (simp add: drv_ops) (simp add: header_of_def restore_def)
  also have "\<dots> = Some (0, mark_clean False demo_disk, ram_write 1 (header_bytes (header_of (mark_clean False demo_disk))) 0 4096 w)"
    using demo_disk_ok(3) by (simp add: restore_own_header drv_write_header mark_clean_twice)
  finally show ?thesis by (simp add: cow_reopen_def drv_ops same Let_def del: One_nat_def COW_INDEX_ONLY_def)
qed

definition mounted_snap :: snap_device where
  "mounted_snap = demo_snap\<lparr>sd_queue := True, sd_cow_thread := Some (Running True False), sd_cow_path := Some ''/cow''\<rparr>"

lemma mounted_fields:
  "sd_cow mounted_snap = Some 50" "sd_queue mounted_snap" "sd_cow_thread mounted_snap = Some (Running True False)" "sd_cow_path mounted_snap = Some ''/cow''"
  "sd_base_dev mounted_snap = Some 2" "sd_cow_bios mounted_snap = []" "sd_fail_code mounted_snap = 0" "cm_dev demo_disk = 0"
  "cm_dev (mark_clean b demo_disk) = 0" "filp (mark_clean b demo_disk) = Some 1"
  by (simp_all add: mounted_snap_def demo_snap_def zero_dev_def demo_disk_def demo_cm_def mark_clean_def)

lemma mounted_dormant:
  "\<exists>es n s1. tracer_active_to_dormant ram_drv 0 (demo_drv mounted_snap demo_disk ram2) = Some s1 \<and>
     devs s1 = (\<lambda>_. None)(0 \<mapsto> mounted_snap\<lparr>sd_ignore_requests := 1, sd_cow_thread := None, sd_cow_extents := es, sd_cow_ext_cnt := n,
       sd_falloc_size := 0, sd_cache_size := 0, sd_state := unset_bit ACTIVE (sd_state mounted_snap)\<rparr>) \<and>
     cows s1 = (\<lambda>_. None)(50 \<mapsto> (mark_clean True demo_disk)\<lparr>filp := None\<rparr>) \<and>
     (\<forall>i < 64. world s1 1 i = header_bytes (header_of (mark_clean True demo_disk)) i)"
proof -
  let ?d = "mounted_snap\<lparr>sd_ignore_requests := 1, sd_cow_thread := None\<rparr>"
  obtain es n l w1 where cl: "cow_sync_and_close ram_drv 4096 ?d demo_disk ram2 =
      Some (0, (mark_clean True demo_disk)\<lparr>filp := None\<rparr>, ?d\<lparr>sd_cow_extents := es, sd_cow_ext_cnt := n\<rparr>, l, w1)"
    "\<forall>i < 64. w1 1 i = header_bytes (header_of (mark_clean True demo_disk)) i" using drv_close [of ?d ram2] by blast
  have "tracer_active_to_dormant ram_drv 0 (demo_drv mounted_snap demo_disk ram2) =
      Some ((demo_drv mounted_snap demo_disk ram2)\<lparr>
        devs := (\<lambda>_. None)(0 \<mapsto> ?d\<lparr>sd_cow_extents := es, sd_cow_ext_cnt := n, sd_falloc_size := 0, sd_cache_size := 0,
          sd_state := unset_bit ACTIVE (sd_state mounted_snap)\<rparr>),
        cows := (\<lambda>_. None)(50 \<mapsto> (mark_clean True demo_disk)\<lparr>filp := None\<rparr>), world := w1\<rparr>)"
    using cl(1)
    by (simp add: tracer_active_to_dormant_def destroy_cow_thread_def elastio_snap_stop_request_queue_def stop_cow_thread_def destroy_cow_def
        upd_dev_def put_dev_def put_cow_def demo_drv_def mounted_fields drv_ops del: One_nat_def)
  with cl(2) show ?thesis by fastforce
qed

lemma mounted_again:
  assumes "devs s 0 = Some d" "sd_base_dev d = Some 2" "sd_cow_path d = Some ''/cow''" "sd_cow d = Some 50" "sd_fail_code d = 0"
    and "cows s 50 = Some ((mark_clean True demo_disk)\<lparr>filp := None\<rparr>)"
    and "\<forall>i < 64. world s 1 i = header_bytes (header_of (mark_clean True demo_disk)) i"
  shows "\<exists>s2 d2. tracer_dormant_to_active ram_drv 0 None s = Some s2 \<and> devs s2 0 = Some d2 \<and> tracer_read_fail_state d2 = 0"
proof -
  obtain w' where re: "cow_reopen ram_drv d ((mark_clean True demo_disk)\<lparr>filp := None\<rparr>) ''/cow'' (world s) =
      Some (0, mark_clean False demo_disk, d\<lparr>sd_cow_inode := Some 1\<rparr>, w')" using drv_reopen assms(7) by blast
  show ?thesis using assms(1-6) re
    by (simp add: tracer_dormant_to_active_def open_monad setup_cow_def cow_path_for_def open_cow_reopen_def cow_of_def
        setup_cow_thread_def wake_def wake_up_cow_thread_def mounted_fields demo_disk_ok(3) drv_ops tracer_read_fail_state_def del: One_nat_def)
qed

theorem reactivated_snapshot_refuses_reads_witness:
  "\<exists>s1 s2. tracer_active_to_dormant ram_drv 0 (demo_drv mounted_snap demo_disk ram2) = Some s1 \<and>
     tracer_dormant_to_active ram_drv 0 None s1 = Some s2 \<and> snap_mrf ram_drv 0 (demo_bio 3 REQ_OP_READ 40) s2 = Some s2"
proof -
  obtain es n s1 where s1: "tracer_active_to_dormant ram_drv 0 (demo_drv mounted_snap demo_disk ram2) = Some s1"
    "devs s1 = (\<lambda>_. None)(0 \<mapsto> mounted_snap\<lparr>sd_ignore_requests := 1, sd_cow_thread := None, sd_cow_extents := es, sd_cow_ext_cnt := n,
       sd_falloc_size := 0, sd_cache_size := 0, sd_state := unset_bit ACTIVE (sd_state mounted_snap)\<rparr>)"
    "cows s1 = (\<lambda>_. None)(50 \<mapsto> (mark_clean True demo_disk)\<lparr>filp := None\<rparr>)"
    "\<forall>i < 64. world s1 1 i = header_bytes (header_of (mark_clean True demo_disk)) i" using mounted_dormant by blast
  obtain s2 d2 where s2: "tracer_dormant_to_active ram_drv 0 None s1 = Some s2" "devs s2 0 = Some d2" "tracer_read_fail_state d2 = 0"
    using mounted_again [of s1] s1(2-4) mounted_fields by auto
  have d: "devs (demo_drv mounted_snap demo_disk ram2) 0 = Some mounted_snap" by (simp add: demo_drv_def)
  have "tracer_dormant_to_active ram_drv 0 None (s1\<lparr>world := world s1\<rparr>) = Some s2" using s2(1) by simp
  from reactivated_snapshot_refuses_reads [OF d _ _ s1(1) this s2(2,3), of "demo_bio 3 REQ_OP_READ 40"]
  have "snap_mrf ram_drv 0 (demo_bio 3 REQ_OP_READ 40) s2 = Some s2" by (simp add: mounted_fields demo_bio_def drv_ops)
  with s1(1) s2(1) show ?thesis by blast
qed

end
