(* ===== verification/Userland.thy ===== *)
theory Userland
  imports Prelude
begin

text \<open>
  The command line tool \<^verbatim>\<open>app/elioctl.c\<close> and the library \<^verbatim>\<open>lib/libelastio-snap.c\<close>: parsing of the
  numeric arguments and options, and the request each command sends to the driver. The
  control device is a parameter: opening it and the ioctl. The library's functions leave
  \<^verbatim>\<open>errno\<close> alone, so a handler's answer is the return code of the ioctl.
\<close>

section \<open>Numbers\<close>

definition is_digit :: "char \<Rightarrow> bool" where
  "is_digit c \<longleftrightarrow> of_char c \<ge> (48 :: nat) \<and> of_char c \<le> (57 :: nat)"

definition digit_val :: "char \<Rightarrow> nat" where
  "digit_val c = of_char c - 48"

text \<open>\<^verbatim>\<open>strtol\<close> with base 0 on a string of digits: a leading 0 means octal, and the number ends
  at the first character that is no digit of the base.\<close>

definition read_base :: "nat \<Rightarrow> string \<Rightarrow> nat" where
  "read_base base str = foldl (\<lambda>n c. base * n + digit_val c) 0 (takeWhile (\<lambda>c. is_digit c \<and> digit_val c < base) str)"

definition strto_digits :: "string \<Rightarrow> nat" where
  "strto_digits str = (if str \<noteq> [] \<and> hd str = CHR ''0'' then read_base 8 str else read_base 10 str)"

definition LONG_MAX :: nat where
  "LONG_MAX = 2 ^ 63 - 1"

abbreviation ERANGE :: nat where "ERANGE \<equiv> 34"
abbreviation UEINVAL :: nat where "UEINVAL \<equiv> 22"

text \<open>The common body of \<^verbatim>\<open>parse_ul\<close> and \<^verbatim>\<open>parse_ui\<close>: the answer is \<^verbatim>\<open>errno\<close> on failure or the value
  (of type \<^verbatim>\<open>long\<close>). A call that finds \<^verbatim>\<open>errno\<close> set already fails.\<close>

definition parse_number :: "nat \<Rightarrow> string \<Rightarrow> nat + nat" where
  "parse_number errno0 str =
     (if str = [] \<or> \<not> list_all is_digit str then Inl UEINVAL
      else
        let v = strto_digits str in
        if LONG_MAX < v then Inl ERANGE
        else if errno0 \<noteq> 0 then Inl errno0
        else if v = LONG_MAX then Inl ERANGE
        else Inr v)"

definition parse_ul :: "nat \<Rightarrow> string \<Rightarrow> nat + nat" where
  "parse_ul errno0 str = parse_number errno0 str"

definition parse_ui :: "nat \<Rightarrow> string \<Rightarrow> nat + nat" where
  "parse_ui errno0 str = map_sum id (\<lambda>v. v mod 2 ^ 32) (parse_number errno0 str)"

section \<open>The library\<close>

datatype request =
    SetupSnap nat string string nat nat bool
  | ReloadSnap nat string string nat bool
  | ReloadInc nat string string nat bool
  | Destroy nat
  | TransitionInc nat
  | TransitionSnap nat string nat
  | Reconfigure nat nat
  | Info nat
  | GetFree

record 'w ctl =
  open_ctl :: "'w \<Rightarrow> bool \<times> 'w"
  ioctl_ctl :: "request \<Rightarrow> 'w \<Rightarrow> int \<times> 'w"
  get_free_result :: "'w \<Rightarrow> int"

definition ctl_call :: "'w ctl \<Rightarrow> request \<Rightarrow> 'w \<Rightarrow> int \<times> 'w" where
  "ctl_call C r w = (case open_ctl C w of (opened, w1) \<Rightarrow> if \<not> opened then (- 1, w1) else ioctl_ctl C r w1)"

definition elastio_snap_setup_snapshot :: "'w ctl \<Rightarrow> nat \<Rightarrow> string \<Rightarrow> string \<Rightarrow> nat \<Rightarrow> nat \<Rightarrow> bool \<Rightarrow> 'w \<Rightarrow> int \<times> 'w" where
  "elastio_snap_setup_snapshot C minor bdev cow falloc cache ign w = ctl_call C (SetupSnap minor bdev cow falloc cache ign) w"

definition elastio_snap_reload_snapshot :: "'w ctl \<Rightarrow> nat \<Rightarrow> string \<Rightarrow> string \<Rightarrow> nat \<Rightarrow> bool \<Rightarrow> 'w \<Rightarrow> int \<times> 'w" where
  "elastio_snap_reload_snapshot C minor bdev cow cache ign w = ctl_call C (ReloadSnap minor bdev cow cache ign) w"

definition elastio_snap_reload_incremental :: "'w ctl \<Rightarrow> nat \<Rightarrow> string \<Rightarrow> string \<Rightarrow> nat \<Rightarrow> bool \<Rightarrow> 'w \<Rightarrow> int \<times> 'w" where
  "elastio_snap_reload_incremental C minor bdev cow cache ign w = ctl_call C (ReloadInc minor bdev cow cache ign) w"

definition elastio_snap_destroy :: "'w ctl \<Rightarrow> nat \<Rightarrow> 'w \<Rightarrow> int \<times> 'w" where
  "elastio_snap_destroy C minor w = ctl_call C (Destroy minor) w"

definition elastio_snap_transition_incremental :: "'w ctl \<Rightarrow> nat \<Rightarrow> 'w \<Rightarrow> int \<times> 'w" where
  "elastio_snap_transition_incremental C minor w = ctl_call C (TransitionInc minor) w"

definition elastio_snap_transition_snapshot :: "'w ctl \<Rightarrow> nat \<Rightarrow> string \<Rightarrow> nat \<Rightarrow> 'w \<Rightarrow> int \<times> 'w" where
  "elastio_snap_transition_snapshot C minor cow falloc w = ctl_call C (TransitionSnap minor cow falloc) w"

definition elastio_snap_reconfigure :: "'w ctl \<Rightarrow> nat \<Rightarrow> nat \<Rightarrow> 'w \<Rightarrow> int \<times> 'w" where
  "elastio_snap_reconfigure C minor cache w = ctl_call C (Reconfigure minor cache) w"

definition elastio_snap_info_call :: "'w ctl \<Rightarrow> nat \<Rightarrow> 'w \<Rightarrow> int \<times> 'w" where
  "elastio_snap_info_call C minor w = ctl_call C (Info minor) w"

definition elastio_snap_get_free_minor :: "'w ctl \<Rightarrow> 'w \<Rightarrow> int \<times> 'w" where
  "elastio_snap_get_free_minor C w =
     (case ctl_call C GetFree w of (ret, w1) \<Rightarrow> (if ret = 0 then get_free_result C w1 else ret, w1))"

section \<open>Options\<close>

text \<open>\<^verbatim>\<open>getopt\<close>: \<open>arg_of c\<close> says whether option \<open>c\<close> is known and takes an argument. The answer is
  the options in order (\<^verbatim>\<open>'?'\<close> for a wrong one) and the remaining arguments.\<close>

fun opt_cluster :: "(char \<Rightarrow> bool option) \<Rightarrow> string \<Rightarrow> string list \<Rightarrow> (char \<times> string) list \<times> string list" where
  "opt_cluster arg_of [] rest = ([], rest)"
| "opt_cluster arg_of (c # cs) rest =
     (case arg_of c of
        None \<Rightarrow> (case opt_cluster arg_of cs rest of (os, r) \<Rightarrow> ((CHR ''?'', '''') # os, r))
      | Some False \<Rightarrow> (case opt_cluster arg_of cs rest of (os, r) \<Rightarrow> ((c, '''') # os, r))
      | Some True \<Rightarrow>
          (if cs \<noteq> [] then ([(c, cs)], rest)
           else case rest of [] \<Rightarrow> ([(CHR ''?'', '''')], []) | a # r \<Rightarrow> ([(c, a)], r)))"

lemma opt_cluster_shrinks: "length (snd (opt_cluster f cs rest)) \<le> length rest"
  by (induction f cs rest rule: opt_cluster.induct) (auto split: option.splits bool.splits list.splits prod.splits)

function getopt :: "(char \<Rightarrow> bool option) \<Rightarrow> string list \<Rightarrow> (char \<times> string) list \<times> string list" where
  "getopt arg_of [] = ([], [])"
| "getopt arg_of (a # as) =
     (if a = ''--'' then ([], as)
      else if 1 < length a \<and> hd a = CHR ''-'' then
        (case opt_cluster arg_of (tl a) as of (os, rest) \<Rightarrow> (case getopt arg_of rest of (os2, r) \<Rightarrow> (os @ os2, r)))
      else (case getopt arg_of as of (os, r) \<Rightarrow> (os, a # r)))"
  by pat_completeness auto
termination
  by (relation "measure (\<lambda>(f, as). length as)")
     (auto dest: arg_cong [where f = "\<lambda>p. length (snd p)"] intro: le_imp_less_Suc
       simp: le_imp_less_Suc [OF opt_cluster_shrinks] dest!: sym [of "opt_cluster _ _ _"])

record opts =
  o_cache :: nat
  o_falloc :: nat
  o_ignore :: bool

definition opt_spec :: "string \<Rightarrow> string \<Rightarrow> char \<Rightarrow> bool option" where
  "opt_spec with_arg without c = (if c \<in> set with_arg then Some True else if c \<in> set without then Some False else None)"

text \<open>The option loop of the handlers; failure leaves through \<^verbatim>\<open>error\<close>.\<close>

fun read_opts :: "nat \<Rightarrow> (char \<times> string) list \<Rightarrow> opts \<Rightarrow> opts option" where
  "read_opts errno0 [] p = Some p"
| "read_opts errno0 ((c, arg) # os) p =
     (if c = CHR ''c'' then (case parse_ul errno0 arg of Inl _ \<Rightarrow> None | Inr v \<Rightarrow> read_opts errno0 os (p\<lparr>o_cache := v\<rparr>))
      else if c = CHR ''f'' then (case parse_ul errno0 arg of Inl _ \<Rightarrow> None | Inr v \<Rightarrow> read_opts errno0 os (p\<lparr>o_falloc := v\<rparr>))
      else if c = CHR ''i'' then read_opts errno0 os (p\<lparr>o_ignore := True\<rparr>)
      else None)"

definition no_opts :: opts where
  "no_opts = \<lparr>o_cache = 0, o_falloc = 0, o_ignore = False\<rparr>"

text \<open>What a handler makes of its arguments: the request it sends, or None when it prints the
  help and exits.\<close>

definition handle_setup_snap :: "nat \<Rightarrow> string list \<Rightarrow> request option" where
  "handle_setup_snap errno0 argv =
     (case getopt (opt_spec ''cf'' ''i'') argv of (os, rest) \<Rightarrow> do {
        p \<leftarrow> read_opts errno0 os no_opts;
        (case rest of
           [bdev, cow, m] \<Rightarrow> (case parse_ui errno0 m of Inl _ \<Rightarrow> None | Inr minor \<Rightarrow>
             Some (SetupSnap minor bdev cow (o_falloc p) (o_cache p) (o_ignore p)))
         | _ \<Rightarrow> None) })"

definition handle_reload_snap :: "nat \<Rightarrow> string list \<Rightarrow> request option" where
  "handle_reload_snap errno0 argv =
     (case getopt (opt_spec ''c'' ''i'') argv of (os, rest) \<Rightarrow> do {
        p \<leftarrow> read_opts errno0 os no_opts;
        (case rest of
           [bdev, cow, m] \<Rightarrow> (case parse_ui errno0 m of Inl _ \<Rightarrow> None | Inr minor \<Rightarrow>
             Some (ReloadSnap minor bdev cow (o_cache p) (o_ignore p)))
         | _ \<Rightarrow> None) })"

definition handle_reload_inc :: "nat \<Rightarrow> string list \<Rightarrow> request option" where
  "handle_reload_inc errno0 argv =
     (case getopt (opt_spec ''c'' ''i'') argv of (os, rest) \<Rightarrow> do {
        p \<leftarrow> read_opts errno0 os no_opts;
        (case rest of
           [bdev, cow, m] \<Rightarrow> (case parse_ui errno0 m of Inl _ \<Rightarrow> None | Inr minor \<Rightarrow>
             Some (ReloadInc minor bdev cow (o_cache p) (o_ignore p)))
         | _ \<Rightarrow> None) })"

definition handle_minor_only :: "nat \<Rightarrow> (nat \<Rightarrow> request) \<Rightarrow> string list \<Rightarrow> request option" where
  "handle_minor_only errno0 req argv =
     (case argv of [m] \<Rightarrow> (case parse_ui errno0 m of Inl _ \<Rightarrow> None | Inr minor \<Rightarrow> Some (req minor)) | _ \<Rightarrow> None)"

definition handle_destroy :: "nat \<Rightarrow> string list \<Rightarrow> request option" where
  "handle_destroy errno0 argv = handle_minor_only errno0 Destroy argv"

definition handle_transition_inc :: "nat \<Rightarrow> string list \<Rightarrow> request option" where
  "handle_transition_inc errno0 argv = handle_minor_only errno0 TransitionInc argv"

definition handle_transition_snap :: "nat \<Rightarrow> string list \<Rightarrow> request option" where
  "handle_transition_snap errno0 argv =
     (case getopt (opt_spec ''f'' '''') argv of (os, rest) \<Rightarrow> do {
        p \<leftarrow> read_opts errno0 os no_opts;
        (case rest of
           [cow, m] \<Rightarrow> (case parse_ui errno0 m of Inl _ \<Rightarrow> None | Inr minor \<Rightarrow> Some (TransitionSnap minor cow (o_falloc p)))
         | _ \<Rightarrow> None) })"

definition handle_reconfigure :: "nat \<Rightarrow> string list \<Rightarrow> request option" where
  "handle_reconfigure errno0 argv =
     (case getopt (opt_spec ''c'' '''') argv of (os, rest) \<Rightarrow> do {
        p \<leftarrow> read_opts errno0 os no_opts;
        (case rest of
           [m] \<Rightarrow> (case parse_ui errno0 m of Inl _ \<Rightarrow> None | Inr minor \<Rightarrow> Some (Reconfigure minor (o_cache p)))
         | _ \<Rightarrow> None) })"

definition handle_info :: "nat \<Rightarrow> string list \<Rightarrow> request option" where
  "handle_info errno0 argv = handle_minor_only errno0 Info argv"

definition handle_get_free_minor :: "string list \<Rightarrow> request option" where
  "handle_get_free_minor argv = (if argv = [] then Some GetFree else None)"

text \<open>The dispatch of \<^verbatim>\<open>main\<close> on the first argument.\<close>

definition elioctl_main :: "nat \<Rightarrow> string list \<Rightarrow> request option" where
  "elioctl_main errno0 argv =
     (case argv of
        [] \<Rightarrow> None
      | cmd # as \<Rightarrow>
          if cmd = ''setup-snapshot'' then handle_setup_snap errno0 as
          else if cmd = ''reload-snapshot'' then handle_reload_snap errno0 as
          else if cmd = ''reload-incremental'' then handle_reload_inc errno0 as
          else if cmd = ''destroy'' then handle_destroy errno0 as
          else if cmd = ''transition-to-incremental'' then handle_transition_inc errno0 as
          else if cmd = ''transition-to-snapshot'' then handle_transition_snap errno0 as
          else if cmd = ''reconfigure'' then handle_reconfigure errno0 as
          else if cmd = ''info'' then handle_info errno0 as
          else if cmd = ''get-free-minor'' then handle_get_free_minor as
          else None)"

section \<open>Properties\<close>

lemma digit_char_simps:
  "d < 10 \<Longrightarrow> is_digit (digit_char d)" "d < 10 \<Longrightarrow> digit_val (digit_char d) = d"
  "d < 10 \<Longrightarrow> digit_char d = CHR ''0'' \<longleftrightarrow> d = 0"
proof -
  assume d: "d < 10"
  then have c: "of_char (digit_char d) = 48 + d" by (simp add: digit_char_def)
  then show "is_digit (digit_char d)" "digit_val (digit_char d) = d" using d by (simp_all add: is_digit_def digit_val_def)
  have "digit_char d = CHR ''0'' \<longleftrightarrow> of_char (digit_char d) = (of_char CHR ''0'' :: nat)" by (simp only: of_char_eq_iff)
  then show "digit_char d = CHR ''0'' \<longleftrightarrow> d = 0" using c by simp
qed

lemma dec_digits: "list_all is_digit (dec n) \<and> dec n \<noteq> []"
proof (induction n rule: dec.induct)
  case (1 n)
  then show ?case by (subst dec.simps, subst dec.simps) (auto simp: digit_char_simps)
qed

lemma foldl_dec: "foldl (\<lambda>n c. 10 * n + digit_val c) 0 (dec n) = n"
proof (induction n rule: dec.induct)
  case (1 n)
  then show ?case by (subst dec.simps) (auto simp: digit_char_simps)
qed

lemma dec_hd: "hd (dec n) = CHR ''0'' \<longleftrightarrow> n = 0"
proof (induction n rule: dec.induct)
  case (1 n)
  show ?case
  proof (cases "n < 10")
    case True
    then show ?thesis by (subst dec.simps) (auto simp: digit_char_simps)
  next
    case False
    with 1 have "hd (dec (n div 10)) = CHR ''0'' \<longleftrightarrow> n div 10 = 0" by simp
    with False show ?thesis using dec_digits [of "n div 10"] by (subst dec.simps) (auto simp: hd_append div_eq_0_iff)
  qed
qed

lemma takeWhile_all: "list_all P xs \<Longrightarrow> takeWhile P xs = xs"
  by (simp add: list_all_iff)

lemma digits_base10: "list_all is_digit xs \<Longrightarrow> list_all (\<lambda>c. is_digit c \<and> digit_val c < 10) xs"
  by (auto simp: list_all_iff is_digit_def digit_val_def)

lemma strto_dec: "strto_digits (dec n) = n"
proof (cases "n = 0")
  case True
  have "dec 0 = [CHR ''0'']" by (subst dec.simps) (simp add: digit_char_simps)
  then show ?thesis using True by (simp add: strto_digits_def read_base_def digit_val_def is_digit_def)
next
  case False
  then have "\<not> hd (dec n) = CHR ''0''" by (simp add: dec_hd)
  moreover have "takeWhile (\<lambda>c. is_digit c \<and> digit_val c < 10) (dec n) = dec n"
    by (rule takeWhile_all [OF digits_base10]) (simp add: dec_digits)
  ultimately show ?thesis by (simp only: strto_digits_def read_base_def foldl_dec if_False simp_thms)
qed

text \<open>C38: The number parsers of \<^verbatim>\<open>elioctl\<close> on a number printed in decimal: with \<^verbatim>\<open>errno\<close> 0 at the call, a number
  below \<^verbatim>\<open>LONG_MAX\<close> comes back, a size as it is and a minor modulo 2 to the 32, and
  \<^verbatim>\<open>LONG_MAX\<close> itself and every larger number are refused with \<^verbatim>\<open>ERANGE\<close>, by both parsers. When
  \<^verbatim>\<open>errno\<close> was already set, a number up to \<^verbatim>\<open>LONG_MAX\<close> is refused with that \<^verbatim>\<open>errno\<close>.\<close>

theorem parse_printed_number:
  "parse_ul e (dec n) = (if LONG_MAX < n then Inl ERANGE else if e \<noteq> 0 then Inl e else if n = LONG_MAX then Inl ERANGE else Inr n) \<and>
   parse_ui e (dec n) =
     (if LONG_MAX < n then Inl ERANGE else if e \<noteq> 0 then Inl e else if n = LONG_MAX then Inl ERANGE else Inr (n mod 2 ^ 32))"
  using dec_digits [of n] by (auto simp: parse_ul_def parse_ui_def parse_number_def strto_dec Let_def)

text \<open>A minor number that does not fit an \<^verbatim>\<open>unsigned int\<close> is not refused but truncated:
  \<^verbatim>\<open>elioctl destroy 4294967296\<close> asks the driver to destroy device 0.\<close>

theorem destroy_wraps_minor:
  "elioctl_main 0 [''destroy'', ''4294967296''] = Some (Destroy 0)"
  by (simp add: elioctl_main_def handle_destroy_def handle_minor_only_def parse_ui_def parse_number_def strto_digits_def
    read_base_def is_digit_def digit_val_def LONG_MAX_def)

end
