(* ===== verification/Nl_Debug.thy ===== *)
theory Nl_Debug
  imports Userland Device
begin

text \<open>
  The debug channel: the events the driver multicasts over netlink (\<^verbatim>\<open>src/nl_debug.c\<close> and
  \<^verbatim>\<open>src/nl_debug.h\<close>) and the tool that receives, filters and counts them
  (\<^verbatim>\<open>utils/nl_debug.c\<close>). A message is the packed structure \<^verbatim>\<open>nl_msg_header\<close>, 88 bytes on the wire.
  Sockets, the clock and the allocation of a message are parameters. What is printed is kept as
  the message, its colour and the name of its event.
\<close>

section \<open>Events\<close>

definition NLMSG_MIN_TYPE :: nat where
  "NLMSG_MIN_TYPE = 16"

datatype nl_msg_type =
    NL_EVENT_DRIVER_INIT | NL_EVENT_DRIVER_DEINIT | NL_EVENT_DRIVER_ERROR | NL_EVENT_SETUP_SNAPSHOT
  | NL_EVENT_SETUP_UNVERIFIED_SNAP | NL_EVENT_SETUP_UNVERIFIED_INC | NL_EVENT_TRANSITION_INC | NL_EVENT_TRANSITION_SNAP
  | NL_EVENT_TRANSITION_DORMANT | NL_EVENT_TRANSITION_ACTIVE | NL_EVENT_TRACING_STARTED | NL_EVENT_TRACING_FINISHED
  | NL_EVENT_BIO_INCOMING_TRACING_MRF | NL_EVENT_BIO_INCOMING_SNAP_MRF | NL_EVENT_BIO_CALL_ORIG | NL_EVENT_BIO_SNAP
  | NL_EVENT_BIO_INC | NL_EVENT_BIO_CLONED | NL_EVENT_BIO_READ_COMPLETE | NL_EVENT_BIO_QUEUED
  | NL_EVENT_BIO_RELEASED | NL_EVENT_BIO_HANDLE_READ_BASE | NL_EVENT_BIO_HANDLE_READ_COW | NL_EVENT_BIO_HANDLE_READ_DONE
  | NL_EVENT_BIO_HANDLE_WRITE | NL_EVENT_BIO_HANDLE_WRITE_DONE | NL_EVENT_BIO_FREE | NL_EVENT_COW_READ_MAPPING
  | NL_EVENT_COW_WRITE_MAPPING | NL_EVENT_COW_READ_DATA | NL_EVENT_COW_WRITE_DATA

fun event_code :: "nl_msg_type \<Rightarrow> nat" where
  "event_code NL_EVENT_DRIVER_INIT = NLMSG_MIN_TYPE + 0"
| "event_code NL_EVENT_DRIVER_DEINIT = NLMSG_MIN_TYPE + 1"
| "event_code NL_EVENT_DRIVER_ERROR = NLMSG_MIN_TYPE + 2"
| "event_code NL_EVENT_SETUP_SNAPSHOT = NLMSG_MIN_TYPE + 3"
| "event_code NL_EVENT_SETUP_UNVERIFIED_SNAP = NLMSG_MIN_TYPE + 4"
| "event_code NL_EVENT_SETUP_UNVERIFIED_INC = NLMSG_MIN_TYPE + 5"
| "event_code NL_EVENT_TRANSITION_INC = NLMSG_MIN_TYPE + 6"
| "event_code NL_EVENT_TRANSITION_SNAP = NLMSG_MIN_TYPE + 7"
| "event_code NL_EVENT_TRANSITION_DORMANT = NLMSG_MIN_TYPE + 8"
| "event_code NL_EVENT_TRANSITION_ACTIVE = NLMSG_MIN_TYPE + 9"
| "event_code NL_EVENT_TRACING_STARTED = NLMSG_MIN_TYPE + 10"
| "event_code NL_EVENT_TRACING_FINISHED = NLMSG_MIN_TYPE + 11"
| "event_code NL_EVENT_BIO_INCOMING_TRACING_MRF = NLMSG_MIN_TYPE + 12"
| "event_code NL_EVENT_BIO_INCOMING_SNAP_MRF = NLMSG_MIN_TYPE + 13"
| "event_code NL_EVENT_BIO_CALL_ORIG = NLMSG_MIN_TYPE + 14"
| "event_code NL_EVENT_BIO_SNAP = NLMSG_MIN_TYPE + 15"
| "event_code NL_EVENT_BIO_INC = NLMSG_MIN_TYPE + 16"
| "event_code NL_EVENT_BIO_CLONED = NLMSG_MIN_TYPE + 17"
| "event_code NL_EVENT_BIO_READ_COMPLETE = NLMSG_MIN_TYPE + 18"
| "event_code NL_EVENT_BIO_QUEUED = NLMSG_MIN_TYPE + 19"
| "event_code NL_EVENT_BIO_RELEASED = NLMSG_MIN_TYPE + 20"
| "event_code NL_EVENT_BIO_HANDLE_READ_BASE = NLMSG_MIN_TYPE + 21"
| "event_code NL_EVENT_BIO_HANDLE_READ_COW = NLMSG_MIN_TYPE + 22"
| "event_code NL_EVENT_BIO_HANDLE_READ_DONE = NLMSG_MIN_TYPE + 23"
| "event_code NL_EVENT_BIO_HANDLE_WRITE = NLMSG_MIN_TYPE + 24"
| "event_code NL_EVENT_BIO_HANDLE_WRITE_DONE = NLMSG_MIN_TYPE + 25"
| "event_code NL_EVENT_BIO_FREE = NLMSG_MIN_TYPE + 26"
| "event_code NL_EVENT_COW_READ_MAPPING = NLMSG_MIN_TYPE + 27"
| "event_code NL_EVENT_COW_WRITE_MAPPING = NLMSG_MIN_TYPE + 28"
| "event_code NL_EVENT_COW_READ_DATA = NLMSG_MIN_TYPE + 29"
| "event_code NL_EVENT_COW_WRITE_DATA = NLMSG_MIN_TYPE + 30"

definition NL_EVENT_LAST :: nat where
  "NL_EVENT_LAST = NLMSG_MIN_TYPE + 31"

datatype nl_event_kind = NL_KIND_EVENT_GENERIC | NL_KIND_EVENT_BIO | NL_KIND_EVENT_COW

definition event_text_desc :: "(nl_msg_type \<times> nl_event_kind \<times> string) list" where
  "event_text_desc =
    [(NL_EVENT_DRIVER_INIT, NL_KIND_EVENT_GENERIC, ''NL_EVENT_DRIVER_INIT''),
     (NL_EVENT_DRIVER_DEINIT, NL_KIND_EVENT_GENERIC, ''NL_EVENT_DRIVER_DEINIT''),
     (NL_EVENT_DRIVER_ERROR, NL_KIND_EVENT_GENERIC, ''NL_EVENT_DRIVER_ERROR''),
     (NL_EVENT_SETUP_SNAPSHOT, NL_KIND_EVENT_GENERIC, ''NL_EVENT_SETUP_SNAPSHOT''),
     (NL_EVENT_SETUP_UNVERIFIED_SNAP, NL_KIND_EVENT_GENERIC, ''NL_EVENT_SETUP_UNVERIFIED_SNAP''),
     (NL_EVENT_SETUP_UNVERIFIED_INC, NL_KIND_EVENT_GENERIC, ''NL_EVENT_SETUP_UNVERIFIED_INC''),
     (NL_EVENT_TRANSITION_INC, NL_KIND_EVENT_GENERIC, ''NL_EVENT_TRANSITION_INC''),
     (NL_EVENT_TRANSITION_SNAP, NL_KIND_EVENT_GENERIC, ''NL_EVENT_TRANSITION_SNAP''),
     (NL_EVENT_TRANSITION_DORMANT, NL_KIND_EVENT_GENERIC, ''NL_EVENT_TRANSITION_DORMANT''),
     (NL_EVENT_TRANSITION_ACTIVE, NL_KIND_EVENT_GENERIC, ''NL_EVENT_TRANSITION_ACTIVE''),
     (NL_EVENT_TRACING_STARTED, NL_KIND_EVENT_GENERIC, ''NL_EVENT_TRACING_STARTED''),
     (NL_EVENT_TRACING_FINISHED, NL_KIND_EVENT_GENERIC, ''NL_EVENT_TRACING_FINISHED''),
     (NL_EVENT_BIO_INCOMING_SNAP_MRF, NL_KIND_EVENT_BIO, ''NL_EVENT_BIO_INCOMING_SNAP_MRF''),
     (NL_EVENT_BIO_INCOMING_TRACING_MRF, NL_KIND_EVENT_BIO, ''NL_EVENT_BIO_INCOMING_TRACING_MRF''),
     (NL_EVENT_BIO_CALL_ORIG, NL_KIND_EVENT_BIO, ''NL_EVENT_BIO_CALL_ORIG''),
     (NL_EVENT_BIO_SNAP, NL_KIND_EVENT_BIO, ''NL_EVENT_BIO_SNAP''),
     (NL_EVENT_BIO_INC, NL_KIND_EVENT_BIO, ''NL_EVENT_BIO_INC''),
     (NL_EVENT_BIO_CLONED, NL_KIND_EVENT_BIO, ''NL_EVENT_BIO_CLONED''),
     (NL_EVENT_BIO_READ_COMPLETE, NL_KIND_EVENT_BIO, ''NL_EVENT_BIO_READ_COMPLETE''),
     (NL_EVENT_BIO_QUEUED, NL_KIND_EVENT_BIO, ''NL_EVENT_BIO_QUEUED''),
     (NL_EVENT_BIO_RELEASED, NL_KIND_EVENT_BIO, ''NL_EVENT_BIO_RELEASED''),
     (NL_EVENT_BIO_HANDLE_READ_BASE, NL_KIND_EVENT_BIO, ''NL_EVENT_BIO_HANDLE_READ_BASE''),
     (NL_EVENT_BIO_HANDLE_READ_COW, NL_KIND_EVENT_BIO, ''NL_EVENT_BIO_HANDLE_READ_COW''),
     (NL_EVENT_BIO_HANDLE_READ_DONE, NL_KIND_EVENT_BIO, ''NL_EVENT_BIO_HANDLE_READ_DONE''),
     (NL_EVENT_BIO_HANDLE_WRITE, NL_KIND_EVENT_BIO, ''NL_EVENT_BIO_HANDLE_WRITE''),
     (NL_EVENT_BIO_HANDLE_WRITE_DONE, NL_KIND_EVENT_BIO, ''NL_EVENT_BIO_HANDLE_WRITE_DONE''),
     (NL_EVENT_BIO_FREE, NL_KIND_EVENT_BIO, ''NL_EVENT_BIO_FREE''),
     (NL_EVENT_COW_READ_MAPPING, NL_KIND_EVENT_COW, ''NL_EVENT_COW_READ_MAPPING''),
     (NL_EVENT_COW_WRITE_MAPPING, NL_KIND_EVENT_COW, ''NL_EVENT_COW_WRITE_MAPPING''),
     (NL_EVENT_COW_READ_DATA, NL_KIND_EVENT_COW, ''NL_EVENT_COW_READ_DATA''),
     (NL_EVENT_COW_WRITE_DATA, NL_KIND_EVENT_COW, ''NL_EVENT_COW_WRITE_DATA'')]"

text \<open>The four loops of the tool that look an event up run to \<^verbatim>\<open>NL_EVENT_LAST\<close>, which is the number
  after the last event and not the length of the table: for an event that is not there they read
  past the end.\<close>

fun find_desc :: "nat \<Rightarrow> (nl_msg_type \<times> nl_event_kind \<times> string) list \<Rightarrow> nat \<Rightarrow> (nl_event_kind \<times> string) option option" where
  "find_desc 0 ds ty = Some None"
| "find_desc (Suc n) [] ty = None"
| "find_desc (Suc n) ((e, kd, txt) # ds) ty = (if event_code e = ty then Some (Some (kd, txt)) else find_desc n ds ty)"

definition event2str :: "nat \<Rightarrow> string option option" where
  "event2str ty = map_option (map_option snd) (find_desc NL_EVENT_LAST event_text_desc ty)"

definition is_kind :: "nl_event_kind \<Rightarrow> nat \<Rightarrow> bool option" where
  "is_kind kd ty = map_option (\<lambda>d. map_option fst d = Some kd) (find_desc NL_EVENT_LAST event_text_desc ty)"

definition is_generic_event :: "nat \<Rightarrow> bool option" where
  "is_generic_event ty = is_kind NL_KIND_EVENT_GENERIC ty"

definition is_bio_event :: "nat \<Rightarrow> bool option" where
  "is_bio_event ty = is_kind NL_KIND_EVENT_BIO ty"

definition is_cow_event :: "nat \<Rightarrow> bool option" where
  "is_cow_event ty = is_kind NL_KIND_EVENT_COW ty"

section \<open>Messages\<close>

record nl_params =
  np_id :: nat
  np_size :: nat
  np_sector :: nat
  np_flags :: nat
  np_priv1 :: nat
  np_priv2 :: nat

record nl_msg_header =
  nm_type :: nat
  nm_seq_num :: nat
  nm_timestamp :: nat
  nm_params :: nl_params
  nm_func :: "byte list"
  nm_line :: nat

definition le_bytes :: "nat \<Rightarrow> nat \<Rightarrow> byte list" where
  "le_bytes n v = map (\<lambda>k. word_of_nat (v div 256 ^ k)) [0..<n]"

definition le_value :: "byte list \<Rightarrow> nat" where
  "le_value bs = foldr (\<lambda>b acc. unat b + 256 * acc) bs 0"

definition encode_params :: "nl_params \<Rightarrow> byte list" where
  "encode_params p =
     le_bytes 8 (np_id p) @ le_bytes 4 (np_size p) @ le_bytes 8 (np_sector p) @ le_bytes 1 (np_flags p) @
     le_bytes 8 (np_priv1 p) @ le_bytes 8 (np_priv2 p)"

definition encode_msg :: "nl_msg_header \<Rightarrow> byte list" where
  "encode_msg m =
     le_bytes 1 (nm_type m) @ le_bytes 8 (nm_seq_num m) @ le_bytes 8 (nm_timestamp m) @ encode_params (nm_params m) @
     nm_func m @ le_bytes 2 (nm_line m)"

definition slice :: "nat \<Rightarrow> nat \<Rightarrow> byte list \<Rightarrow> byte list" where
  "slice off n bs = take n (drop off bs)"

definition decode_msg :: "byte list \<Rightarrow> nl_msg_header" where
  "decode_msg bs =
     \<lparr>nm_type = le_value (slice 0 1 bs), nm_seq_num = le_value (slice 1 8 bs), nm_timestamp = le_value (slice 9 8 bs),
      nm_params = \<lparr>np_id = le_value (slice 17 8 bs), np_size = le_value (slice 25 4 bs), np_sector = le_value (slice 29 8 bs),
                   np_flags = le_value (slice 37 1 bs), np_priv1 = le_value (slice 38 8 bs), np_priv2 = le_value (slice 46 8 bs)\<rparr>,
      nm_func = slice 54 32 bs, nm_line = le_value (slice 86 2 bs)\<rparr>"

section \<open>Sending\<close>

record 'w nl_kern =
  nlmsg_new :: "'w \<Rightarrow> byte list option \<times> 'w"
  ktime_ns :: "'w \<Rightarrow> nat"
  nlmsg_multicast :: "byte list \<Rightarrow> 'w \<Rightarrow> 'w"

text \<open>\<^verbatim>\<open>strncpy\<close> into the 32 bytes of \<^verbatim>\<open>func\<close>: padded with zeroes, without a terminator when the
  name is too long.\<close>

definition strncpy32 :: "string \<Rightarrow> byte list" where
  "strncpy32 str = take 32 (map of_char (takeWhile (\<lambda>c. c \<noteq> CHR 0x00) str) @ replicate 32 0)"

text \<open>The payload starts as the allocator left it. A message that cannot be allocated is a fault
  (\<^verbatim>\<open>nlmsg_put\<close> of a null pointer).\<close>

definition nl_send_event :: "'w nl_kern \<Rightarrow> nl_msg_type \<Rightarrow> string option \<Rightarrow> nat \<Rightarrow> nl_params \<Rightarrow> nat \<Rightarrow> 'w \<Rightarrow> (int \<times> nat \<times> 'w) option" where
  "nl_send_event K ty func line params seq_num w =
     (case nlmsg_new K w of
        (None, w1) \<Rightarrow> None
      | (Some raw, w1) \<Rightarrow>
          let msg = (decode_msg raw)\<lparr>nm_type := event_code ty mod 256, nm_timestamp := wrap64 (ktime_ns K w1), nm_seq_num := seq_num\<rparr>;
              msg1 = (case func of None \<Rightarrow> msg | Some f \<Rightarrow> msg\<lparr>nm_line := line mod 2 ^ 16, nm_func := strncpy32 f\<rparr>) in
          Some (0, wrap64 (Suc seq_num), nlmsg_multicast K (encode_msg (msg1\<lparr>nm_params := params\<rparr>)) w1))"

definition no_params :: nl_params where
  "no_params = \<lparr>np_id = 0, np_size = 0, np_sector = 0, np_flags = 0, np_priv1 = 0, np_priv2 = 0\<rparr>"

text \<open>The tracing macros. The address of a bio is its identity.\<close>

definition nl_trace_event_bio :: "'w nl_kern \<Rightarrow> string \<Rightarrow> nat \<Rightarrow> nl_msg_type \<Rightarrow> bio option \<Rightarrow> nat \<Rightarrow> nat \<Rightarrow> 'w \<Rightarrow> (int \<times> nat \<times> 'w) option" where
  "nl_trace_event_bio K func line ty b priv =
     nl_send_event K ty (Some func) line
       ((case b of None \<Rightarrow> no_params
         | Some b \<Rightarrow> no_params\<lparr>np_id := bi_id b, np_size := bi_size b, np_flags := (if bio_data_dir b then 1 else 0), np_sector := bi_sector b\<rparr>)
        \<lparr>np_priv1 := priv, np_priv2 := 0\<rparr>)"

definition nl_trace_event_generic :: "'w nl_kern \<Rightarrow> string \<Rightarrow> nat \<Rightarrow> nl_msg_type \<Rightarrow> nat \<Rightarrow> nat \<Rightarrow> 'w \<Rightarrow> (int \<times> nat \<times> 'w) option" where
  "nl_trace_event_generic K func line ty priv = nl_send_event K ty (Some func) line (no_params\<lparr>np_priv1 := priv, np_priv2 := 0\<rparr>)"

definition nl_trace_event_cow :: "'w nl_kern \<Rightarrow> string \<Rightarrow> nat \<Rightarrow> nl_msg_type \<Rightarrow> nat \<Rightarrow> nat \<Rightarrow> nat \<Rightarrow> 'w \<Rightarrow> (int \<times> nat \<times> 'w) option" where
  "nl_trace_event_cow K func line ty priv1 priv2 = nl_send_event K ty (Some func) line (no_params\<lparr>np_priv1 := priv1, np_priv2 := priv2\<rparr>)"

section \<open>The options of the tool\<close>

record nl_opts =
  sector_start :: nat
  sector_end :: nat
  mute_all :: bool
  coloring :: bool
  read_only :: bool
  write_only :: bool
  mute_bio_events :: bool
  mute_cow_events :: bool

definition nl_opts_default :: nl_opts where
  "nl_opts_default = \<lparr>sector_start = 0, sector_end = 2 ^ 64 - 1, mute_all = False, coloring = True, read_only = False,
     write_only = False, mute_bio_events = False, mute_cow_events = False\<rparr>"

text \<open>\<^verbatim>\<open>strtol\<close> with base 10, whose result is stored as an unsigned 64-bit number.\<close>

definition is_space :: "char \<Rightarrow> bool" where
  "is_space c \<longleftrightarrow> c \<in> {CHR '' '', CHR 0x09, CHR 0x0A, CHR 0x0B, CHR 0x0C, CHR 0x0D}"

definition strtol10 :: "string \<Rightarrow> int" where
  "strtol10 str =
     (case dropWhile is_space str of
        [] \<Rightarrow> 0
      | c # cs \<Rightarrow>
          if c = CHR ''-'' then max (- (2 ^ 63)) (- int (read_base 10 cs))
          else min (2 ^ 63 - 1) (int (read_base 10 (if c = CHR ''+'' then cs else c # cs))))"

definition to_u64 :: "int \<Rightarrow> nat" where
  "to_u64 i = nat (i mod 2 ^ 64)"

text \<open>The options as \<^verbatim>\<open>getopt\<close> hands them over, with their arguments; \<^term>\<open>None\<close> is the usage text and
  the end.\<close>

fun parse_nl_opts :: "(char \<times> string) list \<Rightarrow> nl_opts \<Rightarrow> nl_opts option" where
  "parse_nl_opts [] opts = Some opts"
| "parse_nl_opts ((c, arg) # args) opts =
     (if c = CHR ''s'' then parse_nl_opts args (opts\<lparr>sector_start := to_u64 (strtol10 arg)\<rparr>)
      else if c = CHR ''e'' then parse_nl_opts args (opts\<lparr>sector_end := to_u64 (strtol10 arg)\<rparr>)
      else if c = CHR ''m'' then
        parse_nl_opts args
          (if arg = ''all'' then opts\<lparr>mute_all := True\<rparr>
           else if arg = ''cow'' then opts\<lparr>mute_cow_events := True\<rparr>
           else if arg = ''bio'' then opts\<lparr>mute_bio_events := True\<rparr>
           else opts)
      else if c = CHR ''c'' then parse_nl_opts args (opts\<lparr>coloring := False\<rparr>)
      else if c = CHR ''r'' then parse_nl_opts args (opts\<lparr>read_only := True\<rparr>)
      else if c = CHR ''w'' then parse_nl_opts args (opts\<lparr>write_only := True\<rparr>)
      else None)"

definition nl_options :: "(char \<times> string) list \<Rightarrow> nl_opts option" where
  "nl_options args =
     (case parse_nl_opts args nl_opts_default of
        None \<Rightarrow> None
      | Some opts \<Rightarrow>
          if read_only opts \<and> write_only opts then None
          else if sector_end opts < sector_start opts then None
          else Some opts)"

section \<open>Receiving\<close>

record nl_stats =
  last_seq_num :: nat
  seq_num_errors :: nat
  packets_lost :: nat

datatype nl_color = CRED | CYEL | CCYN | CMAG

text \<open>What the tool does for a message: a line with the colour and the event's name, the copy sent on
  to the proxy, the report of a gap.\<close>

datatype nl_out = Line "nl_color option" "string option" nl_msg_header | Sent nl_msg_header | DataDropped nat nat

definition is_bio_write :: "nl_msg_header \<Rightarrow> bool" where
  "is_bio_write msg \<longleftrightarrow> np_id (nm_params msg) \<noteq> 0 \<and> odd (np_flags (nm_params msg))"

definition nl_shown :: "nl_opts \<Rightarrow> nl_msg_header \<Rightarrow> bool option" where
  "nl_shown opts msg =
     (if mute_all opts then Some False
      else do {
        cow \<leftarrow> is_cow_event (nm_type msg);
        (if cow \<and> mute_cow_events opts then Some False
         else do {
           bio \<leftarrow> is_bio_event (nm_type msg);
           (if bio \<and> mute_bio_events opts then Some False
            else if bio \<and> np_id (nm_params msg) \<noteq> 0 \<and>
                    (np_sector (nm_params msg) < sector_start opts \<or> sector_end opts < np_sector (nm_params msg)) then Some False
            else if is_bio_write msg \<and> read_only opts then Some False
            else if \<not> is_bio_write msg \<and> write_only opts then Some False
            else Some True) }) })"

definition nl_color_of :: "nl_opts \<Rightarrow> nl_msg_header \<Rightarrow> nl_color option option" where
  "nl_color_of opts msg =
     (if \<not> coloring opts then Some None
      else do {
        generic \<leftarrow> is_generic_event (nm_type msg);
        (if generic then Some (Some (if nm_type msg = event_code NL_EVENT_DRIVER_ERROR then CRED else CYEL))
         else do {
           bio \<leftarrow> is_bio_event (nm_type msg);
           (if bio then Some (Some CCYN)
            else do {
              cow \<leftarrow> is_cow_event (nm_type msg);
              Some (if cow then Some CMAG else None) }) }) })"

text \<open>One message. The answer says whether the rest of the batch is looked at (\<^verbatim>\<open>goto out\<close> leaves it).\<close>

definition handle_nl_msg :: "nl_opts \<Rightarrow> nl_msg_header \<Rightarrow> nl_stats \<Rightarrow> (nl_out list \<times> bool \<times> nl_stats) option" where
  "handle_nl_msg opts msg st = do {
     shown \<leftarrow> nl_shown opts msg;
     line \<leftarrow> (if shown then do {
                 col \<leftarrow> nl_color_of opts msg;
                 txt \<leftarrow> event2str (nm_type msg);
                 Some [Line col txt msg] }
               else Some []);
     (let outs = line @ [Sent msg] in
      if nm_type msg = event_code NL_EVENT_DRIVER_DEINIT then Some (outs, False, st\<lparr>last_seq_num := 0\<rparr>)
      else if last_seq_num st = 0 then Some (outs, False, st\<lparr>last_seq_num := nm_seq_num msg\<rparr>)
      else if nm_seq_num msg \<noteq> wrap64 (last_seq_num st + 1) then
        Some (outs @ [DataDropped (last_seq_num st) (nm_seq_num msg)], True,
              st\<lparr>packets_lost := wrap64 (packets_lost st + sub64 (sub64 (nm_seq_num msg) (last_seq_num st)) 1),
                 seq_num_errors := wrap64 (Suc (seq_num_errors st)), last_seq_num := nm_seq_num msg\<rparr>)
      else Some (outs, True, st\<lparr>last_seq_num := nm_seq_num msg\<rparr>)) }"

fun handle_nl_batch :: "nl_opts \<Rightarrow> nl_msg_header list \<Rightarrow> nl_stats \<Rightarrow> (nl_out list \<times> nl_stats) option" where
  "handle_nl_batch opts [] st = Some ([], st)"
| "handle_nl_batch opts (msg # msgs) st = do {
     (outs, go_on, st1) \<leftarrow> handle_nl_msg opts msg st;
     (if go_on then do { (outs1, st2) \<leftarrow> handle_nl_batch opts msgs st1; Some (outs @ outs1, st2) }
      else Some (outs, st1)) }"

text \<open>The receive loop over what successive calls of \<^verbatim>\<open>recvmmsg\<close> answer, at most five messages each;
  a call that fails gives an empty batch. Sending on to the proxy succeeds.\<close>

definition MAX_MSGS :: nat where
  "MAX_MSGS = 5"

fun nl_receive :: "nl_opts \<Rightarrow> nl_msg_header list list \<Rightarrow> nl_stats \<Rightarrow> (nl_out list \<times> nl_stats) option" where
  "nl_receive opts [] st = Some ([], st)"
| "nl_receive opts (b # bs) st = do {
     (outs, st1) \<leftarrow> handle_nl_batch opts (take MAX_MSGS b) st;
     (outs1, st2) \<leftarrow> nl_receive opts bs st1;
     Some (outs @ outs1, st2) }"

section \<open>The wire format\<close>

lemma length_le_bytes [simp]: "length (le_bytes n v) = n"
  by (simp add: le_bytes_def)

lemma le_value_le_bytes [simp]: "le_value (le_bytes n v) = v mod 256 ^ n"
proof -
  have "le_value (le_bytes n v) = foldr (\<lambda>k acc. v div 256 ^ k mod 256 + 256 * acc) [0..<n] 0"
    unfolding le_value_def le_bytes_def by (simp add: foldr_map comp_def unat_of_nat)
  then show ?thesis by (simp add: digits_256)
qed

lemma slice_here: "slice 0 n (xs @ ys) = (if length xs = n then xs else slice 0 n (xs @ ys))"
  "length xs \<le> off \<Longrightarrow> slice off n (xs @ ys) = slice (off - length xs) n ys"
  by (simp_all add: slice_def)

definition nl_params_ok :: "nl_params \<Rightarrow> bool" where
  "nl_params_ok p \<longleftrightarrow> np_id p < 2 ^ 64 \<and> np_size p < 2 ^ 32 \<and> np_sector p < 2 ^ 64 \<and> np_flags p < 2 ^ 8 \<and> np_priv1 p < 2 ^ 64 \<and> np_priv2 p < 2 ^ 64"

definition nl_msg_ok :: "nl_msg_header \<Rightarrow> bool" where
  "nl_msg_ok m \<longleftrightarrow> nm_type m < 2 ^ 8 \<and> nm_seq_num m < 2 ^ 64 \<and> nm_timestamp m < 2 ^ 64 \<and> nl_params_ok (nm_params m) \<and>
     length (nm_func m) = 32 \<and> nm_line m < 2 ^ 16"

lemma decode_encode: 
  assumes "nl_msg_ok m" 
  shows "decode_msg (encode_msg m) = m" "length (encode_msg m) = 88"
proof -
  have s: "slice off n (xs @ ys) = (if length xs \<le> off then slice (off - length xs) n ys else take n (drop off xs @ ys))" for off n xs ys
    by (simp add: slice_def)
  show "decode_msg (encode_msg m) = m" using assms
    by (simp add: decode_msg_def encode_msg_def encode_params_def s nl_msg_ok_def nl_params_ok_def) (simp add: slice_def)
  show "length (encode_msg m) = 88" using assms by (simp add: encode_msg_def encode_params_def nl_msg_ok_def)
qed

section \<open>Looking events up\<close>

lemma nl_event_bounds: "NLMSG_MIN_TYPE \<le> event_code e \<and> event_code e < NL_EVENT_LAST"
  by (cases e) (simp_all add: NL_EVENT_LAST_def)

lemma event_code_inj: "event_code e = event_code f \<Longrightarrow> e = f"
  by (cases e; cases f) simp_all

lemma find_desc_Some: "length ds \<le> n \<Longrightarrow> (e, kd, nam) \<in> set ds \<Longrightarrow> distinct (map fst ds) \<Longrightarrow> find_desc n ds (event_code e) = Some (Some (kd, nam))"
proof (induction n ds "event_code e" rule: find_desc.induct)
  case (3 n f kd' nam' ds)
  then show ?case using event_code_inj [of f e] by (cases "f = e") (force simp: rev_image_eqI)+
qed simp_all

lemma find_desc_None: "length ds < n \<Longrightarrow> \<forall>d \<in> set ds. event_code (fst d) \<noteq> ty \<Longrightarrow> find_desc n ds ty = None"
  by (induction n ds ty rule: find_desc.induct) auto

lemma all_events: "\<exists>kd nam. (e, kd, nam) \<in> set event_text_desc"
  by (cases e) (simp_all add: event_text_desc_def)

lemma events_distinct: "distinct (map fst event_text_desc)" "length event_text_desc = 31"
  by (simp_all add: event_text_desc_def)

lemma event_found: "\<exists>kd nam. (e, kd, nam) \<in> set event_text_desc \<and> find_desc NL_EVENT_LAST event_text_desc (event_code e) = Some (Some (kd, nam))"
proof -
  from all_events obtain kd nam where "(e, kd, nam) \<in> set event_text_desc" by blast
  with find_desc_Some [OF _ this events_distinct(1), of NL_EVENT_LAST] show ?thesis
    by (auto simp: events_distinct(2) NL_EVENT_LAST_def NLMSG_MIN_TYPE_def)
qed

definition known :: "nl_msg_header \<Rightarrow> bool" where
  "known msg \<longleftrightarrow> (\<exists>e. nm_type msg = event_code e)"

lemma known_kinds: "known msg \<Longrightarrow> \<exists>kd nam. \<forall>k. is_kind k (nm_type msg) = Some (k = kd) \<and> event2str (nm_type msg) = Some (Some nam)"
  using event_found by (fastforce simp: known_def is_kind_def event2str_def)

lemma known_handled: "known msg \<Longrightarrow> \<exists>line. handle_nl_msg opts msg st = Some (line @ [Sent msg] @
     (if nm_type msg \<noteq> event_code NL_EVENT_DRIVER_DEINIT \<and> last_seq_num st \<noteq> 0 \<and> nm_seq_num msg \<noteq> wrap64 (last_seq_num st + 1)
      then [DataDropped (last_seq_num st) (nm_seq_num msg)] else []),
     nm_type msg \<noteq> event_code NL_EVENT_DRIVER_DEINIT \<and> last_seq_num st \<noteq> 0,
     if nm_type msg = event_code NL_EVENT_DRIVER_DEINIT then st\<lparr>last_seq_num := 0\<rparr>
     else if last_seq_num st = 0 \<or> nm_seq_num msg = wrap64 (last_seq_num st + 1) then st\<lparr>last_seq_num := nm_seq_num msg\<rparr>
     else st\<lparr>packets_lost := wrap64 (packets_lost st + sub64 (sub64 (nm_seq_num msg) (last_seq_num st)) 1),
             seq_num_errors := wrap64 (Suc (seq_num_errors st)), last_seq_num := nm_seq_num msg\<rparr>) \<and> (\<forall>x \<in> set line. \<exists>c t. x = Line c t msg)"
proof -
  assume "known msg"
  from known_kinds [OF this] obtain kd nam where k: "\<And>k. is_kind k (nm_type msg) = Some (k = kd)" "event2str (nm_type msg) = Some (Some nam)" by blast
  have "\<exists>sh. nl_shown opts msg = Some sh" by (auto simp: nl_shown_def is_cow_event_def is_bio_event_def k cong: if_cong)
  moreover have "\<exists>c. nl_color_of opts msg = Some c" by (auto simp: nl_color_of_def is_cow_event_def is_bio_event_def is_generic_event_def k cong: if_cong)
  ultimately obtain sh c where sh: "nl_shown opts msg = Some sh" and c: "nl_color_of opts msg = Some c" by blast
  show ?thesis by (rule exI [of _ "if sh then [Line c (Some nam) msg] else []"]) (auto simp: handle_nl_msg_def sh c k Let_def)
qed

section \<open>Properties\<close>

text \<open>C33: What the driver sends is what the tool receives: the multicast message is 88 bytes long and
  decodes to the event, the sequence number, the time, the parameters, the line and the name of
  the function; the sequence number goes up by one.\<close>

theorem sent_event_received:
  assumes "nl_send_event K ty (Some func) line ps n w = Some (r, n', w')" "n < 2 ^ 64" "nl_params_ok ps"
  shows "\<exists>bytes w1. w' = nlmsg_multicast K bytes w1 \<and> length bytes = 88 \<and> n' = wrap64 (Suc n) \<and>
     decode_msg bytes = \<lparr>nm_type = event_code ty, nm_seq_num = n, nm_timestamp = wrap64 (ktime_ns K w1), nm_params = ps,
                         nm_func = strncpy32 func, nm_line = line mod 2 ^ 16\<rparr>"
proof -
  let ?m = "\<lambda>w1. \<lparr>nm_type = event_code ty, nm_seq_num = n, nm_timestamp = wrap64 (ktime_ns K w1), nm_params = ps,
                         nm_func = strncpy32 func, nm_line = line mod 2 ^ 16\<rparr>"
  have small: "event_code ty < 256" using nl_event_bounds [of ty] by (simp add: NL_EVENT_LAST_def NLMSG_MIN_TYPE_def)
  from assms(1) small obtain w1 where w1: "w' = nlmsg_multicast K (encode_msg (?m w1)) w1" "n' = wrap64 (Suc n)"
    by (auto simp: nl_send_event_def Let_def encode_msg_def split: option.splits prod.splits)
  have "nl_msg_ok (?m w1)" using assms(2,3) small by (simp add: nl_msg_ok_def strncpy32_def wrap64_less)
  from decode_encode [OF this] w1 show ?thesis by blast
qed

text \<open>C35: Looking up a number that is no event reads past the end of the table.\<close>

theorem unknown_event_overreads:
  assumes "ty < NLMSG_MIN_TYPE \<or> NL_EVENT_LAST \<le> ty"
  shows "event2str ty = None \<and> is_generic_event ty = None \<and> is_bio_event ty = None \<and> is_cow_event ty = None"
proof -
  have "event_code e \<noteq> ty" for e using nl_event_bounds [of e] assms by auto
  then have "find_desc NL_EVENT_LAST event_text_desc ty = None"
    by (intro find_desc_None) (simp_all add: events_distinct(2) NL_EVENT_LAST_def NLMSG_MIN_TYPE_def)
  then show ?thesis by (simp add: event2str_def is_generic_event_def is_bio_event_def is_cow_event_def is_kind_def)
qed

text \<open>A run of messages with growing numbers, none of which is the last before the driver goes.\<close>

definition sent_of :: "nl_out list \<Rightarrow> nl_msg_header list" where
  "sent_of outs = concat (map (\<lambda>x. case x of Sent m \<Rightarrow> [m] | _ \<Rightarrow> []) outs)"

definition top_seq :: "nl_stats \<Rightarrow> nl_msg_header list \<Rightarrow> nat" where
  "top_seq st ms = last (last_seq_num st # map nm_seq_num ms)"

definition growing :: "nl_msg_header list \<Rightarrow> nl_stats \<Rightarrow> bool" where
  "growing ms st \<longleftrightarrow> (\<forall>m \<in> set ms. known m \<and> nm_type m \<noteq> event_code NL_EVENT_DRIVER_DEINIT \<and> nm_seq_num m < 2 ^ 64) \<and>
     last_seq_num st \<noteq> 0 \<and> sorted_wrt (<) (last_seq_num st # map nm_seq_num ms) \<and> packets_lost st + top_seq st ms < 2 ^ 64 + last_seq_num st"

definition counted :: "nl_msg_header list \<Rightarrow> nl_stats \<Rightarrow> nl_out list \<Rightarrow> nl_stats \<Rightarrow> bool" where
  "counted ms st outs st' \<longleftrightarrow> sent_of outs = ms \<and> last_seq_num st' = top_seq st ms \<and>
     packets_lost st' + length ms + last_seq_num st = packets_lost st + last_seq_num st'"

lemma sent_of_simps [simp]: "sent_of [] = []" "sent_of (xs @ ys) = sent_of xs @ sent_of ys" "sent_of (Sent m # xs) = m # sent_of xs"
  "sent_of (DataDropped l n # xs) = sent_of xs" "(\<forall>x \<in> set xs. \<exists>c t. x = Line c t m) \<Longrightarrow> sent_of xs = []"
  by (auto simp: sent_of_def)

lemma top_ge: "sorted_wrt (<) (n # map nm_seq_num ms) \<Longrightarrow> n \<le> last (n # map nm_seq_num ms)"
  using last_in_set [of ms] by (cases "ms = []") (auto simp: last_map intro: less_imp_le)

lemma growing_step:
  assumes "growing (m # ms) st"
  shows "\<exists>o1 st1. handle_nl_msg opts m st = Some (o1, True, st1) \<and> growing ms st1 \<and> sent_of o1 = [m] \<and> top_seq st1 ms = top_seq st (m # ms) \<and>
    last_seq_num st1 = nm_seq_num m \<and> packets_lost st1 + 1 + last_seq_num st = packets_lost st + nm_seq_num m"
proof -
  let ?l = "last_seq_num st" and ?n = "nm_seq_num m"
  from assms have m: "known m" "nm_type m \<noteq> event_code NL_EVENT_DRIVER_DEINIT" "?l < ?n" "?n < 2 ^ 64" "?l \<noteq> 0"
    and b: "packets_lost st + top_seq st (m # ms) < 2 ^ 64 + ?l" by (auto simp: growing_def)
  have top: "?n \<le> top_seq st (m # ms)" using assms top_ge [of ?n ms] by (simp add: growing_def top_seq_def)
  have gap: "sub64 (sub64 ?n ?l) 1 = ?n - ?l - 1" and w: "wrap64 (?l + 1) = ?l + 1" using m(3,4) by (simp_all add: sub64_ge)
  define st1 where "st1 = (if ?n = ?l + 1 then st\<lparr>last_seq_num := ?n\<rparr>
       else st\<lparr>packets_lost := wrap64 (packets_lost st + (?n - ?l - 1)), seq_num_errors := wrap64 (Suc (seq_num_errors st)), last_seq_num := ?n\<rparr>)"
  have "packets_lost st + (?n - ?l - 1) < 2 ^ 64" using b top m(3) by simp
  then have p: "last_seq_num st1 = ?n" "packets_lost st1 + 1 + ?l = packets_lost st + ?n" using m(3) by (simp_all add: st1_def)
  have t: "top_seq st1 ms = top_seq st (m # ms)" using p(1) by (simp add: top_seq_def)
  have "growing ms st1" using assms b m p t by (auto simp: growing_def)
  moreover from known_handled [OF m(1), of opts st, unfolded gap w] m(2,5) obtain o1 where
    "handle_nl_msg opts m st = Some (o1, True, st1)" "sent_of o1 = [m]" by (auto simp: st1_def)
  ultimately show ?thesis using p t by blast
qed

lemma batch_counted: "growing ms st \<Longrightarrow> \<exists>outs st'. handle_nl_batch opts ms st = Some (outs, st') \<and> counted ms st outs st'"
proof (induction ms arbitrary: st)
  case Nil
  then show ?case by (simp add: counted_def top_seq_def)
next
  case (Cons m ms)
  from growing_step [OF Cons.prems, of opts] obtain o1 st1 where h: "handle_nl_msg opts m st = Some (o1, True, st1)" "growing ms st1"
    "sent_of o1 = [m]" "top_seq st1 ms = top_seq st (m # ms)" "last_seq_num st1 = nm_seq_num m"
    "packets_lost st1 + 1 + last_seq_num st = packets_lost st + nm_seq_num m" by blast
  from Cons.IH [OF h(2)] obtain o2 st' where "handle_nl_batch opts ms st1 = Some (o2, st')" "counted ms st1 o2 st'" by blast
  with h show ?case by (auto simp: counted_def)
qed

lemma growing_append:
  assumes "growing (xs @ ys) st"
  shows "growing xs st" "counted xs st outs st' \<Longrightarrow> growing ys st' \<and> top_seq st' ys = top_seq st (xs @ ys)"
proof -
  have split: "sorted_wrt (<) ((last_seq_num st # map nm_seq_num xs) @ map nm_seq_num ys)" using assms by (simp add: growing_def)
  have up: "sorted_wrt (<) (top_seq st xs # map nm_seq_num ys)"
    using split last_in_set [of "last_seq_num st # map nm_seq_num xs"] unfolding sorted_wrt_append top_seq_def by auto
  have t: "last (top_seq st xs # map nm_seq_num ys) = top_seq st (xs @ ys)" by (simp add: top_seq_def)
  have "top_seq st xs \<le> top_seq st (xs @ ys)" using top_ge [OF up] t by simp
  then show "growing xs st" using assms split by (auto simp: growing_def sorted_wrt_append)
  assume c: "counted xs st outs st'"
  have l: "last_seq_num st \<le> top_seq st xs" using split top_ge [of "last_seq_num st" xs] by (simp add: sorted_wrt_append top_seq_def)
  show "growing ys st' \<and> top_seq st' ys = top_seq st (xs @ ys)"
    using c up t l assms by (auto simp: growing_def counted_def top_seq_def [of st'])
qed

text \<open>As long as the numbers grow, nothing is lost and nothing is made up by the tool: whatever the
  batches, every message is passed on, in order, and the number of lost packets grows by exactly
  the numbers missing in between.\<close>

theorem received_gaps_counted:
  assumes "growing (concat bs) st" "\<forall>b \<in> set bs. length b \<le> MAX_MSGS"
  shows "\<exists>outs st'. nl_receive opts bs st = Some (outs, st') \<and> sent_of outs = concat bs \<and>
     last_seq_num st' = last (last_seq_num st # map nm_seq_num (concat bs)) \<and>
     packets_lost st' + length (concat bs) + last_seq_num st = packets_lost st + last_seq_num st'"
  using assms
proof (induction bs arbitrary: st)
  case Nil
  then show ?case by simp
next
  case (Cons b bs)
  from Cons.prems have g: "growing (b @ concat bs) st" by simp
  from batch_counted [OF growing_append(1) [OF g], of opts] obtain o1 st1 where
    b: "handle_nl_batch opts b st = Some (o1, st1)" "counted b st o1 st1" by blast
  from growing_append(2) [OF g b(2)] have g1: "growing (concat bs) st1" "top_seq st1 (concat bs) = top_seq st (b @ concat bs)" by auto
  from Cons.IH [OF g1(1)] Cons.prems(2) obtain o2 st' where
    "nl_receive opts bs st1 = Some (o2, st')" "sent_of o2 = concat bs" "last_seq_num st' = top_seq st1 (concat bs)"
    "packets_lost st' + length (concat bs) + last_seq_num st1 = packets_lost st1 + last_seq_num st'" by (auto simp: top_seq_def)
  then show ?case using b g1(2) Cons.prems(2) by (auto simp: counted_def top_seq_def)
qed

text \<open>C34: The first batch is cut short: the first message the tool sees ends the batch, the others of it
  are neither passed on nor noted, and the next batch, although it follows on, reports them as
  lost.\<close>

theorem first_batch_reported_lost:
  assumes "last_seq_num st = 0" "known m" "nm_type m \<noteq> event_code NL_EVENT_DRIVER_DEINIT" "nm_seq_num m \<noteq> 0"
    and "known n" "nm_type n \<noteq> event_code NL_EVENT_DRIVER_DEINIT" "nm_seq_num n = nm_seq_num m + length ms + 1" "nm_seq_num n < 2 ^ 64"
    and "length ms < MAX_MSGS" "packets_lost st + length ms + 1 < 2 ^ 64"
  shows "\<exists>outs st'. nl_receive opts [m # ms, [n]] st = Some (outs, st') \<and> sent_of outs = [m, n] \<and> packets_lost st' = packets_lost st + length ms"
proof -
  have take: "take MAX_MSGS (m # ms) = m # ms" "take MAX_MSGS [n] = [n]" using assms(9) by (simp_all add: MAX_MSGS_def)
  let ?st1 = "st\<lparr>last_seq_num := nm_seq_num m\<rparr>"
  from known_handled [OF assms(2), of opts st] assms(1,3) obtain o1 where
    h1: "handle_nl_msg opts m st = Some (o1, False, ?st1)" "sent_of o1 = [m]" by auto
  have g: "growing [n] ?st1" using assms by (auto simp: growing_def top_seq_def)
  from batch_counted [OF this, of opts] obtain o2 st' where b2: "handle_nl_batch opts [n] ?st1 = Some (o2, st')" and c: "counted [n] ?st1 o2 st'"
    by blast
  have b1: "handle_nl_batch opts (m # ms) st = Some (o1, ?st1)" using h1(1) by simp
  have "nl_receive opts [m # ms, [n]] st = Some (o1 @ o2, st')" by (simp add: take b1 b2 del: handle_nl_batch.simps(2))
  with h1(2) c assms(7) show ?thesis by (simp add: counted_def top_seq_def)
qed

section \<open>Concrete messages\<close>

definition demo_nl_msg :: "nat \<Rightarrow> nl_msg_header" where
  "demo_nl_msg n = \<lparr>nm_type = event_code NL_EVENT_BIO_SNAP, nm_seq_num = n, nm_timestamp = 0, nm_params = no_params, nm_func = replicate 32 0, nm_line = 7\<rparr>"

lemma demo_nl_known: "known (demo_nl_msg n)" "nm_type (demo_nl_msg n) \<noteq> event_code NL_EVENT_DRIVER_DEINIT" "nm_seq_num (demo_nl_msg n) = n"
  using event_code_inj [of NL_EVENT_BIO_SNAP] by (auto simp: known_def demo_nl_msg_def simp del: event_code.simps)

definition demo_nl_kern :: "byte list list nl_kern" where
  "demo_nl_kern = \<lparr>nlmsg_new = (\<lambda>w. (Some (replicate 88 0), w)), ktime_ns = (\<lambda>w. 5), nlmsg_multicast = (\<lambda>m w. w @ [m])\<rparr>"

theorem sent_event_received_witness:
  "\<exists>n' bytes. nl_send_event demo_nl_kern NL_EVENT_BIO_SNAP (Some ''snap_trace_bio'') 70000 no_params 4 [] = Some (0, n', [bytes]) \<and>
     nm_seq_num (decode_msg bytes) = 4 \<and> nm_line (decode_msg bytes) = 4464"
proof -
  obtain n' w' where r: "nl_send_event demo_nl_kern NL_EVENT_BIO_SNAP (Some ''snap_trace_bio'') 70000 no_params 4 [] = Some (0, n', w')"
    and w: "\<exists>b. w' = [b]" by (simp add: nl_send_event_def demo_nl_kern_def Let_def)
  from sent_event_received [OF r] have "\<exists>bytes w1. w' = w1 @ [bytes] \<and> nm_seq_num (decode_msg bytes) = 4 \<and> nm_line (decode_msg bytes) = 4464"
    by (fastforce simp: nl_params_ok_def no_params_def demo_nl_kern_def)
  with r w show ?thesis by auto
qed

theorem unknown_event_overreads_witness: "event2str 99 = None"
  using unknown_event_overreads [of 99] by (simp add: NL_EVENT_LAST_def NLMSG_MIN_TYPE_def)

text \<open>Numbers 6, 7 and then 10 after 5: two packets are missing.\<close>

theorem received_gaps_counted_witness:
  "\<exists>outs st'. nl_receive nl_opts_default [[demo_nl_msg 6, demo_nl_msg 7], [demo_nl_msg 10]]
       \<lparr>last_seq_num = 5, seq_num_errors = 0, packets_lost = 0\<rparr> = Some (outs, st') \<and> packets_lost st' = 2"
proof -
  let ?bs = "[[demo_nl_msg 6, demo_nl_msg 7], [demo_nl_msg 10]]" and ?st = "\<lparr>last_seq_num = 5, seq_num_errors = 0, packets_lost = 0\<rparr>"
  have "growing (concat ?bs) ?st" by (simp add: growing_def demo_nl_known top_seq_def del: event_code.simps)
  from received_gaps_counted [OF this, of nl_opts_default] show ?thesis by (auto simp: MAX_MSGS_def demo_nl_known)
qed

theorem first_batch_reported_lost_witness:
  "\<exists>outs st'. nl_receive nl_opts_default [[demo_nl_msg 1, demo_nl_msg 2, demo_nl_msg 3], [demo_nl_msg 4]]
       \<lparr>last_seq_num = 0, seq_num_errors = 0, packets_lost = 0\<rparr> = Some (outs, st') \<and> packets_lost st' = 2"
  using first_batch_reported_lost [of "\<lparr>last_seq_num = 0, seq_num_errors = 0, packets_lost = 0\<rparr>" "demo_nl_msg 1" "demo_nl_msg 4"
      "[demo_nl_msg 2, demo_nl_msg 3]" nl_opts_default]
  by (auto simp: demo_nl_known MAX_MSGS_def simp del: event_code.simps)

end
