(* ===== verification/Syscalls.thy ===== *)
theory Syscalls
  imports Queues "HOL-Library.Word"
begin

text \<open>
  Patching the system call table (\<^verbatim>\<open>SYSTEM CALL HOOKING\<close> of \<^verbatim>\<open>src/main.c\<close>, for x86-64 with the
  \<^verbatim>\<open>__x64_sys\<close> entry points): locating the table, replacing the entries of mount and umount2
  under a cleared write-protect bit, and putting them back; and the flush of the pending works of
  a task (\<^verbatim>\<open>task_work_flush\<close>, callback heads). Addresses are 64-bit words and wrap.
\<close>

unbundle bit_operations_syntax

section \<open>The machine\<close>

text \<open>The memory holds a pointer at each address; control register 0 decides whether a protected
  page can be written.\<close>

record sys_state =
  mem :: "64 word \<Rightarrow> 64 word"
  cr0 :: "64 word"
  system_call_table :: "64 word"
  saved_mount :: "64 word"
  saved_umount :: "64 word"

text \<open>The addresses the build takes from the kernel's symbol table, the address \<^verbatim>\<open>kfree\<close> has in the
  running kernel, and the hooks.\<close>

record sys_addrs =
  SYS_CALL_TABLE_ADDR :: "64 word"
  SYS_MOUNT_ADDR :: "64 word"
  SYS_UMOUNT_ADDR :: "64 word"
  KFREE_ADDR :: "64 word"
  kfree_addr :: "64 word"
  mount_hook_addr :: "64 word"
  umount_hook_addr :: "64 word"

definition NR_mount :: "64 word" where "NR_mount = 165"
definition NR_umount2 :: "64 word" where "NR_umount2 = 166"
definition X86_CR0_WP :: nat where "X86_CR0_WP = 16"

section \<open>Locating the table\<close>

text \<open>\<^verbatim>\<open>(void **)addr + offset / sizeof(void **)\<close>: the offset is divided as an unsigned number.\<close>

definition relocate :: "sys_addrs \<Rightarrow> 64 word \<Rightarrow> 64 word" where
  "relocate K addr = addr + 8 * ((kfree_addr K - KFREE_ADDR K) div 8)"

definition entry_of :: "64 word \<Rightarrow> 64 word \<Rightarrow> 64 word" where
  "entry_of sct nr = sct + 8 * nr"

definition find_sys_call_table :: "sys_addrs \<Rightarrow> sys_state \<Rightarrow> 64 word" where
  "find_sys_call_table K s =
     (if SYS_CALL_TABLE_ADDR K = 0 then 0
      else if SYS_MOUNT_ADDR K = 0 \<or> SYS_UMOUNT_ADDR K = 0 then 0
      else
        let sct = relocate K (SYS_CALL_TABLE_ADDR K) in
        if mem s (entry_of sct NR_mount) \<noteq> relocate K (SYS_MOUNT_ADDR K) then 0
        else if mem s (entry_of sct NR_umount2) \<noteq> relocate K (SYS_UMOUNT_ADDR K) then 0
        else sct)"

section \<open>Changing an entry\<close>

definition disable_page_protection :: "sys_state \<Rightarrow> 64 word \<times> sys_state" where
  "disable_page_protection s = (cr0 s, s\<lparr>cr0 := cr0 s AND NOT (push_bit X86_CR0_WP 1)\<rparr>)"

definition reenable_page_protection :: "64 word \<Rightarrow> sys_state \<Rightarrow> sys_state" where
  "reenable_page_protection flags s = s\<lparr>cr0 := flags\<rparr>"

text \<open>The table is in a read-only page: writing it with the bit set is a fault.\<close>

definition write_entry :: "64 word \<Rightarrow> 64 word \<Rightarrow> sys_state \<Rightarrow> sys_state option" where
  "write_entry addr v s = (if bit (cr0 s) X86_CR0_WP then None else Some (s\<lparr>mem := (mem s)(addr := v)\<rparr>))"

text \<open>The answer carries the old entry (\<^verbatim>\<open>*orig_hook\<close>).\<close>

definition syscall_set_hook :: "64 word \<Rightarrow> 64 word \<Rightarrow> 64 word \<Rightarrow> sys_state \<Rightarrow> (int \<times> 64 word \<times> sys_state) option" where
  "syscall_set_hook sct nr new_hook s =
     (case disable_page_protection s of (flags, s1) \<Rightarrow>
        let old = mem s1 (entry_of sct nr) in do {
          s2 \<leftarrow> write_entry (entry_of sct nr) new_hook s1;
          Some (0, old, reenable_page_protection flags s2) })"

definition restore_system_call_table :: "sys_state \<Rightarrow> sys_state option" where
  "restore_system_call_table s =
     (if system_call_table s \<noteq> 0 then do {
        (_, _, s1) \<leftarrow> syscall_set_hook (system_call_table s) NR_mount (saved_mount s) s;
        (_, _, s2) \<leftarrow> syscall_set_hook (system_call_table s) NR_umount2 (saved_umount s) s1;
        Some s2 }
      else Some s)"

definition hook_system_calls :: "sys_addrs \<Rightarrow> sys_state \<Rightarrow> (int \<times> sys_state) option" where
  "hook_system_calls K s0 =
     (let sct = find_sys_call_table K s0; s = s0\<lparr>system_call_table := sct\<rparr> in
      if sct = 0 then Some (- ENOENT, s)
      else do {
        (r1, old1, s1) \<leftarrow> syscall_set_hook sct NR_mount (mount_hook_addr K) s;
        (r2, old2, s2) \<leftarrow> syscall_set_hook sct NR_umount2 (umount_hook_addr K) (s1\<lparr>saved_mount := old1\<rparr>);
        Some (or r1 r2, s2\<lparr>saved_umount := old2\<rparr>) })"

lemma entries_distinct: "entry_of sct NR_mount \<noteq> entry_of sct NR_umount2"
  by (simp add: entry_of_def NR_mount_def NR_umount2_def)

lemma wp_cleared: "\<not> bit (x AND NOT (push_bit X86_CR0_WP 1) :: 64 word) X86_CR0_WP"
  by (simp add: bit_and_iff bit_not_iff bit_push_bit_iff X86_CR0_WP_def)

lemma set_hook_effect:
  "syscall_set_hook sct nr v s = Some (0, mem s (entry_of sct nr), s\<lparr>mem := (mem s)(entry_of sct nr := v)\<rparr>)"
  by (simp add: syscall_set_hook_def disable_page_protection_def write_entry_def wp_cleared [simplified] reenable_page_protection_def Let_def)

lemma relocate_eq:
  assumes "8 dvd unat (kfree_addr K - KFREE_ADDR K)"
  shows "relocate K addr = addr + (kfree_addr K - KFREE_ADDR K)"
proof -
  let ?o = "kfree_addr K - KFREE_ADDR K"
  have "unat (?o mod 8) = 0" using assms by (simp add: unat_mod dvd_imp_mod_0)
  then have "?o mod 8 = 0" by (simp add: unat_eq_zero)
  then have "8 * (?o div 8) = ?o" using mult_div_mod_eq [of 8 ?o] by simp
  then show ?thesis by (simp add: relocate_def)
qed

lemma hook_found:
  assumes "find_sys_call_table K s = sct" "sct \<noteq> 0"
  shows "hook_system_calls K s = Some (0, s\<lparr>system_call_table := sct, saved_mount := mem s (entry_of sct NR_mount),
     saved_umount := mem s (entry_of sct NR_umount2),
     mem := (mem s)(entry_of sct NR_mount := mount_hook_addr K, entry_of sct NR_umount2 := umount_hook_addr K)\<rparr>)"
  using assms entries_distinct [of sct] by (simp add: hook_system_calls_def set_hook_effect Let_def)

section \<open>Pending works\<close>

text \<open>\<^verbatim>\<open>task_work_flush\<close>. The works of a task are linked from the newest; each round takes all of
  them, turns the list round and runs them from the oldest. A work may queue others, so there
  are rounds until none is left.\<close>

record 'w task =
  task_works :: "nat option"
  work_next :: "nat \<Rightarrow> nat option"
  task_world :: 'w

partial_function (option) reverse_works :: "(nat \<Rightarrow> nat option) \<Rightarrow> nat \<Rightarrow> nat option \<Rightarrow> ((nat \<Rightarrow> nat option) \<times> nat) option" where
  "reverse_works nx work first =
     (case nx work of
        None \<Rightarrow> Some (nx(work := first), work)
      | Some next_work \<Rightarrow> reverse_works (nx(work := first)) next_work (Some work))"

partial_function (option) run_works :: "(nat \<Rightarrow> 'w task \<Rightarrow> 'w task) \<Rightarrow> nat \<Rightarrow> 'w task \<Rightarrow> 'w task option" where
  "run_works func work s =
     (case work_next s work of
        None \<Rightarrow> Some (func work s)
      | Some next_work \<Rightarrow> run_works func next_work (func work s))"

partial_function (option) flush_works :: "(nat \<Rightarrow> 'w task \<Rightarrow> 'w task) \<Rightarrow> 'w task \<Rightarrow> 'w task option" where
  "flush_works func s =
     (case task_works s of
        None \<Rightarrow> Some s
      | Some work \<Rightarrow>
          Option.bind (reverse_works (work_next s) work None) (\<lambda>(nx, first).
          Option.bind (run_works func first (s\<lparr>task_works := None, work_next := nx\<rparr>)) (flush_works func)))"

lemma reverse_works_chain:
  "chain nx (Some w) (w # ws) \<Longrightarrow> distinct (w # ws @ ys) \<Longrightarrow> chain nx h ys \<Longrightarrow>
     \<exists>nx'. reverse_works nx w h = Some (nx', last (w # ws)) \<and> chain nx' (Some (last (w # ws))) (rev (w # ws) @ ys)"
proof (induction ws arbitrary: nx w h ys)
  case Nil
  then show ?case by (subst reverse_works.simps) simp
next
  case (Cons v ws)
  from Cons.prems have v: "nx w = Some v" "chain nx (Some v) (v # ws)" by simp_all
  have c: "chain (nx(w := h)) q zs = chain nx q zs" if "w \<notin> set zs" for q zs using that by (rule chain_upd)
  have "chain (nx(w := h)) (Some v) (v # ws)" "chain (nx(w := h)) (Some w) (w # ys)"
    using Cons.prems v c [of "v # ws"] c [of ys] by auto
  moreover have "distinct (v # ws @ w # ys)" using Cons.prems by auto
  ultimately have "\<exists>nx'. reverse_works (nx(w := h)) v (Some w) = Some (nx', last (v # ws)) \<and>
      chain nx' (Some (last (v # ws))) (rev (v # ws) @ (w # ys))" by (intro Cons.IH)
  with v show ?case by (subst reverse_works.simps) simp
qed

text \<open>Works that queue nothing and leave the links alone.\<close>

definition quiet_works :: "(nat \<Rightarrow> 'w task \<Rightarrow> 'w task) \<Rightarrow> bool" where
  "quiet_works func \<longleftrightarrow> (\<forall>w s. task_works (func w s) = task_works s \<and> work_next (func w s) = work_next s)"

lemma run_works_chain:
  "chain (work_next s) (Some w) (w # ws) \<Longrightarrow> quiet_works func \<Longrightarrow> run_works func w s = Some (fold func (w # ws) s)"
proof (induction ws arbitrary: w s)
  case Nil
  then show ?case by (subst run_works.simps) simp
next
  case (Cons v ws)
  then have "run_works func v (func w s) = Some (fold func (v # ws) (func w s))" by (intro Cons.IH) (simp_all add: quiet_works_def)
  with Cons.prems show ?case by (subst run_works.simps) simp
qed

lemma fold_quiet: "quiet_works func \<Longrightarrow> task_works (fold func ws s) = task_works s"
  by (induction ws arbitrary: s) (simp_all add: quiet_works_def)

section \<open>Properties\<close>

text \<open>C30: Restoring undoes hooking: when the table is found, after \<^verbatim>\<open>hook_system_call_table\<close> exactly
  the two entries hold the hooks, the old entries are remembered and the write-protect bit is as
  before, and \<^verbatim>\<open>restore_system_call_table\<close> puts the memory and the control register back.\<close>

theorem hook_restore_round_trip:
  assumes "find_sys_call_table K s \<noteq> 0"
  shows "\<exists>t u. hook_system_calls K s = Some (0, t) \<and> restore_system_call_table t = Some u \<and>
     mem t (entry_of (find_sys_call_table K s) NR_mount) = mount_hook_addr K \<and>
     mem t (entry_of (find_sys_call_table K s) NR_umount2) = umount_hook_addr K \<and>
     (\<forall>a. a \<noteq> entry_of (find_sys_call_table K s) NR_mount \<and> a \<noteq> entry_of (find_sys_call_table K s) NR_umount2 \<longrightarrow> mem t a = mem s a) \<and>
     cr0 t = cr0 s \<and> mem u = mem s \<and> cr0 u = cr0 s"
proof -
  let ?sct = "find_sys_call_table K s"
  show ?thesis unfolding hook_found [OF refl assms]
    using assms entries_distinct [of ?sct]
    by (auto simp: restore_system_call_table_def set_hook_effect fun_eq_iff)
qed

text \<open>C31: The table is only taken when, at the offset the kernel was moved by, its two entries are
  the mount functions of the symbol table; the offset is applied without loss when it is a
  multiple of the size of a pointer.\<close>

theorem table_found_is_the_table:
  assumes "8 dvd unat (kfree_addr K - KFREE_ADDR K)" "find_sys_call_table K s \<noteq> 0"
  shows "find_sys_call_table K s = SYS_CALL_TABLE_ADDR K + (kfree_addr K - KFREE_ADDR K) \<and>
     mem s (entry_of (find_sys_call_table K s) NR_mount) = SYS_MOUNT_ADDR K + (kfree_addr K - KFREE_ADDR K) \<and>
     mem s (entry_of (find_sys_call_table K s) NR_umount2) = SYS_UMOUNT_ADDR K + (kfree_addr K - KFREE_ADDR K)"
  using assms by (auto simp: find_sys_call_table_def Let_def relocate_eq split: if_splits)

text \<open>C32: Flushing the works of a task runs every work once, from the oldest to the newest, and
  ends, when the works queue no further ones.\<close>

theorem flush_runs_oldest_first:
  assumes "chain (work_next s) (task_works s) ws" "distinct ws" "quiet_works func"
  shows "\<exists>nx. flush_works func s = Some (fold func (rev ws) (s\<lparr>task_works := None, work_next := nx\<rparr>))"
proof (cases ws)
  case Nil
  with assms have "s = s\<lparr>task_works := None, work_next := work_next s\<rparr>" "task_works s = None" by simp_all
  with Nil show ?thesis by (subst flush_works.simps) (auto intro!: exI [of _ "work_next s"])
next
  case (Cons w vs)
  with assms have w: "task_works s = Some w" "chain (work_next s) (Some w) (w # vs)" "distinct (w # vs @ [])" by simp_all
  from reverse_works_chain [OF w(2,3), of None] obtain nx where
    nx: "reverse_works (work_next s) w None = Some (nx, last (w # vs))" "chain nx (Some (last (w # vs))) (rev (w # vs))" by auto
  let ?s = "s\<lparr>task_works := None, work_next := nx\<rparr>"
  have rev: "rev (w # vs) = last (w # vs) # rev (butlast (w # vs))" by (metis append_butlast_last_id list.distinct(1) rev_eq_Cons_iff rev_rev_ident)
  have run: "run_works func (last (w # vs)) ?s = Some (fold func (rev (w # vs)) ?s)"
    unfolding rev by (rule run_works_chain) (use nx(2) rev assms(3) in simp_all)
  have "flush_works func (fold func (rev ws) ?s) = Some (fold func (rev ws) ?s)"
    by (subst flush_works.simps) (simp add: fold_quiet [OF assms(3)])
  with w(1) nx(1) run Cons show ?thesis by (subst flush_works.simps) (auto intro!: exI [of _ nx])
qed

section \<open>Concrete runs\<close>

definition demo_addrs :: sys_addrs where
  "demo_addrs = \<lparr>SYS_CALL_TABLE_ADDR = 0x1000, SYS_MOUNT_ADDR = 0x2000, SYS_UMOUNT_ADDR = 0x3000, KFREE_ADDR = 0x5000,
     kfree_addr = 0x5040, mount_hook_addr = 0x7000, umount_hook_addr = 0x7100\<rparr>"

definition demo_sys :: sys_state where
  "demo_sys = \<lparr>mem = (\<lambda>_. 0)(0x1040 + 8 * 165 := 0x2040, 0x1040 + 8 * 166 := 0x3040), cr0 = 0x80050033, system_call_table = 0,
     saved_mount = 0, saved_umount = 0\<rparr>"

lemma demo_found: "find_sys_call_table demo_addrs demo_sys = 0x1040"
  by (simp add: find_sys_call_table_def demo_addrs_def demo_sys_def relocate_def entry_of_def NR_mount_def NR_umount2_def Let_def)

theorem hook_restore_round_trip_witness:
  "\<exists>t u. hook_system_calls demo_addrs demo_sys = Some (0, t) \<and> restore_system_call_table t = Some u \<and> mem u = mem demo_sys"
proof -
  have "find_sys_call_table demo_addrs demo_sys \<noteq> 0" by (simp add: demo_found)
  from hook_restore_round_trip [OF this] show ?thesis by blast
qed

theorem table_found_is_the_table_witness:
  "find_sys_call_table demo_addrs demo_sys = SYS_CALL_TABLE_ADDR demo_addrs + 0x40"
proof -
  have "8 dvd unat (kfree_addr demo_addrs - KFREE_ADDR demo_addrs)" by (simp add: demo_addrs_def)
  moreover have "find_sys_call_table demo_addrs demo_sys \<noteq> 0" by (simp add: demo_found)
  ultimately show ?thesis using table_found_is_the_table [of demo_addrs demo_sys] by (simp add: demo_addrs_def)
qed

text \<open>Three works queued as 3, 2, 1, each of which writes its number down.\<close>

definition demo_task :: "nat list task" where
  "demo_task = \<lparr>task_works = Some 3, work_next = [3 \<mapsto> 2, 2 \<mapsto> 1], task_world = []\<rparr>"

definition note_work :: "nat \<Rightarrow> nat list task \<Rightarrow> nat list task" where
  "note_work w s = s\<lparr>task_world := task_world s @ [w]\<rparr>"

theorem flush_runs_oldest_first_witness: "map_option task_world (flush_works note_work demo_task) = Some [1, 2, 3]"
proof -
  have "chain (work_next demo_task) (task_works demo_task) [3, 2, 1]" "distinct [3, 2, 1 :: nat]" by (simp_all add: demo_task_def)
  moreover have "quiet_works note_work" by (simp add: quiet_works_def note_work_def)
  ultimately obtain nx where "flush_works note_work demo_task = Some (fold note_work (rev [3, 2, 1]) (demo_task\<lparr>task_works := None, work_next := nx\<rparr>))"
    using flush_runs_oldest_first by blast
  then show ?thesis by (simp add: note_work_def demo_task_def)
qed

end
