(* ===== verification/Update_Img.thy ===== *)
theory Update_Img
  imports Cow_Life
begin

text \<open>
  The user space tool \<^verbatim>\<open>utils/update-img.c\<close>: it merges the blocks that an incremental cow
  file marks as changed from the next snapshot into an image of the previous one. Files are
  byte sequences of a given length; \<^verbatim>\<open>errno\<close> is state: a transfer that fails sets it, one that
  succeeds or stops at the end of the file leaves it as earlier calls left it, and the tool
  clears it after it has reported an error. The messages the tool prints are left out, and so
  is what printing does to \<^verbatim>\<open>errno\<close>, except that its value when the merge starts is arbitrary.
  The driver's answer to \<^verbatim>\<open>elastio_snap_info\<close> and the memory allocator are parameters.
\<close>

definition INDEX_BUFFER_SIZE :: nat where
  "INDEX_BUFFER_SIZE = 8192"

record filedata =
  fbytes :: buf
  flen :: nat

text \<open>\<^verbatim>\<open>pread\<close> and \<^verbatim>\<open>pwrite\<close> of a regular file: \<open>read_errno\<close> and \<open>write_errno\<close> say where the device fails;
  \<open>e\<close> is \<^verbatim>\<open>errno\<close> before the call, the last part of the answer \<^verbatim>\<open>errno\<close> after it.\<close>

record io_env =
  read_errno :: "nat \<Rightarrow> nat"
  write_errno :: "nat \<Rightarrow> nat"

definition pread :: "io_env \<Rightarrow> filedata \<Rightarrow> nat \<Rightarrow> nat \<Rightarrow> nat \<Rightarrow> int \<times> buf \<times> nat" where
  "pread E f n off e =
     (if read_errno E off \<noteq> 0 then (- 1, \<lambda>_. 0, read_errno E off)
      else (int (min n (flen f - off)), \<lambda>i. fbytes f (off + i), e))"

definition pwrite :: "io_env \<Rightarrow> filedata \<Rightarrow> buf \<Rightarrow> nat \<Rightarrow> nat \<Rightarrow> nat \<Rightarrow> int \<times> filedata \<times> nat" where
  "pwrite E f b n off e =
     (if write_errno E off \<noteq> 0 then (- 1, f, write_errno E off)
      else (int n, f\<lparr>fbytes := splice (fbytes f) off n b, flen := max (flen f) (off + n)\<rparr>, e))"

text \<open>\<^verbatim>\<open>copy_block\<close> answers the \<^verbatim>\<open>errno\<close> it finds after an incomplete transfer and clears it; the last part
  of the result is \<^verbatim>\<open>errno\<close> afterwards.\<close>

definition copy_block :: "io_env \<Rightarrow> filedata \<Rightarrow> filedata \<Rightarrow> nat \<Rightarrow> nat \<Rightarrow> nat \<times> filedata \<times> nat" where
  "copy_block E snap img block e =
     (case pread E snap COW_BLOCK_SIZE (block * COW_BLOCK_SIZE) e of (n, b, e1) \<Rightarrow>
        if n \<noteq> int COW_BLOCK_SIZE then (e1, img, 0)
        else (case pwrite E img b COW_BLOCK_SIZE (block * COW_BLOCK_SIZE) e1 of (n, img1, e2) \<Rightarrow>
          if n \<noteq> int COW_BLOCK_SIZE then (e2, img1, 0) else (0, img1, e2)))"

text \<open>\<^verbatim>\<open>verify_files\<close>: \<open>info\<close> is what the driver reports (its error, \<^verbatim>\<open>uuid\<close> and \<^verbatim>\<open>seqid\<close>). The answer is the
  return value with \<^verbatim>\<open>errno\<close>; a short header answers the \<^verbatim>\<open>errno\<close> it finds, as \<^verbatim>\<open>copy_block\<close> does.\<close>

definition verify_files :: "io_env \<Rightarrow> bool \<Rightarrow> (nat + (byte list \<times> nat)) \<Rightarrow> filedata \<Rightarrow> nat \<Rightarrow> nat \<times> nat" where
  "verify_files E mem info cow e =
     (if \<not> mem then (12, 0)
      else (case info of
          Inl err \<Rightarrow> (err, 0)
        | Inr (u, sq) \<Rightarrow>
            (case pread E cow 64 0 e of (n, b, e1) \<Rightarrow>
               let ch = parse_header b in
               if n \<noteq> 64 then (e1, 0)
               else if ch_magic ch \<noteq> COW_MAGIC then (22, e1)
               else if ch_uuid ch \<noteq> u then (22, e1)
               else if ch_seqid ch \<noteq> sub64 sq 1 then (22, e1)
               else (0, e1))))"

text \<open>The blocks of one chunk of mappings; \<open>count\<close> and \<open>errs\<close> are the tool's counters, \<open>e\<close> is \<^verbatim>\<open>errno\<close>.\<close>

fun copy_chunk :: "io_env \<Rightarrow> filedata \<Rightarrow> (nat \<Rightarrow> nat) \<Rightarrow> nat \<Rightarrow> nat list \<Rightarrow> nat \<times> nat \<times> filedata \<times> nat \<Rightarrow> nat \<times> nat \<times> filedata \<times> nat" where
  "copy_chunk E snap m base [] st = st"
| "copy_chunk E snap m base (j # js) (count, errs, img, e) =
     (if m j = 0 then copy_chunk E snap m base js (count, errs, img, e)
      else (case copy_block E snap img (base + j) e of (ret, img1, e1) \<Rightarrow>
        copy_chunk E snap m base js (Suc count, if ret \<noteq> 0 then Suc errs else errs, img1, e1)))"

text \<open>The merge loop from chunk \<open>i\<close> on. The answer is the exit status of the tool with the image;
  a short read of the index ends it with the \<^verbatim>\<open>errno\<close> found then.\<close>

fun merge_chunks :: "io_env \<Rightarrow> filedata \<Rightarrow> filedata \<Rightarrow> nat \<Rightarrow> nat list \<Rightarrow> nat \<Rightarrow> nat \<times> nat \<times> filedata \<times> nat \<Rightarrow> nat \<times> nat \<times> nat \<times> filedata" where
  "merge_chunks E snap cow total_blocks [] blocks_done (count, errs, img, e) = (0, count, errs, img)"
| "merge_chunks E snap cow total_blocks (i # is) blocks_done (count, errs, img, e) =
     (let n = min INDEX_BUFFER_SIZE (total_blocks - blocks_done) in
      case pread E cow (n * sizeof_u64) (COW_HEADER_SIZE + INDEX_BUFFER_SIZE * sizeof_u64 * i) e of (got, b, e1) \<Rightarrow>
        if got \<noteq> int (n * sizeof_u64) then (e1, count, errs, img)
        else merge_chunks E snap cow total_blocks is (blocks_done + n)
               (copy_chunk E snap (words_of b) (INDEX_BUFFER_SIZE * i) [0..<n] (count, errs, img, e1)))"

definition total_blocks_of :: "filedata \<Rightarrow> nat" where
  "total_blocks_of snap = (flen snap + COW_BLOCK_SIZE - 1) div COW_BLOCK_SIZE"

definition update_img :: "io_env \<Rightarrow> filedata \<Rightarrow> filedata \<Rightarrow> filedata \<Rightarrow> nat \<Rightarrow> nat \<times> nat \<times> nat \<times> filedata" where
  "update_img E snap cow img e =
     (let total_blocks = total_blocks_of snap;
          total_chunks = (total_blocks + INDEX_BUFFER_SIZE - 1) div INDEX_BUFFER_SIZE in
      merge_chunks E snap cow total_blocks [0..<total_chunks] 0 (0, 0, img, e))"

text \<open>\<^verbatim>\<open>main\<close> after the files are open and the minor is known; \<open>said\<close> is \<^verbatim>\<open>errno\<close> after the messages before the
  merge.\<close>

definition update_img_main :: "io_env \<Rightarrow> bool \<Rightarrow> bool \<Rightarrow> (nat + (byte list \<times> nat)) \<Rightarrow> filedata \<Rightarrow> filedata \<Rightarrow> filedata \<Rightarrow> nat
    \<Rightarrow> (nat \<Rightarrow> nat) \<Rightarrow> nat \<times> nat \<times> nat \<times> filedata" where
  "update_img_main E mem1 mem2 info snap cow img e said =
     (case verify_files E mem1 info cow e of (ret, e1) \<Rightarrow>
      if ret \<noteq> 0 then (ret, 0, 0, img)
      else if \<not> mem2 then (12, 0, 0, img)
      else update_img E snap cow img (said e1))"

section \<open>What a merge does\<close>

definition no_errors :: "io_env \<Rightarrow> bool" where
  "no_errors E \<longleftrightarrow> (\<forall>off. read_errno E off = 0 \<and> write_errno E off = 0)"

lemma copy_block_full:
  assumes "no_errors E" "block * 4096 + 4096 \<le> flen snap"
  shows "copy_block E snap img block e =
    (0, img\<lparr>fbytes := splice (fbytes img) (block * 4096) 4096 (\<lambda>i. fbytes snap (block * 4096 + i)),
            flen := max (flen img) (block * 4096 + 4096)\<rparr>, e)"
proof -
  have "4096 \<le> flen snap - block * 4096" using assms(2) by linarith
  with assms(1) show ?thesis by (simp add: copy_block_def pread_def pwrite_def no_errors_def min_def)
qed

text \<open>The block after the last whole one: the answer is the old \<^verbatim>\<open>errno\<close>.\<close>

lemma copy_block_short:
  assumes "no_errors E" "flen snap < block * 4096 + 4096"
  shows "copy_block E snap img block e = (e, img, 0)"
proof -
  have "\<not> 4096 \<le> flen snap - block * 4096" using assms(2) by linarith
  with assms(1) show ?thesis by (simp add: copy_block_def pread_def no_errors_def min_def)
qed

text \<open>The image \<open>img'\<close> holds the snapshot in the changed whole blocks listed and \<open>img\<close> elsewhere.\<close>

definition merged :: "filedata \<Rightarrow> filedata \<Rightarrow> nat set \<Rightarrow> filedata \<Rightarrow> bool" where
  "merged snap img S img' \<longleftrightarrow>
     (\<forall>x. fbytes img' x = (if x div 4096 \<in> S \<and> x div 4096 * 4096 + 4096 \<le> flen snap then fbytes snap x else fbytes img x))"

text \<open>The state of the tool after the blocks \<open>S\<close> of the device, when the merge started with \<open>errno\<close> \<open>e\<close>:
  a short block is counted like the others, and as an error if \<open>errno\<close> was not 0.\<close>

definition after_blocks :: "filedata \<Rightarrow> filedata \<Rightarrow> nat \<Rightarrow> nat set \<Rightarrow> nat \<times> nat \<times> filedata \<times> nat \<Rightarrow> bool" where
  "after_blocks snap img e S st \<longleftrightarrow>
     (case st of (count, errs, img', e') \<Rightarrow>
        merged snap img S img' \<and> finite S \<and> count = card S \<and>
        (if \<exists>b\<in>S. flen snap < b * 4096 + 4096 then errs = (if e = 0 then 0 else 1) \<and> e' = 0 else errs = 0 \<and> e' = e))"

lemma after_no_blocks: "after_blocks snap img e {} (0, 0, img, e)"
  by (simp add: after_blocks_def merged_def)

lemma merged_copy:
  assumes E: "no_errors E" and m: "merged snap img S img1"
  shows "merged snap img (insert b S) (fst (snd (copy_block E snap img1 b e)))"
proof (cases "b * 4096 + 4096 \<le> flen snap")
  case True
  have in_block: "b * 4096 \<le> x \<and> x < b * 4096 + 4096 \<longleftrightarrow> x div 4096 = b" for x :: nat
    by auto
  from True m show ?thesis
    by (auto simp: copy_block_full [OF E True] merged_def splice_def in_block)
next
  case False
  then have "copy_block E snap img1 b e = (e, img1, 0)" using E by (simp add: copy_block_short)
  with m False show ?thesis by (auto simp: merged_def)
qed

lemma after_next_block:
  assumes E: "no_errors E" and st: "after_blocks snap img e S (count, errs, img1, e1)"
    and b: "\<forall>c\<in>S. c < b" "b * 4096 < flen snap" and cb: "copy_block E snap img1 b e1 = (ret, img2, e2)"
  shows "after_blocks snap img e (insert b S) (Suc count, if ret \<noteq> 0 then Suc errs else errs, img2, e2)"
proof -
  have whole: "\<not> flen snap < c * 4096 + 4096" if "c \<in> S" for c
  proof -
    have "Suc c * 4096 \<le> b * 4096" using b(1) that by (intro mult_le_mono1) auto
    with b(2) show ?thesis by simp
  qed
  then have old: "merged snap img S img1" "finite S" "count = card S" "errs = 0" "e1 = e"
    using st by (auto simp: after_blocks_def)
  have m: "merged snap img (insert b S) img2" using merged_copy [OF E old(1), of b e1] cb by simp
  have "b \<notin> S" using b(1) by blast
  then have card: "card (insert b S) = Suc count" using old(2,3) by simp
  show ?thesis
  proof (cases "flen snap < b * 4096 + 4096")
    case True
    with cb copy_block_short [OF E True, of img1 e1] old m card show ?thesis by (simp add: after_blocks_def)
  next
    case False
    then have "ret = 0" "e2 = e" using cb copy_block_full [OF E, of b snap img1 e1] old(5) by simp_all
    moreover have "\<not> (\<exists>c\<in>insert b S. flen snap < c * 4096 + 4096)" using False whole by blast
    ultimately show ?thesis using old m card unfolding after_blocks_def by simp
  qed
qed

lemma after_chunk:
  assumes E: "no_errors E"
  shows "after_blocks snap img e S st \<Longrightarrow> sorted_wrt (<) js \<Longrightarrow> \<forall>j\<in>set js. (\<forall>c\<in>S. c < base + j) \<and> (base + j) * 4096 < flen snap \<Longrightarrow>
    after_blocks snap img e (S \<union> {base + j | j. j \<in> set js \<and> m j \<noteq> 0}) (copy_chunk E snap m base js st)"
proof (induction js arbitrary: st S)
  case Nil
  then show ?case by simp
next
  case (Cons j js)
  obtain count errs img1 e1 where st: "st = (count, errs, img1, e1)" by (metis prod_cases4)
  show ?case
  proof (cases "m j = 0")
    case True
    then have "{base + i |i. i \<in> set (j # js) \<and> m i \<noteq> 0} = {base + i |i. i \<in> set js \<and> m i \<noteq> 0}" by auto
    with True Cons.IH [OF Cons.prems(1)] Cons.prems st show ?thesis by simp
  next
    case False
    obtain ret img2 e2 where cb: "copy_block E snap img1 (base + j) e1 = (ret, img2, e2)" by (metis prod_cases3)
    have "\<forall>c\<in>S. c < base + j" "(base + j) * 4096 < flen snap" using Cons.prems(3) by auto
    note next_st = after_next_block [OF E Cons.prems(1) [unfolded st] this cb]
    have "\<forall>i\<in>set js. (\<forall>c\<in>insert (base + j) S. c < base + i) \<and> (base + i) * 4096 < flen snap" using Cons.prems(2,3) by auto
    note ih = Cons.IH [OF next_st _ this]
    have "insert (base + j) S \<union> {base + i |i. i \<in> set js \<and> m i \<noteq> 0} = S \<union> {base + i |i. i \<in> set (j # js) \<and> m i \<noteq> 0}"
      using False by auto
    with ih cb False st Cons.prems(2) show ?thesis by simp
  qed
qed

text \<open>The index of a cow file as \<^verbatim>\<open>update-img\<close> reads it.\<close>

definition index_word :: "filedata \<Rightarrow> nat \<Rightarrow> nat" where
  "index_word cow b = disk_word (fbytes cow) b"

lemma chunk_words_index: "words_of (\<lambda>k. fbytes cow (4096 + 65536 * i + k)) j = index_word cow (8192 * i + j)"
  by (simp add: words_of_def index_word_def disk_word_def algebra_simps)

definition changed_below :: "filedata \<Rightarrow> nat \<Rightarrow> nat set" where
  "changed_below cow n = {b. b < n \<and> index_word cow b \<noteq> 0}"

lemma merge_chunks_merged:
  assumes E: "no_errors E" and cow: "4096 + 8 * tb \<le> flen cow" and tb: "tb = total_blocks_of snap"
  shows "i \<le> n \<Longrightarrow> n = (tb + 8191) div 8192 \<Longrightarrow> after_blocks snap img e (changed_below cow (min (8192 * i) tb)) st \<Longrightarrow>
    \<exists>count errs img' e'. merge_chunks E snap cow tb [i..<n] (min (8192 * i) tb) st = (0, count, errs, img') \<and>
       after_blocks snap img e (changed_below cow tb) (count, errs, img', e')"
proof (induction "n - i" arbitrary: i st)
  case 0
  then have "i = n" "min (8192 * i) tb = tb" by auto
  moreover obtain count errs img1 e1 where "st = (count, errs, img1, e1)" by (metis prod_cases4)
  ultimately show ?case using "0.prems" by auto
next
  case (Suc k)
  from Suc.hyps(2) Suc.prems have i: "i < n" "8192 * i < tb" by auto
  let ?n = "min 8192 (tb - 8192 * i)"
  let ?b = "\<lambda>k. fbytes cow (4096 + 65536 * i + k)"
  obtain count errs img1 e1 where st: "st = (count, errs, img1, e1)" by (metis prod_cases4)
  let ?st = "copy_chunk E snap (words_of ?b) (8192 * i) [0..<?n] st"
  have lst: "[i..<n] = i # [Suc i..<n]" using i by (simp add: upt_conv_Cons)
  have fin: "min (8192 * i) tb = 8192 * i" "8192 * i + ?n = min (8192 * Suc i) tb" using i by auto
  have fits: "4096 + 65536 * i + ?n * 8 \<le> flen cow" using cow i by (auto simp: min_def)
  have "pread E cow (?n * sizeof_u64) (COW_HEADER_SIZE + INDEX_BUFFER_SIZE * sizeof_u64 * i) e1 = (int (?n * 8), ?b, e1)"
    using E fits by (simp add: pread_def no_errors_def INDEX_BUFFER_SIZE_def min_def)
  then have step: "merge_chunks E snap cow tb [i..<n] (min (8192 * i) tb) st =
      merge_chunks E snap cow tb [Suc i..<n] (min (8192 * Suc i) tb) ?st"
    unfolding lst st by (simp add: INDEX_BUFFER_SIZE_def fin del: upt_Suc)
  have marks: "changed_below cow (min (8192 * i) tb) \<union> {8192 * i + j |j. j \<in> set [0..<?n] \<and> words_of ?b j \<noteq> 0} =
      changed_below cow (min (8192 * Suc i) tb)"
  proof (intro equalityI subsetI)
    fix x assume x: "x \<in> changed_below cow (min (8192 * Suc i) tb)"
    show "x \<in> changed_below cow (min (8192 * i) tb) \<union> {8192 * i + j |j. j \<in> set [0..<?n] \<and> words_of ?b j \<noteq> 0}"
    proof (cases "x < 8192 * i")
      case False
      then have "x = 8192 * i + (x - 8192 * i)" "x - 8192 * i < ?n" using x fin(2) by (auto simp: changed_below_def)
      with x show ?thesis by (auto simp: changed_below_def chunk_words_index)
    qed (use x in \<open>auto simp: changed_below_def\<close>)
  qed (use fin(2) in \<open>auto simp: changed_below_def chunk_words_index\<close>)
  have "(8192 * i + j) * 4096 < flen snap" if "j < ?n" for j
  proof -
    have "Suc (8192 * i + j) \<le> tb" using that i(2) by linarith
    then have "Suc (8192 * i + j) \<le> (flen snap + 4095) div 4096" by (simp add: tb total_blocks_of_def add.commute)
    then have "Suc (8192 * i + j) * 4096 \<le> flen snap + 4095" by (simp add: less_eq_div_iff_mult_less_eq)
    then show ?thesis by simp
  qed
  then have "\<forall>j\<in>set [0..<?n]. (\<forall>c\<in>changed_below cow (min (8192 * i) tb). c < 8192 * i + j) \<and> (8192 * i + j) * 4096 < flen snap"
    by (auto simp: changed_below_def)
  note chunk = after_chunk [OF E Suc.prems(3) _ this, of "words_of ?b", unfolded marks]
  have "k = n - Suc i" "Suc i \<le> n" using Suc.hyps(2) i by auto
  from Suc.hyps(1) [OF this Suc.prems(2) chunk] step show ?case by simp
qed

lemma update_img_run:
  assumes "no_errors E" and "4096 + 8 * total_blocks_of snap \<le> flen cow"
  shows "\<exists>count errs img' e'. update_img E snap cow img e = (0, count, errs, img') \<and>
    after_blocks snap img e (changed_below cow (total_blocks_of snap)) (count, errs, img', e')"
proof -
  let ?t = "total_blocks_of snap"
  have "after_blocks snap img e (changed_below cow (min (8192 * 0) ?t)) (0, 0, img, e)"
    using after_no_blocks by (simp add: changed_below_def)
  from merge_chunks_merged [OF assms refl le0 refl this]
  show ?thesis by (simp add: update_img_def INDEX_BUFFER_SIZE_def Let_def add.commute)
qed

text \<open>C36: Merging with \<^verbatim>\<open>update-img\<close>: with a readable index for the whole device and no transfer
  errors the tool ends with status 0, and the image then holds the snapshot in every whole
  block the cow file's index marks and is unchanged everywhere else; the tool counts every
  marked block, and no error unless \<^verbatim>\<open>errno\<close> was not 0 when the merge started.\<close>

theorem update_img_merges:
  assumes "no_errors E" and "4096 + 8 * total_blocks_of snap \<le> flen cow"
  shows "\<exists>count errs img'. update_img E snap cow img e = (0, count, errs, img') \<and> (e = 0 \<longrightarrow> errs = 0) \<and>
    count = card {b. b < total_blocks_of snap \<and> index_word cow b \<noteq> 0} \<and>
    (\<forall>x. fbytes img' x = (if index_word cow (x div 4096) \<noteq> 0 \<and> x div 4096 * 4096 + 4096 \<le> flen snap
                          then fbytes snap x else fbytes img x))"
proof -
  let ?t = "total_blocks_of snap"
  from update_img_run [OF assms] obtain count errs img' e' where up: "update_img E snap cow img e = (0, count, errs, img')"
    and m: "after_blocks snap img e (changed_below cow ?t) (count, errs, img', e')" by blast
  have "b < ?t" if "b * 4096 + 4096 \<le> flen snap" for b
  proof -
    have "Suc b * 4096 \<le> flen snap + 4095" using that by simp
    then have "Suc b \<le> (flen snap + 4095) div 4096" by (simp add: less_eq_div_iff_mult_less_eq)
    then show ?thesis by (simp add: total_blocks_of_def)
  qed
  with m up show ?thesis by (auto simp: after_blocks_def merged_def changed_below_def split: if_splits)
qed

definition demo_env :: io_env where
  "demo_env = \<lparr>read_errno = (\<lambda>_. 0), write_errno = (\<lambda>_. 0)\<rparr>"

definition demo_cow_file :: filedata where
  "demo_cow_file = \<lparr>fbytes = (\<lambda>i. if i = 4104 then 1 else 0), flen = 36864\<rparr>"

lemma demo_index: "index_word demo_cow_file 1 = 1" "index_word demo_cow_file 0 = 0"
  by (simp_all add: index_word_def disk_word_def bytes_u64_def demo_cow_file_def upt_rec)

theorem update_img_merges_witness:
  "\<exists>count img'. update_img demo_env \<lparr>fbytes = (\<lambda>_. 7), flen = 8192\<rparr> demo_cow_file \<lparr>fbytes = (\<lambda>_. 2), flen = 8192\<rparr> 0 = (0, count, 0, img') \<and>
     fbytes img' 100 = 2 \<and> fbytes img' 5000 = 7"
proof -
  have "no_errors demo_env" "4096 + 8 * total_blocks_of \<lparr>fbytes = (\<lambda>_. 7), flen = 8192\<rparr> \<le> flen demo_cow_file"
    by (simp_all add: no_errors_def demo_env_def total_blocks_of_def demo_cow_file_def)
  from update_img_merges [OF this, of "\<lparr>fbytes = (\<lambda>_. 2), flen = 8192\<rparr>" 0] show ?thesis
    using demo_index by (auto simp del: One_nat_def)
qed

text \<open>C37: The last block of a device whose size is no multiple of the block size is lost: when the index
  marks it, the tool ends with status 0, has counted the block as changed, and the image is
  as before there. The short \<^verbatim>\<open>pread\<close> leaves \<^verbatim>\<open>errno\<close> alone and \<^verbatim>\<open>copy_block\<close> answers what it finds, so
  the loss is counted as an error only if an earlier call had left \<^verbatim>\<open>errno\<close> not 0.\<close>

theorem update_img_loses_partial_block:
  assumes "no_errors E" and "4096 + 8 * total_blocks_of snap \<le> flen cow"
    and "\<not> 4096 dvd flen snap" and "index_word cow (flen snap div 4096) \<noteq> 0"
  shows "\<exists>count img'. update_img E snap cow img e = (0, count, if e = 0 then 0 else 1, img') \<and>
    count = card {b. b < total_blocks_of snap \<and> index_word cow b \<noteq> 0} \<and> flen snap div 4096 < total_blocks_of snap \<and>
    (\<forall>x. x div 4096 = flen snap div 4096 \<longrightarrow> fbytes img' x = fbytes img x)"
proof -
  let ?b = "flen snap div 4096"
  have "0 < flen snap mod 4096" using assms(3) by (simp add: dvd_eq_mod_eq_0)
  then have "flen snap + 4095 = 4096 * Suc ?b + (flen snap mod 4096 - 1)" by simp
  moreover have "flen snap mod 4096 - 1 < 4096" by (rule le_less_trans [of _ "flen snap mod 4096"]) simp_all
  ultimately have t: "total_blocks_of snap = Suc ?b" by (simp add: total_blocks_of_def div_nat_eqI)
  have short: "flen snap < ?b * 4096 + 4096" by (metis dividend_less_div_times zero_less_numeral add.commute)
  from update_img_run [OF assms(1,2)] obtain count errs img' e' where up: "update_img E snap cow img e = (0, count, errs, img')"
    and m: "after_blocks snap img e (changed_below cow (total_blocks_of snap)) (count, errs, img', e')" by blast
  have "?b \<in> changed_below cow (total_blocks_of snap)" using assms(4) t by (simp add: changed_below_def)
  then have "\<exists>b\<in>changed_below cow (total_blocks_of snap). flen snap < b * 4096 + 4096" using short by blast
  with m have "errs = (if e = 0 then 0 else 1)" "merged snap img (changed_below cow (total_blocks_of snap)) img'"
    "count = card (changed_below cow (total_blocks_of snap))" by (simp_all add: after_blocks_def)
  with up t short show ?thesis by (auto simp: merged_def changed_below_def)
qed

theorem update_img_loses_partial_block_witness:
  "\<exists>count img'. update_img demo_env \<lparr>fbytes = (\<lambda>_. 7), flen = 6144\<rparr> demo_cow_file \<lparr>fbytes = (\<lambda>_. 2), flen = 6144\<rparr> 0 = (0, count, 0, img') \<and>
     fbytes img' 5000 = 2"
proof -
  let ?snap = "\<lparr>fbytes = (\<lambda>_. 7), flen = 6144\<rparr> :: filedata"
  have "no_errors demo_env" "4096 + 8 * total_blocks_of ?snap \<le> flen demo_cow_file" "\<not> 4096 dvd flen ?snap"
    by (simp_all add: no_errors_def demo_env_def total_blocks_of_def demo_cow_file_def dvd_eq_mod_eq_0)
  moreover have "index_word demo_cow_file (flen ?snap div 4096) \<noteq> 0" using demo_index(1) by simp
  ultimately show ?thesis
    using update_img_loses_partial_block [of demo_env ?snap demo_cow_file "\<lparr>fbytes = (\<lambda>_. 2), flen = 6144\<rparr>" 0] by auto
qed

end
