(* ===== verification/Spec2Isabelle.thy ===== *)
theory Spec2Isabelle
  imports Point_In_Time Module_Run Trace_Release Inc_Trace Direct_IO Reactivate Nl_Debug Syscalls Module Threads Cow_Cycle Update_Img Userland
begin

text \<open>
  A verification library for elastio-snap, the Linux kernel module that takes crash-consistent,
  incremental snapshots of block devices, and for its user space tools.

  \<^bold>\<open>The program.\<close> The module (\<^verbatim>\<open>src/src/main.c\<close>) hooks itself in front of the request function of a
  block device. In snapshot mode the first write to a block is held back: the old contents of the
  blocks around it are read by clones, the clones are queued, and a kernel thread saves them in a
  copy-on-write file before the write is released; the snapshot device merges that file with the
  base device. In incremental mode the blocks written are only marked in the index of the file. The
  cow file has a header, an index of 64-bit block mappings that is cached in sections of 4096
  mappings, and a data area. A control device (\<^verbatim>\<open>ioctl\<close>) sets devices up, destroys them and
  switches between the modes. The hooked system calls mount and umount2 put a device to sleep
  before its file system goes away and wake it up afterwards. \<^verbatim>\<open>elioctl\<close> and the library send the
  ioctl commands, \<^verbatim>\<open>update-img\<close> merges the changed blocks into an image, \<^verbatim>\<open>nl_debug\<close> prints the
  events the module multicasts over netlink.

  \<^bold>\<open>Theories, from the bottom up.\<close>
  \<^item> \<open>Prelude\<close>: sizes, rounding macros, error numbers, wrap-around, byte encodings. \<open>Kernel\<close>: the
    kernel services below the cow file as a record of functions, and the laws relied on.
  \<^item> \<open>Cow_File\<close> (FILE OPERATIONS): \<open>file_read\<close>, \<open>file_write\<close>, the direct transfers through
    the extents, allocation, truncation, extent discovery. \<open>Direct_IO\<close>: the interface of the
    cow manager to its file (locale \<open>transfer\<close>), provided by the file system while the file is
    open and by the extents once it is closed; direct transfers stay inside the file and are
    equivalent to those through the file system.
  \<^item> \<open>Cow_Manager\<close> (COW MANAGER FUNCTIONS): the record \<open>cow_manager\<close> and its operations.
    \<open>Cow_Mapping\<close>: the section cache is transparent; locale \<open>block_map\<close>. \<open>Cow_Data\<close>:
    the data area keeps first versions; locale \<open>snap_store\<close>. \<open>Cow_Life\<close>, \<open>Cow_Cycle\<close>: header,
    creation, clean shutdown, dormant round trip, reload.
  \<^item> \<open>Queues\<close> (bio and sector set queues, with their pointers; locale \<open>fifo\<close>). \<open>Device\<close>:
    bios, \<^verbatim>\<open>struct snap_device\<close>, the state \<open>drv\<close> of the module: its global variables, and maps
    from addresses to the devices, cow managers, tracing parameters and operations that the C code
    shares by pointer. \<open>Machine\<close>: a concrete machine for the witnesses.
  \<^item> \<open>Snap_IO\<close> (BIO / SECTOR_SET PROCESSING LOGIC and the threads). \<open>Snap_Read\<close>: what a read of
    the snapshot returns, what a clone saves. \<open>Threads\<close>: the three kernel threads.
  \<^item> \<open>Tracing\<close> (BIO TRACING LOGIC, TRACING FUNCTIONS). \<open>Trace_Release\<close>: the release of traced
    writes. \<open>Inc_Trace\<close>: from a write in incremental mode to the index.
  \<^item> \<open>Clone_Image\<close>, \<open>Snap_System\<close>, \<open>Point_In_Time\<close>: a snapshot device as a system. The steps
    (\<open>snap_step\<close>) are the operations of the groups above - tracing a write, the completion of a read
    clone, a round of each thread, a request for the snapshot - and changes of the disk from
    outside; \<open>snap_reach\<close> is any interleaving of them, and it records the blocks for which the
    queue gave out a newer clone with other contents before an older one (\<open>overtaken\<close>): for
    these the image is lost, and the theorems except them. \<open>Clone_Image\<close> says what the snapshot
    shows while clones are queued (\<open>seen\<close>, \<open>covered\<close>) and that one step keeps it (\<open>progress\<close>),
    \<open>Snap_System\<close> has the laws, the steps and the invariant (\<open>image_inv\<close>), \<open>Point_In_Time\<close> the
    proof that each step keeps it, what follows for the answers, and a run in which the size
    that a completed clone lacks makes the answer wrong (\<open>unseen_clone\<close>).
  \<^item> \<open>Paths\<close>, \<open>Tracer\<close> (SETUP HELPER FUNCTIONS to IOCTL TRANSITION FUNCTIONS), \<open>Ioctl\<close> (IOCTL
    HANDLER FUNCTIONS), \<open>Mount\<close> (AUTOMATIC TRANSITION FUNCTIONS, the hooks), \<open>Module\<close> (proc
    file, open counts, init and exit).
  \<^item> \<open>Steady\<close>, \<open>Table\<close>, \<open>Table_Ops\<close>, \<open>Module_Run\<close>: frame lemmas, the invariant of the device
    table, operation by operation, and the runs of the loaded module (\<open>module_step\<close>, \<open>reachable\<close>).
    \<open>Reactivate\<close>: what going dormant leaves behind.
  \<^item> \<open>Syscalls\<close> (patching of the system call table, \<^verbatim>\<open>task_work_flush\<close>), \<open>Nl_Debug\<close>
    (\<^verbatim>\<open>nl_debug.c\<close> and \<^verbatim>\<open>nl_debug.h\<close> of the module, \<^verbatim>\<open>utils/nl_debug.c\<close>), \<open>Update_Img\<close>
    (\<^verbatim>\<open>utils/update-img.c\<close>), \<open>Userland\<close> (\<^verbatim>\<open>app/elioctl.c\<close>, \<^verbatim>\<open>lib/libelastio-snap.c\<close>).

  \<^bold>\<open>Conventions.\<close> Definitions keep the names of the C functions, without leading underscores. A
  function that changes memory or calls the kernel passes the state explicitly; \<^verbatim>\<open>None\<close> is a fault
  (a null or dangling pointer, an access outside an array), so a theorem that states \<^verbatim>\<open>Some\<close> also
  states that no such fault happens. Return codes are integers, 0 or negative. Unsigned integers
  are naturals whose wrap-around is written out, flag words and addresses are words. The kernel is
  a record \<open>K\<close> of functions over a state of the rest of the machine; what a theorem relies on is a
  named law (\<open>file_laws\<close>, \<open>disk_laws\<close>, \<open>base_law\<close>, \<open>endio_law\<close>, \<open>issue_laws\<close>, \<open>leaves_cow_file\<close>,
  \<open>freezes\<close>, \<open>life_laws\<close>), and every theorem with such a law is applied to a machine that satisfies
  it. Allocations may fail at any time. Where the code does not check one (the block buffer of
  \<^verbatim>\<open>cow_read_data\<close>, the page of a direct transfer) the model faults, and the theorems say so: the
  operation ends as stated, or it is \<^verbatim>\<open>None\<close> and the kernel can refuse that size (\<open>starved\<close>).

  \<^bold>\<open>Abstract specifications.\<close> \<open>mapping_view\<close> (one function from block numbers to mappings,
  wherever the section happens to be), \<open>saved\<close> (the saved contents of a block), \<open>snap_byte\<close> (a
  byte of the snapshot), \<open>delay_read\<close> (the queue operation on lists), \<open>file_bytes\<close> and \<open>place\<close>
  (where the bytes of the file lie), \<open>to_mark\<close> (the sectors an incremental write must mark), \<open>seen\<close> (the image the snapshot stands for),
  \<open>table_ok\<close> (the device table). The operations are proved to refine them.

  \<^bold>\<open>Fuel and loops.\<close> Loops over arrays and lists are structural. The loops of the kernel threads
  take the number of rounds; as many rounds as requests are queued empty the queue, which is
  proved (\<open>cow_thread_drains_queue\<close>, \<open>inc_thread_marks_all\<close>), as \<^verbatim>\<open>kthread_stop\<close> waits for it. The
  retry loop of \<^verbatim>\<open>snap_trace_bio\<close> and the flush of task works may run for ever and are partial
  functions. \<open>destroy_all\<close> walks at most \<^verbatim>\<open>max_snap_devices\<close> entries; that limit is a module
  parameter nothing writes after loading, which its guard makes visible to the termination proof.

  \<^bold>\<open>Concurrency.\<close> The lists are protected by spin locks, the commands and the transitions made by
  mount events by \<^verbatim>\<open>ioctl_mutex\<close>; an operation is one step, and a run is any sequence of steps with the outside
  world changing in between. Reads that have been handed to the block layer come back in steps of
  their own. A write of the snapshot system is one that fits the queue limit; the parts of a
  longer one are traced one by one. Interleavings inside an operation are not modelled.

  \<^bold>\<open>Configuration.\<close> x86-64 with 4 KiB pages and a kernel of the 6.x series:
  \<^verbatim>\<open>USE_BDOPS_SUBMIT_BIO\<close>, \<^verbatim>\<open>HAVE_BD_HAS_SUBMIT_BIO\<close>, \<^verbatim>\<open>HAVE_ENUM_REQ_OP\<close> with
  \<^verbatim>\<open>HAVE_WRITE_ZEROES\<close>, \<^verbatim>\<open>HAVE_BIOSET_INIT\<close>, \<^verbatim>\<open>HAVE_BVEC_ITER_ALL\<close>, \<^verbatim>\<open>HAVE_BLK_STATUS_T\<close>,
  \<^verbatim>\<open>HAVE_VFS_FALLOCATE\<close>, task works as a list of callback heads, the \<^verbatim>\<open>__x64_sys\<close> entry points
  and no \<^verbatim>\<open>HAVE_SYS_OLDUMOUNT\<close>. Each segment of a bio carries its own page. The theorems on the
  cow store speak of a file that is open; \<open>Direct_IO\<close> is what carries a single transfer over to the
  closed file.

  \<^bold>\<open>Not modelled.\<close> The compatibility macros and the variants for older kernels (their code is not
  compiled in this configuration), feature tests, packaging, initramfs scripts and tests; log
  output and memory barriers; the text layout of
  a line of \<^verbatim>\<open>nl_debug\<close> and the usage text of \<^verbatim>\<open>elioctl\<close>; the calls into netlink from the tracing
  code (the channel itself is in \<open>Nl_Debug\<close>), which do not change the state of a device.
\<close>

end
